(* ===== verification/Prelude.thy ===== *)
theory Prelude
  imports Complex_Main "HOL-Library.Word"
begin

text \<open>
  Shared vocabulary of the development. A thrown \<open>Error\<close> is the left side of a sum whose right
  side is the value returned; its payload is the error's message, because the broker itself
  derives the reported code from the message. Asynchronous code is written as state passing over
  the same sum, with the sequencing combinators defined here.
\<close>

named_theorems js_eval \<open>equations that evaluate the JavaScript value operations\<close>
named_theorems res_simps \<open>equations of the sequencing combinators\<close>

type_synonym byte = "8 word"
type_synonym bytes = "8 word list"
type_synonym 'a res = "string + 'a"

subsection \<open>Sequencing of fallible computations\<close>

definition bindR :: "('e + 'a) \<Rightarrow> ('a \<Rightarrow> 'e + 'b) \<Rightarrow> 'e + 'b" where
  "bindR m f = (case m of Inl e \<Rightarrow> Inl e | Inr x \<Rightarrow> f x)"

lemma bindR_Inl [simp, res_simps]: "bindR (Inl e) f = Inl e"
  by (simp add: bindR_def)

lemma bindR_Inr [simp, res_simps]: "bindR (Inr x) f = f x"
  by (simp add: bindR_def)

lemma bindR_eq_Inr: "bindR m f = Inr y \<longleftrightarrow> (\<exists>x. m = Inr x \<and> f x = Inr y)"
  by (cases m) auto

lemma bindR_eq_Inl: "bindR m f = Inl e \<longleftrightarrow> m = Inl e \<or> (\<exists>x. m = Inr x \<and> f x = Inl e)"
  by (cases m) auto

definition guardR :: "bool \<Rightarrow> 'e \<Rightarrow> 'e + unit" where
  "guardR ok e = (if ok then Inr () else Inl e)"

lemma guardR_eq_Inr [simp]: "guardR b e = Inr u \<longleftrightarrow> b"
  by (simp add: guardR_def)

lemma guardR_True [simp, res_simps]: "guardR True e = Inr ()"
  by (simp add: guardR_def)

lemma guardR_False [simp, res_simps]: "guardR False e = Inl e"
  by (simp add: guardR_def)

text \<open>
  The same with a state that survives an error: an exception does not undo the assignments made
  before it.
\<close>

type_synonym ('e, 's, 'a) opE = "'s \<Rightarrow> ('e + 'a) \<times> 's"
type_synonym ('s, 'a) op = "(string, 's, 'a) opE"

definition returnS :: "'a \<Rightarrow> ('e, 's, 'a) opE" where
  "returnS x s = (Inr x, s)"

definition throwS :: "'e \<Rightarrow> ('e, 's, 'a) opE" where
  "throwS e s = (Inl e, s)"

definition liftS :: "('e + 'a) \<Rightarrow> ('e, 's, 'a) opE" where
  "liftS r s = (r, s)"

definition bindS :: "('e, 's, 'a) opE \<Rightarrow> ('a \<Rightarrow> ('e, 's, 'b) opE) \<Rightarrow> ('e, 's, 'b) opE" where
  "bindS m f s = (case m s of (Inl e, s') \<Rightarrow> (Inl e, s') | (Inr x, s') \<Rightarrow> f x s')"

definition guardS :: "bool \<Rightarrow> 'e \<Rightarrow> ('e, 's, unit) opE" where
  "guardS ok e = (if ok then returnS () else throwS e)"

definition modifyS :: "('s \<Rightarrow> 's) \<Rightarrow> ('e, 's, unit) opE" where
  "modifyS f s = (Inr (), f s)"

definition getS :: "('s \<Rightarrow> 'a) \<Rightarrow> ('e, 's, 'a) opE" where
  "getS f s = (Inr (f s), s)"

lemmas op_defs = returnS_def throwS_def liftS_def guardS_def modifyS_def getS_def

lemma bindS_eq_Inr:
  "bindS m f s = (Inr y, t) \<longleftrightarrow> (\<exists>x u. m s = (Inr x, u) \<and> f x u = (Inr y, t))"
  by (auto simp: bindS_def split: prod.splits sum.splits)

lemma bindS_eq_Inl:
  "bindS m f s = (Inl e, t) \<longleftrightarrow>
     m s = (Inl e, t) \<or> (\<exists>x u. m s = (Inr x, u) \<and> f x u = (Inl e, t))"
  by (auto simp: bindS_def split: prod.splits sum.splits)

lemma bindS_Inr [simp]: "m s = (Inr x, u) \<Longrightarrow> bindS m f s = f x u"
  by (simp add: bindS_def)

lemma bindS_Inl [simp]: "m s = (Inl e, u) \<Longrightarrow> bindS m f s = (Inl e, u)"
  by (simp add: bindS_def)

lemma bindS_lift_Inr [simp]: "bindS (liftS (Inr x)) f = f x"
  by (rule ext) (simp add: bindS_def liftS_def)

lemma bindS_lift_Inl [simp]: "bindS (liftS (Inl e)) f = throwS e"
  by (rule ext) (simp add: bindS_def liftS_def throwS_def)

lemma returnS_eq [simp]: "returnS x s = (r, t) \<longleftrightarrow> r = Inr x \<and> t = s"
  by (auto simp: returnS_def)

lemma throwS_eq [simp]: "throwS e s = (r, t) \<longleftrightarrow> r = Inl e \<and> t = s"
  by (auto simp: throwS_def)

lemma liftS_eq [simp]: "liftS m s = (r, t) \<longleftrightarrow> m = r \<and> t = s"
  by (auto simp: liftS_def)

lemma guardS_eq_Inr [simp]: "guardS b e s = (Inr u, t) \<longleftrightarrow> b \<and> t = s"
  by (auto simp: guardS_def returnS_def throwS_def)

lemma guardS_eq_Inl [simp]: "guardS b e s = (Inl e', t) \<longleftrightarrow> \<not> b \<and> e' = e \<and> t = s"
  by (auto simp: guardS_def returnS_def throwS_def)

lemma modifyS_eq [simp]: "modifyS f s = (r, t) \<longleftrightarrow> r = Inr () \<and> t = f s"
  by (auto simp: modifyS_def)

lemma getS_eq [simp]: "getS f s = (r, t) \<longleftrightarrow> r = Inr (f s) \<and> t = s"
  by (auto simp: getS_def)

subsection \<open>Relations between the states before and after an operation\<close>

text \<open>Whatever the outcome, the state afterwards is related to the state before.\<close>

definition keeps :: "('s \<Rightarrow> 's \<Rightarrow> bool) \<Rightarrow> ('e, 's, 'a) opE \<Rightarrow> bool" where
  "keeps R m \<longleftrightarrow> (\<forall>s. R s (snd (m s)))"

lemma keepsD: "keeps R m \<Longrightarrow> m s = (r, s') \<Longrightarrow> R s s'"
  unfolding keeps_def by (metis snd_conv)

lemma keepsI: "(\<And>s r s'. m s = (r, s') \<Longrightarrow> R s s') \<Longrightarrow> keeps R m"
  unfolding keeps_def by (metis prod.collapse)

lemma keeps_bindS:
  assumes "transp R" "keeps R m" "\<And>x. keeps R (f x)"
  shows "keeps R (bindS m f)"
proof (rule keepsI)
  fix s r s'
  assume b: "bindS m f s = (r, s')"
  obtain r1 s1 where m: "m s = (r1, s1)" by fastforce
  have 1: "R s s1" using assms(2) m by (rule keepsD)
  show "R s s'"
  proof (cases r1)
    case (Inl e)
    then show ?thesis using b m 1 by simp
  next
    case (Inr x)
    then have "f x s1 = (r, s')" using b m by simp
    with assms(3) have "R s1 s'" by (rule keepsD)
    with assms(1) 1 show ?thesis by (rule transpD)
  qed
qed

lemma keeps_pure:
  assumes "reflp R"
  shows "keeps R (returnS x)" "keeps R (throwS e)" "keeps R (liftS v)" "keeps R (guardS b e)"
    "keeps R (getS g)"
  using assms by (auto simp: keeps_def op_defs reflp_def)

lemma keeps_modifyS: "(\<And>s. R s (f s)) \<Longrightarrow> keeps R (modifyS f)"
  by (simp add: keeps_def modifyS_def)

lemma keeps_if: "keeps R m \<Longrightarrow> keeps R n \<Longrightarrow> keeps R (if b then m else n)"
  by simp

subsection \<open>Lists\<close>

lemma take_append_drop_middle: "take n xs @ take m (drop n xs) = take (n + m) xs"
  by (simp add: take_add)

lemma find_Some_iff_hd_filter: "find P xs = (case filter P xs of [] \<Rightarrow> None | x # _ \<Rightarrow> Some x)"
  by (induction xs) auto

lemma find_SomeD: "find P xs = Some x \<Longrightarrow> x \<in> set xs \<and> P x"
  by (induction xs) (auto split: if_splits)

lemma find_NoneD: "find P xs = None \<Longrightarrow> x \<in> set xs \<Longrightarrow> \<not> P x"
  by (induction xs) (auto split: if_splits)

lemma find_skip: "\<forall>x \<in> set xs. \<not> P x \<Longrightarrow> P y \<Longrightarrow> find P (xs @ y # ys) = Some y"
  by (induction xs) auto

end
