(* ===== verification/Js.thy ===== *)
theory Js
  imports Prelude
begin

text \<open>
  The JavaScript values and the part of its standard library that the sources use. A value of
  static type \<open>unknown\<close> is a \<open>js\<close>; \<open>Record<string, unknown>\<close> is its association list of
  members, and reading an absent member gives \<open>undefined\<close>. A number is finite (kept as the
  rational it denotes; rounding of IEEE arithmetic is not modelled, and the sources compute with
  safe integers), an infinity or NaN. A string is the list of its UTF-16 code units; the model
  covers code units below 256.
\<close>

subsection \<open>Values\<close>

datatype jsnum = Fin rat | PInf | NInf | NaN

datatype js =
    JUndef
  | JNull
  | JBool bool
  | JNum jsnum
  | JStr string
  | JArr "js list"
  | JObj "(string \<times> js) list"

type_synonym params = "(string \<times> js) list"

definition jsget :: "params \<Rightarrow> string \<Rightarrow> js" where
  "jsget r k = (case map_of r k of None \<Rightarrow> JUndef | Some v \<Rightarrow> v)"

lemma jsget_Nil [simp, js_eval]: "jsget [] k = JUndef"
  by (simp add: jsget_def)

lemma jsget_Cons [simp, js_eval]: "jsget ((k', v) # r) k = (if k = k' then v else jsget r k)"
  by (simp add: jsget_def)

text \<open>\<open>{ ...record, key: value }\<close>: the new member replaces an old one of that name.\<close>

definition jsput :: "string \<Rightarrow> js \<Rightarrow> params \<Rightarrow> params" where
  "jsput k v r = (k, v) # filter (\<lambda>(k', _). k' \<noteq> k) r"

definition jsdel :: "string \<Rightarrow> params \<Rightarrow> params" where
  "jsdel k r = filter (\<lambda>(k', _). k' \<noteq> k) r"

lemma jsget_jsdel [simp]: "jsget (jsdel k r) k' = (if k' = k then JUndef else jsget r k')"
  by (induction r) (auto simp: jsdel_def)

lemma jsget_jsput [simp]: "jsget (jsput k v r) k' = (if k' = k then v else jsget r k')"
  using jsget_jsdel [of k r k'] by (auto simp: jsput_def jsdel_def)

definition js_of_int :: "int \<Rightarrow> js" where
  "js_of_int i = JNum (Fin (of_int i))"

definition js_of_nat :: "nat \<Rightarrow> js" where
  "js_of_nat n = js_of_int (int n)"

subsection \<open>Type tests and numbers\<close>

fun is_record :: "js \<Rightarrow> bool" where
  "is_record (JObj _) = True"
| "is_record _ = False"

fun is_string :: "js \<Rightarrow> bool" where
  "is_string (JStr _) = True"
| "is_string _ = False"

fun is_boolean :: "js \<Rightarrow> bool" where
  "is_boolean (JBool _) = True"
| "is_boolean _ = False"

fun is_number :: "js \<Rightarrow> bool" where
  "is_number (JNum _) = True"
| "is_number _ = False"

definition rat_is_int :: "rat \<Rightarrow> bool" where
  "rat_is_int q \<longleftrightarrow> of_int \<lfloor>q\<rfloor> = q"

lemma rat_is_int_of_int [simp]: "rat_is_int (of_int i)"
  by (simp add: rat_is_int_def)

definition max_safe_integer :: int where
  "max_safe_integer = 9007199254740991"

text \<open>
  \<open>Number.isInteger\<close> and \<open>Number.isSafeInteger\<close>, giving the integer when they hold. Both are false
  for a value that is not a number.
\<close>

fun js_integer :: "js \<Rightarrow> int option" where
  "js_integer (JNum (Fin q)) = (if rat_is_int q then Some \<lfloor>q\<rfloor> else None)"
| "js_integer _ = None"

definition js_safe_integer :: "js \<Rightarrow> int option" where
  "js_safe_integer v =
     (case js_integer v of
        Some i \<Rightarrow> if \<bar>i\<bar> \<le> max_safe_integer then Some i else None
      | None \<Rightarrow> None)"

lemma js_integer_of_int [simp, js_eval]: "js_integer (js_of_int i) = Some i"
  by (simp add: js_of_int_def)

lemma js_safe_integer_of_int [simp, js_eval]:
  "js_safe_integer (js_of_int i) = (if \<bar>i\<bar> \<le> max_safe_integer then Some i else None)"
  by (simp add: js_safe_integer_def)

lemma js_integer_SomeD: "js_integer v = Some i \<Longrightarrow> v = js_of_int i"
  by (cases v rule: js_integer.cases)
    (auto simp: js_of_int_def rat_is_int_def split: if_splits)

lemma js_safe_integer_SomeD:
  "js_safe_integer v = Some i \<Longrightarrow> v = js_of_int i \<and> \<bar>i\<bar> \<le> max_safe_integer"
  by (auto simp: js_safe_integer_def split: option.splits if_splits dest: js_integer_SomeD)

lemma js_safe_integer_of_nat [simp, js_eval]:
  "js_safe_integer (js_of_nat n) = (if int n \<le> max_safe_integer then Some (int n) else None)"
  by (simp add: js_of_nat_def)

lemma js_of_int_inject [simp]: "js_of_int i = js_of_int j \<longleftrightarrow> i = j"
  by (simp add: js_of_int_def)

lemma js_of_nat_inject [simp]: "js_of_nat i = js_of_nat j \<longleftrightarrow> i = j"
  by (simp add: js_of_nat_def)

subsection \<open>Strings\<close>

definition starts_with :: "string \<Rightarrow> string \<Rightarrow> bool" where
  "starts_with s p \<longleftrightarrow> take (length p) s = p"

lemma starts_with_append [simp]: "starts_with (p @ s) p"
  by (simp add: starts_with_def)

lemma starts_withE:
  assumes "starts_with s p"
  obtains r where "s = p @ r"
proof
  show "s = p @ drop (length p) s"
    using assms append_take_drop_id [of "length p" s] by (simp add: starts_with_def)
qed

text \<open>\<open>s.indexOf(c)\<close> for one character, and \<open>s.lastIndexOf(c)\<close>; \<open>None\<close> stands for -1.\<close>

fun index_of :: "char \<Rightarrow> string \<Rightarrow> nat option" where
  "index_of c [] = None"
| "index_of c (x # xs) = (if x = c then Some 0 else map_option Suc (index_of c xs))"

definition last_index_of :: "char \<Rightarrow> string \<Rightarrow> nat option" where
  "last_index_of c s = map_option (\<lambda>i. length s - 1 - i) (index_of c (rev s))"

lemma index_of_SomeD:
  "index_of c s = Some i \<Longrightarrow> i < length s \<and> s ! i = c \<and> c \<notin> set (take i s)"
  by (induction s arbitrary: i) (auto split: if_splits)

lemma index_of_None: "index_of c s = None \<longleftrightarrow> c \<notin> set s"
  by (induction s) auto

text \<open>\<open>s.split(c)\<close> for one character: always at least one part.\<close>

fun split_on :: "char \<Rightarrow> string \<Rightarrow> string list" where
  "split_on c [] = [[]]"
| "split_on c (x # xs) =
     (if x = c then [] # split_on c xs
      else (case split_on c xs of [] \<Rightarrow> [[x]] | p # ps \<Rightarrow> (x # p) # ps))"

fun join_with :: "string \<Rightarrow> string list \<Rightarrow> string" where
  "join_with sep [] = []"
| "join_with sep [p] = p"
| "join_with sep (p # q # ps) = p @ sep @ join_with sep (q # ps)"

lemma split_on_nonempty [simp]: "split_on c s \<noteq> []"
  by (induction s) (auto split: list.splits)

lemma split_on_parts: "p \<in> set (split_on c s) \<Longrightarrow> c \<notin> set p"
  by (induction s arbitrary: p) (auto split: list.splits if_splits)

lemma join_with_Cons_char: "join_with sep ((x # p) # ps) = x # join_with sep (p # ps)"
  by (cases ps) auto

lemma join_with_Nil_part: "ps \<noteq> [] \<Longrightarrow> join_with sep ([] # ps) = sep @ join_with sep ps"
  by (cases ps) auto

lemma join_split [simp]: "join_with [c] (split_on c s) = s"
  by (induction s)
    (auto simp: join_with_Nil_part join_with_Cons_char split: list.splits)

lemma split_on_append_sep: "c \<notin> set p \<Longrightarrow> split_on c (p @ c # r) = p # split_on c r"
  by (induction p) auto

lemma split_on_no_sep: "c \<notin> set p \<Longrightarrow> split_on c p = [p]"
  by (induction p) auto

lemma split_join:
  "ps \<noteq> [] \<Longrightarrow> \<forall>p \<in> set ps. c \<notin> set p \<Longrightarrow> split_on c (join_with [c] ps) = ps"
  by (induction "[c]" ps rule: join_with.induct)
    (simp_all add: split_on_append_sep split_on_no_sep)

text \<open>White space as \<open>trim\<close> sees it, among the code units the model covers.\<close>

definition is_ws :: "char \<Rightarrow> bool" where
  "is_ws c \<longleftrightarrow> of_char c \<in> {9, 10, 11, 12, 13, 32, 160 :: nat}"

definition trim_start :: "string \<Rightarrow> string" where
  "trim_start s = dropWhile is_ws s"

definition trim_end :: "string \<Rightarrow> string" where
  "trim_end s = rev (dropWhile is_ws (rev s))"

definition trim :: "string \<Rightarrow> string" where
  "trim s = trim_end (trim_start s)"

definition lower_char :: "char \<Rightarrow> char" where
  "lower_char c =
     (let n = of_char c :: nat in
      if 65 \<le> n \<and> n \<le> 90 \<or> 192 \<le> n \<and> n \<le> 222 \<and> n \<noteq> 215 then char_of (n + 32) else c)"

definition to_lower :: "string \<Rightarrow> string" where
  "to_lower s = map lower_char s"

text \<open>Decimal digits of a natural number, as a template literal prints it.\<close>

definition digit_char :: "nat \<Rightarrow> char" where
  "digit_char n = ''0123456789'' ! n"

fun show_nat :: "nat \<Rightarrow> string" where
  "show_nat n = (if n < 10 then [digit_char n] else show_nat (n div 10) @ [digit_char (n mod 10)])"

declare show_nat.simps [simp del]

definition show_int :: "int \<Rightarrow> string" where
  "show_int i = (if i < 0 then CHR ''-'' # show_nat (nat (- i)) else show_nat (nat i))"

text \<open>\<open>message.split(":", 1)[0] || fallback\<close>: how the broker reads a code off an error.\<close>

definition error_code :: "string \<Rightarrow> string" where
  "error_code m = (let c = hd (split_on (CHR '':'') m) in if c = [] then ''BROKER_ERROR'' else c)"

end
