(* ===== verification/Crc32.thy ===== *)
theory Crc32
  imports Js
begin

text \<open>
  The CRC-32 that protects a transfer chunk: \<open>makeCrc32Table\<close> and \<open>crc32\<close> of
  \<open>src/host/transfers.ts\<close>, repeated verbatim in \<open>src/simulator/simulated-guest.ts\<close>. JavaScript's
  bit operations work on 32-bit values and \<open>>>> 0\<close> only changes the sign with which a value is
  read, so a CRC state is a 32-bit word. The table-driven loop is compared with the
  bit-at-a-time division it abbreviates, and the guarantee the transfer protocol relies on is
  derived: damage confined to four consecutive bytes always changes the checksum.
\<close>

unbundle bit_operations_syntax

type_synonym u32 = "32 word"

subsection \<open>The code\<close>

definition crc_bit :: "u32 \<Rightarrow> u32" where
  "crc_bit v = drop_bit 1 v XOR (if v AND 1 \<noteq> 0 then 0xedb88320 else 0)"

definition makeCrc32Table :: "u32 list" where
  "makeCrc32Table = map (\<lambda>index. (crc_bit ^^ 8) (of_nat index)) [0..<256]"

definition crc32_step :: "u32 list \<Rightarrow> u32 \<Rightarrow> byte \<Rightarrow> u32" where
  "crc32_step table crc byte =
     (let i = unat ((crc XOR ucast byte) AND 0xff)
      in drop_bit 8 crc XOR (if i < length table then table ! i else 0))"

definition crc32_word :: "bytes \<Rightarrow> u32" where
  "crc32_word data = foldl (crc32_step makeCrc32Table) 0xffffffff data XOR 0xffffffff"

definition crc32 :: "bytes \<Rightarrow> nat" where
  "crc32 data = unat (crc32_word data)"

subsection \<open>Division one bit at a time\<close>

definition bitwise_step :: "u32 \<Rightarrow> byte \<Rightarrow> u32" where
  "bitwise_step crc byte = (crc_bit ^^ 8) (crc XOR ucast byte)"

definition bitwise_crc32 :: "bytes \<Rightarrow> u32" where
  "bitwise_crc32 data = foldl bitwise_step 0xffffffff data XOR 0xffffffff"

lemma crc_bit_alt: "crc_bit v = drop_bit 1 v XOR (if bit v 0 then 0xedb88320 else 0)"
  by (simp add: crc_bit_def and_one_eq bit_0 odd_iff_mod_2_eq_one)

lemma crc_bit_xor: "crc_bit (x XOR y) = crc_bit x XOR crc_bit y"
  by (rule bit_word_eqI) (auto simp: crc_bit_alt bit_simps)

lemma crc_bits_xor: "(crc_bit ^^ n) (x XOR y) = (crc_bit ^^ n) x XOR (crc_bit ^^ n) y"
  by (induction n) (simp_all add: crc_bit_xor)

lemma crc_bit_even: "\<not> bit v 0 \<Longrightarrow> crc_bit v = drop_bit 1 v"
  by (simp add: crc_bit_alt)

lemma crc_bits_low_zero: "(\<And>i. i < n \<Longrightarrow> \<not> bit v i) \<Longrightarrow> (crc_bit ^^ n) v = drop_bit n v"
proof (induction n arbitrary: v)
  case (Suc n)
  have "(crc_bit ^^ n) (crc_bit v) = drop_bit n (crc_bit v)"
    by (rule Suc.IH) (use Suc.prems in \<open>simp add: crc_bit_even bit_simps\<close>)
  then show ?case
    using Suc.prems by (simp add: funpow_swap1 crc_bit_even)
qed simp

lemma crc_bits_push:
  assumes "k \<le> 32" and "\<And>i. 32 - k \<le> i \<Longrightarrow> \<not> bit w i"
  shows "(crc_bit ^^ k) (push_bit k w) = w"
proof -
  have "(crc_bit ^^ k) (push_bit k w) = drop_bit k (push_bit k w)"
    by (rule crc_bits_low_zero) (simp add: bit_simps)
  also have "\<dots> = w"
  proof (rule bit_word_eqI)
    fix i :: nat
    show "bit (drop_bit k (push_bit k w)) i = bit w i"
    proof (cases "32 - k \<le> i")
      case True
      with assms show ?thesis by (auto simp: bit_simps)
    next
      case False
      then show ?thesis by (auto simp: bit_simps)
    qed
  qed
  finally show ?thesis .
qed



lemma bit_0xff: "bit (0xff :: u32) i \<longleftrightarrow> i < 8"
proof -
  have "(0xff :: u32) = mask 8" by (simp add: mask_eq_exp_minus_1)
  then show ?thesis by (simp only: bit_mask_iff) auto
qed

lemma bit_above_32: "32 \<le> i \<Longrightarrow> \<not> bit (x :: u32) i"
  using bit_imp_le_length [of x i] by auto

lemma split_low_byte: "(x :: u32) = (x AND 0xff) XOR push_bit 8 (drop_bit 8 x)"
proof (rule bit_word_eqI)
  fix n assume "n < LENGTH(32)"
  then show "bit x n = bit ((x AND 0xff) XOR push_bit 8 (drop_bit 8 x)) n"
    by (cases "n < 8")
      (simp_all only: bit_and_iff bit_xor_iff bit_push_bit_iff bit_drop_bit_eq bit_0xff comp_def, auto)
qed

lemma crc_byte_split: "(crc_bit ^^ 8) x = drop_bit 8 x XOR (crc_bit ^^ 8) (x AND 0xff)"
proof -
  have "(crc_bit ^^ 8) x = (crc_bit ^^ 8) (x AND 0xff) XOR (crc_bit ^^ 8) (push_bit 8 (drop_bit 8 x))"
    by (subst split_low_byte [of x]) (rule crc_bits_xor)
  also have "(crc_bit ^^ 8) (push_bit 8 (drop_bit 8 x)) = drop_bit 8 x"
    by (rule crc_bits_push) (auto simp: bit_drop_bit_eq bit_above_32)
  finally show ?thesis by (simp add: xor.commute)
qed

lemma low_byte_index: "unat ((x :: u32) AND 0xff) < 256"
proof -
  have "x AND 0xff \<le> 0xff" by (rule word_and_le1)
  then show ?thesis by (simp add: word_le_nat_alt)
qed

lemma table_entry:
  "i < 256 \<Longrightarrow> makeCrc32Table ! i = (crc_bit ^^ 8) (of_nat i)"
  by (simp add: makeCrc32Table_def)

lemma length_table [simp]: "length makeCrc32Table = 256"
  by (simp add: makeCrc32Table_def)

lemma crc32_step_bitwise: "crc32_step makeCrc32Table = bitwise_step"
proof (intro ext)
  fix crc :: u32 and b :: byte
  let ?x = "crc XOR ucast b"
  have high: "drop_bit 8 ?x = drop_bit 8 crc"
    by (rule bit_word_eqI) (auto simp: bit_simps dest: bit_imp_le_length)
  have "crc32_step makeCrc32Table crc b = drop_bit 8 crc XOR (crc_bit ^^ 8) (?x AND 0xff)"
    by (simp add: crc32_step_def Let_def low_byte_index table_entry del: funpow.simps)
  also have "\<dots> = (crc_bit ^^ 8) ?x"
    by (subst (2) crc_byte_split) (simp only: high)
  finally show "crc32_step makeCrc32Table crc b = bitwise_step crc b"
    by (simp add: bitwise_step_def)
qed

text \<open>
  C23. The table-driven checksum of the transfer code equals the bit-at-a-time CRC-32 division
  with the reflected polynomial 0xedb88320, on every buffer.
\<close>
theorem crc32_table_correct: "crc32 data = unat (bitwise_crc32 data)"
  by (simp add: crc32_def crc32_word_def bitwise_crc32_def crc32_step_bitwise)

subsection \<open>What the checksum detects\<close>

lemma crc_bit_top: "bit (crc_bit x) 31 = bit x 0"
  by (simp add: crc_bit_alt bit_simps) (use bit_imp_le_length [of x 32] in auto)

lemma crc_bit_zero: "crc_bit x = 0 \<longleftrightarrow> x = 0"
proof
  assume z: "crc_bit x = 0"
  then have even: "\<not> bit x 0"
    using crc_bit_top [of x] by simp
  then have "drop_bit 1 x = 0"
    using z by (simp add: crc_bit_even)
  have "\<not> bit x i" for i
  proof (cases i)
    case 0
    with even show ?thesis by simp
  next
    case (Suc j)
    have "bit (drop_bit 1 x) j = bit x (Suc j)" by (simp add: bit_drop_bit_eq)
    with \<open>drop_bit 1 x = 0\<close> Suc show ?thesis by simp
  qed
  then show "x = 0"
    by (intro bit_word_eqI) simp
qed (simp add: crc_bit_alt)

lemma crc_bits_zero: "(crc_bit ^^ n) x = 0 \<longleftrightarrow> x = 0"
  by (induction n arbitrary: x) (simp_all add: crc_bit_zero)

lemma word_xor_eq_0: "x XOR y = (0 :: 'a :: len word) \<longleftrightarrow> x = y"
  by (metis xor.right_neutral xor_self_eq bit.xor_left_self)

lemma crc_bits_inject: "(crc_bit ^^ n) x = (crc_bit ^^ n) y \<longleftrightarrow> x = y"
proof -
  have "(crc_bit ^^ n) x = (crc_bit ^^ n) y \<longleftrightarrow> (crc_bit ^^ n) (x XOR y) = 0"
    by (simp add: crc_bits_xor word_xor_eq_0)
  then show ?thesis by (simp add: crc_bits_zero word_xor_eq_0)
qed

lemma word_xor_cancel: "x XOR z = y XOR z \<longleftrightarrow> x = (y :: 'a :: len word)"
  by (metis xor.assoc xor_self_eq xor.right_neutral)

lemma bitwise_step_inject: "bitwise_step x b = bitwise_step y b \<longleftrightarrow> x = y"
  by (simp add: bitwise_step_def crc_bits_inject word_xor_cancel)

lemma bitwise_steps_inject: "foldl bitwise_step x ys = foldl bitwise_step y ys \<longleftrightarrow> x = y"
  by (induction ys arbitrary: x y) (simp_all add: bitwise_step_inject)

text \<open>Up to four bytes read as one little-endian word.\<close>

fun le_word :: "bytes \<Rightarrow> u32" where
  "le_word [] = 0"
| "le_word (b # bs) = ucast b XOR push_bit 8 (le_word bs)"

lemma le_word_bit: "length bs \<le> 4 \<Longrightarrow>
  bit (le_word bs) i = (i < 8 * length bs \<and> bit (bs ! (i div 8)) (i mod 8))"
proof (induction bs arbitrary: i)
  case (Cons b bs)
  show ?case
  proof (cases "i < 8")
    case True
    then show ?thesis by (simp add: bit_simps)
  next
    case False
    then obtain j where j: "i = j + 8" by (metis add.commute le_Suc_ex not_less)
    have "\<not> bit b i"
      using False bit_imp_le_length [of b i] by auto
    moreover have "bit (le_word bs) j = (j < 8 * length bs \<and> bit (bs ! (j div 8)) (j mod 8))"
      using Cons by simp
    ultimately show ?thesis
      using Cons.prems by (auto simp: j bit_simps)
  qed
qed simp

lemma le_word_inject:
  assumes "length bs = length cs" "length bs \<le> 4" "le_word bs = le_word cs"
  shows "bs = cs"
proof (rule nth_equalityI [OF assms(1)])
  fix k assume k: "k < length bs"
  show "bs ! k = cs ! k"
  proof (rule bit_word_eqI)
    fix i assume "i < LENGTH(8)"
    then have "i < 8" by simp
    with k have "8 * k + i < 8 * length bs" by linarith
    with \<open>i < 8\<close> show "bit (bs ! k) i = bit (cs ! k) i"
      using le_word_bit [of bs "8 * k + i"] le_word_bit [of cs "8 * k + i"] assms by simp
  qed
qed

lemma le_word_snoc:
  "length bs < 4 \<Longrightarrow> le_word (bs @ [b]) = le_word bs XOR push_bit (8 * length bs) (ucast b)"
proof (induction bs)
  case (Cons c bs)
  have "push_bit 8 (push_bit (8 * length bs) (ucast b :: u32))
        = push_bit (8 * length (c # bs)) (ucast b)"
    by (simp add: push_bit_push_bit algebra_simps)
  with Cons show ?case
    by (simp add: push_bit_xor xor.assoc)
qed simp

lemma bitwise_steps_le_word:
  "length bs \<le> 4 \<Longrightarrow> foldl bitwise_step crc bs = (crc_bit ^^ (8 * length bs)) (crc XOR le_word bs)"
proof (induction bs rule: rev_induct)
  case (snoc b bs)
  let ?n = "8 * length bs"
  have small: "\<not> bit (ucast b :: u32) i" if "32 - ?n \<le> i" for i
    using that snoc.prems bit_imp_le_length [of b i] by (auto simp: bit_simps)
  have "foldl bitwise_step crc (bs @ [b])
        = (crc_bit ^^ 8) ((crc_bit ^^ ?n) (crc XOR le_word bs) XOR ucast b)"
    using snoc by (simp add: bitwise_step_def [of _ b])
  also have "ucast b = (crc_bit ^^ ?n) (push_bit ?n (ucast b))"
    using snoc.prems small by (intro crc_bits_push [symmetric]) auto
  also have "(crc_bit ^^ ?n) (crc XOR le_word bs) XOR \<dots> = (crc_bit ^^ ?n) (crc XOR le_word (bs @ [b]))"
    using snoc.prems by (simp add: crc_bits_xor le_word_snoc xor.assoc)
  finally show ?case
    by (simp add: funpow_add [unfolded comp_def, symmetric] fun_cong [OF funpow_add, unfolded comp_def] add.commute)
qed simp

text \<open>
  Corruption confined to at most four consecutive bytes of a chunk, whatever surrounds it,
  always changes the CRC-32 the receiver compares.
\<close>
theorem crc32_detects_burst:
  assumes "length bad = length good" "length good \<le> 4" "bad \<noteq> good"
  shows "crc32 (pre @ bad @ post) \<noteq> crc32 (pre @ good @ post)"
proof
  let ?s = "foldl bitwise_step 0xffffffff pre"
  assume "crc32 (pre @ bad @ post) = crc32 (pre @ good @ post)"
  then have "foldl bitwise_step ?s bad = foldl bitwise_step ?s good"
    by (simp add: crc32_def crc32_word_def crc32_step_bitwise word_xor_cancel
        bitwise_steps_inject flip: word_unat_eq_iff)
  then have "le_word bad = le_word good"
    using assms by (simp add: bitwise_steps_le_word crc_bits_inject xor.commute [of ?s] word_xor_cancel)
  with assms show False using le_word_inject by metis
qed

theorem crc32_detects_burst_witness:
  "crc32 ([1, 2] @ [3, 4, 5] @ [6]) \<noteq> crc32 ([1, 2] @ [3, 9, 5] @ [6])"
  by (rule crc32_detects_burst) simp_all

end
