(* ===== verification/Protocol.thy ===== *)
theory Protocol
  imports Js
begin

text \<open>
  The wire format of the guest connection: \<open>src/shared/protocol.ts\<close> with the constants of
  \<open>src/shared/types.ts\<close>. A header field is the JavaScript number the code passes around; writing
  it through \<open>writeUInt16LE\<close> and \<open>writeBigUInt64LE\<close> raises a range error out of range, while
  \<open>>>> 0\<close> wraps a field modulo 2^32 first. The streaming decoder keeps its undecoded bytes as its
  only state; the locale \<open>chunked_decoder\<close> states what its loop body must satisfy for the split
  of the byte stream into chunks not to matter.
\<close>

subsection \<open>Constants and data (types.ts)\<close>

definition PROTOCOL_MAGIC :: string where "PROTOCOL_MAGIC = ''W98M''"
definition PROTOCOL_VERSION :: int where "PROTOCOL_VERSION = 2"
definition FRAME_HEADER_BYTES :: nat where "FRAME_HEADER_BYTES = 28"
definition FRAME_MAC_BYTES :: nat where "FRAME_MAC_BYTES = 0"
definition MAX_CONTROL_PAYLOAD :: int where "MAX_CONTROL_PAYLOAD = 1024 * 1024"
definition MAX_DATA_PAYLOAD :: int where "MAX_DATA_PAYLOAD = 64 * 1024"

lemmas protocol_consts = PROTOCOL_VERSION_def FRAME_HEADER_BYTES_def FRAME_MAC_BYTES_def
  MAX_CONTROL_PAYLOAD_def MAX_DATA_PAYLOAD_def

datatype frame_type =
    Hello | Ready | Request | Response | Event | Data | Cancel | Ping | Pong | ErrorFrame

fun frame_code :: "frame_type \<Rightarrow> int" where
  "frame_code Hello = 1"
| "frame_code Ready = 2"
| "frame_code Request = 10"
| "frame_code Response = 11"
| "frame_code Event = 12"
| "frame_code Data = 13"
| "frame_code Cancel = 14"
| "frame_code Ping = 20"
| "frame_code Pong = 21"
| "frame_code ErrorFrame = 255"

record frame_header =
  fh_version :: int
  fh_type :: int
  fh_flags :: int
  fh_streamId :: int
  fh_sequence :: int
  fh_payloadLength :: int

record decoded_frame =
  df_header :: frame_header
  df_payload :: bytes
  df_mac :: bytes

definition MAGIC :: bytes where
  "MAGIC = map of_char PROTOCOL_MAGIC"

lemma length_MAGIC [simp]: "length MAGIC = 4"
  by (simp add: MAGIC_def PROTOCOL_MAGIC_def)

subsection \<open>Little-endian fields\<close>

fun le_bytes :: "nat \<Rightarrow> int \<Rightarrow> bytes" where
  "le_bytes 0 v = []"
| "le_bytes (Suc n) v = word_of_int v # le_bytes n (v div 256)"

fun le_int :: "bytes \<Rightarrow> int" where
  "le_int [] = 0"
| "le_int (b # bs) = uint b + 256 * le_int bs"

lemma length_le_bytes [simp]: "length (le_bytes n v) = n"
  by (induction n arbitrary: v) simp_all

lemma le_int_le_bytes: "le_int (le_bytes n v) = v mod 256 ^ n"
proof (induction n arbitrary: v)
  case (Suc n)
  have "v mod (256 * 256 ^ n) = 256 * (v div 256 mod 256 ^ n) + v mod 256"
    by (rule zmod_zmult2_eq) simp
  with Suc show ?case
    by (simp add: uint_word_of_int)
qed simp

lemma le_int_nonneg [simp]: "0 \<le> le_int bs"
  by (induction bs) simp_all

lemma le_int_less: "le_int bs < 256 ^ length bs"
proof (induction bs)
  case (Cons b bs)
  have "uint b < 256" using uint_lt2p [of b] by simp
  with Cons show ?case by simp
qed simp

lemma le_bytes_le_int: "length bs = n \<Longrightarrow> le_bytes n (le_int bs) = bs"
proof (induction bs arbitrary: n)
  case (Cons b bs)
  have "uint b < 256" "0 \<le> uint b" using uint_lt2p [of b] by simp_all
  then have "(uint b + 256 * le_int bs) div 256 = le_int bs"
    by simp
  moreover have "(word_of_int (256 * le_int bs) :: byte) = 0"
    by (simp only: word_of_int_eq_0_iff) simp
  then have "word_of_int (uint b + 256 * le_int bs) = b"
    by (simp only: of_int_add) simp
  ultimately show ?case using Cons by auto
qed simp

definition range_error :: string where
  "range_error = ''ERR_OUT_OF_RANGE''"

definition writeUInt16LE :: "int \<Rightarrow> bytes res" where
  "writeUInt16LE v = (if 0 \<le> v \<and> v \<le> 65535 then Inr (le_bytes 2 v) else Inl range_error)"

definition writeUInt32LE :: "int \<Rightarrow> bytes res" where
  "writeUInt32LE v = (if 0 \<le> v \<and> v \<le> 4294967295 then Inr (le_bytes 4 v) else Inl range_error)"

definition writeBigUInt64LE :: "int \<Rightarrow> bytes res" where
  "writeBigUInt64LE v =
     (if 0 \<le> v \<and> v \<le> 18446744073709551615 then Inr (le_bytes 8 v) else Inl range_error)"

definition to_uint32 :: "int \<Rightarrow> int" where
  "to_uint32 v = v mod 4294967296"

definition read_le :: "nat \<Rightarrow> nat \<Rightarrow> bytes \<Rightarrow> int" where
  "read_le n off buffer = le_int (take n (drop off buffer))"

subsection \<open>Headers and frames\<close>

definition validatePayloadLength :: "int \<Rightarrow> int \<Rightarrow> unit res" where
  "validatePayloadLength type payloadLength =
     (if payloadLength < 0 then Inl ''FRAME_LENGTH_INVALID''
      else
        let max = (if type = frame_code Data then MAX_DATA_PAYLOAD else MAX_CONTROL_PAYLOAD) in
        if payloadLength > max
        then Inl (''FRAME_LENGTH_EXCEEDED:'' @ show_int payloadLength @ '':'' @ show_int max)
        else Inr ())"

definition encodeHeader :: "frame_header \<Rightarrow> bytes res" where
  "encodeHeader h =
     bindR (validatePayloadLength (fh_type h) (fh_payloadLength h)) (\<lambda>_.
     bindR (writeUInt16LE (fh_version h)) (\<lambda>version.
     bindR (writeUInt16LE (fh_type h)) (\<lambda>type.
     bindR (writeUInt32LE (to_uint32 (fh_flags h))) (\<lambda>flags.
     bindR (writeUInt32LE (to_uint32 (fh_streamId h))) (\<lambda>streamId.
     bindR (writeBigUInt64LE (fh_sequence h)) (\<lambda>sequence.
     bindR (writeUInt32LE (to_uint32 (fh_payloadLength h))) (\<lambda>payloadLength.
       Inr (MAGIC @ version @ type @ flags @ streamId @ sequence @ payloadLength))))))))"

definition decodeHeader :: "bytes \<Rightarrow> frame_header res" where
  "decodeHeader buffer =
     (if length buffer < FRAME_HEADER_BYTES then Inl ''FRAME_HEADER_TRUNCATED''
      else if take 4 buffer \<noteq> MAGIC then Inl ''FRAME_MAGIC_INVALID''
      else
        let version = read_le 2 4 buffer in
        if version \<noteq> PROTOCOL_VERSION
        then Inl (''PROTOCOL_VERSION_UNSUPPORTED:'' @ show_int version)
        else
          let type = read_le 2 6 buffer;
              header = \<lparr> fh_version = version, fh_type = type,
                         fh_flags = read_le 4 8 buffer, fh_streamId = read_le 4 12 buffer,
                         fh_sequence = read_le 8 16 buffer,
                         fh_payloadLength = read_le 4 24 buffer \<rparr>
          in bindR (validatePayloadLength type (fh_payloadLength header)) (\<lambda>_. Inr header))"

text \<open>\<open>encodeFrame\<close> takes a header without its version and payload length.\<close>

definition encodeFrame :: "int \<Rightarrow> int \<Rightarrow> int \<Rightarrow> int \<Rightarrow> bytes \<Rightarrow> bytes res" where
  "encodeFrame type flags streamId sequence payload =
     bindR (encodeHeader \<lparr> fh_version = PROTOCOL_VERSION, fh_type = type, fh_flags = flags,
              fh_streamId = streamId, fh_sequence = sequence,
              fh_payloadLength = int (length payload) \<rparr>) (\<lambda>encodedHeader.
       Inr (encodedHeader @ payload))"

subsection \<open>The streaming decoder\<close>

text \<open>
  The body of the \<open>while\<close> loop of \<open>FrameDecoder.push\<close>: \<open>None\<close> leaves the loop, an error leaves it
  by an exception, and a frame is cut off the front of the pending bytes.
\<close>

definition next_frame :: "bytes \<Rightarrow> (string + decoded_frame \<times> bytes) option" where
  "next_frame pending =
     (if length pending < FRAME_HEADER_BYTES then None
      else
        case decodeHeader (take FRAME_HEADER_BYTES pending) of
          Inl e \<Rightarrow> Some (Inl e)
        | Inr header \<Rightarrow>
            let n = nat (fh_payloadLength header);
                frameLength = FRAME_HEADER_BYTES + n + FRAME_MAC_BYTES
            in if length pending < frameLength then None
               else Some (Inr (\<lparr> df_header = header,
                                 df_payload = take n (drop FRAME_HEADER_BYTES pending),
                                 df_mac = [] \<rparr>, drop frameLength pending)))"

lemma next_frame_shrinks: "next_frame p = Some (Inr (f, r)) \<Longrightarrow> length r < length p"
  by (auto simp: next_frame_def protocol_consts Let_def split: if_splits sum.splits)

function decode_loop :: "bytes \<Rightarrow> decoded_frame list \<Rightarrow> decoded_frame list res \<times> bytes" where
  "decode_loop pending frames =
     (case next_frame pending of
        None \<Rightarrow> (Inr frames, pending)
      | Some (Inl e) \<Rightarrow> (Inl e, pending)
      | Some (Inr (f, rest)) \<Rightarrow> decode_loop rest (frames @ [f]))"
  by pat_completeness auto
termination
  by (relation "measure (\<lambda>(p, _). length p)") (auto dest: next_frame_shrinks)

declare decode_loop.simps [simp del]

definition decoder_push :: "bytes \<Rightarrow> bytes \<Rightarrow> decoded_frame list res \<times> bytes" where
  "decoder_push pending chunk = decode_loop (pending @ chunk) []"

text \<open>A socket delivers chunks one after another; an exception ends the connection.\<close>

fun push_all :: "bytes \<Rightarrow> bytes list \<Rightarrow> decoded_frame list res \<times> bytes" where
  "push_all pending [] = (Inr [], pending)"
| "push_all pending (c # cs) =
     (case decoder_push pending c of
        (Inl e, p) \<Rightarrow> (Inl e, p)
      | (Inr fs, p) \<Rightarrow>
          (case push_all p cs of
             (Inl e, q) \<Rightarrow> (Inl e, q)
           | (Inr gs, q) \<Rightarrow> (Inr (fs @ gs), q)))"

subsection \<open>Chunking does not matter\<close>

locale chunked_decoder =
  fixes step :: "'b list \<Rightarrow> ('e + 'f \<times> 'b list) option"
    and run :: "'b list \<Rightarrow> 'f list \<Rightarrow> ('e + 'f list) \<times> 'b list"
  assumes run_unfold: "run p acc = (case step p of
        None \<Rightarrow> (Inr acc, p)
      | Some (Inl e) \<Rightarrow> (Inl e, p)
      | Some (Inr (f, r)) \<Rightarrow> run r (acc @ [f]))"
    and step_shrinks: "step p = Some (Inr (f, r)) \<Longrightarrow> length r < length p"
    and step_more: "step p = Some (Inr (f, r)) \<Longrightarrow> step (p @ c) = Some (Inr (f, r @ c))"
    and step_fails: "step p = Some (Inl e) \<Longrightarrow> step (p @ c) = Some (Inl e)"
begin

lemma run_acc: "run p (acc @ acc') =
    (case run p acc' of (Inl e, r) \<Rightarrow> (Inl e, r) | (Inr fs, r) \<Rightarrow> (Inr (acc @ fs), r))"
proof (induction p arbitrary: acc' rule: length_induct)
  case (1 p)
  show ?case
  proof (cases "step p")
    case None
    then show ?thesis by (simp add: run_unfold [of p])
  next
    case (Some x)
    show ?thesis
    proof (cases x)
      case (Inl e)
      with Some show ?thesis by (simp add: run_unfold [of p])
    next
      case (Inr y)
      obtain f r where "y = (f, r)" by (cases y)
      with Inr Some 1 step_shrinks [of p f r] show ?thesis
        by (simp add: run_unfold [of p])
    qed
  qed
qed

lemma run_append:
  "run p acc = (Inr fs, r) \<Longrightarrow> run (p @ c) acc = run (r @ c) fs"
proof (induction p arbitrary: acc rule: length_induct)
  case (1 p)
  show ?case
  proof (cases "step p")
    case None
    with "1.prems" show ?thesis by (simp add: run_unfold [of p])
  next
    case (Some x)
    with "1.prems" obtain f q where x: "x = Inr (f, q)"
      by (auto simp: run_unfold [of p] split: sum.splits)
    with Some "1.prems" have q: "run q (acc @ [f]) = (Inr fs, r)"
      by (simp add: run_unfold [of p])
    have "run (p @ c) acc = run (q @ c) (acc @ [f])"
      using Some x step_more by (simp add: run_unfold [of "p @ c"])
    with "1.IH" q Some x step_shrinks show ?thesis by metis
  qed
qed

lemma run_append_error:
  "run p acc = (Inl e, r) \<Longrightarrow> fst (run (p @ c) acc) = Inl e"
proof (induction p arbitrary: acc rule: length_induct)
  case (1 p)
  then obtain x where x: "step p = Some x"
    by (cases "step p") (auto simp: run_unfold [of p])
  show ?case
  proof (cases x)
    case (Inl e')
    with x "1.prems" have "e' = e" by (simp add: run_unfold [of p])
    with Inl x step_fails show ?thesis by (simp add: run_unfold [of "p @ c"])
  next
    case (Inr y)
    obtain f q where y: "y = (f, q)" by (cases y)
    with Inr x "1.prems" have "run q (acc @ [f]) = (Inl e, r)"
      by (simp add: run_unfold [of p])
    with "1.IH" x Inr y step_shrinks have "fst (run (q @ c) (acc @ [f])) = Inl e"
      by metis
    with x Inr y step_more show ?thesis by (simp add: run_unfold [of "p @ c"])
  qed
qed

end

lemma decodeHeader_length: "decodeHeader b = Inr h \<Longrightarrow> 28 \<le> length b"
  by (auto simp: decodeHeader_def protocol_consts split: if_splits)

lemma next_frame_more:
  "next_frame p = Some (Inr (f, r)) \<Longrightarrow> next_frame (p @ c) = Some (Inr (f, r @ c))"
  by (auto simp: next_frame_def protocol_consts Let_def split: if_splits sum.splits)

lemma next_frame_fails: "next_frame p = Some (Inl e) \<Longrightarrow> next_frame (p @ c) = Some (Inl e)"
  by (auto simp: next_frame_def protocol_consts Let_def split: if_splits sum.splits)

interpretation frames: chunked_decoder next_frame decode_loop
  by unfold_locales
    (auto simp: next_frame_shrinks next_frame_more next_frame_fails
      intro: decode_loop.simps)

lemma push_all_concat:
  "push_all p (c # cs) = (Inr fs, r) \<longleftrightarrow> decoder_push p (concat (c # cs)) = (Inr fs, r)"
proof (induction cs arbitrary: p c fs r)
  case Nil
  then show ?case by (auto split: prod.splits sum.splits)
next
  case (Cons d cs)
  obtain x q where x: "decoder_push p c = (x, q)" by (cases "decoder_push p c")
  show ?case
  proof (cases x)
    case (Inl e)
    with x have "decode_loop (p @ c) [] = (Inl e, q)" by (simp add: decoder_push_def)
    then have "fst (decode_loop ((p @ c) @ d @ concat cs) []) = Inl e"
      by (rule frames.run_append_error)
    with x Inl show ?thesis by (auto simp: decoder_push_def)
  next
    case (Inr gs)
    with x have "decode_loop (p @ c) [] = (Inr gs, q)" by (simp add: decoder_push_def)
    then have "decode_loop ((p @ c) @ d @ concat cs) [] = decode_loop (q @ d @ concat cs) gs"
      by (rule frames.run_append)
    also have "\<dots> = (case decoder_push q (d @ concat cs) of
        (Inl e, r) \<Rightarrow> (Inl e, r) | (Inr fs, r) \<Rightarrow> (Inr (gs @ fs), r))"
      using frames.run_acc [of "q @ d @ concat cs" gs "[]"] by (simp add: decoder_push_def)
    finally have "decoder_push p (concat (c # d # cs)) = \<dots>"
      by (simp add: decoder_push_def)
    then show ?thesis
      using x Inr Cons.IH [of q d]
      by (cases "push_all q (d # cs)"; cases "decoder_push q (d @ concat cs)")
        (auto simp del: push_all.simps(2) simp: push_all.simps(2) [of p c] split: sum.splits)
  qed
qed

subsection \<open>Round trips\<close>

lemma encodeHeader_Inr:
  assumes "encodeHeader h = Inr b"
  shows "b = MAGIC @ le_bytes 2 (fh_version h) @ le_bytes 2 (fh_type h)
           @ le_bytes 4 (to_uint32 (fh_flags h)) @ le_bytes 4 (to_uint32 (fh_streamId h))
           @ le_bytes 8 (fh_sequence h) @ le_bytes 4 (to_uint32 (fh_payloadLength h))"
    and "0 \<le> fh_version h" "fh_version h \<le> 65535" "0 \<le> fh_type h" "fh_type h \<le> 65535"
    and "0 \<le> fh_sequence h" "fh_sequence h \<le> 18446744073709551615"
    and "validatePayloadLength (fh_type h) (fh_payloadLength h) = Inr ()"
  using assms
  by (auto simp: encodeHeader_def bindR_eq_Inr writeUInt16LE_def writeUInt32LE_def
      writeBigUInt64LE_def split: if_splits)

lemma validatePayloadLength_bounds:
  "validatePayloadLength t n = Inr () \<longleftrightarrow>
     0 \<le> n \<and> n \<le> (if t = 13 then 65536 else 1048576)"
  by (auto simp: validatePayloadLength_def protocol_consts Let_def)

definition wire_header :: "frame_header \<Rightarrow> frame_header" where
  "wire_header h = h\<lparr> fh_flags := to_uint32 (fh_flags h), fh_streamId := to_uint32 (fh_streamId h) \<rparr>"

lemma decodeHeader_encoded:
  assumes enc: "encodeHeader h = Inr b" and ver: "fh_version h = PROTOCOL_VERSION"
  shows "decodeHeader b = Inr (wire_header h)" and "length b = 28"
proof -
  note e = encodeHeader_Inr [OF enc]
  show "length b = 28" by (simp add: e(1))
  have pl: "0 \<le> fh_payloadLength h" "fh_payloadLength h < 4294967296"
    using e(8) by (auto simp: validatePayloadLength_bounds split: if_splits)
  have "(256 :: int) ^ 2 = 65536" "(256 :: int) ^ 4 = 4294967296"
    "(256 :: int) ^ 8 = 18446744073709551616" by simp_all
  then show "decodeHeader b = Inr (wire_header h)"
    using e(2-8) pl ver
    by (simp add: decodeHeader_def e(1) read_le_def le_int_le_bytes to_uint32_def
        wire_header_def FRAME_HEADER_BYTES_def)
qed

text \<open>
  Decoding an encoded header of the current protocol version gives
  back the header, with the flags and the stream number reduced modulo 2^32 as the encoder's
  \<open>>>> 0\<close> does; the encoding is always 28 bytes long.
\<close>
theorem header_roundtrip:
  assumes "encodeHeader h = Inr b" and "fh_version h = PROTOCOL_VERSION"
  shows "decodeHeader b = Inr (h\<lparr> fh_flags := fh_flags h mod 2 ^ 32,
                                  fh_streamId := fh_streamId h mod 2 ^ 32 \<rparr>)
         \<and> length b = FRAME_HEADER_BYTES"
  using decodeHeader_encoded [OF assms]
  by (simp add: wire_header_def to_uint32_def FRAME_HEADER_BYTES_def)

theorem header_roundtrip_witness:
  "\<exists>b. decodeHeader b = Inr \<lparr> fh_version = 2, fh_type = 13, fh_flags = 1, fh_streamId = 7,
         fh_sequence = 5, fh_payloadLength = 100 \<rparr>"
proof -
  let ?h = "\<lparr> fh_version = 2, fh_type = 13, fh_flags = 1, fh_streamId = 2 ^ 32 + 7,
              fh_sequence = 5, fh_payloadLength = 100 \<rparr>"
  obtain b where b: "encodeHeader ?h = Inr b"
    by (simp add: encodeHeader_def validatePayloadLength_def protocol_consts writeUInt16LE_def
        writeUInt32LE_def writeBigUInt64LE_def to_uint32_def)
  have "fh_version ?h = PROTOCOL_VERSION" by (simp add: PROTOCOL_VERSION_def)
  from header_roundtrip [OF b this] show ?thesis by auto
qed

text \<open>
  C35. Whatever bytes a peer sends, a header that decodes carries the
  supported version, unsigned 32-bit flags and stream number, an unsigned 64-bit sequence number,
  and a payload of at most 64 KiB for a data frame and 1 MiB for any other.
\<close>
theorem decoded_header_bounds:
  assumes "decodeHeader buffer = Inr h"
  shows "fh_version h = PROTOCOL_VERSION \<and> 0 \<le> fh_type h \<and> fh_type h < 2 ^ 16
         \<and> 0 \<le> fh_flags h \<and> fh_flags h < 2 ^ 32 \<and> 0 \<le> fh_streamId h \<and> fh_streamId h < 2 ^ 32
         \<and> 0 \<le> fh_sequence h \<and> fh_sequence h < 2 ^ 64 \<and> 0 \<le> fh_payloadLength h
         \<and> fh_payloadLength h \<le> (if fh_type h = frame_code Data then 65536 else 1048576)"
proof -
  have r: "read_le n off buffer < 256 ^ n \<and> 0 \<le> read_le n off buffer" for n off
  proof -
    have "le_int (take n (drop off buffer)) < 256 ^ length (take n (drop off buffer))"
      by (rule le_int_less)
    also have "\<dots> \<le> 256 ^ n" by (rule power_increasing) simp_all
    finally show ?thesis by (simp add: read_le_def)
  qed
  show ?thesis
    using assms r [of 2 6] r [of 4 8] r [of 4 12] r [of 8 16]
    by (auto simp: decodeHeader_def Let_def bindR_eq_Inr validatePayloadLength_bounds
        split: if_splits)
qed

theorem decoded_header_bounds_witness:
  "\<exists>h. decodeHeader (MAGIC @ [2, 0, 13, 0, 0, 0, 0, 0, 0, 0, 0, 0, 0, 0, 0, 0, 0, 0, 0, 0, 9, 0, 0, 0]) = Inr h
     \<and> fh_payloadLength h \<le> 65536 \<and> fh_payloadLength h = 9"
proof -
  let ?b = "MAGIC @ [2, 0, 13, 0, 0, 0, 0, 0, 0, 0, 0, 0, 0, 0, 0, 0, 0, 0, 0, 0, 9, 0, 0, 0] :: bytes"
  obtain h where h: "decodeHeader ?b = Inr h" "fh_type h = 13" "fh_payloadLength h = 9"
    by (simp add: decodeHeader_def FRAME_HEADER_BYTES_def read_le_def PROTOCOL_VERSION_def Let_def
        validatePayloadLength_def MAX_DATA_PAYLOAD_def)
  with decoded_header_bounds [OF h(1)] show ?thesis by auto
qed

type_synonym outgoing_frame = "int \<times> int \<times> int \<times> int \<times> bytes"

definition send_frame :: "outgoing_frame \<Rightarrow> bytes res" where
  "send_frame f = (case f of (t, fl, sid, seq, pl) \<Rightarrow> encodeFrame t fl sid seq pl)"

definition received :: "outgoing_frame \<Rightarrow> decoded_frame" where
  "received f = (case f of (t, fl, sid, seq, pl) \<Rightarrow>
     \<lparr> df_header = \<lparr> fh_version = PROTOCOL_VERSION, fh_type = t, fh_flags = fl mod 2 ^ 32,
                     fh_streamId = sid mod 2 ^ 32, fh_sequence = seq,
                     fh_payloadLength = int (length pl) \<rparr>,
       df_payload = pl, df_mac = [] \<rparr>)"

fun send_all :: "outgoing_frame list \<Rightarrow> bytes res" where
  "send_all [] = Inr []"
| "send_all (f # fs) = bindR (send_frame f) (\<lambda>b. bindR (send_all fs) (\<lambda>bs. Inr (b @ bs)))"

lemma next_frame_sent:
  assumes "send_frame f = Inr b"
  shows "next_frame (b @ rest) = Some (Inr (received f, rest))"
proof -
  obtain t fl sid seq pl where f: "f = (t, fl, sid, seq, pl)" by (cases f)
  let ?h = "\<lparr> fh_version = PROTOCOL_VERSION, fh_type = t, fh_flags = fl, fh_streamId = sid,
              fh_sequence = seq, fh_payloadLength = int (length pl) \<rparr>"
  from assms obtain hb where hb: "encodeHeader ?h = Inr hb" and b: "b = hb @ pl"
    by (auto simp: f send_frame_def encodeFrame_def bindR_eq_Inr)
  have "decodeHeader hb = Inr (wire_header ?h)" "length hb = 28"
    by (rule decodeHeader_encoded [OF hb], simp)+
  then show ?thesis
    by (simp add: next_frame_def b f received_def wire_header_def to_uint32_def protocol_consts)
qed

lemma decode_loop_sent:
  "send_all fs = Inr bs \<Longrightarrow> decode_loop bs acc = (Inr (acc @ map received fs), [])"
proof (induction fs arbitrary: bs acc)
  case Nil
  then show ?case by (simp add: decode_loop.simps next_frame_def FRAME_HEADER_BYTES_def)
next
  case (Cons f fs)
  then obtain b cs where "send_frame f = Inr b" "send_all fs = Inr cs" "bs = b @ cs"
    by (auto simp: bindR_eq_Inr)
  with Cons.IH show ?case
    by (subst decode_loop.simps) (simp add: next_frame_sent)
qed

text \<open>
  C12. A sequence of encoded frames arrives complete, in order and
  with nothing left over however TCP cuts the byte stream into chunks.
\<close>
theorem frames_survive_chunking:
  assumes "send_all fs = Inr bs" and "concat chunks = bs" and "chunks \<noteq> []"
  shows "push_all [] chunks = (Inr (map received fs), [])"
proof -
  obtain c cs where chunks: "chunks = c # cs" using assms(3) by (cases chunks) auto
  have "decoder_push [] (concat (c # cs)) = (Inr (map received fs), [])"
    using decode_loop_sent [OF assms(1), of "[]"] assms(2) chunks
    by (simp add: decoder_push_def)
  then show ?thesis
    unfolding chunks by (rule push_all_concat [THEN iffD2])
qed

theorem frames_survive_chunking_witness:
  "\<exists>a b. push_all [] [a, b] = (Inr [received (20, 0, 0, 1, []), received (13, 1, 4, 2, [7, 8])], [])
     \<and> a \<noteq> [] \<and> b \<noteq> []"
proof -
  let ?fs = "[(20, 0, 0, 1, []), (13, 1, 4, 2, [7, 8])] :: outgoing_frame list"
  obtain bs where bs: "send_all ?fs = Inr bs" and len: "length bs = 58"
    by (simp add: send_frame_def encodeFrame_def encodeHeader_def validatePayloadLength_def
        protocol_consts writeUInt16LE_def writeUInt32LE_def writeBigUInt64LE_def to_uint32_def)
  have "push_all [] [take 10 bs, drop 10 bs] = (Inr (map received ?fs), [])"
    by (rule frames_survive_chunking [OF bs]) simp_all
  moreover have "take 10 bs \<noteq> []" "drop 10 bs \<noteq> []" using len by auto
  ultimately show ?thesis
    by (intro exI [of _ "take 10 bs"] exI [of _ "drop 10 bs"]) (simp del: push_all.simps)
qed

end
