(* ===== verification/Lease.thy ===== *)
theory Lease
  imports Js "HOL-Library.Sublist"
begin

text \<open>
  The exclusive lease: \<open>LeaseManager\<close> of \<open>src/host/lease.ts\<close>. Every method runs synchronously, so
  it is a function of the clock reading, the identifiers it draws and the state, and it returns
  the new state with the events it caused: the emitter's events and the settlements of \<open>vm_wait\<close>
  promises. A pending promise is a number kept in the waiter's \<open>resolve\<close> slot; a timer is the
  instant at which it fires, and its callback is a command of its own. Instants are milliseconds;
  a handler reads the clock once. Dates are kept as instants, not printed.
\<close>

subsection \<open>State\<close>

record lease_owner =
  lo_sessionId :: string
  lo_label :: string
  lo_acquiredAt :: int
  lo_lastActivityAt :: int

record wait_ticket =
  wt_id :: string
  wt_sessionId :: string
  wt_createdAt :: int
  wt_expiresAt :: int

record acquire_result =
  ar_acquired :: bool
  ar_ticket :: "wait_ticket option"
  ar_queuePosition :: "nat option"

record waiter =
  w_ticket :: wait_ticket
  w_label :: string
  w_resolve :: "nat option"
  w_waitTimer :: "int option"
  w_ticketTimer :: int

record lease_manager =
  lm_ttlMs :: int
  lm_ticketTtlMs :: int
  lm_owner :: "lease_owner option"
  lm_waiters :: "waiter list"
  lm_expirationTimer :: "int option"
  lm_blocked :: bool

record lease_snapshot =
  ls_held :: bool
  ls_heldByCaller :: bool
  ls_ownerLabel :: "string option"
  ls_acquiredAt :: "int option"
  ls_lastActivityAt :: "int option"
  ls_expiresAt :: "int option"
  ls_reminder :: bool

datatype lease_event =
    EvQueued wait_ticket
  | EvAcquired lease_owner
  | EvReleased lease_owner
  | EvExpired lease_owner
  | EvTicketExpired wait_ticket
  | EvResolved nat acquire_result

datatype wait_outcome = Settled acquire_result | Pending nat

datatype disconnect_relation = RelOwner | RelWaiter | RelNone

type_synonym lease_result = "lease_manager \<times> lease_event list"

abbreviation w_session :: "waiter \<Rightarrow> string" where
  "w_session w \<equiv> wt_sessionId (w_ticket w)"

abbreviation w_id :: "waiter \<Rightarrow> string" where
  "w_id w \<equiv> wt_id (w_ticket w)"

definition DEFAULT_LEASE_TTL_MS :: int where "DEFAULT_LEASE_TTL_MS = 30 * 60 * 1000"
definition DEFAULT_WAIT_TICKET_TTL_MS :: int where "DEFAULT_WAIT_TICKET_TTL_MS = 10 * 60 * 1000"

definition new_lease_manager :: "int \<Rightarrow> int \<Rightarrow> lease_manager" where
  "new_lease_manager ttl ticketTtl =
     \<lparr> lm_ttlMs = ttl, lm_ticketTtlMs = ticketTtl, lm_owner = None, lm_waiters = [],
       lm_expirationTimer = None, lm_blocked = False \<rparr>"

definition granted :: acquire_result where
  "granted = \<lparr> ar_acquired = True, ar_ticket = None, ar_queuePosition = None \<rparr>"

definition refused :: acquire_result where
  "refused = \<lparr> ar_acquired = False, ar_ticket = None, ar_queuePosition = None \<rparr>"

definition owned_by :: "lease_manager \<Rightarrow> string \<Rightarrow> bool" where
  "owned_by l s \<longleftrightarrow> (case lm_owner l of None \<Rightarrow> False | Some ow \<Rightarrow> lo_sessionId ow = s)"

subsection \<open>Private helpers\<close>

definition settle :: "waiter \<Rightarrow> acquire_result \<Rightarrow> lease_event list" where
  "settle w r = (case w_resolve w of None \<Rightarrow> [] | Some p \<Rightarrow> [EvResolved p r])"

fun queue_index :: "string \<Rightarrow> waiter list \<Rightarrow> nat option" where
  "queue_index i [] = None"
| "queue_index i (w # ws) = (if w_id w = i then Some 0 else map_option Suc (queue_index i ws))"

definition queuePosition :: "lease_manager \<Rightarrow> string \<Rightarrow> nat option" where
  "queuePosition l i = map_option (\<lambda>k. k + 1) (queue_index i (lm_waiters l))"

definition queued_result :: "lease_manager \<Rightarrow> wait_ticket \<Rightarrow> acquire_result" where
  "queued_result l t =
     \<lparr> ar_acquired = False, ar_ticket = Some t, ar_queuePosition = queuePosition l (wt_id t) \<rparr>"

definition scheduleExpiration :: "int \<Rightarrow> lease_manager \<Rightarrow> lease_manager" where
  "scheduleExpiration now l =
     (case lm_owner l of
        None \<Rightarrow> l
      | Some ow \<Rightarrow>
          l\<lparr> lm_expirationTimer :=
               Some (now + max 1 (lo_lastActivityAt ow + lm_ttlMs l - now)) \<rparr>)"

definition assignOwner :: "int \<Rightarrow> string \<Rightarrow> string \<Rightarrow> lease_manager \<Rightarrow> lease_result" where
  "assignOwner now s label l =
     (let ow = \<lparr> lo_sessionId = s, lo_label = label, lo_acquiredAt = now, lo_lastActivityAt = now \<rparr>
      in (scheduleExpiration now (l\<lparr> lm_owner := Some ow \<rparr>), [EvAcquired ow]))"

definition expireIfDue :: "int \<Rightarrow> lease_manager \<Rightarrow> lease_result" where
  "expireIfDue now l =
     (case lm_owner l of
        None \<Rightarrow> (l, [])
      | Some ow \<Rightarrow>
          if now < lo_lastActivityAt ow + lm_ttlMs l then (l, [])
          else (l\<lparr> lm_owner := None, lm_expirationTimer := None, lm_blocked := True \<rparr>,
                [EvExpired ow]))"

fun drop_expired :: "int \<Rightarrow> waiter list \<Rightarrow> waiter list \<times> lease_event list" where
  "drop_expired now [] = ([], [])"
| "drop_expired now (w # ws) =
     (if wt_expiresAt (w_ticket w) \<le> now
      then (let (ws', ev) = drop_expired now ws in (ws', settle w refused @ ev))
      else (w # ws, []))"

definition firstEligibleSession :: "int \<Rightarrow> lease_manager \<Rightarrow> string option \<times> lease_result" where
  "firstEligibleSession now l =
     (let (ws, ev) = drop_expired now (lm_waiters l)
      in (case ws of [] \<Rightarrow> None | w # _ \<Rightarrow> Some (w_session w), l\<lparr> lm_waiters := ws \<rparr>, ev))"

text \<open>The loop runs from the last waiter to the first.\<close>

definition removeWaitersForSession :: "string \<Rightarrow> lease_manager \<Rightarrow> bool \<times> lease_result" where
  "removeWaitersForSession s l =
     (let gone = filter (\<lambda>w. w_session w = s) (lm_waiters l)
      in (gone \<noteq> [], l\<lparr> lm_waiters := filter (\<lambda>w. w_session w \<noteq> s) (lm_waiters l) \<rparr>,
          concat (map (\<lambda>w. settle w refused) (rev gone))))"

fun grant_loop :: "int \<Rightarrow> waiter list \<Rightarrow> lease_manager \<Rightarrow> lease_result" where
  "grant_loop now [] l = (l\<lparr> lm_waiters := [] \<rparr>, [])"
| "grant_loop now (w # ws) l =
     (if wt_expiresAt (w_ticket w) \<le> now
      then (let (l', ev) = grant_loop now ws l in (l', settle w refused @ ev))
      else if w_resolve w = None then (l\<lparr> lm_waiters := w # ws \<rparr>, [])
      else (let (l', ev) = assignOwner now (w_session w) (w_label w) (l\<lparr> lm_waiters := ws \<rparr>)
            in (l', ev @ settle w granted)))"

definition grantNext :: "int \<Rightarrow> lease_manager \<Rightarrow> lease_result" where
  "grantNext now l =
     (if lm_blocked l \<or> lm_owner l \<noteq> None then (l, []) else grant_loop now (lm_waiters l) l)"

subsection \<open>Public methods\<close>

definition setBlocked :: "int \<Rightarrow> bool \<Rightarrow> lease_manager \<Rightarrow> lease_result" where
  "setBlocked now b l =
     (let l = l\<lparr> lm_blocked := b \<rparr> in if b then (l, []) else grantNext now l)"

definition touch :: "int \<Rightarrow> string \<Rightarrow> lease_manager \<Rightarrow> bool \<times> lease_manager" where
  "touch now s l =
     (case lm_owner l of
        None \<Rightarrow> (False, l)
      | Some ow \<Rightarrow>
          if lo_sessionId ow \<noteq> s then (False, l)
          else (True, scheduleExpiration now
                        (l\<lparr> lm_owner := Some (ow\<lparr> lo_lastActivityAt := now \<rparr>) \<rparr>)))"

definition enqueue_ticket ::
  "int \<Rightarrow> string \<Rightarrow> string \<Rightarrow> string \<Rightarrow> lease_manager \<Rightarrow> acquire_result \<times> lease_result" where
  "enqueue_ticket now fresh s label l =
     (let ticket = \<lparr> wt_id = fresh, wt_sessionId = s, wt_createdAt = now,
                     wt_expiresAt = now + lm_ticketTtlMs l \<rparr>;
          w = \<lparr> w_ticket = ticket, w_label = label, w_resolve = None, w_waitTimer = None,
                w_ticketTimer = now + lm_ticketTtlMs l \<rparr>;
          l' = l\<lparr> lm_waiters := lm_waiters l @ [w] \<rparr>
      in (queued_result l' ticket, l', [EvQueued ticket]))"

definition wait_in_queue ::
  "int \<Rightarrow> string \<Rightarrow> string \<Rightarrow> string \<Rightarrow> bool \<Rightarrow> lease_manager \<Rightarrow> acquire_result \<times> lease_result" where
  "wait_in_queue now fresh s label enqueue l =
     (case find (\<lambda>w. w_session w = s) (lm_waiters l) of
        Some w \<Rightarrow> (queued_result l (w_ticket w), l, [])
      | None \<Rightarrow>
          if \<not> enqueue then (refused, l, [])
          else enqueue_ticket now fresh s label l)"

definition acquire ::
  "int \<Rightarrow> string \<Rightarrow> string \<Rightarrow> string \<Rightarrow> bool \<Rightarrow> lease_manager \<Rightarrow> acquire_result \<times> lease_result" where
  "acquire now fresh s label enqueue l0 =
     (let (l, ev) = expireIfDue now l0 in
      if owned_by l s then (granted, snd (touch now s l), ev)
      else if lm_owner l = None \<and> \<not> lm_blocked l then
        (let (first, l1, ev1) = firstEligibleSession now l in
         if first = Some s then
           (let (_, l2, ev2) = removeWaitersForSession s l1;
                (l3, ev3) = assignOwner now s label l2
            in (granted, l3, ev @ ev1 @ ev2 @ ev3))
         else if lm_waiters l1 = [] then
           (let (l3, ev3) = assignOwner now s label l1 in (granted, l3, ev @ ev1 @ ev3))
         else
           (let (r, l2, ev2) = wait_in_queue now fresh s label enqueue l1
            in (r, l2, ev @ ev1 @ ev2)))
      else
        (let (r, l2, ev2) = wait_in_queue now fresh s label enqueue l
         in (r, l2, ev @ ev2)))"

definition map_first :: "('a \<Rightarrow> bool) \<Rightarrow> ('a \<Rightarrow> 'a) \<Rightarrow> 'a list \<Rightarrow> 'a list" where
  "map_first P f xs =
     (case dropWhile (\<lambda>x. \<not> P x) xs of
        [] \<Rightarrow> xs
      | y # ys \<Rightarrow> takeWhile (\<lambda>x. \<not> P x) xs @ f y # ys)"

definition wait ::
  "int \<Rightarrow> string \<Rightarrow> nat \<Rightarrow> string \<Rightarrow> string \<Rightarrow> int \<Rightarrow> string option \<Rightarrow> lease_manager \<Rightarrow>
   wait_outcome \<times> lease_result" where
  "wait now fresh promise s label waitMs ticketId l0 =
     (let (immediate, l, ev) = acquire now fresh s label True l0 in
      if ar_acquired immediate then (Settled immediate, l, ev)
      else
        let mine = (\<lambda>w. w_session w = s \<and> (ticketId = None \<or> ticketId = Some (w_id w))) in
        case find mine (lm_waiters l) of
          None \<Rightarrow> (Settled refused, l, ev)
        | Some w \<Rightarrow>
            if w_resolve w \<noteq> None then (Settled (queued_result l (w_ticket w)), l, ev)
            else (Pending promise,
                  l\<lparr> lm_waiters := map_first mine
                       (\<lambda>w. w\<lparr> w_resolve := Some promise, w_waitTimer := Some (now + waitMs) \<rparr>)
                       (lm_waiters l) \<rparr>,
                  ev))"

text \<open>The callback of the timer that \<open>wait\<close> starts.\<close>

definition wait_timeout :: "nat \<Rightarrow> lease_manager \<Rightarrow> lease_result" where
  "wait_timeout promise l =
     (case find (\<lambda>w. w_resolve w = Some promise) (lm_waiters l) of
        None \<Rightarrow> (l, [])
      | Some w \<Rightarrow>
          (l\<lparr> lm_waiters := map_first (\<lambda>w. w_resolve w = Some promise)
                (\<lambda>w. w\<lparr> w_resolve := None, w_waitTimer := None \<rparr>) (lm_waiters l) \<rparr>,
           [EvResolved promise (queued_result l (w_ticket w))]))"

definition release :: "int \<Rightarrow> string \<Rightarrow> lease_manager \<Rightarrow> bool \<times> lease_result" where
  "release now s l =
     (case lm_owner l of
        Some ow \<Rightarrow>
          if lo_sessionId ow = s then
            (let (l', ev) = grantNext now (l\<lparr> lm_owner := None, lm_expirationTimer := None \<rparr>)
             in (True, l', EvReleased ow # ev))
          else (False, snd (removeWaitersForSession s l))
      | None \<Rightarrow> (False, snd (removeWaitersForSession s l)))"

definition disconnect :: "string \<Rightarrow> lease_manager \<Rightarrow> disconnect_relation \<times> lease_result" where
  "disconnect s l =
     (if owned_by l s then (RelOwner, l, [])
      else (let (removed, l', ev) = removeWaitersForSession s l
            in (if removed then RelWaiter else RelNone, l', ev)))"

definition snapshot :: "int \<Rightarrow> string \<Rightarrow> lease_manager \<Rightarrow> lease_snapshot \<times> lease_result" where
  "snapshot now s l0 =
     (let (l, ev) = expireIfDue now l0 in
      case lm_owner l of
        None \<Rightarrow>
          (\<lparr> ls_held = False, ls_heldByCaller = False, ls_ownerLabel = None, ls_acquiredAt = None,
             ls_lastActivityAt = None, ls_expiresAt = None, ls_reminder = False \<rparr>, l, ev)
      | Some ow \<Rightarrow>
          (\<lparr> ls_held = True, ls_heldByCaller = (lo_sessionId ow = s),
             ls_ownerLabel = Some (lo_label ow), ls_acquiredAt = Some (lo_acquiredAt ow),
             ls_lastActivityAt = Some (lo_lastActivityAt ow),
             ls_expiresAt = Some (lo_lastActivityAt ow + lm_ttlMs l),
             ls_reminder = (lo_sessionId ow = s) \<rparr>, l, ev))"

definition clearWaiters :: "lease_manager \<Rightarrow> lease_result" where
  "clearWaiters l =
     (l\<lparr> lm_waiters := [] \<rparr>, concat (map (\<lambda>w. settle w refused) (lm_waiters l)))"

definition close_lease :: "lease_manager \<Rightarrow> lease_result" where
  "close_lease l = clearWaiters l"

text \<open>The callback of a ticket's timer.\<close>

definition expireTicket :: "string \<Rightarrow> lease_manager \<Rightarrow> lease_result" where
  "expireTicket i l =
     (case queue_index i (lm_waiters l) of
        None \<Rightarrow> (l, [])
      | Some k \<Rightarrow>
          (let w = lm_waiters l ! k
           in (l\<lparr> lm_waiters := take k (lm_waiters l) @ drop (Suc k) (lm_waiters l) \<rparr>,
               settle w refused @ [EvTicketExpired (w_ticket w)])))"

end
