(* ===== verification/Lease_Props.thy ===== *)
theory Lease_Props
  imports Lease
begin

text \<open>
  Correctness of the lease manager. The commands are the calls the broker makes and the callbacks
  of the manager's timers; a run executes them in any order at non-decreasing clock readings,
  drawing fresh ticket identifiers and promises.
\<close>

subsection \<open>Commands and runs\<close>

datatype lease_cmd =
    CAcquire string string string bool
  | CWait string nat string string int "string option"
  | CWaitTimeout nat
  | CTouch string
  | CRelease string
  | CDisconnect string
  | CSetBlocked bool
  | CExpire
  | CExpireTicket string
  | CClearWaiters
  | CSnapshot string

fun lease_exec :: "int \<Rightarrow> lease_cmd \<Rightarrow> lease_manager \<Rightarrow> lease_result" where
  "lease_exec now (CAcquire i s label enq) l = snd (acquire now i s label enq l)"
| "lease_exec now (CWait i p s label ms tid) l = snd (wait now i p s label ms tid l)"
| "lease_exec now (CWaitTimeout p) l = wait_timeout p l"
| "lease_exec now (CTouch s) l = (snd (touch now s l), [])"
| "lease_exec now (CRelease s) l = snd (release now s l)"
| "lease_exec now (CDisconnect s) l = snd (disconnect s l)"
| "lease_exec now (CSetBlocked b) l = setBlocked now b l"
| "lease_exec now CExpire l = expireIfDue now l"
| "lease_exec now (CExpireTicket i) l = expireTicket i l"
| "lease_exec now CClearWaiters l = clearWaiters l"
| "lease_exec now (CSnapshot s) l = snd (snapshot now s l)"

fun promises :: "waiter list \<Rightarrow> nat list" where
  "promises [] = []"
| "promises (w # ws) = (case w_resolve w of None \<Rightarrow> promises ws | Some p \<Rightarrow> p # promises ws)"

abbreviation pending :: "lease_manager \<Rightarrow> nat set" where
  "pending l \<equiv> set (promises (lm_waiters l))"

definition resolved :: "lease_event list \<Rightarrow> nat set" where
  "resolved ev = {p. \<exists>r. EvResolved p r \<in> set ev}"

fun fresh_for :: "lease_manager \<Rightarrow> lease_cmd \<Rightarrow> bool" where
  "fresh_for l (CAcquire i _ _ _) \<longleftrightarrow> i \<notin> w_id ` set (lm_waiters l)"
| "fresh_for l (CWait i p _ _ _ _) \<longleftrightarrow> i \<notin> w_id ` set (lm_waiters l) \<and> p \<notin> pending l"
| "fresh_for l _ \<longleftrightarrow> True"

inductive lease_reachable :: "int \<Rightarrow> int \<Rightarrow> int \<Rightarrow> lease_manager \<Rightarrow> bool" for ttl tttl where
  start: "lease_reachable ttl tttl now (new_lease_manager ttl tttl)"
| step: "lease_reachable ttl tttl now l \<Longrightarrow> now \<le> now' \<Longrightarrow> fresh_for l c \<Longrightarrow>
         lease_exec now' c l = (l', ev) \<Longrightarrow> lease_reachable ttl tttl now' l'"

subsection \<open>What the loops compute\<close>

abbreviation lapsed :: "int \<Rightarrow> waiter \<Rightarrow> bool" where
  "lapsed now w \<equiv> wt_expiresAt (w_ticket w) \<le> now"

definition live :: "int \<Rightarrow> lease_manager \<Rightarrow> waiter list" where
  "live now l = dropWhile (lapsed now) (lm_waiters l)"

definition refuse_all :: "waiter list \<Rightarrow> lease_event list" where
  "refuse_all ws = concat (map (\<lambda>w. settle w refused) ws)"

lemma refuse_all_simps [simp]:
  "refuse_all [] = []"
  "refuse_all (w # ws) = settle w refused @ refuse_all ws"
  "refuse_all (xs @ ys) = refuse_all xs @ refuse_all ys"
  by (simp_all add: refuse_all_def)

lemma drop_expired_eq:
  "drop_expired now ws = (dropWhile (lapsed now) ws, refuse_all (takeWhile (lapsed now) ws))"
  by (induction ws) auto

lemma grant_loop_eq:
  "grant_loop now ws l =
     (case dropWhile (lapsed now) ws of
        [] \<Rightarrow> (l\<lparr> lm_waiters := [] \<rparr>, refuse_all (takeWhile (lapsed now) ws))
      | w # r \<Rightarrow>
          if w_resolve w = None
          then (l\<lparr> lm_waiters := w # r \<rparr>, refuse_all (takeWhile (lapsed now) ws))
          else (let (l', ev) = assignOwner now (w_session w) (w_label w) (l\<lparr> lm_waiters := r \<rparr>)
                in (l', refuse_all (takeWhile (lapsed now) ws) @ ev @ settle w granted)))"
proof (induction ws)
  case Nil
  then show ?case by simp
next
  case (Cons w ws)
  show ?case
  proof (cases "lapsed now w")
    case True
    show ?thesis
      by (cases "dropWhile (lapsed now) ws") (simp_all add: True Cons.IH Let_def split_def del: dropWhile_eq_Nil_conv)
  next
    case False
    then show ?thesis by (simp add: Let_def split_def)
  qed
qed

lemma assignOwner_simps [simp]:
  "lm_owner (fst (assignOwner now s label l)) =
     Some \<lparr> lo_sessionId = s, lo_label = label, lo_acquiredAt = now, lo_lastActivityAt = now \<rparr>"
  "lm_waiters (fst (assignOwner now s label l)) = lm_waiters l"
  "lm_blocked (fst (assignOwner now s label l)) = lm_blocked l"
  "lm_ttlMs (fst (assignOwner now s label l)) = lm_ttlMs l"
  "lm_expirationTimer (fst (assignOwner now s label l)) \<noteq> None"
  "resolved (snd (assignOwner now s label l)) = {}"
  by (simp_all add: assignOwner_def scheduleExpiration_def Let_def resolved_def)

lemma touch_simps [simp]:
  "lm_waiters (snd (touch now s l)) = lm_waiters l"
  "lm_blocked (snd (touch now s l)) = lm_blocked l"
  "map_option lo_sessionId (lm_owner (snd (touch now s l))) = map_option lo_sessionId (lm_owner l)"
  "lm_owner (snd (touch now s l)) = None \<longleftrightarrow> lm_owner l = None"
  "fst (touch now s l) \<longleftrightarrow> owned_by l s"
  by (auto simp: touch_def scheduleExpiration_def owned_by_def split: option.splits)

lemma removeWaitersForSession_simps [simp]:
  "lm_waiters (fst (snd (removeWaitersForSession s l))) =
     filter (\<lambda>w. w_session w \<noteq> s) (lm_waiters l)"
  "lm_owner (fst (snd (removeWaitersForSession s l))) = lm_owner l"
  "lm_blocked (fst (snd (removeWaitersForSession s l))) = lm_blocked l"
  "lm_expirationTimer (fst (snd (removeWaitersForSession s l))) = lm_expirationTimer l"
  by (simp_all add: removeWaitersForSession_def Let_def)

lemma expireIfDue_simps [simp]:
  "lm_waiters (fst (expireIfDue now l)) = lm_waiters l"
  "lm_ticketTtlMs (fst (expireIfDue now l)) = lm_ticketTtlMs l"
  "resolved (snd (expireIfDue now l)) = {}"
  by (auto simp: expireIfDue_def resolved_def split: option.splits)

lemma map_first_cases:
  "map_first P f xs = xs \<and> (\<forall>x \<in> set xs. \<not> P x) \<or>
   (\<exists>a y b. xs = a @ y # b \<and> P y \<and> (\<forall>x \<in> set a. \<not> P x) \<and> map_first P f xs = a @ f y # b)"
proof (cases "dropWhile (\<lambda>x. \<not> P x) xs")
  case Nil
  have "map_first P f xs = xs" by (simp only: map_first_def Nil list.case)
  moreover have "\<forall>x \<in> set xs. \<not> P x" using Nil by simp
  ultimately show ?thesis by blast
next
  case (Cons y b)
  then have "xs = takeWhile (\<lambda>x. \<not> P x) xs @ y # b"
    by (metis takeWhile_dropWhile_id)
  moreover have "P y"
    using Cons hd_dropWhile [of "\<lambda>x. \<not> P x" xs] by auto
  moreover have "\<forall>x \<in> set (takeWhile (\<lambda>x. \<not> P x) xs). \<not> P x"
    using set_takeWhileD by fastforce
  ultimately show ?thesis
    using Cons by (auto simp: map_first_def)
qed

lemma map_first_map:
  assumes "\<And>x. g (f x) = g x"
  shows "map g (map_first P f xs) = map g xs"
  using map_first_cases [of P f xs] assms by auto

lemma queue_index_SomeD: "queue_index i ws = Some k \<Longrightarrow> k < length ws \<and> w_id (ws ! k) = i"
  by (induction ws arbitrary: k) (auto split: if_splits)


text \<open>
  \<open>acquire\<close> without its intermediate steps: the session that owns the lease keeps it, a session that
  \<open>may_take\<close> gets it, and every other one is queued.
\<close>

definition may_take :: "int \<Rightarrow> string \<Rightarrow> lease_manager \<Rightarrow> bool" where
  "may_take now s l \<longleftrightarrow> lm_owner l = None \<and> \<not> lm_blocked l \<and>
     (case live now l of [] \<Rightarrow> True | w # _ \<Rightarrow> w_session w = s)"

definition pruned :: "int \<Rightarrow> lease_manager \<Rightarrow> lease_manager" where
  "pruned now l =
     (if lm_owner l = None \<and> \<not> lm_blocked l then l\<lparr> lm_waiters := live now l \<rparr> else l)"

definition pruned_events :: "int \<Rightarrow> lease_manager \<Rightarrow> lease_event list" where
  "pruned_events now l =
     (if lm_owner l = None \<and> \<not> lm_blocked l
      then refuse_all (takeWhile (lapsed now) (lm_waiters l)) else [])"

lemma pruned_simps [simp]:
  "lm_owner (pruned now l) = lm_owner l"
  "lm_blocked (pruned now l) = lm_blocked l"
  "lm_expirationTimer (pruned now l) = lm_expirationTimer l"
  "lm_ticketTtlMs (pruned now l) = lm_ticketTtlMs l"
  by (simp_all add: pruned_def)

lemma acquire_eq:
  assumes "expireIfDue now l0 = (l, ev)"
  shows "acquire now i s label enq l0 =
    (if owned_by l s then (granted, snd (touch now s l), ev)
     else if may_take now s l then
       (let (_, l2, ev2) = removeWaitersForSession s (pruned now l);
            (l3, ev3) = assignOwner now s label l2
        in (granted, l3, ev @ pruned_events now l @ ev2 @ ev3))
     else
       (let (r, l2, ev2) = wait_in_queue now i s label enq (pruned now l)
        in (r, l2, ev @ pruned_events now l @ ev2)))"
proof (cases "owned_by l s \<or> lm_owner l \<noteq> None \<or> lm_blocked l")
  case True
  then show ?thesis
    by (auto simp: acquire_def assms may_take_def pruned_def pruned_events_def split_def Let_def)
next
  case False
  have first: "firstEligibleSession now l =
      (case live now l of [] \<Rightarrow> None | w # _ \<Rightarrow> Some (w_session w), pruned now l,
       pruned_events now l)"
    using False by (simp add: firstEligibleSession_def drop_expired_eq live_def pruned_def
        pruned_events_def)
  have ws: "lm_waiters (pruned now l) = live now l"
    using False by (simp add: pruned_def)
  have none: "live now l = [] \<Longrightarrow>
      removeWaitersForSession s (pruned now l) = (False, pruned now l, [])"
    using ws by (simp add: removeWaitersForSession_def)
  show ?thesis
    using False by (cases "live now l")
      (simp_all add: acquire_def assms first may_take_def ws none Let_def split_def)
qed

lemma wait_in_queue_cases:
  "wait_in_queue now i s label enq l = (r, l', ev) \<Longrightarrow>
     \<not> ar_acquired r \<and> resolved ev = {} \<and>
     (l' = l \<and> ev = [] \<or>
      enq \<and> s \<notin> w_session ` set (lm_waiters l) \<and>
      (\<exists>w. l' = l\<lparr> lm_waiters := lm_waiters l @ [w] \<rparr> \<and> w_session w = s \<and> w_id w = i \<and>
           w_label w = label \<and> w_resolve w = None \<and> w_waitTimer w = None))"
  unfolding wait_in_queue_def enqueue_ticket_def
  by (auto simp: queued_result_def refused_def resolved_def Let_def split: option.splits if_splits
      dest: find_NoneD)

subsection \<open>The invariant\<close>

definition queue_ok :: "waiter list \<Rightarrow> bool" where
  "queue_ok ws \<longleftrightarrow> distinct (map w_session ws) \<and> distinct (map w_id ws) \<and>
     distinct (promises ws) \<and>
     (\<forall>w \<in> set ws. w_resolve w = None \<longleftrightarrow> w_waitTimer w = None)"

definition lease_ok :: "lease_manager \<Rightarrow> bool" where
  "lease_ok l \<longleftrightarrow> queue_ok (lm_waiters l) \<and>
     (\<forall>ow. lm_owner l = Some ow \<longrightarrow> lo_sessionId ow \<notin> w_session ` set (lm_waiters l)) \<and>
     (lm_owner l = None \<longleftrightarrow> lm_expirationTimer l = None)"

lemma subseq_promises: "subseq xs ys \<Longrightarrow> subseq (promises xs) (promises ys)"
  by (induction rule: list_emb.induct) (auto split: option.splits)

lemma subseq_set: "subseq xs ys \<Longrightarrow> set xs \<subseteq> set ys"
  by (induction rule: list_emb.induct) auto

lemma subseq_distinct: "subseq xs ys \<Longrightarrow> distinct ys \<Longrightarrow> distinct xs"
  by (induction rule: list_emb.induct) (auto dest: subseq_set)

lemma queue_ok_subseq:
  assumes "subseq xs ys" and "queue_ok ys"
  shows "queue_ok xs"
  using assms(2) subseq_set [OF assms(1)] subseq_distinct [OF subseq_map [OF assms(1)]]
    subseq_distinct [OF subseq_promises [OF assms(1)]]
  unfolding queue_ok_def by blast

lemma subseq_dropWhile [simp]: "subseq (dropWhile P xs) xs"
  by (rule suffix_imp_subseq [OF suffix_dropWhile])

lemma set_promises: "set (promises ws) = {p. \<exists>w \<in> set ws. w_resolve w = Some p}"
  by (induction ws) (auto split: option.splits)

lemma promises_append [simp]: "promises (xs @ ys) = promises xs @ promises ys"
  by (induction xs) (auto split: option.splits)

lemma queue_ok_snoc:
  assumes "queue_ok ws" "w_session w \<notin> w_session ` set ws" "w_id w \<notin> w_id ` set ws"
    and "w_resolve w = None" "w_waitTimer w = None"
  shows "queue_ok (ws @ [w])"
  using assms by (auto simp: queue_ok_def)

lemma queue_ok_set_resolve:
  assumes "queue_ok (a @ w # b)" and "r = None \<longleftrightarrow> t = None"
    and "\<And>p. r = Some p \<Longrightarrow> p \<notin> set (promises (a @ b))"
  shows "queue_ok (a @ w\<lparr> w_resolve := r, w_waitTimer := t \<rparr> # b)"
  using assms by (cases r) (auto simp: queue_ok_def split: option.splits)

lemma lease_ok_subseq:
  assumes "lease_ok l" "subseq (lm_waiters l') (lm_waiters l)"
    and "map_option lo_sessionId (lm_owner l') = map_option lo_sessionId (lm_owner l)"
    and "lm_expirationTimer l' = None \<longleftrightarrow> lm_expirationTimer l = None"
  shows "lease_ok l'"
  using assms queue_ok_subseq [OF assms(2)] subseq_set [OF assms(2)]
  unfolding lease_ok_def by (auto simp: map_option_case split: option.splits)

lemma lease_ok_assign:
  assumes "queue_ok (lm_waiters l)" "s \<notin> w_session ` set (lm_waiters l)"
  shows "lease_ok (fst (assignOwner now s label l))"
  using assms by (simp add: lease_ok_def)

lemma lease_ok_touch: "lease_ok l \<Longrightarrow> lease_ok (snd (touch now s l))"
  by (auto simp: touch_def scheduleExpiration_def lease_ok_def split: option.splits)

lemma lease_ok_expireIfDue: "lease_ok l \<Longrightarrow> lease_ok (fst (expireIfDue now l))"
  by (auto simp: lease_ok_def expireIfDue_def split: option.splits)

lemma lease_ok_remove: "lease_ok l \<Longrightarrow> lease_ok (fst (snd (removeWaitersForSession s l)))"
  by (erule lease_ok_subseq) simp_all

lemma lease_ok_pruned: "lease_ok l \<Longrightarrow> lease_ok (pruned now l)"
  by (erule lease_ok_subseq) (simp_all add: pruned_def live_def)

lemma pruned_set: "set (lm_waiters (pruned now l)) \<subseteq> set (lm_waiters l)"
  by (auto simp: pruned_def live_def dest: set_dropWhileD)

lemma lease_ok_acquire:
  assumes "lease_ok l0" and "i \<notin> w_id ` set (lm_waiters l0)"
  shows "lease_ok (fst (snd (acquire now i s label enq l0)))"
proof -
  obtain l ev where e: "expireIfDue now l0 = (l, ev)" by fastforce
  have ok: "lease_ok l" and ws: "lm_waiters l = lm_waiters l0"
    using lease_ok_expireIfDue [OF assms(1), of now] expireIfDue_simps(1) [of now l0]
    by (simp_all add: e)
  consider "owned_by l s" | "\<not> owned_by l s" "may_take now s l" | "\<not> owned_by l s" "\<not> may_take now s l"
    by blast
  then show ?thesis
  proof cases
    case 1
    then show ?thesis by (simp add: acquire_eq [OF e] lease_ok_touch ok)
  next
    case 2
    have "lease_ok (fst (snd (removeWaitersForSession s (pruned now l))))"
      by (intro lease_ok_remove lease_ok_pruned ok)
    then show ?thesis
      using 2 by (auto simp: acquire_eq [OF e] split_def Let_def lease_ok_def [of "fst (snd _)"]
          intro!: lease_ok_assign)
  next
    case 3
    obtain r l2 ev2 where q: "wait_in_queue now i s label enq (pruned now l) = (r, l2, ev2)"
      by (metis prod_cases3)
    have pok: "lease_ok (pruned now l)" by (rule lease_ok_pruned [OF ok])
    have "lease_ok l2"
      using wait_in_queue_cases [OF q]
    proof (elim conjE disjE exE)
      fix w
      assume w: "l2 = pruned now l\<lparr> lm_waiters := lm_waiters (pruned now l) @ [w] \<rparr>"
        "w_session w = s" "w_id w = i" "s \<notin> w_session ` set (lm_waiters (pruned now l))"
        "w_resolve w = None" "w_waitTimer w = None"
      have "queue_ok (lm_waiters (pruned now l) @ [w])"
        using pok w assms(2) pruned_set [of now l] by (intro queue_ok_snoc) (auto simp: lease_ok_def ws)
      then show ?thesis
        using pok w 3(1) by (auto simp: lease_ok_def owned_by_def split: option.splits)
    qed (use pok in simp)
    then show ?thesis using 3 by (simp add: acquire_eq [OF e] q)
  qed
qed

lemma grantNext_cases:
  "grantNext now l = (l', ev) \<Longrightarrow>
     (lm_blocked l \<or> lm_owner l \<noteq> None) \<and> l' = l \<and> ev = [] \<or>
     \<not> lm_blocked l \<and> lm_owner l = None \<and>
       (l' = l\<lparr> lm_waiters := live now l \<rparr> \<and>
          ev = refuse_all (takeWhile (lapsed now) (lm_waiters l)) \<and>
          (live now l = [] \<or> w_resolve (hd (live now l)) = None) \<or>
        (\<exists>w r. live now l = w # r \<and> w_resolve w \<noteq> None \<and>
           l' = fst (assignOwner now (w_session w) (w_label w) (l\<lparr> lm_waiters := r \<rparr>)) \<and>
           ev = refuse_all (takeWhile (lapsed now) (lm_waiters l)) @
                snd (assignOwner now (w_session w) (w_label w) (l\<lparr> lm_waiters := r \<rparr>)) @
                settle w granted))"
  unfolding grantNext_def grant_loop_eq live_def
  by (auto simp: Let_def split_def live_def split: list.splits if_splits
      simp del: dropWhile_eq_Nil_conv)

lemma subseq_live: "subseq (live now l) (lm_waiters l)"
  by (simp add: live_def)

lemma lease_ok_grantNext:
  assumes "lease_ok l"
  shows "lease_ok (fst (grantNext now l))"
proof -
  obtain l' ev where g: "grantNext now l = (l', ev)" by fastforce
  have q: "queue_ok (live now l)"
    using queue_ok_subseq [OF subseq_live] assms by (simp add: lease_ok_def)
  show ?thesis
    using grantNext_cases [OF g]
  proof (elim disjE conjE exE)
    fix w r
    assume w: "live now l = w # r" and
      l': "l' = fst (assignOwner now (w_session w) (w_label w) (l\<lparr> lm_waiters := r \<rparr>))"
    have "queue_ok r" "w_session w \<notin> w_session ` set r"
      using q queue_ok_subseq [of r "w # r"] by (auto simp: w queue_ok_def)
    then have "lease_ok l'" unfolding l' by (intro lease_ok_assign) simp_all
    then show ?thesis by (simp add: g)
  qed (use assms q in \<open>auto simp: g lease_ok_def\<close>)
qed

lemma wait_cases:
  assumes "wait now i p s label ms tid l0 = (r, l', ev)"
  obtains (same) a where "acquire now i s label True l0 = (a, l', ev)" "r \<noteq> Pending p"
  | (park) a l xs w ys where "acquire now i s label True l0 = (a, l, ev)" "\<not> ar_acquired a"
      "r = Pending p" "lm_waiters l = xs @ w # ys" "w_resolve w = None" "w_session w = s"
      "l' = l\<lparr> lm_waiters :=
         xs @ w\<lparr> w_resolve := Some p, w_waitTimer := Some (now + ms) \<rparr> # ys \<rparr>"
proof -
  obtain a l e where a: "acquire now i s label True l0 = (a, l, e)" by (metis prod_cases3)
  let ?mine = "\<lambda>w. w_session w = s \<and> (tid = None \<or> tid = Some (w_id w))"
  let ?f = "\<lambda>w. w\<lparr> w_resolve := Some p, w_waitTimer := Some (now + ms) \<rparr>"
  show ?thesis
  proof (cases "ar_acquired a")
    case True
    then show ?thesis using assms same [of a] by (auto simp: wait_def a)
  next
    case False
    show ?thesis
    proof (cases "find ?mine (lm_waiters l)")
      case None
      then show ?thesis using assms same [of a] False by (auto simp: wait_def a Let_def)
    next
      case (Some w)
      show ?thesis
      proof (cases "w_resolve w")
        case None
        from Some have "\<exists>x \<in> set (lm_waiters l). ?mine x" using find_SomeD by fast
        then obtain xs y ys where split: "lm_waiters l = xs @ y # ys" "?mine y"
          "\<forall>x \<in> set xs. \<not> ?mine x" "map_first ?mine ?f (lm_waiters l) = xs @ ?f y # ys"
          using map_first_cases [of ?mine ?f "lm_waiters l"] by blast
        have "y = w" using Some split(1) find_skip [OF split(3,2), of ys] by simp
        then show ?thesis
          using assms False Some None split park [of a l xs w ys] by (auto simp: wait_def a Let_def)
      next
        case (Some q)
        then show ?thesis
          using assms same [of a] False \<open>find ?mine (lm_waiters l) = Some w\<close>
          by (auto simp: wait_def a Let_def)
      qed
    qed
  qed
qed

lemma wait_timeout_cases:
  assumes "wait_timeout p l = (l', ev)"
  obtains (none) "p \<notin> pending l" "l' = l" "ev = []"
  | (some) xs w ys where "lm_waiters l = xs @ w # ys" "w_resolve w = Some p"
      "l' = l\<lparr> lm_waiters := xs @ w\<lparr> w_resolve := None, w_waitTimer := None \<rparr> # ys \<rparr>"
      "resolved ev = {p}"
proof (cases "find (\<lambda>w. w_resolve w = Some p) (lm_waiters l)")
  case None
  then have "p \<notin> pending l" using find_NoneD by (fastforce simp: set_promises)
  then show ?thesis using none assms None by (simp add: wait_timeout_def)
next
  case (Some w)
  let ?f = "\<lambda>w. w\<lparr> w_resolve := None, w_waitTimer := None \<rparr>"
  obtain xs y ys where split: "lm_waiters l = xs @ y # ys" "w_resolve y = Some p"
    "map_first (\<lambda>w. w_resolve w = Some p) ?f (lm_waiters l) = xs @ ?f y # ys"
    using map_first_cases [of "\<lambda>w. w_resolve w = Some p" ?f "lm_waiters l"] find_SomeD [OF Some] by blast
  show ?thesis
    using assms Some split by (intro some [of xs y ys]) (auto simp: wait_timeout_def resolved_def)
qed

subsection \<open>The promises of \<open>vm_wait\<close>\<close>

text \<open>Every promise that leaves the queue is settled, and nothing else is.\<close>

definition accounts :: "lease_manager \<Rightarrow> lease_manager \<Rightarrow> lease_event list \<Rightarrow> bool" where
  "accounts l l' ev \<longleftrightarrow> pending l' = pending l - resolved ev \<and> resolved ev \<subseteq> pending l"

lemma resolved_simps [simp]:
  "resolved [] = {}"
  "resolved (xs @ ys) = resolved xs \<union> resolved ys"
  "resolved (EvResolved p r # xs) = insert p (resolved xs)"
  "resolved (EvReleased ow # xs) = resolved xs"
  "resolved (EvTicketExpired t # xs) = resolved xs"
  by (auto simp: resolved_def)

lemma resolved_settle [simp]: "resolved (settle w r) = set (promises [w])"
  by (auto simp: settle_def split: option.splits)

lemma resolved_refuse_all [simp]: "resolved (refuse_all ws) = set (promises ws)"
  by (induction ws) (auto split: option.splits)

lemma accounts_refl: "lm_waiters l' = lm_waiters l \<Longrightarrow> resolved ev = {} \<Longrightarrow> accounts l l' ev"
  by (simp add: accounts_def)

lemma accounts_trans:
  "accounts l l1 e1 \<Longrightarrow> accounts l1 l2 e2 \<Longrightarrow> accounts l l2 (e1 @ e2)"
  by (auto simp: accounts_def)

lemma accounts_split:
  assumes "distinct (promises (lm_waiters l))" "lm_waiters l = gone @ lm_waiters l'"
    and "resolved ev = set (promises gone)"
  shows "accounts l l' ev"
  using assms by (auto simp: accounts_def)

lemma promises_filter:
  "set (promises ws) = set (promises (filter P ws)) \<union> set (promises (filter (\<lambda>w. \<not> P w) ws))"
  by (auto simp: set_promises)

lemma promises_filter_disjoint:
  "distinct (promises ws) \<Longrightarrow>
     set (promises (filter P ws)) \<inter> set (promises (filter (\<lambda>w. \<not> P w) ws)) = {}"
  by (induction ws) (auto simp: set_promises split: option.splits)

lemma resolved_removed: "resolved (concat (map (\<lambda>w. settle w r) ws)) = set (promises ws)"
  by (induction ws) (auto split: option.splits)

lemma accounts_remove:
  assumes "distinct (promises (lm_waiters l))"
  shows "accounts l (fst (snd (removeWaitersForSession s l))) (snd (snd (removeWaitersForSession s l)))"
proof -
  have "set (promises (rev ws)) = set (promises ws)" for ws by (simp add: set_promises)
  then show ?thesis
    using promises_filter [of "lm_waiters l" "\<lambda>w. w_session w \<noteq> s"]
      promises_filter_disjoint [OF assms, of "\<lambda>w. w_session w \<noteq> s"]
    by (auto simp: accounts_def removeWaitersForSession_def Let_def resolved_removed)
qed

lemma accounts_pruned:
  assumes "distinct (promises (lm_waiters l))"
  shows "accounts l (pruned now l) (pruned_events now l)"
proof (cases "lm_owner l = None \<and> \<not> lm_blocked l")
  case True
  then show ?thesis
    by (intro accounts_split [OF assms, of "takeWhile (lapsed now) (lm_waiters l)"])
      (simp_all add: pruned_def pruned_events_def live_def)
next
  case False
  then show ?thesis by (auto simp: pruned_def pruned_events_def intro: accounts_refl)
qed

lemma lease_ok_promises: "lease_ok l \<Longrightarrow> distinct (promises (lm_waiters l))"
  by (simp add: lease_ok_def queue_ok_def)

lemma accounts_acquire:
  assumes "lease_ok l0" and "acquire now i s label enq l0 = (r, l', ev')"
  shows "accounts l0 l' ev'"
proof -
  obtain l ev where e: "expireIfDue now l0 = (l, ev)" by fastforce
  have ok: "lease_ok l" and ws: "accounts l0 l ev"
    using lease_ok_expireIfDue [OF assms(1), of now] expireIfDue_simps(1,3) [of now l0]
    by (auto simp: e intro: accounts_refl)
  note p = accounts_pruned [OF lease_ok_promises [OF ok], of now]
  consider "owned_by l s" | "\<not> owned_by l s" "may_take now s l" | "\<not> owned_by l s" "\<not> may_take now s l"
    by blast
  then show ?thesis
  proof cases
    case 1
    then have "accounts l l' []" "ev' = ev"
      using assms(2) by (auto simp: acquire_eq [OF e] intro: accounts_refl)
    then show ?thesis using accounts_trans [OF ws, of l' "[]"] by simp
  next
    case 2
    obtain b l2 e2 where rm: "removeWaitersForSession s (pruned now l) = (b, l2, e2)"
      by (metis prod_cases3)
    have r: "accounts (pruned now l) l2 e2"
      using accounts_remove [OF lease_ok_promises [OF lease_ok_pruned [OF ok]], of now s]
      by (simp add: rm)
    have l': "l' = fst (assignOwner now s label l2)"
      "ev' = ev @ pruned_events now l @ e2 @ snd (assignOwner now s label l2)"
      using 2 assms(2) by (auto simp: acquire_eq [OF e] rm split_def Let_def)
    have "accounts l2 l' (snd (assignOwner now s label l2))"
      by (rule accounts_refl) (simp_all add: l')
    from accounts_trans [OF ws accounts_trans [OF p accounts_trans [OF r this]]]
    show ?thesis by (simp add: l'(2))
  next
    case 3
    obtain r2 l2 e2 where q: "wait_in_queue now i s label enq (pruned now l) = (r2, l2, e2)"
      by (metis prod_cases3)
    then have "accounts (pruned now l) l2 e2"
      using wait_in_queue_cases [OF q] by (auto simp: accounts_def)
    moreover have "l' = l2" "ev' = ev @ pruned_events now l @ e2"
      using 3 assms(2) by (auto simp: acquire_eq [OF e] q)
    ultimately show ?thesis using accounts_trans [OF ws accounts_trans [OF p, of l2 e2]] by simp
  qed
qed

lemma lease_ok_wait:
  assumes "lease_ok l0" and "i \<notin> w_id ` set (lm_waiters l0)" and "p \<notin> pending l0"
  shows "lease_ok (fst (snd (wait now i p s label ms tid l0)))"
proof -
  obtain r l' ev where w: "wait now i p s label ms tid l0 = (r, l', ev)" by (metis prod_cases3)
  from w show ?thesis
  proof (cases rule: wait_cases)
    case (same a)
    then show ?thesis using lease_ok_acquire [OF assms(1,2), of now s label True] by (simp add: w)
  next
    case (park a l xs y ys)
    have ok: "lease_ok l"
      using lease_ok_acquire [OF assms(1,2), of now s label True] by (simp add: park(1))
    have "p \<notin> pending l"
      using accounts_acquire [OF assms(1) park(1)] assms(3) by (auto simp: accounts_def)
    then have "queue_ok (xs @ y\<lparr> w_resolve := Some p, w_waitTimer := Some (now + ms) \<rparr> # ys)"
      using ok park by (intro queue_ok_set_resolve) (auto simp: lease_ok_def)
    then show ?thesis using ok park by (auto simp: w lease_ok_def)
  qed
qed

lemma lease_ok_wait_timeout:
  assumes "lease_ok l"
  shows "lease_ok (fst (wait_timeout p l))"
proof -
  obtain l' ev where w: "wait_timeout p l = (l', ev)" by fastforce
  from w show ?thesis
  proof (cases rule: wait_timeout_cases)
    case none
    then show ?thesis using assms by (simp add: w)
  next
    case (some xs y ys)
    have "queue_ok (xs @ y\<lparr> w_resolve := None, w_waitTimer := None \<rparr> # ys)"
      using assms some by (intro queue_ok_set_resolve) (auto simp: lease_ok_def)
    then show ?thesis using assms some by (auto simp: w lease_ok_def)
  qed
qed

lemma expireTicket_cases:
  assumes "expireTicket i l = (l', ev)"
  obtains (none) "l' = l" "ev = []"
  | (some) xs w ys where "lm_waiters l = xs @ w # ys" "w_id w = i"
      "l' = l\<lparr> lm_waiters := xs @ ys \<rparr>" "ev = settle w refused @ [EvTicketExpired (w_ticket w)]"
proof (cases "queue_index i (lm_waiters l)")
  case None
  then show ?thesis using none assms by (simp add: expireTicket_def)
next
  case (Some k)
  then show ?thesis
    using assms queue_index_SomeD [OF Some] id_take_nth_drop [of k "lm_waiters l"]
    by (intro some) (auto simp: expireTicket_def Let_def)
qed

lemma lease_ok_expireTicket: "lease_ok l \<Longrightarrow> lease_ok (fst (expireTicket i l))"
proof -
  assume ok: "lease_ok l"
  obtain l' ev where e: "expireTicket i l = (l', ev)" by fastforce
  from e show ?thesis
  proof (cases rule: expireTicket_cases)
    case (some xs w ys)
    have "subseq (xs @ ys) (xs @ w # ys)" by (induction xs) auto
    then show ?thesis using lease_ok_subseq [OF ok, of l'] some by (simp add: e)
  qed (use ok in \<open>simp add: e\<close>)
qed

lemma lease_ok_exec:
  assumes "lease_ok l" and "fresh_for l c"
  shows "lease_ok (fst (lease_exec now c l))"
proof (cases c)
  case (CRelease s)
  have "lease_ok (l\<lparr> lm_owner := None, lm_expirationTimer := None \<rparr>)"
    using assms(1) by (simp add: lease_ok_def)
  then show ?thesis
    using lease_ok_grantNext [of "l\<lparr> lm_owner := None, lm_expirationTimer := None \<rparr>" now]
      lease_ok_remove [OF assms(1)]
    by (auto simp: CRelease release_def split_def Let_def split: option.splits)
next
  case (CSetBlocked b)
  have "lease_ok (l\<lparr> lm_blocked := b \<rparr>)" using assms(1) by (simp add: lease_ok_def)
  then show ?thesis
    using lease_ok_grantNext [of "l\<lparr> lm_blocked := b \<rparr>" now]
    by (auto simp: CSetBlocked setBlocked_def Let_def)
next
  case CClearWaiters
  show ?thesis
    using assms(1) by (auto simp: CClearWaiters clearWaiters_def intro: lease_ok_subseq)
qed (use assms in \<open>auto simp: lease_ok_acquire lease_ok_wait lease_ok_wait_timeout
      lease_ok_touch lease_ok_expireIfDue lease_ok_expireTicket lease_ok_remove disconnect_def
      snapshot_def split_def Let_def split: option.splits\<close>)

lemma lease_reachable_ok: "lease_reachable ttl tttl now l \<Longrightarrow> lease_ok l"
proof (induction rule: lease_reachable.induct)
  case (start now)
  then show ?case by (simp add: lease_ok_def queue_ok_def new_lease_manager_def)
next
  case (step now l now' c l' ev)
  then show ?case using lease_ok_exec [of l c now'] by simp
qed

fun started :: "int \<Rightarrow> lease_cmd \<Rightarrow> lease_manager \<Rightarrow> nat set" where
  "started now (CWait i p s label ms tid) l =
     (if fst (wait now i p s label ms tid l) = Pending p then {p} else {})"
| "started now _ l = {}"

lemma accounts_grantNext:
  assumes "distinct (promises (lm_waiters l))" and "grantNext now l = (l', ev)"
  shows "accounts l l' ev"
proof -
  have split: "lm_waiters l = takeWhile (lapsed now) (lm_waiters l) @ live now l"
    by (simp add: live_def)
  have prune: "accounts l (l\<lparr> lm_waiters := live now l \<rparr>)
      (refuse_all (takeWhile (lapsed now) (lm_waiters l)))"
    using split by (intro accounts_split [OF assms(1)]) simp_all
  show ?thesis
    using grantNext_cases [OF assms(2)]
  proof (elim disjE conjE exE)
    fix w r
    assume w: "live now l = w # r" and
      l': "l' = fst (assignOwner now (w_session w) (w_label w) (l\<lparr> lm_waiters := r \<rparr>))"
      "ev = refuse_all (takeWhile (lapsed now) (lm_waiters l)) @
            snd (assignOwner now (w_session w) (w_label w) (l\<lparr> lm_waiters := r \<rparr>)) @
            settle w granted"
    show ?thesis
    proof (rule accounts_split [OF assms(1), of "takeWhile (lapsed now) (lm_waiters l) @ [w]"])
      show "lm_waiters l = (takeWhile (lapsed now) (lm_waiters l) @ [w]) @ lm_waiters l'"
        using split by (simp add: w l')
    qed (simp add: l')
  qed (use prune in \<open>auto intro: accounts_refl\<close>)
qed

lemma accounts_expireTicket:
  assumes "distinct (promises (lm_waiters l))" and "expireTicket i l = (l', ev)"
  shows "accounts l l' ev"
  using assms(2)
proof (cases rule: expireTicket_cases)
  case (some xs w ys)
  then show ?thesis using assms(1) by (auto simp: accounts_def split: option.splits)
qed (auto intro: accounts_refl)

lemma accounts_release:
  assumes "lease_ok l" and "release now s l = (b, l', ev)"
  shows "accounts l l' ev"
proof (cases "owned_by l s")
  case True
  let ?l = "l\<lparr> lm_owner := None, lm_expirationTimer := None \<rparr>"
  obtain l2 e where g: "grantNext now ?l = (l2, e)" by fastforce
  have "accounts ?l l2 e"
    using accounts_grantNext [OF _ g] lease_ok_promises [OF assms(1)] by simp
  then show ?thesis
    using True assms(2) g by (auto simp: release_def owned_by_def accounts_def split: option.splits)
next
  case False
  then have "snd (release now s l) = snd (removeWaitersForSession s l)"
    by (auto simp: release_def owned_by_def split: option.splits)
  then show ?thesis
    using accounts_remove [OF lease_ok_promises [OF assms(1)], of s] assms(2)
    by (metis fst_conv snd_conv)
qed

lemma accounts_exec:
  assumes "lease_ok l" and "fresh_for l c" and "lease_exec now c l = (l', ev)"
    and "\<forall>i p s label ms tid. c \<noteq> CWait i p s label ms tid" "\<forall>p. c \<noteq> CWaitTimeout p"
  shows "accounts l l' ev"
proof (cases c)
  case (CAcquire i s label enq)
  obtain r where "acquire now i s label enq l = (r, l', ev)"
    using assms(3) CAcquire by (metis lease_exec.simps(1) snd_conv surj_pair)
  then show ?thesis by (rule accounts_acquire [OF assms(1)])
next
  case (CRelease s)
  obtain b where "release now s l = (b, l', ev)"
    using assms(3) CRelease by (metis lease_exec.simps(5) snd_conv surj_pair)
  then show ?thesis by (rule accounts_release [OF assms(1)])
next
  case (CDisconnect s)
  then show ?thesis
    using assms(3) accounts_remove [OF lease_ok_promises [OF assms(1)], of s]
    by (auto simp: disconnect_def split_def Let_def intro: accounts_refl split: if_splits)
next
  case (CSetBlocked b)
  have "accounts (l\<lparr> lm_blocked := False \<rparr>) l' ev" if "\<not> b"
    using that assms(3) CSetBlocked lease_ok_promises [OF assms(1)]
    by (intro accounts_grantNext [of _ now]) (auto simp: setBlocked_def)
  then show ?thesis
    using assms(3) CSetBlocked by (cases b) (auto simp: setBlocked_def accounts_def)
next
  case (CExpireTicket i)
  then show ?thesis
    using assms(3) accounts_expireTicket [OF lease_ok_promises [OF assms(1)]] by simp
next
  case CClearWaiters
  then show ?thesis
    using assms(3) by (auto simp: clearWaiters_def accounts_def resolved_removed)
next
  case (CTouch s)
  then show ?thesis using assms(3) by (auto intro: accounts_refl)
next
  case CExpire
  then show ?thesis
    using assms(3) expireIfDue_simps(1,3) [of now l] by (auto intro: accounts_refl)
next
  case (CSnapshot s)
  then have "expireIfDue now l = (l', ev)"
    using assms(3)
    by (auto simp: snapshot_def split_def Let_def prod_eq_iff split: option.splits)
  then show ?thesis
    using expireIfDue_simps(1,3) [of now l] by (auto intro: accounts_refl)
qed (use assms in auto)

lemma pending_exec:
  assumes ok: "lease_ok l" and fresh: "fresh_for l c" and run: "lease_exec now c l = (l', ev)"
  shows "pending l' = (pending l - resolved ev) \<union> started now c l \<and> resolved ev \<subseteq> pending l"
proof (cases c)
  case (CWait i p s label ms tid)
  obtain r where w: "wait now i p s label ms tid l = (r, l', ev)"
    using run CWait by (metis lease_exec.simps(2) snd_conv surj_pair)
  from w show ?thesis
  proof (cases rule: wait_cases)
    case (same a)
    then show ?thesis
      using accounts_acquire [OF ok same(1)] by (auto simp: CWait w accounts_def)
  next
    case (park a l2 xs y ys)
    then show ?thesis
      using accounts_acquire [OF ok park(1)] fresh by (auto simp: CWait w accounts_def)
  qed
next
  case (CWaitTimeout p)
  then have "wait_timeout p l = (l', ev)" using run by simp
  then show ?thesis
  proof (cases rule: wait_timeout_cases)
    case (some xs w ys)
    then show ?thesis using lease_ok_promises [OF ok] by (auto simp: CWaitTimeout)
  qed (auto simp: CWaitTimeout)
qed (use accounts_exec [OF ok fresh run] in \<open>auto simp: accounts_def\<close>)

subsection \<open>The order of the queue\<close>

abbreviation tickets :: "lease_manager \<Rightarrow> wait_ticket list" where
  "tickets l \<equiv> map w_ticket (lm_waiters l)"

definition fifo_step :: "lease_manager \<Rightarrow> lease_manager \<Rightarrow> lease_event list \<Rightarrow> bool" where
  "fifo_step l l' ev \<longleftrightarrow>
     (\<exists>kept new. tickets l' = kept @ new \<and> subseq kept (tickets l) \<and> length new \<le> 1 \<and>
        (\<forall>t \<in> set new. EvQueued t \<in> set ev))"

lemma fifo_subseq: "subseq (lm_waiters l') (lm_waiters l) \<Longrightarrow> fifo_step l l' ev"
  unfolding fifo_step_def by (intro exI [of _ "tickets l'"] exI [of _ "[]"]) (simp add: subseq_map)

lemma fifo_tickets: "tickets l' = tickets l \<Longrightarrow> fifo_step l l' ev"
  unfolding fifo_step_def by (intro exI [of _ "tickets l'"] exI [of _ "[]"]) simp

lemma fifo_acquire:
  assumes "acquire now i s label enq l0 = (r, l', ev')"
  shows "fifo_step l0 l' ev'"
proof -
  obtain l ev where e: "expireIfDue now l0 = (l, ev)" by fastforce
  have ws: "lm_waiters l = lm_waiters l0" using expireIfDue_simps(1) [of now l0] by (simp add: e)
  have p: "subseq (lm_waiters (pruned now l)) (lm_waiters l0)"
    by (simp add: pruned_def subseq_live ws [symmetric])
  consider "owned_by l s" | "\<not> owned_by l s" "may_take now s l" | "\<not> owned_by l s" "\<not> may_take now s l"
    by blast
  then show ?thesis
  proof cases
    case 1
    then show ?thesis using assms by (auto simp: acquire_eq [OF e] ws intro!: fifo_tickets)
  next
    case 2
    then have "lm_waiters l' = filter (\<lambda>w. w_session w \<noteq> s) (lm_waiters (pruned now l))"
      using assms by (auto simp: acquire_eq [OF e] split_def Let_def)
    then show ?thesis
      using subseq_order.trans [OF subseq_filter_left p] by (simp add: fifo_subseq)
  next
    case 3
    obtain r2 l2 e2 where q: "wait_in_queue now i s label enq (pruned now l) = (r2, l2, e2)"
      by (metis prod_cases3)
    have l2: "l' = l2" "ev' = ev @ pruned_events now l @ e2"
      using 3 assms by (auto simp: acquire_eq [OF e] q)
    have "find (\<lambda>w. w_session w = s) (lm_waiters (pruned now l)) = None \<and> enq \<and>
        (\<exists>w. lm_waiters l2 = lm_waiters (pruned now l) @ [w] \<and> EvQueued (w_ticket w) \<in> set e2) \<or>
        l2 = pruned now l"
      using q by (auto simp: wait_in_queue_def enqueue_ticket_def Let_def split: option.splits if_splits)
    then show ?thesis
    proof (elim disjE conjE exE)
      fix w assume "lm_waiters l2 = lm_waiters (pruned now l) @ [w]" "EvQueued (w_ticket w) \<in> set e2"
      then show ?thesis
        unfolding fifo_step_def l2
        by (intro exI [of _ "tickets (pruned now l)"] exI [of _ "[w_ticket w]"])
          (simp add: subseq_map p)
    next
      assume "l2 = pruned now l"
      then show ?thesis using p by (simp add: l2 fifo_subseq)
    qed
  qed
qed

lemma grantNext_subseq: "subseq (lm_waiters (fst (grantNext now l))) (lm_waiters l)"
proof -
  obtain l' ev where g: "grantNext now l = (l', ev)" by fastforce
  show ?thesis
    using grantNext_cases [OF g]
  proof (elim disjE conjE exE)
    fix w r assume "live now l = w # r"
      "l' = fst (assignOwner now (w_session w) (w_label w) (l\<lparr> lm_waiters := r \<rparr>))"
    moreover have "subseq r (w # r)" by (rule list_emb_Cons) simp
    ultimately show ?thesis
      using subseq_order.trans [of r "w # r" "lm_waiters l"] subseq_live [of now l] by (simp add: g)
  qed (auto simp: g subseq_live)
qed

lemma remove_eqD:
  "snd (removeWaitersForSession s l) = (l', ev) \<Longrightarrow>
     lm_waiters l' = filter (\<lambda>w. w_session w \<noteq> s) (lm_waiters l) \<and> lm_owner l' = lm_owner l \<and>
     lm_blocked l' = lm_blocked l"
  using removeWaitersForSession_simps [of s l] by (auto simp: prod_eq_iff)

lemma fifo_exec: "lease_exec now c l = (l', ev) \<Longrightarrow> fifo_step l l' ev"
proof (cases c)
  assume run: "lease_exec now c l = (l', ev)"
  {
    case (CAcquire i s label enq)
    obtain r where "acquire now i s label enq l = (r, l', ev)"
      using run CAcquire by (metis lease_exec.simps(1) snd_conv surj_pair)
    then show ?thesis by (rule fifo_acquire)
  next
    case (CWait i p s label ms tid)
    obtain r where w: "wait now i p s label ms tid l = (r, l', ev)"
      using run CWait by (metis lease_exec.simps(2) snd_conv surj_pair)
    from w show ?thesis
    proof (cases rule: wait_cases)
      case (park a l2 xs y ys)
      have "tickets l' = tickets l2" using park by simp
      then show ?thesis using fifo_acquire [OF park(1)] by (simp add: fifo_step_def)
    qed (rule fifo_acquire)
  next
    case (CWaitTimeout p)
    then have "wait_timeout p l = (l', ev)" using run by simp
    then show ?thesis by (cases rule: wait_timeout_cases) (auto intro: fifo_tickets)
  next
    case (CTouch s)
    then show ?thesis using run by (auto intro: fifo_tickets)
  next
    case (CRelease s)
    then show ?thesis
      using run grantNext_subseq [of now "l\<lparr> lm_owner := None, lm_expirationTimer := None \<rparr>"]
      by (auto simp: release_def split_def Let_def dest!: remove_eqD intro!: fifo_subseq
          split: option.splits if_splits)
  next
    case (CDisconnect s)
    then show ?thesis
      using run by (auto simp: disconnect_def split_def Let_def dest!: remove_eqD
          intro!: fifo_subseq split: if_splits)
  next
    case (CSetBlocked b)
    then show ?thesis
      using run grantNext_subseq [of now "l\<lparr> lm_blocked := b \<rparr>"]
      by (auto simp: setBlocked_def Let_def intro!: fifo_subseq split: if_splits)
  next
    case CExpire
    then show ?thesis using run expireIfDue_simps(1) [of now l] by (auto intro: fifo_tickets)
  next
    case (CExpireTicket i)
    then have "expireTicket i l = (l', ev)" using run by simp
    then show ?thesis
    proof (cases rule: expireTicket_cases)
      case (some xs w ys)
      have "subseq (xs @ ys) (xs @ w # ys)" by (induction xs) auto
      then show ?thesis using some by (simp add: fifo_subseq)
    qed (simp add: fifo_tickets)
  next
    case CClearWaiters
    then show ?thesis using run by (auto simp: clearWaiters_def intro: fifo_subseq)
  next
    case (CSnapshot s)
    then have "expireIfDue now l = (l', ev)"
      using run by (auto simp: snapshot_def split_def Let_def prod_eq_iff split: option.splits)
    then show ?thesis using expireIfDue_simps(1) [of now l] by (auto intro: fifo_tickets)
  }
qed

subsection \<open>Who becomes the owner\<close>

text \<open>
  A command keeps the owner's session, or drops the owner, or installs a new one at the instant
  of the command. The last needs an unblocked lease that nobody else holds.
\<close>

definition takeover :: "int \<Rightarrow> lease_cmd \<Rightarrow> lease_manager \<Rightarrow> lease_manager \<Rightarrow> lease_event list \<Rightarrow> bool" where
  "takeover now c l l' ev \<longleftrightarrow>
     (\<forall>ow. lm_owner l' = Some ow \<and> map_option lo_sessionId (lm_owner l) \<noteq> Some (lo_sessionId ow) \<longrightarrow>
        EvAcquired ow \<in> set ev \<and> lo_acquiredAt ow = now \<and> \<not> lm_blocked l' \<and>
        (lm_blocked l \<longrightarrow> c = CSetBlocked False) \<and>
        (\<forall>ow0. lm_owner l = Some ow0 \<longrightarrow> c = CRelease (lo_sessionId ow0)))"

lemma takeover_same:
  "map_option lo_sessionId (lm_owner l') = map_option lo_sessionId (lm_owner l) \<or>
   lm_owner l' = None \<Longrightarrow> takeover now c l l' ev"
  by (cases "lm_owner l") (auto simp: takeover_def)

lemma assignOwner_event: "EvAcquired (the (lm_owner (fst (assignOwner now s label l))))
    \<in> set (snd (assignOwner now s label l))"
  by (simp add: assignOwner_def scheduleExpiration_def Let_def)

lemma expireIfDue_owner:
  "expireIfDue now l0 = (l, ev) \<Longrightarrow>
     l = l0 \<and> (\<forall>ow. lm_owner l0 = Some ow \<longrightarrow> now < lo_lastActivityAt ow + lm_ttlMs l0) \<or>
     lm_owner l = None \<and> lm_blocked l \<and>
       (\<exists>ow. lm_owner l0 = Some ow \<and> lo_lastActivityAt ow + lm_ttlMs l0 \<le> now)"
  by (auto simp: expireIfDue_def split: option.splits if_splits)

lemma takeover_acquire:
  assumes "acquire now i s label enq l0 = (r, l', ev')"
  shows "takeover now c l0 l' ev'"
proof -
  obtain l ev where e: "expireIfDue now l0 = (l, ev)" by fastforce
  note due = expireIfDue_owner [OF e]
  consider "owned_by l s" | "\<not> owned_by l s" "may_take now s l" | "\<not> owned_by l s" "\<not> may_take now s l"
    by blast
  then show ?thesis
  proof cases
    case 1
    then have "l' = snd (touch now s l)" using assms by (simp add: acquire_eq [OF e])
    then show ?thesis
      using due by (intro takeover_same) (metis touch_simps(3,4))
  next
    case 2
    obtain b l2 e2 where rm: "removeWaitersForSession s (pruned now l) = (b, l2, e2)"
      by (metis prod_cases3)
    have l2: "lm_blocked l2 = lm_blocked l"
      using removeWaitersForSession_simps(3) [of s "pruned now l"] by (simp add: rm)
    have "l' = fst (assignOwner now s label l2)" "snd (assignOwner now s label l2) = drop (length ev + length (pruned_events now l) + length e2) ev'"
      using 2 assms by (auto simp: acquire_eq [OF e] rm split_def Let_def)
    then have "EvAcquired (the (lm_owner l')) \<in> set ev'"
      using assignOwner_event [of now s label l2] by (metis in_set_dropD)
    moreover have "l = l0 \<and> lm_owner l0 = None \<and> \<not> lm_blocked l0"
      using 2(2) due by (auto simp: may_take_def)
    ultimately show ?thesis
      using l2 \<open>l' = _\<close> by (auto simp: takeover_def)
  next
    case 3
    obtain r2 l2 e2 where q: "wait_in_queue now i s label enq (pruned now l) = (r2, l2, e2)"
      by (metis prod_cases3)
    have "lm_owner l' = lm_owner l"
      using wait_in_queue_cases [OF q] 3 assms by (auto simp: acquire_eq [OF e] q)
    then show ?thesis using due by (intro takeover_same) auto
  qed
qed

lemma takeover_grantNext:
  assumes "grantNext now l = (l', ev)"
  shows "lm_owner l' = lm_owner l \<or>
    (lm_owner l = None \<and> \<not> lm_blocked l \<and> \<not> lm_blocked l' \<and>
     (\<exists>ow. lm_owner l' = Some ow \<and> EvAcquired ow \<in> set ev \<and> lo_acquiredAt ow = now))"
  using grantNext_cases [OF assms]
proof (elim disjE conjE exE)
  fix w r
  let ?a = "assignOwner now (w_session w) (w_label w) (l\<lparr> lm_waiters := r \<rparr>)"
  assume "\<not> lm_blocked l" "lm_owner l = None" "l' = fst ?a"
    "ev = refuse_all (takeWhile (lapsed now) (lm_waiters l)) @ snd ?a @ settle w granted"
  then show ?thesis
    using assignOwner_event [of now "w_session w" "w_label w" "l\<lparr> lm_waiters := r \<rparr>"] by auto
qed auto

lemma takeover_exec: "lease_exec now c l = (l', ev) \<Longrightarrow> takeover now c l l' ev"
proof (cases c)
  assume run: "lease_exec now c l = (l', ev)"
  {
    case (CAcquire i s label enq)
    obtain r where "acquire now i s label enq l = (r, l', ev)"
      using run CAcquire by (metis lease_exec.simps(1) snd_conv surj_pair)
    then show ?thesis by (rule takeover_acquire)
  next
    case (CWait i p s label ms tid)
    obtain r where w: "wait now i p s label ms tid l = (r, l', ev)"
      using run CWait by (metis lease_exec.simps(2) snd_conv surj_pair)
    from w show ?thesis
    proof (cases rule: wait_cases)
      case (park a l2 xs y ys)
      then have "lm_owner l' = lm_owner l2" "lm_blocked l' = lm_blocked l2" by simp_all
      then show ?thesis using takeover_acquire [OF park(1), of c] by (simp only: takeover_def)
    qed (rule takeover_acquire)
  next
    case (CWaitTimeout p)
    then have "wait_timeout p l = (l', ev)" using run by simp
    then show ?thesis by (cases rule: wait_timeout_cases) (auto intro: takeover_same)
  next
    case (CTouch s)
    then have "l' = snd (touch now s l)" using run by auto
    then show ?thesis by (intro takeover_same disjI1) (simp only: touch_simps)
  next
    case (CRelease s)
    let ?l = "l\<lparr> lm_owner := None, lm_expirationTimer := None \<rparr>"
    obtain l2 e2 where g: "grantNext now ?l = (l2, e2)" by fastforce
    show ?thesis
      using run takeover_grantNext [OF g]
      by (auto simp: CRelease release_def g split_def Let_def takeover_def dest!: remove_eqD
          split: option.splits if_splits)
  next
    case (CDisconnect s)
    then show ?thesis
      using run by (auto simp: disconnect_def split_def Let_def dest!: remove_eqD
          intro!: takeover_same split: if_splits)
  next
    case (CSetBlocked b)
    obtain l2 e2 where g: "grantNext now (l\<lparr> lm_blocked := False \<rparr>) = (l2, e2)" by fastforce
    show ?thesis
      using run takeover_grantNext [OF g]
      by (cases b) (auto simp: CSetBlocked setBlocked_def g takeover_def Let_def)
  next
    case CExpire
    then show ?thesis
      using run expireIfDue_owner [of now l l' ev] by (intro takeover_same) auto
  next
    case (CExpireTicket i)
    then have "expireTicket i l = (l', ev)" using run by simp
    then show ?thesis by (cases rule: expireTicket_cases) (auto intro: takeover_same)
  next
    case CClearWaiters
    then show ?thesis using run by (auto simp: clearWaiters_def intro: takeover_same)
  next
    case (CSnapshot s)
    then have "expireIfDue now l = (l', ev)"
      using run by (auto simp: snapshot_def split_def Let_def prod_eq_iff split: option.splits)
    then show ?thesis
      using expireIfDue_owner [of now l l' ev] by (intro takeover_same) auto
  }
qed

subsection \<open>The answer of \<open>acquire\<close>\<close>

lemma queue_index_nth:
  "distinct (map w_id ws) \<Longrightarrow> k < length ws \<Longrightarrow> queue_index (w_id (ws ! k)) ws = Some k"
  by (induction ws arbitrary: k) (auto simp: nth_Cons split: nat.splits)

lemma wait_in_queue_ticket:
  "wait_in_queue now i s label True l = (r, l', ev) \<Longrightarrow>
     \<exists>w \<in> set (lm_waiters l'). w_session w = s \<and> r = queued_result l' (w_ticket w)"
  by (auto simp: wait_in_queue_def enqueue_ticket_def Let_def dest: find_SomeD split: option.splits)

lemma acquire_grants_iff:
  assumes "acquire now i s label enq l0 = (r, l', ev')"
  shows "(ar_acquired r \<longleftrightarrow>
      (case lm_owner l0 of
         Some ow \<Rightarrow> lo_sessionId ow = s \<and> now < lo_lastActivityAt ow + lm_ttlMs l0
       | None \<Rightarrow> \<not> lm_blocked l0 \<and> (case live now l0 of [] \<Rightarrow> True | w # _ \<Rightarrow> w_session w = s))) \<and>
    (ar_acquired r \<longrightarrow> owned_by l' s)"
proof -
  obtain l ev where e: "expireIfDue now l0 = (l, ev)" by fastforce
  have iff: "(case lm_owner l0 of
         Some ow \<Rightarrow> lo_sessionId ow = s \<and> now < lo_lastActivityAt ow + lm_ttlMs l0
       | None \<Rightarrow> \<not> lm_blocked l0 \<and> (case live now l0 of [] \<Rightarrow> True | w # _ \<Rightarrow> w_session w = s)) \<longleftrightarrow>
      owned_by l s \<or> may_take now s l"
    using expireIfDue_owner [OF e]
    by (auto simp: owned_by_def may_take_def split: option.splits)
  show ?thesis
  proof (cases "owned_by l s")
    case True
    then have "r = granted" "l' = snd (touch now s l)"
      using assms by (simp_all add: acquire_eq [OF e])
    moreover have "owned_by (snd (touch now s l)) s"
      using True by (auto simp: owned_by_def touch_def scheduleExpiration_def split: option.splits)
    ultimately show ?thesis using True by (simp add: iff granted_def)
  next
    case no: False
    show ?thesis
    proof (cases "may_take now s l")
      case True
      then show ?thesis
        using assms no by (auto simp: acquire_eq [OF e] iff granted_def owned_by_def split_def Let_def)
    next
      case False
      then show ?thesis
        using assms no wait_in_queue_cases [of now i s label enq "pruned now l"]
        by (auto simp: acquire_eq [OF e] iff split_def Let_def prod_eq_iff)
    qed
  qed
qed

lemma acquire_queues:
  assumes "lease_ok l0" "i \<notin> w_id ` set (lm_waiters l0)"
    and "acquire now i s label enq l0 = (r, l', ev')"
  shows "\<not> ar_acquired r \<and> enq \<longrightarrow>
      (\<exists>k < length (lm_waiters l'). w_session (lm_waiters l' ! k) = s \<and>
         ar_ticket r = Some (w_ticket (lm_waiters l' ! k)) \<and> ar_queuePosition r = Some (k + 1))"
proof
  assume no: "\<not> ar_acquired r \<and> enq"
  obtain l ev where e: "expireIfDue now l0 = (l, ev)" by fastforce
  obtain r2 l2 e2 where q: "wait_in_queue now i s label enq (pruned now l) = (r2, l2, e2)"
    by (metis prod_cases3)
  have "r = r2 \<and> l' = l2"
    using no assms(3) q by (auto simp: acquire_eq [OF e] q granted_def split_def Let_def split: if_splits)
  then obtain k where k: "k < length (lm_waiters l')" "w_session (lm_waiters l' ! k) = s"
    "r = queued_result l' (w_ticket (lm_waiters l' ! k))"
    using wait_in_queue_ticket [of now i s label "pruned now l" r2 l2 e2] q no
    by (auto simp: in_set_conv_nth)
  have "lease_ok l'" using lease_ok_acquire [OF assms(1,2), of now s label enq] assms(3) by simp
  then have "queue_index (w_id (lm_waiters l' ! k)) (lm_waiters l') = Some k"
    using k(1) by (simp add: queue_index_nth lease_ok_def queue_ok_def)
  then show "\<exists>k < length (lm_waiters l'). w_session (lm_waiters l' ! k) = s \<and>
         ar_ticket r = Some (w_ticket (lm_waiters l' ! k)) \<and> ar_queuePosition r = Some (k + 1)"
    using k by (intro exI [of _ k]) (simp add: queued_result_def queuePosition_def)
qed

subsection \<open>Properties\<close>

text \<open>
  C13. In every state the lease manager can reach, a session has at most one queue entry,
  ticket identifiers and pending \<open>vm_wait\<close> promises are unique, the owner is not queued, the
  expiration timer is armed exactly while there is an owner, and a waiter has a wait timer exactly
  while it has a pending promise.
\<close>

theorem lease_reachable_inv:
  assumes "lease_reachable ttl tttl now l"
  shows "distinct (map w_session (lm_waiters l)) \<and> distinct (map w_id (lm_waiters l)) \<and>
    distinct (promises (lm_waiters l)) \<and>
    (\<forall>ow. lm_owner l = Some ow \<longrightarrow> lo_sessionId ow \<notin> w_session ` set (lm_waiters l)) \<and>
    (lm_owner l = None \<longleftrightarrow> lm_expirationTimer l = None) \<and>
    (\<forall>w \<in> set (lm_waiters l). w_resolve w = None \<longleftrightarrow> w_waitTimer w = None)"
  using lease_reachable_ok [OF assms] by (simp add: lease_ok_def queue_ok_def)

text \<open>A concrete run: one session holds the lease, a second one has a ticket, a third waits.\<close>

definition demo_owned :: lease_manager where
  "demo_owned = fst (lease_exec 0 (CAcquire ''t0'' ''a'' ''A'' True) (new_lease_manager 100 50))"

definition demo_queued :: lease_manager where
  "demo_queued = fst (lease_exec 1 (CAcquire ''t1'' ''b'' ''B'' True) demo_owned)"

definition demo_waiting :: lease_manager where
  "demo_waiting = fst (lease_exec 2 (CWait ''t2'' 7 ''c'' ''C'' 20 None) demo_queued)"

lemmas demo_eval = demo_owned_def demo_queued_def demo_waiting_def new_lease_manager_def
  acquire_def expireIfDue_def owned_by_def firstEligibleSession_def removeWaitersForSession_def
  assignOwner_def scheduleExpiration_def wait_in_queue_def enqueue_ticket_def queued_result_def
  queuePosition_def wait_def map_first_def Let_def granted_def refused_def

lemma demo_states:
  "demo_owned = \<lparr> lm_ttlMs = 100, lm_ticketTtlMs = 50,
     lm_owner = Some \<lparr> lo_sessionId = ''a'', lo_label = ''A'', lo_acquiredAt = 0,
                       lo_lastActivityAt = 0 \<rparr>,
     lm_waiters = [], lm_expirationTimer = Some 100, lm_blocked = False \<rparr>"
  "demo_queued = demo_owned\<lparr> lm_waiters :=
     [\<lparr> w_ticket = \<lparr> wt_id = ''t1'', wt_sessionId = ''b'', wt_createdAt = 1, wt_expiresAt = 51 \<rparr>,
        w_label = ''B'', w_resolve = None, w_waitTimer = None, w_ticketTimer = 51 \<rparr>] \<rparr>"
  "demo_waiting = demo_queued\<lparr> lm_waiters := lm_waiters demo_queued @
     [\<lparr> w_ticket = \<lparr> wt_id = ''t2'', wt_sessionId = ''c'', wt_createdAt = 2, wt_expiresAt = 52 \<rparr>,
        w_label = ''C'', w_resolve = Some 7, w_waitTimer = Some 22, w_ticketTimer = 52 \<rparr>] \<rparr>"
  by (simp_all add: demo_eval)

lemma demo_reachable: "lease_reachable 100 50 2 demo_waiting"
proof -
  have 0: "lease_reachable 100 50 0 demo_owned"
    by (rule lease_reachable.step [OF lease_reachable.start [of 100 50 0], of 0 "CAcquire ''t0'' ''a'' ''A'' True"])
      (auto simp: new_lease_manager_def demo_owned_def prod_eq_iff)
  have 1: "lease_reachable 100 50 1 demo_queued"
    by (rule lease_reachable.step [OF 0, of 1 "CAcquire ''t1'' ''b'' ''B'' True"])
      (auto simp: demo_queued_def prod_eq_iff, simp add: demo_states)
  show ?thesis
    by (rule lease_reachable.step [OF 1, of 2 "CWait ''t2'' 7 ''c'' ''C'' 20 None"])
      (auto simp: demo_waiting_def prod_eq_iff, auto simp: demo_states)
qed

theorem lease_reachable_inv_witness:
  "distinct (map w_session (lm_waiters demo_waiting)) \<and> map w_session (lm_waiters demo_waiting) = [''b'', ''c'']"
  using lease_reachable_inv [OF demo_reachable] by (simp add: demo_states)

text \<open>
  C17. \<open>acquire\<close> grants the lease exactly to its current owner before the deadline, or,
  when nobody owns an unblocked lease, to the session at the head of the unexpired queue or to
  anyone when that queue is empty. The session then owns the lease; a refused session that asked
  to be queued has a ticket, and the reported position is its place in the queue.
\<close>

theorem acquire_granted_iff:
  assumes "acquire now i s label enq l = (r, l', ev)" and "lease_reachable ttl tttl now0 l"
    and "i \<notin> w_id ` set (lm_waiters l)"
  shows "(ar_acquired r \<longleftrightarrow>
      (case lm_owner l of
         Some ow \<Rightarrow> lo_sessionId ow = s \<and> now < lo_lastActivityAt ow + lm_ttlMs l
       | None \<Rightarrow> \<not> lm_blocked l \<and>
           (case dropWhile (\<lambda>w. wt_expiresAt (w_ticket w) \<le> now) (lm_waiters l) of
              [] \<Rightarrow> True
            | w # _ \<Rightarrow> w_session w = s))) \<and>
    (ar_acquired r \<longrightarrow> owned_by l' s) \<and>
    (\<not> ar_acquired r \<and> enq \<longrightarrow>
      (\<exists>k < length (lm_waiters l'). w_session (lm_waiters l' ! k) = s \<and>
         ar_ticket r = Some (w_ticket (lm_waiters l' ! k)) \<and> ar_queuePosition r = Some (k + 1)))"
  using acquire_grants_iff [OF assms(1), unfolded live_def]
    acquire_queues [OF lease_reachable_ok [OF assms(2)] assms(3,1)]
  by blast

theorem acquire_granted_iff_witness:
  "\<exists>r l' ev. acquire 60 ''t9'' ''d'' ''D'' True demo_waiting = (r, l', ev) \<and> \<not> ar_acquired r \<and>
     ar_queuePosition r = Some 3"
proof -
  obtain r l' ev where a: "acquire 60 ''t9'' ''d'' ''D'' True demo_waiting = (r, l', ev)"
    by (metis prod_cases3)
  have "ar_queuePosition r = Some 3"
    using a by (auto simp: demo_states acquire_def expireIfDue_def owned_by_def wait_in_queue_def
        enqueue_ticket_def queued_result_def queuePosition_def Let_def)
  then show ?thesis
    using acquire_granted_iff [OF a demo_reachable] a by (simp add: demo_states)
qed

text \<open>
  C15. Whatever is called, the queue keeps its order: the tickets after the call are some of
  the tickets before it, in the same order, followed by at most one new ticket that was announced.
\<close>

theorem tickets_stay_fifo:
  assumes "lease_exec now c l = (l', ev)"
  shows "\<exists>kept new. map w_ticket (lm_waiters l') = kept @ new \<and>
    subseq kept (map w_ticket (lm_waiters l)) \<and> length new \<le> 1 \<and> (\<forall>t \<in> set new. EvQueued t \<in> set ev)"
  using fifo_exec [OF assms] by (simp add: fifo_step_def)

theorem tickets_stay_fifo_witness:
  "\<exists>kept new. map w_ticket (lm_waiters demo_waiting) = kept @ new \<and>
    subseq kept (map w_ticket (lm_waiters demo_queued)) \<and> length new \<le> 1"
  using tickets_stay_fifo [of 2 "CWait ''t2'' 7 ''c'' ''C'' 20 None" demo_queued demo_waiting
      "snd (lease_exec 2 (CWait ''t2'' 7 ''c'' ''C'' 20 None) demo_queued)"]
  by (auto simp: demo_waiting_def)

text \<open>
  C14. A session becomes the owner only at the instant of the call, with an announcement, on a
  lease that is not blocked, and only if nobody owned it or its owner released it in that very
  call; a blocked lease is given away only by unblocking it.
\<close>

theorem owner_change_needs_free_lease:
  assumes "lease_exec now c l = (l', ev)" and "lm_owner l' = Some ow"
    and "map_option lo_sessionId (lm_owner l) \<noteq> Some (lo_sessionId ow)"
  shows "EvAcquired ow \<in> set ev \<and> lo_acquiredAt ow = now \<and> \<not> lm_blocked l' \<and>
    (lm_blocked l \<longrightarrow> c = CSetBlocked False) \<and>
    (\<forall>ow0. lm_owner l = Some ow0 \<longrightarrow> c = CRelease (lo_sessionId ow0))"
  using takeover_exec [OF assms(1)] assms(2,3) unfolding takeover_def by blast

theorem owner_change_needs_free_lease_witness:
  "\<exists>ev. lease_exec 0 (CAcquire ''t0'' ''a'' ''A'' True) (new_lease_manager 100 50) = (demo_owned, ev) \<and>
     EvAcquired (the (lm_owner demo_owned)) \<in> set ev"
proof -
  obtain ev where r: "lease_exec 0 (CAcquire ''t0'' ''a'' ''A'' True) (new_lease_manager 100 50) = (demo_owned, ev)"
    by (simp add: demo_owned_def prod_eq_iff)
  show ?thesis
    using owner_change_needs_free_lease [OF r, of "the (lm_owner demo_owned)"] r
    by (simp add: demo_states new_lease_manager_def)
qed

text \<open>
  C16. No \<open>vm_wait\<close> call is forgotten: in every reachable state, the pending promises after
  a call are the pending ones before it, less those it settles, with the one it starts; and only
  pending promises are settled.
\<close>

theorem wait_promises_accounted:
  assumes "lease_reachable ttl tttl now0 l" and "fresh_for l c" and "lease_exec now c l = (l', ev)"
  shows "pending l' = (pending l - resolved ev) \<union> started now c l \<and> resolved ev \<subseteq> pending l"
  by (rule pending_exec [OF lease_reachable_ok [OF assms(1)] assms(2,3)])

theorem wait_promises_accounted_witness:
  "\<exists>l' ev. lease_exec 22 (CWaitTimeout 7) demo_waiting = (l', ev) \<and> pending l' = {} \<and> resolved ev = {7}"
proof -
  obtain l' ev where r: "lease_exec 22 (CWaitTimeout 7) demo_waiting = (l', ev)" by fastforce
  have "resolved ev = {7}"
    using r by (auto simp: demo_states wait_timeout_def)
  then show ?thesis
    using wait_promises_accounted [OF demo_reachable _ r] r by (simp add: demo_states)
qed


end
