(* ===== verification/Js_Number.thy ===== *)
theory Js_Number
  imports Js
begin

text \<open>
  \<open>Number(string)\<close>: the numeric literals of JavaScript (decimal with fraction and exponent,
  hexadecimal, octal, binary, the infinities), white space around them, and the rounding of the
  denoted rational to the nearest IEEE double, ties to even. The sign of zero is not kept.
\<close>

subsection \<open>Rounding to a double\<close>

fun ilog2 :: "nat \<Rightarrow> nat" where
  "ilog2 n = (if n < 2 then 0 else Suc (ilog2 (n div 2)))"

declare ilog2.simps [simp del]

definition pow2 :: "int \<Rightarrow> rat" where
  "pow2 e = (if 0 \<le> e then 2 ^ nat e else 1 / 2 ^ nat (- e))"

text \<open>The binary exponent of a positive rational.\<close>

definition exponent2 :: "rat \<Rightarrow> int" where
  "exponent2 q =
     (let (n, d) = quotient_of q; k = int (ilog2 (nat n)) - int (ilog2 (nat d))
      in if q < pow2 k then k - 1 else k)"

definition round_half_even :: "rat \<Rightarrow> int" where
  "round_half_even q =
     (let f = \<lfloor>q\<rfloor>; r = q - of_int f in
      if r < 1 / 2 then f else if r > 1 / 2 then f + 1 else if even f then f else f + 1)"

definition to_double :: "rat \<Rightarrow> jsnum" where
  "to_double q =
     (if q = 0 then Fin 0
      else
        let e = max (exponent2 \<bar>q\<bar> - 52) (- 1074);
            v = of_int (round_half_even (\<bar>q\<bar> * pow2 (- e))) * pow2 e
        in if v \<ge> pow2 1024 then (if q < 0 then NInf else PInf)
           else Fin (if q < 0 then - v else v))"

subsection \<open>Literals\<close>

definition is_digit :: "char \<Rightarrow> bool" where
  "is_digit c \<longleftrightarrow> (let n = of_char c :: nat in 48 \<le> n \<and> n \<le> 57)"

definition digit_value :: "char \<Rightarrow> nat option" where
  "digit_value c =
     (let n = of_char c :: nat in
      if 48 \<le> n \<and> n \<le> 57 then Some (n - 48)
      else if 97 \<le> n \<and> n \<le> 102 then Some (n - 87)
      else if 65 \<le> n \<and> n \<le> 70 then Some (n - 55)
      else None)"

fun digits_in_base :: "nat \<Rightarrow> nat \<Rightarrow> string \<Rightarrow> nat option" where
  "digits_in_base b acc [] = Some acc"
| "digits_in_base b acc (c # cs) =
     (case digit_value c of
        None \<Rightarrow> None
      | Some d \<Rightarrow> if d < b then digits_in_base b (acc * b + d) cs else None)"

definition decimal_value :: "string \<Rightarrow> nat" where
  "decimal_value s = (case digits_in_base 10 0 s of None \<Rightarrow> 0 | Some n \<Rightarrow> n)"

definition pow10 :: "int \<Rightarrow> rat" where
  "pow10 e = (if 0 \<le> e then 10 ^ nat e else 1 / 10 ^ nat (- e))"

definition exponent_part :: "string \<Rightarrow> int option" where
  "exponent_part s =
     (case s of
        [] \<Rightarrow> Some 0
      | c # t \<Rightarrow>
          if c \<in> {CHR ''e'', CHR ''E''} then
            (let (neg, ds) = (case t of
                 [] \<Rightarrow> (False, t)
               | g # u \<Rightarrow> if g = CHR ''-'' then (True, u) else if g = CHR ''+'' then (False, u)
                         else (False, t))
             in if ds = [] \<or> \<not> list_all is_digit ds then None
                else Some (if neg then - int (decimal_value ds) else int (decimal_value ds)))
          else None)"

definition unsigned_decimal :: "string \<Rightarrow> rat option" where
  "unsigned_decimal s =
     (let i = takeWhile is_digit s; r = dropWhile is_digit s;
          (f, r2) = (case r of
              [] \<Rightarrow> ([], r)
            | c # t \<Rightarrow> if c = CHR ''.'' then (takeWhile is_digit t, dropWhile is_digit t)
                      else ([], r))
      in if i = [] \<and> f = [] then None
         else (case exponent_part r2 of
                 None \<Rightarrow> None
               | Some e \<Rightarrow> Some (of_nat (decimal_value (i @ f)) * pow10 (e - int (length f)))))"

definition signed_literal :: "bool \<Rightarrow> string \<Rightarrow> jsnum" where
  "signed_literal neg s =
     (if s = ''Infinity'' then (if neg then NInf else PInf)
      else (case unsigned_decimal s of
              None \<Rightarrow> NaN
            | Some q \<Rightarrow> to_double (if neg then - q else q)))"

definition based_literal :: "nat \<Rightarrow> string \<Rightarrow> jsnum" where
  "based_literal b s =
     (if s = [] then NaN
      else (case digits_in_base b 0 s of None \<Rightarrow> NaN | Some n \<Rightarrow> to_double (of_nat n)))"

definition js_number :: "string \<Rightarrow> jsnum" where
  "js_number s =
     (let t = trim s in
      if t = [] then Fin 0
      else if take 2 t \<in> {''0x'', ''0X''} then based_literal 16 (drop 2 t)
      else if take 2 t \<in> {''0o'', ''0O''} then based_literal 8 (drop 2 t)
      else if take 2 t \<in> {''0b'', ''0B''} then based_literal 2 (drop 2 t)
      else if hd t = CHR ''-'' then signed_literal True (tl t)
      else if hd t = CHR ''+'' then signed_literal False (tl t)
      else signed_literal False t)"

definition js_num_integer :: "string \<Rightarrow> int option" where
  "js_num_integer s = js_integer (JNum (js_number s))"

end
