(* ===== verification/Cli_Options.thy ===== *)
theory Cli_Options
  imports Js_Number
begin

text \<open>
  The command line: \<open>parseCliArgs\<close> of \<open>src/cli-options.ts\<close>. The loop over \<open>argv\<close> is a recursion
  over the tokens not yet read; an option that takes its value from the next token consumes it.
  The collected overrides are the object later merged over the configuration file. The stdio
  adapter starts its broker with \<open>configArgs\<close>, so the tokens collected there have to mean the same
  when they are parsed again.
\<close>

subsection \<open>Data\<close>

definition CLI_COMMANDS :: "string list" where
  "CLI_COMMANDS =
     [''broker'', ''stdio'', ''doctor'', ''simulator'', ''smoke-test'', ''diagnostics'',
      ''client-transfer'', ''tools'', ''call'', ''rpc'', ''help'', ''version'']"

record cli_state =
  cs_command :: "string option"
  cs_commandArgs :: "string list"
  cs_configArgs :: "string list"
  cs_configPath :: "string option"
  cs_overrides :: params
  cs_brokerHost :: "string option"
  cs_brokerPort :: "int option"
  cs_transferRequest :: "string option"
  cs_params :: "string option"
  cs_paramsFile :: "string option"
  cs_imageOut :: "string option"
  cs_vmId :: "string option"

definition cli_start :: cli_state where
  "cli_start =
     \<lparr> cs_command = None, cs_commandArgs = [], cs_configArgs = [], cs_configPath = None,
       cs_overrides = [], cs_brokerHost = None, cs_brokerPort = None, cs_transferRequest = None,
       cs_params = None, cs_paramsFile = None, cs_imageOut = None, cs_vmId = None \<rparr>"

record parsed_cli_options =
  po_command :: string
  po_commandArgs :: "string list"
  po_configArgs :: "string list"
  po_configPath :: "string option"
  po_overrides :: params
  po_brokerHost :: "string option"
  po_brokerPort :: "int option"
  po_transferRequest :: "string option"
  po_params :: "string option"
  po_paramsFile :: "string option"
  po_imageOut :: "string option"
  po_vmId :: "string option"

subsection \<open>Tokens\<close>

definition splitOption :: "string \<Rightarrow> string \<times> string option" where
  "splitOption token =
     (case index_of (CHR ''='') token of
        None \<Rightarrow> (token, None)
      | Some i \<Rightarrow> (take i token, Some (drop (i + 1) token)))"

definition requireValue :: "string list \<Rightarrow> string \<Rightarrow> (string \<times> string list) res" where
  "requireValue rest option =
     (case rest of
        [] \<Rightarrow> Inl (''CLI_VALUE_REQUIRED:'' @ option)
      | value # rest' \<Rightarrow>
          if value = [] \<or> starts_with value ''--'' then Inl (''CLI_VALUE_REQUIRED:'' @ option)
          else Inr (value, rest'))"

definition option_value ::
  "string \<times> string option \<Rightarrow> string list \<Rightarrow> (string \<times> string list) res" where
  "option_value opt rest =
     (case snd opt of Some value \<Rightarrow> Inr (value, rest) | None \<Rightarrow> requireValue rest (fst opt))"

definition port_value :: "string \<Rightarrow> int option" where
  "port_value s =
     (case js_num_integer s of
        Some p \<Rightarrow> if p < 1 \<or> p > 65535 then None else Some p
      | None \<Rightarrow> None)"

definition add_override :: "string \<Rightarrow> js \<Rightarrow> string list \<Rightarrow> cli_state \<Rightarrow> cli_state" where
  "add_override k v args st =
     st\<lparr> cs_overrides := jsput k v (cs_overrides st), cs_configArgs := cs_configArgs st @ args \<rparr>"

text \<open>The options whose value is stored or forwarded, in the order of the code's tests.\<close>

definition upstream_error :: string where
  "upstream_error = ''CLI_INVALID:--upstream (use host:port)''"

definition set_upstream :: "string \<Rightarrow> cli_state \<Rightarrow> cli_state res" where
  "set_upstream value st =
     (case last_index_of (CHR '':'') value of
        None \<Rightarrow> Inl upstream_error
      | Some separator \<Rightarrow>
          if separator = 0 \<or> separator + 1 = length value then Inl upstream_error
          else
            let host = trim (take separator value) in
            (case port_value (drop (separator + 1) value) of
               None \<Rightarrow> Inl upstream_error
             | Some port \<Rightarrow>
                 if host = [] then Inl upstream_error
                 else Inr (add_override ''upstreamEnabled'' (JBool True) [''--upstream'', value]
                        (add_override ''upstreamPort'' (js_of_int port) []
                          (add_override ''upstreamHost'' (JStr host) [] st)))))"

definition VALUE_OPTIONS :: "string list" where
  "VALUE_OPTIONS =
     [''--port'', ''--broker-host'', ''--broker-port'', ''--adapter-port'', ''--config'',
      ''--state-dir'', ''--qemu-root'', ''--qemu-binary'', ''--upstream'', ''--transfer-request'',
      ''--params'', ''--params-file'', ''--image-out'', ''--vm'']"

definition apply_option :: "string \<Rightarrow> string \<Rightarrow> cli_state \<Rightarrow> cli_state res" where
  "apply_option name value st =
     (if name = ''--port'' then
        (case js_num_integer value of
           None \<Rightarrow> Inl ''CLI_INVALID:--port''
         | Some port \<Rightarrow> Inr (add_override ''guestPort'' (js_of_int port) [''--port'', value] st))
      else if name = ''--broker-host'' then
        (if trim value = [] then Inl ''CLI_INVALID:--broker-host''
         else Inr (st\<lparr> cs_brokerHost := Some (trim value) \<rparr>))
      else if name = ''--broker-port'' then
        (case port_value value of
           None \<Rightarrow> Inl ''CLI_INVALID:--broker-port''
         | Some port \<Rightarrow>
             Inr (add_override ''adapterPort'' (js_of_int port) [''--adapter-port'', value]
                    (st\<lparr> cs_brokerPort := Some port \<rparr>)))
      else if name = ''--adapter-port'' then
        (case port_value value of
           None \<Rightarrow> Inl ''CLI_INVALID:--adapter-port''
         | Some port \<Rightarrow>
             Inr (add_override ''adapterPort'' (js_of_int port) [''--adapter-port'', value] st))
      else if name = ''--config'' then
        Inr (st\<lparr> cs_configPath := Some value, cs_configArgs := cs_configArgs st @ [''--config'', value] \<rparr>)
      else if name = ''--state-dir'' then
        Inr (add_override ''stateDir'' (JStr value) [''--state-dir'', value] st)
      else if name = ''--qemu-root'' then
        Inr (add_override ''qemuRoot'' (JStr value) [''--qemu-root'', value] st)
      else if name = ''--qemu-binary'' then
        Inr (add_override ''qemuBinary'' (JStr value) [''--qemu-binary'', value] st)
      else if name = ''--upstream'' then set_upstream value st
      else if name = ''--transfer-request'' then Inr (st\<lparr> cs_transferRequest := Some value \<rparr>)
      else if name = ''--params'' then Inr (st\<lparr> cs_params := Some value \<rparr>)
      else if name = ''--params-file'' then Inr (st\<lparr> cs_paramsFile := Some value \<rparr>)
      else if name = ''--image-out'' then Inr (st\<lparr> cs_imageOut := Some value \<rparr>)
      else if trim value = [] \<or> starts_with value ''-'' then Inl ''CLI_VALUE_REQUIRED:--vm''
      else Inr (st\<lparr> cs_vmId := Some (trim value) \<rparr>))"

definition positional :: "string \<Rightarrow> cli_state \<Rightarrow> cli_state res" where
  "positional token st =
     (if cs_command st = None \<and> token \<in> set CLI_COMMANDS then Inr (st\<lparr> cs_command := Some token \<rparr>)
      else if cs_command st = None \<and> starts_with token ''-''
      then Inl (''CLI_UNKNOWN_OPTION:'' @ token)
      else if cs_command st = None then Inl (''UNKNOWN_COMMAND:'' @ token)
      else Inr (st\<lparr> cs_commandArgs := cs_commandArgs st @ [token] \<rparr>))"

definition parse_token :: "string \<Rightarrow> string list \<Rightarrow> cli_state \<Rightarrow> (cli_state \<times> string list) res" where
  "parse_token token rest st =
     (if token = [] then Inr (st, rest)
      else if token = ''--help'' \<or> token = ''-h'' then Inr (st\<lparr> cs_command := Some ''help'' \<rparr>, rest)
      else if token = ''--version'' \<or> token = ''-V''
      then Inr (st\<lparr> cs_command := Some ''version'' \<rparr>, rest)
      else
        let opt = splitOption token in
        if fst opt \<in> set VALUE_OPTIONS then
          bindR (option_value opt rest) (\<lambda>(value, rest').
          bindR (apply_option (fst opt) value st) (\<lambda>st'. Inr (st', rest')))
        else if fst opt = ''--no-upstream'' then
          Inr (add_override ''upstreamEnabled'' (JBool False) [''--no-upstream''] st, rest)
        else bindR (positional token st) (\<lambda>st'. Inr (st', rest)))"

lemma option_value_length: "option_value opt rest = Inr (v, rest') \<Longrightarrow> length rest' \<le> length rest"
  by (auto simp: option_value_def requireValue_def split: option.splits list.splits if_splits)

lemma parse_token_length: "parse_token t rest st = Inr (st', rest') \<Longrightarrow> length rest' \<le> length rest"
  by (auto simp: parse_token_def bindR_eq_Inr Let_def dest: option_value_length split: if_splits)

function parse_loop :: "string list \<Rightarrow> cli_state \<Rightarrow> cli_state res" where
  "parse_loop [] st = Inr st"
| "parse_loop (token # rest) st =
     (case parse_token token rest st of
        Inl e \<Rightarrow> Inl e
      | Inr (st', rest') \<Rightarrow> parse_loop rest' st')"
  by pat_completeness auto
termination
  by (relation "measure (length \<circ> fst)") (auto simp: less_Suc_eq_le dest: parse_token_length)

definition truthy_str :: "string option \<Rightarrow> string option" where
  "truthy_str s = (if s = Some [] then None else s)"

definition parseCliArgs :: "string list \<Rightarrow> parsed_cli_options res" where
  "parseCliArgs argv =
     bindR (parse_loop argv cli_start) (\<lambda>st. Inr
       \<lparr> po_command = (case cs_command st of None \<Rightarrow> ''stdio'' | Some c \<Rightarrow> c),
         po_commandArgs = cs_commandArgs st, po_configArgs = cs_configArgs st,
         po_configPath = truthy_str (cs_configPath st), po_overrides = cs_overrides st,
         po_brokerHost = truthy_str (cs_brokerHost st), po_brokerPort = cs_brokerPort st,
         po_transferRequest = truthy_str (cs_transferRequest st), po_params = cs_params st,
         po_paramsFile = truthy_str (cs_paramsFile st), po_imageOut = truthy_str (cs_imageOut st),
         po_vmId = truthy_str (cs_vmId st) \<rparr>)"

subsection \<open>Reading a list of tokens in two parts\<close>

lemma parse_token_append:
  "parse_token t rest st = Inr (st', rest') \<Longrightarrow> parse_token t (rest @ ys) st = Inr (st', rest' @ ys)"
  by (auto simp: parse_token_def option_value_def requireValue_def bindR_eq_Inr Let_def
      split: if_splits option.splits list.splits)

lemma parse_loop_append:
  "parse_loop xs st = Inr st' \<Longrightarrow> parse_loop (xs @ ys) st = parse_loop ys st'"
proof (induction xs st rule: parse_loop.induct)
  case (2 token rest st)
  then show ?case
    by (auto split: sum.splits prod.splits dest: parse_token_append [of _ _ _ _ _ ys])
qed simp

subsection \<open>The forwarded arguments\<close>

text \<open>
  A forwarded argument list is a sequence of option names with their values; \<open>--no-upstream\<close> stands
  alone. \<open>forwardable\<close> says that every value is one \<open>requireValue\<close> accepts.
\<close>

fun forwardable :: "string list \<Rightarrow> bool" where
  "forwardable [] = True"
| "forwardable (name # rest) =
     (if name = ''--no-upstream'' then forwardable rest
      else (case rest of
              [] \<Rightarrow> False
            | value # rest' \<Rightarrow> value \<noteq> [] \<and> \<not> starts_with value ''--'' \<and> forwardable rest'))"

definition FORWARDED :: "string list" where
  "FORWARDED = [''--port'', ''--adapter-port'', ''--config'', ''--state-dir'', ''--qemu-root'',
     ''--qemu-binary'', ''--upstream'', ''--no-upstream'']"

definition chunk :: "string \<times> string \<Rightarrow> string list" where
  "chunk nv = (if fst nv = ''--no-upstream'' then [fst nv] else [fst nv, snd nv])"

definition forward_op :: "string \<times> string \<Rightarrow> cli_state \<Rightarrow> cli_state res" where
  "forward_op nv st =
     (if fst nv = ''--no-upstream''
      then Inr (add_override ''upstreamEnabled'' (JBool False) [''--no-upstream''] st)
      else apply_option (fst nv) (snd nv) st)"

fun forward_ops :: "(string \<times> string) list \<Rightarrow> cli_state \<Rightarrow> cli_state res" where
  "forward_ops [] st = Inr st"
| "forward_ops (nv # ops) st = bindR (forward_op nv st) (forward_ops ops)"

definition value_ok :: "string \<times> string \<Rightarrow> bool" where
  "value_ok nv \<longleftrightarrow> fst nv = ''--no-upstream'' \<or> snd nv \<noteq> [] \<and> \<not> starts_with (snd nv) ''--''"

lemma forward_ops_snoc: "forward_ops (ops @ [nv]) st = bindR (forward_ops ops st) (forward_op nv)"
  by (induction ops arbitrary: st) (auto simp: bindR_def split: sum.splits)

lemma forwardable_chunks: "forwardable (concat (map chunk ops)) \<longleftrightarrow> list_all value_ok ops"
  by (induction ops) (auto simp: chunk_def value_ok_def)

lemma forwarded_cases:
  assumes "n \<in> set FORWARDED" and "n \<noteq> ''--no-upstream''"
  shows "n \<in> set VALUE_OPTIONS \<and> n \<noteq> [] \<and> splitOption n = (n, None) \<and>
    n \<notin> {''--help'', ''-h'', ''--version'', ''-V''}"
  using assms by (auto simp: FORWARDED_def VALUE_OPTIONS_def splitOption_def)

lemma parse_chunk:
  assumes "fst nv \<in> set FORWARDED"
  shows "parse_loop (chunk nv @ rest) st =
    (if value_ok nv then bindR (forward_op nv st) (parse_loop rest)
     else Inl (''CLI_VALUE_REQUIRED:'' @ fst nv))"
proof (cases "fst nv = ''--no-upstream''")
  case True
  then show ?thesis
    by (simp add: chunk_def forward_op_def value_ok_def parse_token_def splitOption_def
        VALUE_OPTIONS_def Let_def)
next
  case False
  note n = forwarded_cases [OF assms False]
  have "parse_token (fst nv) (snd nv # rest) st =
      (if value_ok nv then bindR (apply_option (fst nv) (snd nv) st) (\<lambda>st'. Inr (st', rest))
       else Inl (''CLI_VALUE_REQUIRED:'' @ fst nv))"
    using n False by (auto simp: parse_token_def option_value_def requireValue_def value_ok_def)
  then show ?thesis
    using False by (auto simp: chunk_def forward_op_def bindR_def split: sum.splits)
qed

lemma parse_chunks:
  assumes "forward_ops ops st = Inr r" and "fst ` set ops \<subseteq> set FORWARDED"
  shows "if list_all value_ok ops then parse_loop (concat (map chunk ops)) st = Inr r
    else \<exists>n. parse_loop (concat (map chunk ops)) st = Inl (''CLI_VALUE_REQUIRED:'' @ n)"
  using assms
proof (induction ops arbitrary: st)
  case (Cons nv ops)
  then obtain st' where st': "forward_op nv st = Inr st'" "forward_ops ops st' = Inr r"
    by (auto simp: bindR_eq_Inr)
  then show ?case
    using Cons.IH [OF st'(2)] Cons.prems(2) parse_chunk [of nv "concat (map chunk ops)" st] by auto
qed simp

definition forwards :: "cli_state \<Rightarrow> cli_state \<Rightarrow> bool" where
  "forwards st r \<longleftrightarrow> cs_overrides r = cs_overrides st \<and> cs_configPath r = cs_configPath st \<and>
     cs_configArgs r = cs_configArgs st \<and> cs_command r = Some ''broker'' \<and> cs_commandArgs r = []"

definition broker_start :: cli_state where
  "broker_start = cli_start\<lparr> cs_command := Some ''broker'' \<rparr>"

definition replayed :: "cli_state \<Rightarrow> bool" where
  "replayed st \<longleftrightarrow> (\<exists>ops r. fst ` set ops \<subseteq> set FORWARDED \<and>
     cs_configArgs st = concat (map chunk ops) \<and> forward_ops ops broker_start = Inr r \<and>
     forwards st r)"

lemma replayed_start: "replayed cli_start"
  unfolding replayed_def
  by (intro exI [of _ "[]"]) (simp add: forwards_def broker_start_def cli_start_def)

lemma replayed_same:
  assumes "replayed st" and "cs_overrides st' = cs_overrides st"
    "cs_configPath st' = cs_configPath st" "cs_configArgs st' = cs_configArgs st"
  shows "replayed st'"
  using assms by (auto simp: replayed_def forwards_def)

lemma replayed_op:
  assumes "replayed st" and "fst nv \<in> set FORWARDED"
    and "\<And>r. forwards st r \<Longrightarrow> \<exists>r'. forward_op nv r = Inr r' \<and> forwards st' r'"
    and "cs_configArgs st' = cs_configArgs st @ chunk nv"
  shows "replayed st'"
proof -
  obtain ops r where o: "fst ` set ops \<subseteq> set FORWARDED"
    "cs_configArgs st = concat (map chunk ops)" "forward_ops ops broker_start = Inr r" "forwards st r"
    using assms(1) by (auto simp: replayed_def)
  obtain r' where "forward_op nv r = Inr r'" "forwards st' r'" using assms(3) [OF o(4)] by blast
  then show ?thesis
    unfolding replayed_def using o assms(2,4)
    by (intro exI [of _ "ops @ [nv]"] exI [of _ r']) (auto simp: forward_ops_snoc)
qed

lemma add_override_simps [simp]:
  "cs_command (add_override k v a st) = cs_command st"
  "cs_commandArgs (add_override k v a st) = cs_commandArgs st"
  "cs_configPath (add_override k v a st) = cs_configPath st"
  "cs_overrides (add_override k v a st) = jsput k v (cs_overrides st)"
  "cs_configArgs (add_override k v a st) = cs_configArgs st @ a"
  by (simp_all add: add_override_def)

lemma set_upstream_forwards:
  assumes "set_upstream v st = Inr st'" and "forwards st r"
  shows "\<exists>r'. set_upstream v r = Inr r' \<and> forwards st' r'"
  using assms by (auto simp: set_upstream_def forwards_def Let_def split: option.splits if_splits)

lemma set_upstream_args: "set_upstream v st = Inr st' \<Longrightarrow> cs_configArgs st' = cs_configArgs st @ [''--upstream'', v]"
  by (auto simp: set_upstream_def Let_def split: option.splits if_splits)

lemma apply_option_simps:
  "apply_option ''--port'' value st =
     (case js_num_integer value of
        None \<Rightarrow> Inl ''CLI_INVALID:--port''
      | Some port \<Rightarrow> Inr (add_override ''guestPort'' (js_of_int port) [''--port'', value] st))"
  "apply_option ''--broker-host'' value st =
     (if trim value = [] then Inl ''CLI_INVALID:--broker-host''
      else Inr (st\<lparr> cs_brokerHost := Some (trim value) \<rparr>))"
  "apply_option ''--broker-port'' value st =
     (case port_value value of
        None \<Rightarrow> Inl ''CLI_INVALID:--broker-port''
      | Some port \<Rightarrow>
          Inr (add_override ''adapterPort'' (js_of_int port) [''--adapter-port'', value]
                 (st\<lparr> cs_brokerPort := Some port \<rparr>)))"
  "apply_option ''--adapter-port'' value st =
     (case port_value value of
        None \<Rightarrow> Inl ''CLI_INVALID:--adapter-port''
      | Some port \<Rightarrow>
          Inr (add_override ''adapterPort'' (js_of_int port) [''--adapter-port'', value] st))"
  "apply_option ''--config'' value st =
     Inr (st\<lparr> cs_configPath := Some value, cs_configArgs := cs_configArgs st @ [''--config'', value] \<rparr>)"
  "apply_option ''--state-dir'' value st =
     Inr (add_override ''stateDir'' (JStr value) [''--state-dir'', value] st)"
  "apply_option ''--qemu-root'' value st =
     Inr (add_override ''qemuRoot'' (JStr value) [''--qemu-root'', value] st)"
  "apply_option ''--qemu-binary'' value st =
     Inr (add_override ''qemuBinary'' (JStr value) [''--qemu-binary'', value] st)"
  "apply_option ''--upstream'' value st = set_upstream value st"
  "apply_option ''--transfer-request'' value st = Inr (st\<lparr> cs_transferRequest := Some value \<rparr>)"
  "apply_option ''--params'' value st = Inr (st\<lparr> cs_params := Some value \<rparr>)"
  "apply_option ''--params-file'' value st = Inr (st\<lparr> cs_paramsFile := Some value \<rparr>)"
  "apply_option ''--image-out'' value st = Inr (st\<lparr> cs_imageOut := Some value \<rparr>)"
  "apply_option ''--vm'' value st =
     (if trim value = [] \<or> starts_with value ''-'' then Inl ''CLI_VALUE_REQUIRED:--vm''
      else Inr (st\<lparr> cs_vmId := Some (trim value) \<rparr>))"
  by (simp_all add: apply_option_def)

lemma value_options_cases:
  assumes "n \<in> set VALUE_OPTIONS"
  obtains (plain) "n \<in> {''--broker-host'', ''--transfer-request'', ''--params'', ''--params-file'',
      ''--image-out'', ''--vm''}"
  | (broker) "n = ''--broker-port''"
  | (forward) "n \<in> {''--port'', ''--adapter-port'', ''--config'', ''--state-dir'', ''--qemu-root'',
      ''--qemu-binary''}"
  | (upstream) "n = ''--upstream''"
  using assms unfolding VALUE_OPTIONS_def list.set insert_iff empty_iff by argo

lemma replayed_apply_option:
  assumes "apply_option n v st = Inr st'" and "replayed st" and "n \<in> set VALUE_OPTIONS"
  shows "replayed st'"
  using assms(3)
proof (cases rule: value_options_cases)
  case plain
  have "cs_overrides st' = cs_overrides st \<and> cs_configPath st' = cs_configPath st \<and>
      cs_configArgs st' = cs_configArgs st"
    using plain assms(1) unfolding insert_iff empty_iff
    by (elim disjE FalseE; hypsubst; simp only: apply_option_simps)
      (auto split: if_splits)
  then show ?thesis using replayed_same [OF assms(2)] by blast
next
  case broker
  show ?thesis
    using assms(1) unfolding broker
    by (intro replayed_op [OF assms(2), of "(''--adapter-port'', v)"])
      (auto simp: apply_option_simps FORWARDED_def chunk_def forward_op_def forwards_def
        split: option.splits)
next
  case forward
  have n: "n \<in> set FORWARDED \<and> n \<noteq> ''--no-upstream''"
    using forward unfolding insert_iff empty_iff by (elim disjE FalseE; hypsubst; simp add: FORWARDED_def)
  have args: "cs_configArgs st' = cs_configArgs st @ [n, v]"
    using forward assms(1) unfolding insert_iff empty_iff
    by (elim disjE FalseE; hypsubst; simp only: apply_option_simps)
      (auto split: option.splits)
  have again: "\<exists>r'. apply_option n v r = Inr r' \<and> forwards st' r'" if "forwards st r" for r
    using forward assms(1) that unfolding insert_iff empty_iff
    by (elim disjE FalseE; hypsubst; simp only: apply_option_simps)
      (auto simp: forwards_def split: option.splits)
  show ?thesis
    using n args again
    by (intro replayed_op [OF assms(2), of "(n, v)"]) (simp_all add: chunk_def forward_op_def)
next
  case upstream
  show ?thesis
    using assms(1) set_upstream_forwards [of v st st'] set_upstream_args [of v st st'] unfolding upstream
    by (intro replayed_op [OF assms(2), of "(''--upstream'', v)"])
      (auto simp: apply_option_simps FORWARDED_def chunk_def forward_op_def)
qed

lemma parse_token_cases:
  assumes "parse_token t rest st = Inr (st', rest')"
  obtains (same) "cs_overrides st' = cs_overrides st" "cs_configPath st' = cs_configPath st"
      "cs_configArgs st' = cs_configArgs st"
  | (option) n v where "n \<in> set VALUE_OPTIONS" "apply_option n v st = Inr st'"
  | (no) "st' = add_override ''upstreamEnabled'' (JBool False) [''--no-upstream''] st"
proof -
  consider "st' = st" | "st' = st\<lparr> cs_command := Some ''help'' \<rparr>"
    | "st' = st\<lparr> cs_command := Some ''version'' \<rparr>"
    | "positional t st = Inr st'"
    | n v where "n \<in> set VALUE_OPTIONS" "apply_option n v st = Inr st'"
    | "st' = add_override ''upstreamEnabled'' (JBool False) [''--no-upstream''] st"
    using assms unfolding parse_token_def Let_def
    by (auto simp: bindR_eq_Inr split: if_splits)
  then show ?thesis
  proof cases
    case 4
    then show ?thesis by (intro same) (auto simp: positional_def split: if_splits)
  qed (use same option no in simp_all)
qed

lemma replayed_token:
  assumes "parse_token t rest st = Inr (st', rest')" and "replayed st"
  shows "replayed st'"
  using assms(1)
proof (cases rule: parse_token_cases)
  case same
  then show ?thesis by (rule replayed_same [OF assms(2)])
next
  case (option n v)
  then show ?thesis using replayed_apply_option assms(2) by blast
next
  case no
  show ?thesis
    unfolding no
    by (rule replayed_op [OF assms(2), of "(''--no-upstream'', [])"])
      (auto simp: FORWARDED_def forward_op_def forwards_def chunk_def)
qed

lemma replayed_loop: "parse_loop xs st = Inr st' \<Longrightarrow> replayed st \<Longrightarrow> replayed st'"
  by (induction xs st rule: parse_loop.induct)
    (auto split: sum.splits prod.splits dest: replayed_token)

subsection \<open>Properties\<close>

lemmas cli_eval = parseCliArgs_def parse_token_def cli_start_def splitOption_def VALUE_OPTIONS_def
  option_value_def requireValue_def apply_option_def positional_def CLI_COMMANDS_def
  add_override_def jsput_def truthy_str_def starts_with_def Let_def


text \<open>
  C33. The arguments collected for a broker child process mean the same when that process parses
  them: same overrides, same configuration path, the broker command, no operand. The only way they
  can fail is a value that \<open>requireValue\<close> refuses, which the \<open>--name=value\<close> form had let through;
  then the child rejects them with \<open>CLI_VALUE_REQUIRED\<close>.
\<close>

theorem forwarded_args_reparse:
  assumes "parseCliArgs argv = Inr p"
  shows "if forwardable (po_configArgs p)
    then \<exists>q. parseCliArgs (''broker'' # po_configArgs p) = Inr q \<and>
           po_command q = ''broker'' \<and> po_commandArgs q = [] \<and> po_overrides q = po_overrides p \<and>
           po_configPath q = po_configPath p \<and> po_configArgs q = po_configArgs p
    else \<exists>name. parseCliArgs (''broker'' # po_configArgs p) = Inl (''CLI_VALUE_REQUIRED:'' @ name)"
proof -
  obtain st where st: "parse_loop argv cli_start = Inr st" "po_configArgs p = cs_configArgs st"
    "po_overrides p = cs_overrides st" "po_configPath p = truthy_str (cs_configPath st)"
    using assms by (auto simp: parseCliArgs_def bindR_eq_Inr)
  obtain ops r where o: "fst ` set ops \<subseteq> set FORWARDED" "cs_configArgs st = concat (map chunk ops)"
    "forward_ops ops broker_start = Inr r" "forwards st r"
    using replayed_loop [OF st(1) replayed_start] by (auto simp: replayed_def)
  have "parse_token ''broker'' xs cli_start = Inr (broker_start, xs)" for xs
    by (simp add: parse_token_def positional_def splitOption_def VALUE_OPTIONS_def CLI_COMMANDS_def
        cli_start_def broker_start_def Let_def)
  then have "parse_loop (''broker'' # po_configArgs p) cli_start =
      parse_loop (concat (map chunk ops)) broker_start"
    by (simp add: st o)
  then show ?thesis
    using parse_chunks [OF o(3,1)] o(4) forwardable_chunks [of ops] st o(2)
    by (auto simp: parseCliArgs_def forwards_def)
qed

theorem forwarded_args_reparse_witness:
  "\<exists>p q. parseCliArgs [''--state-dir'', ''/s'', ''call'', ''--no-upstream''] = Inr p \<and>
     parseCliArgs (''broker'' # po_configArgs p) = Inr q \<and>
     po_overrides q = [(''upstreamEnabled'', JBool False), (''stateDir'', JStr ''/s'')]"
proof -
  obtain p where p: "parseCliArgs [''--state-dir'', ''/s'', ''call'', ''--no-upstream''] = Inr p"
    "po_configArgs p = [''--state-dir'', ''/s'', ''--no-upstream'']"
    "po_overrides p = [(''upstreamEnabled'', JBool False), (''stateDir'', JStr ''/s'')]"
    by (simp add: cli_eval)
  show ?thesis
    using forwarded_args_reparse [OF p(1)] p by (auto simp: starts_with_def)
qed

text \<open>
  The adapter accepts an empty value given with an equals sign, such as \<open>--state-dir=\<close>, but the
  broker it starts with the collected arguments refuses them.
\<close>

theorem empty_value_not_forwardable:
  "\<exists>p. parseCliArgs [''stdio'', ''--state-dir=''] = Inr p \<and>
     parseCliArgs (''broker'' # po_configArgs p) = Inl ''CLI_VALUE_REQUIRED:--state-dir''"
  by (simp add: cli_eval)

end
