(* ===== verification/Base64.thy ===== *)
theory Base64
  imports Js
begin

text \<open>
  Base64 as \<open>Buffer.from(s, "base64")\<close> and \<open>buffer.toString("base64")\<close> do it: decoding skips every
  character outside the alphabet (the URL-safe variants belong to it) and drops an incomplete
  last group; encoding pads with \<open>=\<close>. The three strict readers of the sources accept a string only
  if encoding the decoded bytes gives it back up to padding: \<open>decodeStrictBase64\<close> of the broker,
  \<open>base64Field\<close> of the transfers and \<open>strictBase64\<close> of the simulated guest.
\<close>

subsection \<open>Encoding and decoding\<close>

definition base64_alphabet :: string where
  "base64_alphabet = ''ABCDEFGHIJKLMNOPQRSTUVWXYZabcdefghijklmnopqrstuvwxyz0123456789+/''"

definition sextet_char :: "nat \<Rightarrow> char" where
  "sextet_char n = base64_alphabet ! n"

definition char_sextet :: "char \<Rightarrow> nat option" where
  "char_sextet c =
     (let n = of_char c :: nat in
      if 65 \<le> n \<and> n \<le> 90 then Some (n - 65)
      else if 97 \<le> n \<and> n \<le> 122 then Some (n - 71)
      else if 48 \<le> n \<and> n \<le> 57 then Some (n + 4)
      else if n = 43 \<or> n = 45 then Some 62
      else if n = 47 \<or> n = 95 then Some 63
      else None)"

fun sextets :: "bytes \<Rightarrow> nat list" where
  "sextets [] = []"
| "sextets [a] = [unat a div 4, unat a mod 4 * 16]"
| "sextets [a, b] = [unat a div 4, unat a mod 4 * 16 + unat b div 16, unat b mod 16 * 4]"
| "sextets (a # b # c # bs) =
     [unat a div 4, unat a mod 4 * 16 + unat b div 16, unat b mod 16 * 4 + unat c div 64,
      unat c mod 64] @ sextets bs"

definition base64_encode :: "bytes \<Rightarrow> string" where
  "base64_encode bs =
     map sextet_char (sextets bs) @ replicate ((3 - length bs mod 3) mod 3) (CHR ''='')"

fun from_sextets :: "nat list \<Rightarrow> bytes" where
  "from_sextets (s0 # s1 # s2 # s3 # ss) =
     [of_nat (s0 * 4 + s1 div 16), of_nat (s1 mod 16 * 16 + s2 div 4), of_nat (s2 mod 4 * 64 + s3)]
     @ from_sextets ss"
| "from_sextets [s0, s1, s2] = [of_nat (s0 * 4 + s1 div 16), of_nat (s1 mod 16 * 16 + s2 div 4)]"
| "from_sextets [s0, s1] = [of_nat (s0 * 4 + s1 div 16)]"
| "from_sextets _ = []"

definition base64_decode :: "string \<Rightarrow> bytes" where
  "base64_decode s = from_sextets (List.map_filter char_sextet s)"

definition strip_padding :: "string \<Rightarrow> string" where
  "strip_padding s = rev (dropWhile (\<lambda>c. c = CHR ''='') (rev s))"

subsection \<open>The strict readers\<close>

definition canonical_base64 :: "string \<Rightarrow> bytes option" where
  "canonical_base64 s =
     (let data = base64_decode s in
      if strip_padding (base64_encode data) = strip_padding s then Some data else None)"

definition decodeStrictBase64 :: "string \<Rightarrow> bytes res" where
  "decodeStrictBase64 value =
     (case canonical_base64 value of
        None \<Rightarrow> Inl ''BASE64_INVALID''
      | Some data \<Rightarrow> if data = [] then Inl ''BASE64_INVALID'' else Inr data)"

definition stringField :: "params \<Rightarrow> string \<Rightarrow> string res" where
  "stringField record key =
     (case jsget record key of
        JStr s \<Rightarrow> Inr s
      | _ \<Rightarrow> Inl (''GUEST_RESPONSE_INVALID:'' @ key))"

definition base64Field :: "params \<Rightarrow> string \<Rightarrow> bytes res" where
  "base64Field record key =
     bindR (stringField record key) (\<lambda>value.
       if value = [] then Inr []
       else (case canonical_base64 value of
               None \<Rightarrow> Inl (''GUEST_RESPONSE_INVALID:'' @ key)
             | Some data \<Rightarrow> Inr data))"

subsection \<open>Lemmas\<close>

lemma unat_byte_less: "unat (b :: byte) < 256"
  using unsigned_less [of b] by simp

lemma sextet_arith:
  fixes a b :: nat
  assumes "a < 256" "b < 256"
  shows "a div 4 < 64" "a mod 4 * 16 + b div 16 < 64" "a mod 16 * 4 + b div 64 < 64" "b mod 64 < 64"
proof -
  have "a mod 4 < 4" "b div 16 < 16" "a mod 16 < 16" "b div 64 < 4"
    using assms by (simp_all add: less_mult_imp_div_less)
  then show "a mod 4 * 16 + b div 16 < 64" "a mod 16 * 4 + b div 64 < 64" by linarith+
qed (use assms in \<open>simp_all add: less_mult_imp_div_less\<close>)

lemma sextet_inverse:
  fixes a b c :: nat
  assumes "a < 256" "b < 256" "c < 256"
  shows "a div 4 * 4 + (a mod 4 * 16 + b div 16) div 16 = a"
    "(a mod 4 * 16 + b div 16) mod 16 * 16 + (b mod 16 * 4 + c div 64) div 4 = b"
    "(b mod 16 * 4 + c div 64) mod 4 * 64 + c mod 64 = c"
    "a div 4 * 4 + a mod 4 * 16 div 16 = a"
    "(a mod 4 * 16 + b div 16) mod 16 * 16 + b mod 16 * 4 div 4 = b"
proof -
  have "b div 16 < 16" "c div 64 < 4" using assms by (simp_all add: less_mult_imp_div_less)
  then have "(a mod 4 * 16 + b div 16) div 16 = a mod 4" "(a mod 4 * 16 + b div 16) mod 16 = b div 16"
    "(b mod 16 * 4 + c div 64) div 4 = b mod 16" "(b mod 16 * 4 + c div 64) mod 4 = c div 64"
    by simp_all
  then show "a div 4 * 4 + (a mod 4 * 16 + b div 16) div 16 = a"
    "(a mod 4 * 16 + b div 16) mod 16 * 16 + (b mod 16 * 4 + c div 64) div 4 = b"
    "(b mod 16 * 4 + c div 64) mod 4 * 64 + c mod 64 = c"
    "(a mod 4 * 16 + b div 16) mod 16 * 16 + b mod 16 * 4 div 4 = b"
    by simp_all
  show "a div 4 * 4 + a mod 4 * 16 div 16 = a" by simp
qed

lemma sextets_less: "s \<in> set (sextets bs) \<Longrightarrow> s < 64"
proof (induction bs rule: sextets.induct)
  case (2 a)
  then show ?case using unat_byte_less [of a] by auto
next
  case (3 a b)
  then show ?case using sextet_arith(1-3) [OF unat_byte_less [of a] unat_byte_less [of b]] by auto
next
  case (4 a b c bs)
  then show ?case
    using sextet_arith(1,2) [OF unat_byte_less [of a] unat_byte_less [of b]]
      sextet_arith(3-4) [OF unat_byte_less [of b] unat_byte_less [of c]] by auto
qed simp

lemma from_sextets_sextets [simp]: "from_sextets (sextets bs) = bs"
proof (induction bs rule: sextets.induct)
  case (2 a)
  have "unat a div 4 * 4 + unat a mod 4 * 16 div 16 = unat a"
    by (rule sextet_inverse(4) [OF unat_byte_less unat_byte_less unat_byte_less])
  then have "(of_nat (unat a div 4 * 4 + unat a mod 4 * 16 div 16) :: byte) = a"
    by (simp only: of_nat_unat) simp
  then show ?case by (simp only: sextets.simps from_sextets.simps)
next
  case (3 a b)
  note i = sextet_inverse [OF unat_byte_less [of a] unat_byte_less [of b] unat_byte_less [of a]]
  show ?case by (simp only: sextets.simps from_sextets.simps i(1,5)) simp
next
  case (4 a b c bs)
  note i = sextet_inverse [OF unat_byte_less [of a] unat_byte_less [of b] unat_byte_less [of c]]
  show ?case by (simp only: sextets.simps append_Cons append_Nil from_sextets.simps i(1-3) 4) simp
qed simp

lemma char_sextet_char: "n < 64 \<Longrightarrow> char_sextet (sextet_char n) = Some n"
proof -
  assume n: "n < 64"
  have "map char_sextet base64_alphabet = map Some [0..<64]"
    by code_simp
  moreover have "length base64_alphabet = 64" by (simp add: base64_alphabet_def)
  ultimately have "char_sextet (base64_alphabet ! n) = map Some [0..<64] ! n"
    using n by (metis nth_map)
  then show ?thesis using n by (simp add: sextet_char_def)
qed

lemma char_sextet_pad [simp]: "char_sextet (CHR ''='') = None"
  by (simp add: char_sextet_def)

lemma map_filter_sextets:
  "\<forall>s \<in> set ss. s < 64 \<Longrightarrow> List.map_filter char_sextet (map sextet_char ss) = ss"
  by (induction ss) (simp_all add: List.map_filter_simps char_sextet_char)

lemma map_filter_pad [simp]: "List.map_filter char_sextet (replicate n (CHR ''='')) = []"
  by (induction n) (simp_all add: List.map_filter_simps)

lemma map_filter_append: "List.map_filter f (xs @ ys) = List.map_filter f xs @ List.map_filter f ys"
  by (simp add: List.map_filter_def)

lemma decode_encode [simp]: "base64_decode (base64_encode bs) = bs"
  using sextets_less
  by (simp add: base64_decode_def base64_encode_def map_filter_append map_filter_sextets)

lemma strip_padding_split: "\<exists>n. s = strip_padding s @ replicate n (CHR ''='')"
proof -
  have "rev s = takeWhile (\<lambda>c. c = CHR ''='') (rev s) @ dropWhile (\<lambda>c. c = CHR ''='') (rev s)"
    by simp
  moreover have "takeWhile (\<lambda>c. c = CHR ''='') (rev s) =
      replicate (length (takeWhile (\<lambda>c. c = CHR ''='') (rev s))) (CHR ''='')"
    by (rule replicate_eqI) (auto dest: set_takeWhileD)
  ultimately show ?thesis
    unfolding strip_padding_def by (metis rev_append rev_replicate rev_rev_ident)
qed

lemma decode_strip: "base64_decode (strip_padding s) = base64_decode s"
proof -
  obtain n where "s = strip_padding s @ replicate n (CHR ''='')" using strip_padding_split by blast
  then have "List.map_filter char_sextet s = List.map_filter char_sextet (strip_padding s)"
    by (metis map_filter_append map_filter_pad append_Nil2)
  then show ?thesis by (simp add: base64_decode_def)
qed

lemma canonical_base64_iff:
  "canonical_base64 s = Some bs \<longleftrightarrow> strip_padding s = strip_padding (base64_encode bs)"
  by (auto simp: canonical_base64_def Let_def) (metis decode_encode decode_strip)+

lemma canonical_encode [simp]: "canonical_base64 (base64_encode bs) = Some bs"
  by (simp add: canonical_base64_iff)

lemma base64_encode_Nil [simp]: "base64_encode [] = []"
  by (simp add: base64_encode_def)

lemma base64_encode_eq_Nil [simp]: "base64_encode bs = [] \<longleftrightarrow> bs = []"
  by (metis base64_encode_Nil decode_encode)

lemma base64Field_encode [simp]:
  "jsget r k = JStr (base64_encode bs) \<Longrightarrow> base64Field r k = Inr bs"
  by (simp add: base64Field_def stringField_def)



subsection \<open>Properties\<close>

text \<open>
  C36. The strict readers accept exactly the base64 encodings, with any amount of trailing
  padding, and give back the encoded bytes; the broker's reader refuses the empty string besides.
\<close>

theorem base64_readers_exact:
  "(decodeStrictBase64 s = Inr bs \<longleftrightarrow> bs \<noteq> [] \<and> strip_padding s = strip_padding (base64_encode bs)) \<and>
   (base64Field [(k, JStr s)] k = Inr bs \<longleftrightarrow> strip_padding s = strip_padding (base64_encode bs))"
proof -
  have "canonical_base64 [] = Some []"
    by (metis base64_encode_Nil canonical_encode)
  then have "base64Field [(k, JStr s)] k = Inr bs \<longleftrightarrow> canonical_base64 s = Some bs"
    by (cases "s = []") (auto simp: base64Field_def stringField_def split: option.splits)
  moreover have "decodeStrictBase64 s = Inr bs \<longleftrightarrow> bs \<noteq> [] \<and> canonical_base64 s = Some bs"
    by (auto simp: decodeStrictBase64_def split: option.splits)
  ultimately show ?thesis by (simp only: canonical_base64_iff)
qed

end
