(* ===== verification/Js_Path.thy ===== *)
theory Js_Path
  imports Js
begin

text \<open>
  The path functions of \<open>node:path\<close> that the sources call, on a POSIX host: \<open>resolve\<close>,
  \<open>relative\<close>, \<open>dirname\<close>, \<open>basename\<close>, \<open>isAbsolute\<close>; and \<open>win32.join\<close>, which builds guest paths.
  With them the guards of \<open>src/host/transfers.ts\<close> and of the simulated guest that keep a transfer
  inside its root.
\<close>

subsection \<open>POSIX paths\<close>

text \<open>The process's working directory is the first argument of \<open>resolve\<close>.\<close>

abbreviation slash :: char where "slash \<equiv> CHR ''/''"

definition isAbsolute :: "string \<Rightarrow> bool" where
  "isAbsolute p \<longleftrightarrow> starts_with p ''/''"

fun norm_segments :: "string list \<Rightarrow> string list \<Rightarrow> string list" where
  "norm_segments acc [] = rev acc"
| "norm_segments acc (s # ss) =
     (if s = [] \<or> s = ''.'' then norm_segments acc ss
      else if s = ''..'' then norm_segments (tl acc) ss
      else norm_segments (s # acc) ss)"

definition concat_path :: "string \<Rightarrow> string \<Rightarrow> string" where
  "concat_path base p =
     (if p = [] then base else if isAbsolute p then p else base @ ''/'' @ p)"

definition path_segments :: "string \<Rightarrow> string list" where
  "path_segments p = norm_segments [] (split_on slash p)"

definition path_of :: "string list \<Rightarrow> string" where
  "path_of segs = slash # join_with ''/'' segs"

definition posix_resolve :: "string \<Rightarrow> string list \<Rightarrow> string" where
  "posix_resolve cwd args = path_of (path_segments (fold (\<lambda>p base. concat_path base p) args cwd))"

fun strip_common :: "string list \<Rightarrow> string list \<Rightarrow> string list \<times> string list" where
  "strip_common (x # xs) (y # ys) = (if x = y then strip_common xs ys else (x # xs, y # ys))"
| "strip_common xs ys = (xs, ys)"

definition posix_relative :: "string \<Rightarrow> string \<Rightarrow> string \<Rightarrow> string" where
  "posix_relative cwd from target =
     (let (up, down) = strip_common (path_segments (posix_resolve cwd [from]))
                         (path_segments (posix_resolve cwd [target]))
      in join_with ''/'' (replicate (length up) ''..'' @ down))"

definition drop_trailing :: "string \<Rightarrow> string" where
  "drop_trailing p = rev (dropWhile (\<lambda>c. c = slash) (rev p))"

definition posix_basename :: "string \<Rightarrow> string" where
  "posix_basename p = last (split_on slash (drop_trailing p))"

definition posix_dirname :: "string \<Rightarrow> string" where
  "posix_dirname p =
     (let q = drop_trailing p in
      if p = [] then ''.''
      else if slash \<notin> set q then (if isAbsolute p then ''/'' else ''.'')
      else
        let d = drop_trailing (take (the (last_index_of slash q)) q)
        in if d = [] then ''/'' else d)"

subsection \<open>Guards\<close>

definition isWithin :: "string \<Rightarrow> string \<Rightarrow> string \<Rightarrow> bool" where
  "isWithin cwd basedir candidate \<longleftrightarrow>
     (let result = posix_relative cwd (posix_resolve cwd [basedir]) (posix_resolve cwd [candidate])
      in result = [] \<or>
         \<not> starts_with result ''../'' \<and> result \<noteq> ''..'' \<and> \<not> isAbsolute result)"

definition resolveRelative :: "string \<Rightarrow> string \<Rightarrow> string \<Rightarrow> string res" where
  "resolveRelative cwd basedir portableRelativePath =
     (let parts = split_on slash portableRelativePath;
          candidate = posix_resolve cwd (basedir # parts)
      in if \<not> isWithin cwd basedir candidate then Inl ''HOST_PATH_OUTSIDE_ALLOWED_ROOTS''
         else Inr candidate)"

definition validateGuestEntryName :: "string \<Rightarrow> unit res" where
  "validateGuestEntryName name =
     (if name = [] \<or> name = ''.'' \<or> name = ''..'' \<or> CHR 0x5c \<in> set name \<or> slash \<in> set name \<or>
         CHR 0x00 \<in> set name
      then Inl ''GUEST_DIRECTORY_ENTRY_INVALID'' else Inr ())"

definition strip_drive :: "string \<Rightarrow> string" where
  "strip_drive p =
     (case p of
        c # d # r \<Rightarrow>
          if d = CHR '':'' \<and> (let n = of_char c :: nat in 65 \<le> n \<and> n \<le> 90 \<or> 97 \<le> n \<and> n \<le> 122)
          then r else p
      | _ \<Rightarrow> p)"

definition resolveGuestPath :: "string \<Rightarrow> string \<Rightarrow> string \<Rightarrow> string res" where
  "resolveGuestPath cwd rootDirectory guestPath =
     (let normalized = dropWhile (\<lambda>c. c = slash)
            (map (\<lambda>c. if c = CHR 0x5c then slash else c) (strip_drive guestPath));
          resolved = posix_resolve cwd [rootDirectory, normalized];
          basedir = posix_resolve cwd [rootDirectory]
      in if resolved \<noteq> basedir \<and> \<not> starts_with resolved (basedir @ ''/'')
         then Inl ''PATH_OUTSIDE_ALLOWED_ROOT'' else Inr resolved)"

subsection \<open>Lemmas\<close>

definition clean :: "string list \<Rightarrow> bool" where
  "clean segs \<longleftrightarrow> (\<forall>s \<in> set segs. s \<noteq> [] \<and> s \<noteq> ''.'' \<and> s \<noteq> ''..'' \<and> slash \<notin> set s)"

lemma clean_simps [simp]:
  "clean []"
  "clean (s # ss) \<longleftrightarrow> s \<noteq> [] \<and> s \<noteq> ''.'' \<and> s \<noteq> ''..'' \<and> slash \<notin> set s \<and> clean ss"
  "clean (xs @ ys) \<longleftrightarrow> clean xs \<and> clean ys"
  by (auto simp: clean_def)

lemma clean_no_slash: "clean ss \<Longrightarrow> \<forall>s \<in> set ss. slash \<notin> set s"
  by (simp add: clean_def)

lemma clean_no_empty: "clean ss \<Longrightarrow> [] \<notin> set ss"
  by (auto simp: clean_def)

lemma norm_segments_clean:
  "clean acc \<Longrightarrow> \<forall>s \<in> set ss. slash \<notin> set s \<Longrightarrow> clean (norm_segments acc ss)"
proof (induction acc ss rule: norm_segments.induct)
  case (2 acc s ss)
  then show ?case by (cases acc) auto
qed (simp add: clean_def)

lemma norm_segments_id: "clean ss \<Longrightarrow> norm_segments acc ss = rev acc @ ss"
  by (induction ss arbitrary: acc) auto

lemma clean_path_segments [simp]: "clean (path_segments p)"
  by (simp add: path_segments_def norm_segments_clean split_on_parts)

lemma norm_segments_append:
  "norm_segments acc (xs @ ys) = norm_segments (rev (norm_segments acc xs)) ys"
  by (induction acc xs rule: norm_segments.induct) auto

lemma path_segments_path_of [simp]: "clean segs \<Longrightarrow> path_segments (path_of segs) = segs"
proof (cases "segs = []")
  case False
  assume c: "clean segs"
  have "split_on slash (join_with ''/'' segs) = segs"
    using c False by (intro split_join) (auto simp: clean_def)
  then show ?thesis
    by (simp add: path_segments_def path_of_def norm_segments_id [OF c])
qed (simp add: path_segments_def path_of_def)

lemma path_segments_resolve [simp]: "path_segments (posix_resolve cwd args) =
    path_segments (fold (\<lambda>p base. concat_path base p) args cwd)"
  by (simp add: posix_resolve_def)

lemma isAbsolute_resolve [simp]: "isAbsolute (posix_resolve cwd args)"
  by (simp add: isAbsolute_def posix_resolve_def path_of_def starts_with_def)

lemma split_on_append: "split_on c (p @ c # r) = split_on c p @ split_on c r"
  by (induction p) (auto split: list.splits)

lemma path_segments_concat:
  "path_segments (concat_path base p) =
     (if p = [] then path_segments base
      else if isAbsolute p then path_segments p
      else norm_segments (rev (path_segments base)) (split_on slash p))"
  by (simp add: concat_path_def path_segments_def split_on_append norm_segments_append)

lemma resolve_absolute:
  "isAbsolute p \<Longrightarrow> path_segments (fold (\<lambda>p base. concat_path base p) [p] cwd) = path_segments p"
  by (auto simp: concat_path_def isAbsolute_def starts_with_def)

lemma posix_relative_absolute:
  assumes "isAbsolute from" "isAbsolute target"
  shows "posix_relative cwd from target =
    (let (up, down) = strip_common (path_segments from) (path_segments target)
     in join_with ''/'' (replicate (length up) ''..'' @ down))"
  using resolve_absolute [OF assms(1), of cwd] resolve_absolute [OF assms(2), of cwd]
  by (simp add: posix_relative_def)

lemma strip_common_spec:
  "strip_common xs ys = (u, d) \<Longrightarrow> \<exists>p. xs = p @ u \<and> ys = p @ d \<and> (u = [] \<or> d = [] \<or> hd u \<noteq> hd d)"
proof (induction xs ys rule: strip_common.induct)
  case (1 x xs y ys)
  show ?case
  proof (cases "x = y")
    case True
    then obtain p where "xs = p @ u" "ys = p @ d" "u = [] \<or> d = [] \<or> hd u \<noteq> hd d"
      using 1 by auto
    then show ?thesis using True by (intro exI [of _ "x # p"]) simp
  qed (use 1 in \<open>auto intro!: exI [of _ "[]"]\<close>)
qed auto

lemma strip_common_prefix [simp]: "strip_common p (p @ d) = ([], d)"
  by (induction p) auto

lemma split_on_Cons_nonempty [simp]:
  "x \<noteq> c \<longrightarrow> (case split_on c t of [] \<Rightarrow> [[x]] | p # ps \<Rightarrow> (x # p) # ps) \<noteq> []"
  by (simp split: list.splits)

lemma hd_split_on: "hd (split_on c (x # xs)) = (if x = c then [] else x # hd (split_on c xs))"
  by (auto split: list.splits)

lemma first_segment_escapes:
  assumes "r \<noteq> []"
  shows "starts_with r ''../'' \<or> r = ''..'' \<or> isAbsolute r \<longleftrightarrow> hd (split_on slash r) \<in> {''..'', []}"
proof -
  consider a where "r = [a]" | a b where "r = [a, b]" | a b c t where "r = a # b # c # t"
  proof (cases r)
    case (Cons a s)
    show thesis
    proof (cases s)
      case Nil
      then show ?thesis using Cons that(1) by simp
    next
      case Cons': (Cons b t)
      then show ?thesis using Cons that(2,3) by (cases t) auto
    qed
  qed (use assms in simp)
  then show ?thesis
  proof cases
    case (3 a b c t)
    show ?thesis
      unfolding 3
      by (cases "a = slash"; cases "b = slash"; cases "c = slash";
          simp add: starts_with_def isAbsolute_def hd_split_on del: split_on.simps)
  next
    case (1 a)
    show ?thesis unfolding 1 by (simp add: starts_with_def isAbsolute_def)
  next
    case (2 a b)
    show ?thesis unfolding 2 by (simp add: starts_with_def isAbsolute_def)
  qed
qed

lemma resolve_self: "isAbsolute p \<Longrightarrow> path_segments (posix_resolve cwd [p]) = path_segments p"
  using resolve_absolute by (simp only: path_segments_resolve)

lemma split_join_slash:
  "ps \<noteq> [] \<Longrightarrow> \<forall>p \<in> set ps. slash \<notin> set p \<Longrightarrow> split_on slash (join_with ''/'' ps) = ps"
  by (rule split_join)

lemma isWithin_iff:
  "isWithin cwd basedir candidate \<longleftrightarrow>
     (\<exists>rest. path_segments (posix_resolve cwd [candidate]) =
        path_segments (posix_resolve cwd [basedir]) @ rest)"
proof -
  let ?r = "path_segments (posix_resolve cwd [basedir])"
  let ?c = "path_segments (posix_resolve cwd [candidate])"
  obtain u d where ud: "strip_common ?r ?c = (u, d)" by fastforce
  obtain p where p: "?r = p @ u" "?c = p @ d" using strip_common_spec [OF ud] by blast
  define ps where "ps = replicate (length u) ''..'' @ d"
  have d: "clean d" using p(2) clean_path_segments [of "posix_resolve cwd [candidate]"]
    by (metis clean_simps(3))
  have noslash: "\<forall>p \<in> set ps. slash \<notin> set p"
  proof
    fix p assume "p \<in> set ps"
    then have "p = ''..'' \<or> p \<in> set d" unfolding ps_def by (cases "length u") auto
    then show "slash \<notin> set p" using d by (elim disjE) (simp_all add: clean_def)
  qed
  have rel: "posix_relative cwd (posix_resolve cwd [basedir]) (posix_resolve cwd [candidate]) =
      join_with ''/'' ps"
    using ud by (subst posix_relative_absolute) (simp_all add: ps_def)
  have sj: "split_on slash (join_with ''/'' ps) = ps" if "ps \<noteq> []"
    using that noslash by (rule split_join_slash)
  have jn: "join_with ''/'' ps = [] \<longleftrightarrow> ps = []"
  proof -
    have "[] \<notin> set ps" using d by (auto simp: ps_def clean_def)
    then show ?thesis by (cases "(''/'', ps)" rule: join_with.cases) auto
  qed
  have "isWithin cwd basedir candidate \<longleftrightarrow> ps = [] \<or> hd ps \<notin> {''..'', []}"
  proof (cases "ps = []")
    case False
    then have "join_with ''/'' ps \<noteq> []" using jn by simp
    from first_segment_escapes [OF this] show ?thesis
      unfolding isWithin_def Let_def rel sj [OF False] jn by argo
  qed (simp add: isWithin_def rel)
  also have "\<dots> \<longleftrightarrow> u = []"
  proof (cases u)
    case Nil
    then show ?thesis using d by (cases d) (auto simp: ps_def)
  qed (simp add: ps_def)
  also have "\<dots> \<longleftrightarrow> (\<exists>rest. ?c = ?r @ rest)"
    using p ud strip_common_prefix [of ?r] by auto
  finally show ?thesis .
qed

lemma valid_names_clean:
  "\<forall>n \<in> set names. validateGuestEntryName n = Inr () \<Longrightarrow> clean names"
  by (auto simp: validateGuestEntryName_def clean_def split: if_splits)

lemma fold_concat_clean:
  assumes "clean names"
  shows "path_segments (fold (\<lambda>p base. concat_path base p) names b) = path_segments b @ names"
  using assms
proof (induction names arbitrary: b)
  case (Cons n names)
  have "\<not> isAbsolute n" using Cons.prems by (cases n) (auto simp: isAbsolute_def starts_with_def)
  then have "path_segments (concat_path b n) = path_segments b @ [n]"
    using Cons.prems by (simp add: path_segments_concat split_on_no_sep)
  then show ?case using Cons by simp
qed simp

text \<open>Directory and base name of a normalised path.\<close>

lemma path_of_snoc:
  "path_of (segs @ [n]) = (if segs = [] then [] else path_of segs) @ slash # n"
proof -
  have "segs \<noteq> [] \<Longrightarrow> join_with ''/'' (segs @ [n]) = join_with ''/'' segs @ slash # n"
    by (induction segs rule: induct_list012) auto
  then show ?thesis by (simp add: path_of_def)
qed

lemma drop_trailing_id: "p \<noteq> [] \<Longrightarrow> last p \<noteq> slash \<Longrightarrow> drop_trailing p = p"
  by (cases p rule: rev_cases) (auto simp: drop_trailing_def)

lemma clean_last: "clean (segs @ [n]) \<Longrightarrow> last (path_of (segs @ [n])) \<noteq> slash"
  by (auto simp: path_of_snoc) (metis last_in_set)+

lemma drop_trailing_path_of:
  assumes "clean (segs @ [n])"
  shows "drop_trailing (path_of (segs @ [n])) = path_of (segs @ [n])"
  by (rule drop_trailing_id) (use clean_last [OF assms] in \<open>simp_all add: path_of_def\<close>)

lemma last_split_on_append: "slash \<notin> set n \<Longrightarrow> last (split_on slash (p @ slash # n)) = n"
  by (simp add: split_on_append split_on_no_sep)

lemma basename_path_of: "clean (segs @ [n]) \<Longrightarrow> posix_basename (path_of (segs @ [n])) = n"
  unfolding posix_basename_def drop_trailing_path_of
  by (auto simp: path_of_snoc last_split_on_append split_on_no_sep)

lemma last_index_of_append: "c \<notin> set n \<Longrightarrow> last_index_of c (p @ c # n) = Some (length p)"
proof -
  assume c: "c \<notin> set n"
  have "c \<notin> set r \<Longrightarrow> index_of c (r @ c # q) = Some (length r)" for r q
    by (induction r) auto
  from this [of "rev n" "rev p"] c show ?thesis by (simp add: last_index_of_def)
qed

lemma dirname_path_of:
  assumes c: "clean (segs @ [n])"
  shows "posix_dirname (path_of (segs @ [n])) = path_of segs"
proof -
  let ?d = "if segs = [] then [] else path_of segs"
  have n: "slash \<notin> set n" using c by simp
  have p: "path_of (segs @ [n]) = ?d @ slash # n" by (rule path_of_snoc)
  have t: "take (the (last_index_of slash (path_of (segs @ [n])))) (path_of (segs @ [n])) = ?d"
    unfolding p last_index_of_append [OF n] by simp
  have d: "drop_trailing ?d = ?d"
  proof (cases segs rule: rev_cases)
    case (snoc ss m)
    then have "clean (ss @ [m])" using c by simp
    then show ?thesis unfolding snoc by (simp add: drop_trailing_path_of)
  qed (simp add: drop_trailing_def)
  have m: "slash \<in> set (path_of (segs @ [n]))" "path_of (segs @ [n]) \<noteq> []"
    by (simp_all add: path_of_def)
  show ?thesis
    unfolding posix_dirname_def drop_trailing_path_of [OF c] Let_def t d
    using m by (auto simp: path_of_def)
qed

lemma resolve_path_of: "\<exists>segs. clean segs \<and> posix_resolve cwd args = path_of segs"
  unfolding posix_resolve_def using clean_path_segments by blast

lemma path_of_inject: "clean xs \<Longrightarrow> clean ys \<Longrightarrow> path_of xs = path_of ys \<longleftrightarrow> xs = ys"
  by (metis path_segments_path_of)

lemma resolve_child:
  assumes "clean (segs @ [n])"
  shows "posix_resolve cwd [path_of segs, n] = path_of (segs @ [n])"
proof -
  have a: "isAbsolute (path_of segs)" by (simp add: isAbsolute_def path_of_def starts_with_def)
  have "fold (\<lambda>p base. concat_path base p) [path_of segs, n] cwd =
      fold (\<lambda>p base. concat_path base p) [n] (path_of segs)"
    using a by (simp add: concat_path_def isAbsolute_def starts_with_def path_of_def)
  then have "posix_resolve cwd [path_of segs, n] =
      path_of (path_segments (fold (\<lambda>p base. concat_path base p) [n] (path_of segs)))"
    by (simp only: posix_resolve_def)
  also have "path_segments (fold (\<lambda>p base. concat_path base p) [n] (path_of segs)) = segs @ [n]"
    using assms by (subst fold_concat_clean) simp_all
  finally show ?thesis .
qed

subsection \<open>Properties\<close>

text \<open>
  C26. Whatever relative path a guest supplies, \<open>resolveRelative\<close> either fails or yields a
  path whose normalised segments extend those of the chosen root; and for entry names the guest
  validation accepts it does not fail: it yields the root followed by exactly these names.
\<close>

theorem resolveRelative_confined:
  "(\<forall>p. resolveRelative cwd basedir rel = Inr p \<longrightarrow>
      (\<exists>rest. path_segments p = path_segments (posix_resolve cwd [basedir]) @ rest)) \<and>
   (names \<noteq> [] \<and> (\<forall>n \<in> set names. validateGuestEntryName n = Inr ()) \<longrightarrow>
      resolveRelative cwd basedir (join_with ''/'' names) =
        Inr (path_of (path_segments (posix_resolve cwd [basedir]) @ names)))"
proof (intro conjI allI impI)
  fix p
  assume "resolveRelative cwd basedir rel = Inr p"
  then have "isWithin cwd basedir p" and "isAbsolute p"
    unfolding resolveRelative_def Let_def by (auto simp del: posix_resolve_def split: if_splits)
  then show "\<exists>rest. path_segments p = path_segments (posix_resolve cwd [basedir]) @ rest"
    by (simp only: isWithin_iff resolve_self)
next
  assume n: "names \<noteq> [] \<and> (\<forall>n \<in> set names. validateGuestEntryName n = Inr ())"
  then have c: "clean names" by (simp add: valid_names_clean)
  then have s: "split_on slash (join_with ''/'' names) = names"
    using n by (intro split_join_slash) (auto simp: clean_def)
  let ?p = "posix_resolve cwd (basedir # names)"
  have segs: "path_segments ?p = path_segments (posix_resolve cwd [basedir]) @ names"
    using c by (simp add: fold_concat_clean)
  then have "isWithin cwd basedir ?p"
    by (simp only: isWithin_iff resolve_self [OF isAbsolute_resolve]) blast
  moreover have "?p = path_of (path_segments ?p)"
    by (simp only: path_segments_resolve) (simp only: posix_resolve_def)
  ultimately show "resolveRelative cwd basedir (join_with ''/'' names) =
      Inr (path_of (path_segments (posix_resolve cwd [basedir]) @ names))"
    by (simp only: resolveRelative_def Let_def s segs) simp
qed

theorem resolveRelative_confined_witness:
  "resolveRelative ''/'' ''/srv'' ''a/b'' = Inr ''/srv/a/b''"
proof -
  have v: "validateGuestEntryName ''a'' = Inr () \<and> validateGuestEntryName ''b'' = Inr ()"
    by (simp add: validateGuestEntryName_def)
  have r: "path_of (path_segments (posix_resolve ''/'' [''/srv'']) @ [''a'', ''b'']) = ''/srv/a/b''"
    by code_simp
  show ?thesis
    using resolveRelative_confined [of "''/''" "''/srv''" "[]" "[''a'', ''b'']"] v r by simp
qed

text \<open>
  C27. The simulated guest never touches a file outside its root directory: a resolved guest
  path has the root's segments as a prefix.
\<close>

theorem resolveGuestPath_confined:
  assumes "resolveGuestPath cwd basedir p = Inr q"
  shows "\<exists>rest. path_segments q = path_segments (posix_resolve cwd [basedir]) @ rest \<and> clean rest"
proof -
  let ?root = "posix_resolve cwd [basedir]"
  obtain args where args: "q = posix_resolve cwd args"
    and q: "q = ?root \<or> starts_with q (?root @ ''/'')"
    using assms unfolding resolveGuestPath_def Let_def
    by (simp only: sum.inject sum.distinct split: if_split_asm) blast
  have "\<exists>rest. path_segments q = path_segments ?root @ rest"
    using q
  proof
    assume "starts_with q (?root @ ''/'')"
    then obtain r where r: "q = ?root @ slash # r" by (auto elim: starts_withE)
    define qs where "qs = path_segments q"
    define rs where "rs = path_segments ?root"
    have c: "clean qs" "clean rs" by (simp_all add: qs_def rs_def)
    have "q = path_of qs" "?root = path_of rs"
      unfolding qs_def rs_def args path_segments_resolve by (simp_all only: posix_resolve_def)
    then have e: "join_with ''/'' qs = join_with ''/'' rs @ slash # r"
      using r by (simp add: path_of_def)
    then have "qs \<noteq> []" by auto
    then have "qs = split_on slash (join_with ''/'' qs)"
      by (rule split_join_slash [symmetric, OF _ clean_no_slash [OF c(1)]])
    then have qs: "qs = split_on slash (join_with ''/'' rs) @ split_on slash r"
      by (simp only: e split_on_append)
    have "rs \<noteq> []"
    proof
      assume "rs = []"
      then have "qs = [] # split_on slash r" using qs by simp
      then show False using clean_no_empty [OF c(1)] by simp
    qed
    then have "split_on slash (join_with ''/'' rs) = rs"
      by (rule split_join_slash [OF _ clean_no_slash [OF c(2)]])
    then have "qs = rs @ split_on slash r" using qs by simp
    then show ?thesis unfolding qs_def rs_def by blast
  qed simp
  then show ?thesis
    using clean_path_segments [of q] by (metis clean_simps(3))
qed

theorem resolveGuestPath_confined_witness:
  "resolveGuestPath ''/'' ''/srv'' (''c:'' @ [CHR 0x5c] @ ''x'') = Inr ''/srv/x'' \<and>
   (\<exists>rest. path_segments ''/srv/x'' = path_segments (posix_resolve ''/'' [''/srv'']) @ rest \<and> clean rest)"
proof -
  have r: "resolveGuestPath ''/'' ''/srv'' (''c:'' @ [CHR 0x5c] @ ''x'') = Inr ''/srv/x''"
    by code_simp
  show ?thesis using resolveGuestPath_confined [OF r] r by blast
qed

end
