(* ===== verification/Config.thy ===== *)
theory Config
  imports Js_Path Js_Number Lease
begin

text \<open>
  The broker's configuration: \<open>src/host/config.ts\<close>. The configuration file and the command line's
  overrides are JavaScript objects of unchecked content; \<open>loadBrokerConfig\<close> merges them with the
  runtime settings and the environment, checks every number and makes every path absolute. The
  file system, the environment, the home directory and the process's working directory are
  arguments; reading and parsing a JSON file gives a value or an error.
\<close>

record broker_config =
  bc_guestPort :: int
  bc_adapterPort :: int
  bc_lockingEnabled :: bool
  bc_upstream :: "(string \<times> int) option"
  bc_pipePath :: string
  bc_stateDir :: string
  bc_artifactDir :: string
  bc_logPath :: string
  bc_leaseTtlMs :: int
  bc_waitTicketTtlMs :: int
  bc_requestTimeoutMs :: int
  bc_guestConnectTimeoutMs :: int
  bc_heartbeatTimeoutMs :: int
  bc_maxArtifactBytes :: int
  bc_qemuRoot :: string
  bc_qemuBinary :: "string option"

record host_env =
  he_env :: "string \<Rightarrow> string option"
  he_homedir :: string
  he_cwd :: string
  he_readJson :: "string \<Rightarrow> js res"
  he_win32 :: bool

record load_options =
  op_configPath :: "string option"
  op_overrides :: params

definition DEFAULT_PORT :: int where "DEFAULT_PORT = 9898"
definition DEFAULT_ADAPTER_PORT :: int where "DEFAULT_ADAPTER_PORT = 9899"

subsection \<open>Values\<close>

fun nullish :: "js \<Rightarrow> bool" where
  "nullish JUndef = True"
| "nullish JNull = True"
| "nullish _ = False"

text \<open>\<open>a ?? b\<close>, and truth in a condition.\<close>

definition coalesce :: "js \<Rightarrow> js \<Rightarrow> js" where
  "coalesce a b = (if nullish a then b else a)"

fun truthy :: "js \<Rightarrow> bool" where
  "truthy JUndef = False"
| "truthy JNull = False"
| "truthy (JBool b) = b"
| "truthy (JNum n) = (n \<noteq> Fin 0 \<and> n \<noteq> NaN)"
| "truthy (JStr s) = (s \<noteq> [])"
| "truthy _ = True"

text \<open>The named members of an object spread into another; other values have none.\<close>

fun members :: "js \<Rightarrow> params" where
  "members (JObj m) = m"
| "members _ = []"

definition spread :: "params \<Rightarrow> params \<Rightarrow> params" where
  "spread a b = b @ a"

definition env_value :: "host_env \<Rightarrow> string \<Rightarrow> js" where
  "env_value h k = (case he_env h k of None \<Rightarrow> JUndef | Some s \<Rightarrow> JStr s)"

definition envNumber :: "string option \<Rightarrow> js" where
  "envNumber value =
     (case value of
        None \<Rightarrow> JUndef
      | Some s \<Rightarrow> (case js_number s of Fin q \<Rightarrow> JNum (Fin q) | _ \<Rightarrow> JUndef))"

definition config_invalid :: "string \<Rightarrow> string" where
  "config_invalid label = ''CONFIG_INVALID:'' @ label"

definition integer :: "js \<Rightarrow> string \<Rightarrow> int \<Rightarrow> int \<Rightarrow> int res" where
  "integer value label lo hi =
     (case js_integer value of
        None \<Rightarrow> Inl (config_invalid label)
      | Some i \<Rightarrow> if i < lo \<or> i > hi then Inl (config_invalid label) else Inr i)"

definition boolean :: "js \<Rightarrow> string \<Rightarrow> bool res" where
  "boolean value label =
     (case value of JBool b \<Rightarrow> Inr b | _ \<Rightarrow> Inl (config_invalid label))"

definition type_error :: string where "type_error = ''ERR_INVALID_ARG_TYPE''"

definition resolveConfiguredPath :: "string \<Rightarrow> js \<Rightarrow> string \<Rightarrow> string res" where
  "resolveConfiguredPath pcwd value cwd =
     (case value of
        JStr s \<Rightarrow> Inr (if isAbsolute s then s else posix_resolve pcwd [cwd, s])
      | _ \<Rightarrow> Inl type_error)"

definition defaultAdapterPort :: "int \<Rightarrow> int" where
  "defaultAdapterPort guestPort =
     (if guestPort = DEFAULT_PORT \<or> guestPort = 65535 then DEFAULT_ADAPTER_PORT else guestPort + 1)"

definition defaultPipePath :: "host_env \<Rightarrow> int \<Rightarrow> string" where
  "defaultPipePath h port =
     (let suffix = (if port = DEFAULT_PORT then [] else ''-'' @ show_int port);
          bs = CHR 0x5c
      in if he_win32 h then [bs, bs] @ ''.'' @ [bs] @ ''pipe'' @ [bs] @ ''win98-mcp'' @ suffix
         else posix_resolve (he_cwd h) [''/tmp'', ''win98-mcp'' @ suffix @ ''.sock''])"

definition appdata :: "host_env \<Rightarrow> string" where
  "appdata h = (case he_env h ''LOCALAPPDATA'' of None \<Rightarrow> he_homedir h | Some d \<Rightarrow> d)"

definition runtimeSettingsPath :: "host_env \<Rightarrow> string" where
  "runtimeSettingsPath h = posix_resolve (he_cwd h) [appdata h, ''win98-mcp'', ''runtime.json'']"

definition loadRuntimeSettings :: "host_env \<Rightarrow> params" where
  "loadRuntimeSettings h =
     (case he_readJson h (runtimeSettingsPath h) of Inl _ \<Rightarrow> [] | Inr v \<Rightarrow> members v)"

definition load_file :: "host_env \<Rightarrow> string \<Rightarrow> load_options \<Rightarrow> params res" where
  "load_file h cwd opts =
     (case (case op_configPath opts of None \<Rightarrow> he_env h ''WIN98_MCP_CONFIG'' | p \<Rightarrow> p) of
        None \<Rightarrow> Inr []
      | Some p \<Rightarrow>
          if p = [] then Inr []
          else bindR (he_readJson h (if isAbsolute p then p else posix_resolve (he_cwd h) [cwd, p]))
                 (\<lambda>v. Inr (members v)))"

subsection \<open>Loading\<close>

definition load_upstream :: "params \<Rightarrow> params \<Rightarrow> params \<Rightarrow> (string \<times> int) option res" where
  "load_upstream ov merged runtime =
     (let pick = (\<lambda>k. coalesce (jsget ov k) (coalesce (jsget merged k) (jsget runtime k)));
          upstreamEnabled = coalesce (pick ''upstreamEnabled'') (JBool True)
      in case (if truthy upstreamEnabled then pick ''upstreamHost'' else JUndef) of
           JStr s \<Rightarrow>
             if trim s = [] then Inr None
             else bindR (integer (coalesce (pick ''upstreamPort'') (js_of_int DEFAULT_PORT))
                           ''upstreamPort'' 1 65535)
                    (\<lambda>port. Inr (Some (trim s, port)))
         | _ \<Rightarrow> Inr None)"

definition loadBrokerConfig :: "host_env \<Rightarrow> string option \<Rightarrow> load_options \<Rightarrow> broker_config res" where
  "loadBrokerConfig h cwdOption opts =
     (let cwd = posix_resolve (he_cwd h) [case cwdOption of None \<Rightarrow> he_cwd h | Some c \<Rightarrow> c];
          ov = op_overrides opts
      in
      bindR (load_file h cwd opts) (\<lambda>file.
      let runtime = loadRuntimeSettings h;
          merged = spread file ov;
          int_of = (\<lambda>k dflt lo hi. integer (coalesce (jsget merged k) (js_of_int dflt)) k lo hi);
          path_of_value = (\<lambda>v. resolveConfiguredPath (he_cwd h) v cwd)
      in
      bindR (integer (coalesce (jsget ov ''guestPort'') (coalesce (jsget merged ''guestPort'')
               (coalesce (jsget runtime ''port'')
                 (coalesce (envNumber (he_env h ''WIN98_MCP_GUEST_PORT'')) (js_of_int DEFAULT_PORT)))))
               ''guestPort'' 1 65535) (\<lambda>guestPort.
      bindR (integer (coalesce (jsget ov ''adapterPort'') (coalesce (jsget merged ''adapterPort'')
               (coalesce (jsget runtime ''brokerPort'')
                 (coalesce (envNumber (he_env h ''WIN98_MCP_ADAPTER_PORT''))
                   (js_of_int (defaultAdapterPort guestPort))))))
               ''adapterPort'' 1 65535) (\<lambda>adapterPort.
      bindR (boolean (coalesce (jsget ov ''lockingEnabled'') (coalesce (jsget merged ''lockingEnabled'')
               (coalesce (jsget runtime ''lockingEnabled'') (JBool False)))) ''lockingEnabled'') (\<lambda>locking.
      let defaultStateRoot = posix_resolve (he_cwd h) [appdata h, ''win98-mcp''] in
      bindR (load_upstream ov merged runtime) (\<lambda>upstream.
      bindR (path_of_value (coalesce (jsget merged ''stateDir'')
               (coalesce (env_value h ''WIN98_MCP_STATE_DIR'')
                 (JStr (if guestPort = DEFAULT_PORT then defaultStateRoot
                        else posix_resolve (he_cwd h)
                               [defaultStateRoot, ''port-'' @ show_int guestPort]))))) (\<lambda>stateDir.
      let beneath = (\<lambda>name. JStr (posix_resolve (he_cwd h) [stateDir, name])) in
      bindR (path_of_value (coalesce (jsget merged ''artifactDir'') (beneath ''artifacts''))) (\<lambda>artifactDir.
      bindR (path_of_value (coalesce (jsget merged ''logPath'') (beneath ''broker.jsonl''))) (\<lambda>logPath.
      bindR (int_of ''leaseTtlMs'' DEFAULT_LEASE_TTL_MS 1000 (24 * 60 * 60 * 1000)) (\<lambda>leaseTtl.
      bindR (int_of ''waitTicketTtlMs'' DEFAULT_WAIT_TICKET_TTL_MS 1000 (60 * 60 * 1000)) (\<lambda>ticketTtl.
      bindR (int_of ''requestTimeoutMs'' 30000 100 (60 * 60 * 1000)) (\<lambda>requestTimeout.
      bindR (int_of ''guestConnectTimeoutMs'' 5000 100 60000) (\<lambda>connectTimeout.
      bindR (int_of ''heartbeatTimeoutMs'' 30000 1000 (10 * 60 * 1000)) (\<lambda>heartbeat.
      bindR (int_of ''maxArtifactBytes'' (32 * 1024 * 1024) 1024 (512 * 1024 * 1024)) (\<lambda>maxArtifact.
      bindR (path_of_value (coalesce (jsget merged ''qemuRoot'')
               (coalesce (env_value h ''WIN98_MCP_QEMU_ROOT'') (beneath ''qemu'')))) (\<lambda>qemuRoot.
      let binary = coalesce (jsget merged ''qemuBinary'') (env_value h ''WIN98_MCP_QEMU_BINARY'') in
      bindR (case binary of
               JStr s \<Rightarrow> if trim s = [] then Inr None
                        else bindR (path_of_value (JStr (trim s))) (\<lambda>p. Inr (Some p))
             | _ \<Rightarrow> Inr None) (\<lambda>qemuBinary.
      Inr \<lparr> bc_guestPort = guestPort, bc_adapterPort = adapterPort, bc_lockingEnabled = locking,
            bc_upstream = upstream, bc_pipePath = defaultPipePath h guestPort,
            bc_stateDir = stateDir, bc_artifactDir = artifactDir, bc_logPath = logPath,
            bc_leaseTtlMs = leaseTtl, bc_waitTicketTtlMs = ticketTtl,
            bc_requestTimeoutMs = requestTimeout, bc_guestConnectTimeoutMs = connectTimeout,
            bc_heartbeatTimeoutMs = heartbeat, bc_maxArtifactBytes = maxArtifact,
            bc_qemuRoot = qemuRoot, bc_qemuBinary = qemuBinary \<rparr>)))))))))))))))))"

definition configDirectory :: "broker_config \<Rightarrow> string" where
  "configDirectory config = posix_dirname (bc_logPath config)"

subsection \<open>Lemmas\<close>

lemma nullish_of_int [simp]: "\<not> nullish (js_of_int i)"
  by (simp add: js_of_int_def)

lemma integer_bounds: "integer v label lo hi = Inr i \<Longrightarrow> lo \<le> i \<and> i \<le> hi \<and> js_integer v = Some i"
  by (auto simp: integer_def split: option.splits if_splits)

lemma integer_mem: "integer v label lo hi = Inr i \<Longrightarrow> i \<in> {lo..hi}"
  using integer_bounds by fastforce

lemma resolveConfiguredPath_absolute: "resolveConfiguredPath pcwd v cwd = Inr p \<Longrightarrow> isAbsolute p"
  by (auto simp: resolveConfiguredPath_def split: js.splits if_splits)

lemma load_upstream_ok:
  "load_upstream ov merged runtime = Inr (Some (host, port)) \<Longrightarrow>
     host \<noteq> [] \<and> 1 \<le> port \<and> port \<le> 65535"
  by (auto simp: load_upstream_def Let_def bindR_eq_Inr dest: integer_bounds
      split: js.splits if_splits)

lemma defaultAdapterPort_distinct: "defaultAdapterPort g \<noteq> g"
  by (simp add: defaultAdapterPort_def DEFAULT_PORT_def DEFAULT_ADAPTER_PORT_def)

subsection \<open>Properties\<close>

text \<open>
  C34. A configuration that loads is valid: ports are TCP ports, an upstream comes with a
  non-blank host and a port, durations and the artifact quota are within their limits, the working
  paths are absolute, and the adapter port differs from the guest port unless some source sets it.
\<close>

theorem loaded_config_valid:
  assumes "loadBrokerConfig h cwd opts = Inr c"
  shows "bc_guestPort c \<in> {1..65535} \<and> bc_adapterPort c \<in> {1..65535} \<and>
    (\<forall>host port. bc_upstream c = Some (host, port) \<longrightarrow> host \<noteq> [] \<and> port \<in> {1..65535}) \<and>
    bc_leaseTtlMs c \<in> {1000..86400000} \<and> bc_waitTicketTtlMs c \<in> {1000..3600000} \<and>
    bc_requestTimeoutMs c \<in> {100..3600000} \<and> bc_guestConnectTimeoutMs c \<in> {100..60000} \<and>
    bc_heartbeatTimeoutMs c \<in> {1000..600000} \<and> bc_maxArtifactBytes c \<in> {1024..536870912} \<and>
    list_all isAbsolute [bc_stateDir c, bc_artifactDir c, bc_logPath c, bc_qemuRoot c] \<and>
    (bc_adapterPort c = bc_guestPort c \<longrightarrow>
       \<not> nullish (jsget (op_overrides opts) ''adapterPort'') \<or>
       (\<exists>file. load_file h (posix_resolve (he_cwd h) [case cwd of None \<Rightarrow> he_cwd h | Some d \<Rightarrow> d]) opts = Inr file \<and>
          \<not> nullish (jsget (spread file (op_overrides opts)) ''adapterPort'')) \<or>
       \<not> nullish (jsget (loadRuntimeSettings h) ''brokerPort'') \<or>
       he_env h ''WIN98_MCP_ADAPTER_PORT'' \<noteq> None)"
proof -
  let ?cwd = "posix_resolve (he_cwd h) [case cwd of None \<Rightarrow> he_cwd h | Some d \<Rightarrow> d]"
  let ?ov = "op_overrides opts"
  obtain cfg a where loaded: "load_file h ?cwd opts = Inr cfg"
    and port: "integer a ''guestPort'' 1 65535 = Inr (bc_guestPort c)"
    and adapter: "integer (coalesce (jsget ?ov ''adapterPort'')
        (coalesce (jsget (spread cfg ?ov) ''adapterPort'')
          (coalesce (jsget (loadRuntimeSettings h) ''brokerPort'')
            (coalesce (envNumber (he_env h ''WIN98_MCP_ADAPTER_PORT''))
              (js_of_int (defaultAdapterPort (bc_guestPort c)))))))
        ''adapterPort'' 1 65535 = Inr (bc_adapterPort c)"
    and up: "load_upstream ?ov (spread cfg ?ov) (loadRuntimeSettings h) = Inr (bc_upstream c)"
    and ranges: "bc_leaseTtlMs c \<in> {1000..24 * 60 * 60 * 1000}"
      "bc_waitTicketTtlMs c \<in> {1000..60 * 60 * 1000}"
      "bc_requestTimeoutMs c \<in> {100..60 * 60 * 1000}" "bc_guestConnectTimeoutMs c \<in> {100..60000}"
      "bc_heartbeatTimeoutMs c \<in> {1000..10 * 60 * 1000}"
      "bc_maxArtifactBytes c \<in> {1024..512 * 1024 * 1024}"
    and paths: "isAbsolute (bc_stateDir c)" "isAbsolute (bc_artifactDir c)"
      "isAbsolute (bc_logPath c)" "isAbsolute (bc_qemuRoot c)"
    using assms unfolding loadBrokerConfig_def Let_def bindR_eq_Inr sum.inject
    apply (elim exE conjE, hypsubst)
    apply (rule that)
    apply (simp_all only: broker_config.select_convs)
    apply (assumption | rule integer_mem, assumption | rule resolveConfiguredPath_absolute, assumption)+
    done
  have "bc_upstream c = Some (host, port) \<longrightarrow> host \<noteq> [] \<and> port \<in> {1..65535}" for host port
    using up load_upstream_ok by fastforce
  moreover have "bc_adapterPort c = bc_guestPort c \<longrightarrow>
      \<not> nullish (jsget ?ov ''adapterPort'') \<or>
      \<not> nullish (jsget (spread cfg ?ov) ''adapterPort'') \<or>
      \<not> nullish (jsget (loadRuntimeSettings h) ''brokerPort'') \<or>
      he_env h ''WIN98_MCP_ADAPTER_PORT'' \<noteq> None"
    using integer_bounds [OF adapter] defaultAdapterPort_distinct [of "bc_guestPort c"]
    by (cases "he_env h ''WIN98_MCP_ADAPTER_PORT''") (auto simp: coalesce_def envNumber_def)
  ultimately show ?thesis
    using integer_bounds [OF port] integer_bounds [OF adapter] ranges paths loaded by auto
qed

text \<open>A host without configuration file, settings and environment, and the adapter's options on it.\<close>

definition demo_host :: host_env where
  "demo_host = \<lparr> he_env = (\<lambda>_. None), he_homedir = ''/home/u'', he_cwd = ''/w'',
     he_readJson = (\<lambda>_. Inl ''ENOENT''), he_win32 = False \<rparr>"

definition demo_options :: load_options where
  "demo_options = \<lparr> op_configPath = None, op_overrides = [(''guestPort'', js_of_int 7000)] \<rparr>"

lemma demo_config:
  "\<exists>c. loadBrokerConfig demo_host None demo_options = Inr c \<and> bc_guestPort c = 7000 \<and>
     bc_adapterPort c = 7001"
  by (simp add: loadBrokerConfig_def demo_host_def demo_options_def load_file_def Let_def
      loadRuntimeSettings_def spread_def coalesce_def integer_def boolean_def envNumber_def
      env_value_def load_upstream_def resolveConfiguredPath_def defaultAdapterPort_def
      DEFAULT_PORT_def DEFAULT_LEASE_TTL_MS_def DEFAULT_WAIT_TICKET_TTL_MS_def)

theorem loaded_config_valid_witness:
  "\<exists>c. loadBrokerConfig demo_host None demo_options = Inr c \<and> bc_guestPort c = 7000 \<and>
     bc_adapterPort c \<noteq> bc_guestPort c \<and> bc_requestTimeoutMs c \<in> {100..3600000}"
proof -
  obtain c where c: "loadBrokerConfig demo_host None demo_options = Inr c" "bc_guestPort c = 7000"
    "bc_adapterPort c = 7001"
    using demo_config by blast
  show ?thesis using loaded_config_valid [OF c(1)] c by auto
qed

end
