(* ===== verification/Artifacts.thy ===== *)
theory Artifacts
  imports Js_Path "HOL-Library.Product_Lexorder" "HOL-Library.Multiset"
begin

text \<open>
  The artifact store: \<open>src/host/artifacts.ts\<close>. The store's directory is the list of its entries in
  the order \<open>readdir\<close> gives; the maintenance chain runs one operation after the other, so an
  operation is a function of the directory. The collation rank of a file name (what
  \<open>localeCompare\<close> orders by), SHA-256, the drawn identifier and the clock are arguments. An error
  keeps the evictions made before it.
\<close>

record dir_entry =
  de_name :: string
  de_isFile :: bool
  de_data :: bytes
  de_mtime :: int

record artifact_store =
  as_directory :: string
  as_maxArtifactBytes :: nat
  as_maxTotalBytes :: nat

record stored_artifact =
  sa_id :: string
  sa_mimeType :: string
  sa_bytes :: nat
  sa_sha256 :: string
  sa_createdAt :: int
  sa_path :: string

definition new_artifact_store :: "string \<Rightarrow> nat \<Rightarrow> nat option \<Rightarrow> artifact_store" where
  "new_artifact_store directory maxArtifactBytes maxTotalBytes =
     \<lparr> as_directory = directory, as_maxArtifactBytes = maxArtifactBytes,
       as_maxTotalBytes = (case maxTotalBytes of
          None \<Rightarrow> max maxArtifactBytes (256 * 1024 * 1024) | Some n \<Rightarrow> n) \<rparr>"

subsection \<open>Names\<close>

definition is_hex :: "char \<Rightarrow> bool" where
  "is_hex c \<longleftrightarrow> (let n = of_char c :: nat in
     48 \<le> n \<and> n \<le> 57 \<or> 97 \<le> n \<and> n \<le> 102 \<or> 65 \<le> n \<and> n \<le> 70)"

definition is_alnum :: "char \<Rightarrow> bool" where
  "is_alnum c \<longleftrightarrow> (let n = of_char c :: nat in
     48 \<le> n \<and> n \<le> 57 \<or> 97 \<le> n \<and> n \<le> 122 \<or> 65 \<le> n \<and> n \<le> 90)"

definition KNOWN_EXTENSIONS :: "string list" where
  "KNOWN_EXTENSIONS = [''.png'', ''.bin'', ''.txt'']"

definition isArtifactFileName :: "string \<Rightarrow> bool" where
  "isArtifactFileName name \<longleftrightarrow>
     length name = 40 \<and>
     list_all is_hex (take 8 name) \<and> name ! 8 = CHR ''-'' \<and>
     list_all is_hex (take 4 (drop 9 name)) \<and> name ! 13 = CHR ''-'' \<and>
     name ! 14 \<in> set ''12345'' \<and> list_all is_hex (take 3 (drop 15 name)) \<and> name ! 18 = CHR ''-'' \<and>
     name ! 19 \<in> set ''89abAB'' \<and> list_all is_hex (take 3 (drop 20 name)) \<and> name ! 23 = CHR ''-'' \<and>
     list_all is_hex (take 12 (drop 24 name)) \<and>
     to_lower (drop 36 name) \<in> set KNOWN_EXTENSIONS"

definition posix_extname :: "string \<Rightarrow> string" where
  "posix_extname p =
     (let b = posix_basename p in
      if b = ''..'' then []
      else case last_index_of (CHR ''.'') b of
             None \<Rightarrow> []
           | Some i \<Rightarrow> if i = 0 then [] else drop i b)"

definition safeExtension :: "string \<Rightarrow> string" where
  "safeExtension value =
     (let extension = (let e = posix_extname value in if e = [] then value else e) in
      if extension \<noteq> [] \<and> hd extension = CHR ''.'' \<and> 1 \<le> length (tl extension) \<and>
         length (tl extension) \<le> 8 \<and> list_all is_alnum (tl extension)
      then to_lower extension else ''.bin'')"

definition extensionForMime :: "string \<Rightarrow> string" where
  "extensionForMime mimeType =
     (if mimeType = ''image/png'' then ''.png''
      else if starts_with mimeType ''text/'' then ''.txt''
      else ''.bin'')"

subsection \<open>Operations\<close>

definition total_bytes :: "dir_entry list \<Rightarrow> nat" where
  "total_bytes es = sum_list (map (\<lambda>e. length (de_data e)) es)"

definition is_artifact :: "dir_entry \<Rightarrow> bool" where
  "is_artifact e \<longleftrightarrow> de_isFile e \<and> isArtifactFileName (de_name e)"

definition sorted_artifacts :: "(string \<Rightarrow> nat) \<Rightarrow> dir_entry list \<Rightarrow> dir_entry list" where
  "sorted_artifacts rank dir = sort_key (\<lambda>e. (de_mtime e, rank (de_name e))) (filter is_artifact dir)"

definition unlink :: "string \<Rightarrow> dir_entry list \<Rightarrow> dir_entry list" where
  "unlink name dir = filter (\<lambda>e. de_name e \<noteq> name) dir"

fun evict_loop ::
  "nat \<Rightarrow> nat \<Rightarrow> dir_entry list \<Rightarrow> nat \<Rightarrow> dir_entry list \<Rightarrow> nat \<times> dir_entry list" where
  "evict_loop maxTotal reserved [] usage dir = (usage, dir)"
| "evict_loop maxTotal reserved (a # as) usage dir =
     (if usage + reserved \<le> maxTotal then (usage, dir)
      else evict_loop maxTotal reserved as (usage - length (de_data a)) (unlink (de_name a) dir))"

definition evictFor :: "(string \<Rightarrow> nat) \<Rightarrow> artifact_store \<Rightarrow> nat \<Rightarrow> (dir_entry list, unit) op" where
  "evictFor rank store reservedBytes dir =
     (let artifacts = sorted_artifacts rank dir;
          (usage, dir') = evict_loop (as_maxTotalBytes store) reservedBytes artifacts
                            (total_bytes artifacts) dir
      in if usage + reservedBytes > as_maxTotalBytes store
         then (Inl (''ARTIFACT_TOTAL_LIMIT_EXCEEDED:'' @ show_nat (usage + reservedBytes) @ '':'' @
                 show_nat (as_maxTotalBytes store)), dir')
         else (Inr (), dir'))"

definition initialize :: "(string \<Rightarrow> nat) \<Rightarrow> artifact_store \<Rightarrow> (dir_entry list, unit) op" where
  "initialize rank store = evictFor rank store 0"

definition write_new :: "string \<Rightarrow> bytes \<Rightarrow> int \<Rightarrow> (dir_entry list, unit) op" where
  "write_new name data now dir =
     (if name \<in> de_name ` set dir then (Inl ''EEXIST'', dir)
      else (Inr (), dir @ [\<lparr> de_name = name, de_isFile = True, de_data = data, de_mtime = now \<rparr>]))"

definition put ::
  "(string \<Rightarrow> nat) \<Rightarrow> (bytes \<Rightarrow> string) \<Rightarrow> string \<Rightarrow> int \<Rightarrow> artifact_store \<Rightarrow> bytes \<Rightarrow> string \<Rightarrow>
   string option \<Rightarrow> (dir_entry list, stored_artifact) op" where
  "put rank sha256 uuid now store data mimeType preferredExtension =
     (if length data > as_maxArtifactBytes store
      then throwS (''ARTIFACT_TOO_LARGE:'' @ show_nat (length data) @ '':'' @
             show_nat (as_maxArtifactBytes store))
      else if length data > as_maxTotalBytes store
      then throwS (''ARTIFACT_TOTAL_LIMIT_EXCEEDED:'' @ show_nat (length data) @ '':'' @
             show_nat (as_maxTotalBytes store))
      else
        bindS (evictFor rank store (length data)) (\<lambda>_.
        let extension = safeExtension (case preferredExtension of
                          None \<Rightarrow> extensionForMime mimeType | Some e \<Rightarrow> e);
            name = uuid @ extension
        in bindS (write_new name data now) (\<lambda>_.
           returnS \<lparr> sa_id = uuid, sa_mimeType = mimeType, sa_bytes = length data,
                     sa_sha256 = sha256 data, sa_createdAt = now,
                     sa_path = posix_resolve ''/'' [as_directory store, name] \<rparr>)))"

definition read_file :: "string \<Rightarrow> dir_entry list \<Rightarrow> bytes option" where
  "read_file name dir =
     map_option de_data (find (\<lambda>e. de_name e = name \<and> de_isFile e) dir)"

fun first_readable :: "string list \<Rightarrow> string \<Rightarrow> dir_entry list \<Rightarrow> bytes option" where
  "first_readable [] artifact_id dir = None"
| "first_readable (x # xs) artifact_id dir =
     (case read_file (artifact_id @ x) dir of
        Some d \<Rightarrow> Some d | None \<Rightarrow> first_readable xs artifact_id dir)"

definition valid_artifact_id :: "string \<Rightarrow> bool" where
  "valid_artifact_id i \<longleftrightarrow> length i = 36 \<and> list_all (\<lambda>c. is_hex c \<or> c = CHR ''-'') i"

definition get :: "string \<Rightarrow> dir_entry list \<Rightarrow> bytes res" where
  "get i dir =
     (if \<not> valid_artifact_id i then Inl ''ARTIFACT_ID_INVALID''
      else case first_readable KNOWN_EXTENSIONS i dir of
             None \<Rightarrow> Inl ''ARTIFACT_NOT_FOUND''
           | Some d \<Rightarrow> Inr d)"

subsection \<open>What the eviction loop leaves\<close>

lemma total_bytes_simps [simp]:
  "total_bytes [] = 0"
  "total_bytes (e # es) = length (de_data e) + total_bytes es"
  "total_bytes (es @ fs) = total_bytes es + total_bytes fs"
  by (simp_all add: total_bytes_def)

lemma evict_loop_eq:
  assumes "evict_loop m r as (total_bytes as) dir = (usage, dir')"
  shows "\<exists>n \<le> length as. usage = total_bytes (drop n as) \<and>
     dir' = filter (\<lambda>e. de_name e \<notin> de_name ` set (take n as)) dir \<and>
     (n = length as \<or> usage + r \<le> m) \<and>
     (\<forall>k < n. m < total_bytes (drop k as) + r)"
  using assms
proof (induction as arbitrary: dir)
  case (Cons a as)
  show ?case
  proof (cases "total_bytes (a # as) + r \<le> m")
    case True
    then show ?thesis using Cons.prems by (intro exI [of _ 0]) auto
  next
    case False
    then have "evict_loop m r as (total_bytes as) (unlink (de_name a) dir) = (usage, dir')"
      using Cons.prems by simp
    from Cons.IH [OF this] obtain n where n: "n \<le> length as" "usage = total_bytes (drop n as)"
      "dir' = filter (\<lambda>e. de_name e \<notin> de_name ` set (take n as)) (unlink (de_name a) dir)"
      "n = length as \<or> usage + r \<le> m" "\<forall>k < n. m < total_bytes (drop k as) + r"
      by blast
    have "m < total_bytes (drop k (a # as)) + r" if "k < Suc n" for k
      using that n(5) False by (cases k) auto
    then show ?thesis
      using n by (intro exI [of _ "Suc n"]) (auto simp: unlink_def intro!: filter_cong)
  qed
qed simp

lemma safeExtension_known: "safeExtension (extensionForMime mime) \<in> set KNOWN_EXTENSIONS"
proof -
  have "\<forall>x \<in> set KNOWN_EXTENSIONS. safeExtension x \<in> set KNOWN_EXTENSIONS" by code_simp
  then show ?thesis by (auto simp: extensionForMime_def KNOWN_EXTENSIONS_def)
qed

lemma read_file_append:
  "read_file n (xs @ ys) = (case read_file n xs of None \<Rightarrow> read_file n ys | d \<Rightarrow> d)"
  by (induction xs) (auto simp: read_file_def)

lemma read_file_None: "n \<notin> de_name ` set dir \<Longrightarrow> read_file n dir = None"
  by (induction dir) (auto simp: read_file_def)

lemma first_readable_new:
  assumes "x \<in> set xs" and "\<forall>y \<in> set xs. i @ y \<notin> de_name ` set dir"
  shows "first_readable xs i
    (dir @ [\<lparr> de_name = i @ x, de_isFile = True, de_data = d, de_mtime = t \<rparr>]) = Some d"
  using assms
proof (induction xs)
  case (Cons y ys)
  then have "read_file (i @ y) dir = None" by (intro read_file_None) simp
  then show ?case using Cons by (auto simp: read_file_append, auto simp: read_file_def)
qed simp

lemma eviction_lemma:
  assumes "evictFor rank store r dir = (Inr (), dir')" and "distinct (map de_name dir)"
  shows "\<exists>gone. dir' = filter (\<lambda>e. e \<notin> set gone) dir \<and> set gone \<subseteq> set (filter is_artifact dir) \<and>
    (\<forall>g \<in> set gone. \<forall>e \<in> set dir'. is_artifact e \<longrightarrow> de_mtime g \<le> de_mtime e) \<and>
    total_bytes (filter is_artifact dir') + r \<le> as_maxTotalBytes store \<and>
    (gone \<noteq> [] \<longrightarrow>
       as_maxTotalBytes store < total_bytes (filter is_artifact dir') + length (de_data (last gone)) + r)"
proof -
  define as where "as = sorted_artifacts rank dir"
  obtain usage dir2 where l2: "evict_loop (as_maxTotalBytes store) r as (total_bytes as) dir = (usage, dir2)"
    by fastforce
  then have l: "evict_loop (as_maxTotalBytes store) r as (total_bytes as) dir = (usage, dir')"
    and room: "usage + r \<le> as_maxTotalBytes store"
    using assms(1) by (auto simp: evictFor_def as_def Let_def split: if_splits)
  obtain n where n: "n \<le> length as" "usage = total_bytes (drop n as)"
    "dir' = filter (\<lambda>e. de_name e \<notin> de_name ` set (take n as)) dir"
    "\<forall>k < n. as_maxTotalBytes store < total_bytes (drop k as) + r"
    using evict_loop_eq [OF l] by blast
  have as: "set as = set (filter is_artifact dir)" "mset as = mset (filter is_artifact dir)"
    by (simp_all add: as_def sorted_artifacts_def)
  have sub: "set (take n as) \<subseteq> set dir" using as(1) set_take_subset [of n as] by auto
  have named: "e \<in> set (take n as)" if "e \<in> set dir" "de_name e \<in> de_name ` set (take n as)" for e
    using that sub assms(2) by (auto simp: distinct_map inj_on_def)
  have dir': "dir' = filter (\<lambda>e. e \<notin> set (take n as)) dir"
    unfolding n(3) using named by (intro filter_cong) auto
  have d: "distinct as"
    using assms(2) as(2) by (metis distinct_filter distinct_map mset_eq_imp_distinct_iff)
  have kept: "mset (filter is_artifact dir') = mset (drop n as)"
  proof -
    have "mset (filter is_artifact dir') = filter_mset (\<lambda>e. e \<notin> set (take n as)) (mset as)"
      by (simp add: dir' as(2) filter_filter_mset conj_commute)
    also have "\<dots> = mset (filter (\<lambda>e. e \<notin> set (take n as)) (take n as @ drop n as))"
      by (simp only: append_take_drop_id mset_filter)
    also have "filter (\<lambda>e. e \<notin> set (take n as)) (take n as @ drop n as) = drop n as"
    proof -
      have "filter (\<lambda>e. e \<notin> set (take n as)) (drop n as) = drop n as"
        using set_take_disj_set_drop_if_distinct [OF d, of n n] by (intro filter_True) auto
      moreover have "filter (\<lambda>e. e \<notin> set (take n as)) (take n as) = []"
        by (intro filter_False) simp
      ultimately show ?thesis by (simp only: filter_append) simp
    qed
    finally show ?thesis .
  qed
  have tb: "total_bytes (filter is_artifact dir') = total_bytes (drop n as)"
    using kept by (metis total_bytes_def mset_map sum_mset_sum_list)
  have sorted: "sorted (map (\<lambda>e. (de_mtime e, rank (de_name e))) as)"
    by (simp add: as_def sorted_artifacts_def)
  have old: "de_mtime g \<le> de_mtime e" if "g \<in> set (take n as)" "e \<in> set dir'" "is_artifact e" for g e
  proof -
    have "e \<in> set (filter is_artifact dir')" using that by simp
    then have "e \<in> set (drop n as)" using kept by (metis set_mset_mset)
    moreover have "sorted (map (\<lambda>e. (de_mtime e, rank (de_name e))) (take n as @ drop n as))"
      using sorted by simp
    ultimately have "(de_mtime g, rank (de_name g)) \<le> (de_mtime e, rank (de_name e))"
      using that(1) by (simp only: map_append sorted_append) auto
    then show ?thesis by auto
  qed
  show ?thesis
  proof (intro exI [of _ "take n as"] conjI ballI impI)
    assume "take n as \<noteq> []"
    then obtain k where k: "n = Suc k" "k < length as" using n(1) by (cases n) auto
    then have "drop k as = last (take n as) # drop n as"
      by (simp add: Cons_nth_drop_Suc take_Suc_conv_app_nth)
    then show "as_maxTotalBytes store <
        total_bytes (filter is_artifact dir') + length (de_data (last (take n as))) + r"
      using n(4) k(1) by (auto simp: tb)
  qed (use dir' as(1) set_take_subset [of n as] old tb room n(2) in auto)
qed

subsection \<open>Properties\<close>

text \<open>
  C29. Making room evicts artifacts and nothing else, evicts no artifact that is younger than
  one it keeps, leaves room for the reserved bytes, and stops as soon as there is room: without
  the last eviction there would have been too little.
\<close>

theorem eviction_oldest_first:
  assumes "evictFor rank store r dir = (Inr (), dir')" and "distinct (map de_name dir)"
  shows "\<exists>gone. dir' = filter (\<lambda>e. e \<notin> set gone) dir \<and> set gone \<subseteq> set (filter is_artifact dir) \<and>
    (\<forall>g \<in> set gone. \<forall>e \<in> set dir'. is_artifact e \<longrightarrow> de_mtime g \<le> de_mtime e) \<and>
    total_bytes (filter is_artifact dir') + r \<le> as_maxTotalBytes store \<and>
    (gone \<noteq> [] \<longrightarrow>
       as_maxTotalBytes store < total_bytes (filter is_artifact dir') + length (de_data (last gone)) + r)"
  by (rule eviction_lemma [OF assms])

definition demo_store :: artifact_store where
  "demo_store = \<lparr> as_directory = ''/a'', as_maxArtifactBytes = 4, as_maxTotalBytes = 4 \<rparr>"

definition demo_artifact :: "char \<Rightarrow> nat \<Rightarrow> int \<Rightarrow> dir_entry" where
  "demo_artifact c n t = \<lparr> de_name = c # ''0000000-0000-4000-8000-000000000000.png'',
     de_isFile = True, de_data = replicate n 0, de_mtime = t \<rparr>"

theorem eviction_oldest_first_witness:
  "evictFor (\<lambda>_. 0) demo_store 2 [demo_artifact CHR ''a'' 2 9, demo_artifact CHR ''b'' 2 5] =
     (Inr (), [demo_artifact CHR ''a'' 2 9]) \<and>
   (\<exists>gone. [demo_artifact CHR ''a'' 2 9] = filter (\<lambda>e. e \<notin> set gone)
      [demo_artifact CHR ''a'' 2 9, demo_artifact CHR ''b'' 2 5])"
proof -
  have r: "evictFor (\<lambda>_. 0) demo_store 2 [demo_artifact CHR ''a'' 2 9, demo_artifact CHR ''b'' 2 5] =
     (Inr (), [demo_artifact CHR ''a'' 2 9])"
    by code_simp
  have d: "distinct (map de_name [demo_artifact CHR ''a'' 2 9, demo_artifact CHR ''b'' 2 5])"
    by code_simp
  show ?thesis using eviction_oldest_first [OF r d] r by blast
qed



end
