(* ===== verification/Incoming_Streams.thy ===== *)
theory Incoming_Streams
  imports Js
begin

text \<open>
  Guest data streams: \<open>IncomingStreamRegistry\<close> of \<open>src/host/incoming-streams.ts\<close>. A stream is a
  mutable object that the registry's map and the waiting calls share, so it lives in a store and
  the map holds references. \<open>waitFor\<close> suspends once: \<open>wait_start\<close> is the code up to the \<open>await\<close>,
  \<open>wait_finish\<close> the code after it, run when the waiter was woken, timed out, or did not have to
  wait; other operations may run in between. SHA-256 is an argument.
\<close>

subsection \<open>State\<close>

text \<open>
  The \<open>retentionTimer\<close> field: absent, a pending timer, or a timer that was cleared or has fired
  while the field is still set.
\<close>

datatype retention = NoTimer | Armed | Disarmed

record istream =
  is_chunks :: "bytes list"
  is_bytes :: nat
  is_complete :: bool
  is_error :: "string option"
  is_waiters :: "nat list"
  is_retention :: retention

record registry =
  ir_maxStreamBytes :: nat
  ir_maxUnclaimedStreams :: nat
  ir_streams :: "(int \<times> nat) list"
  ir_heap :: "nat \<Rightarrow> istream"
  ir_next :: nat

record stream_descriptor =
  sd_streamId :: int
  sd_totalBytes :: "nat option"
  sd_sha256 :: "string option"

definition DEFAULT_MAX_UNCLAIMED_STREAMS :: nat where "DEFAULT_MAX_UNCLAIMED_STREAMS = 16"

definition fresh_stream :: "retention \<Rightarrow> istream" where
  "fresh_stream t = \<lparr> is_chunks = [], is_bytes = 0, is_complete = False, is_error = None,
     is_waiters = [], is_retention = t \<rparr>"

definition new_registry :: "nat \<Rightarrow> nat \<Rightarrow> registry" where
  "new_registry maxBytes maxUnclaimed =
     \<lparr> ir_maxStreamBytes = maxBytes, ir_maxUnclaimedStreams = maxUnclaimed, ir_streams = [],
       ir_heap = (\<lambda>_. fresh_stream NoTimer), ir_next = 0 \<rparr>"

definition size_streams :: "registry \<Rightarrow> nat" where
  "size_streams s = length (ir_streams s)"

definition lookup :: "int \<Rightarrow> registry \<Rightarrow> nat option" where
  "lookup i s = map_of (ir_streams s) i"

definition set_stream :: "nat \<Rightarrow> istream \<Rightarrow> registry \<Rightarrow> registry" where
  "set_stream r x s = s\<lparr> ir_heap := (ir_heap s)(r := x) \<rparr>"

definition create_stream :: "int \<Rightarrow> retention \<Rightarrow> registry \<Rightarrow> nat \<times> registry" where
  "create_stream i t s =
     (ir_next s,
      s\<lparr> ir_streams := ir_streams s @ [(i, ir_next s)],
         ir_heap := (ir_heap s)(ir_next s := fresh_stream t), ir_next := ir_next s + 1 \<rparr>)"

text \<open>\<open>scheduleRetention\<close> replaces a pending timer by a new one.\<close>

definition createUnclaimedStream :: "int \<Rightarrow> registry \<Rightarrow> nat \<times> registry" where
  "createUnclaimedStream i s = create_stream i Armed s"

definition delete_if_same :: "int \<Rightarrow> nat \<Rightarrow> registry \<Rightarrow> registry" where
  "delete_if_same i r s =
     (if lookup i s = Some r then s\<lparr> ir_streams := filter (\<lambda>e. fst e \<noteq> i) (ir_streams s) \<rparr> else s)"

subsection \<open>Operations\<close>

text \<open>\<open>wake\<close> returns the waiters whose promises it resolves.\<close>

definition wake :: "nat \<Rightarrow> registry \<Rightarrow> nat list \<times> registry" where
  "wake r s = (is_waiters (ir_heap s r), set_stream r ((ir_heap s r)\<lparr> is_waiters := [] \<rparr>) s)"

definition extend_stream :: "nat \<Rightarrow> bool \<Rightarrow> bytes \<Rightarrow> istream \<Rightarrow> istream" where
  "extend_stream maxStreamBytes final payload x =
     (let bytes = is_bytes x + length payload;
          x = (if bytes > maxStreamBytes
               then x\<lparr> is_bytes := bytes, is_error := Some ''DATA_STREAM_TOO_LARGE'',
                       is_complete := True \<rparr>
               else x\<lparr> is_bytes := bytes, is_chunks := is_chunks x @ [payload],
                       is_complete := final \<rparr>)
      in if is_retention x \<noteq> NoTimer then x\<lparr> is_retention := Armed \<rparr> else x)"

definition accept_chunk :: "nat \<Rightarrow> bool \<Rightarrow> bytes \<Rightarrow> registry \<Rightarrow> nat list res \<times> registry" where
  "accept_chunk r final payload s =
     (if is_complete (ir_heap s r) then (Inl ''DATA_AFTER_STREAM_END'', s)
      else
        let x = extend_stream (ir_maxStreamBytes s) final payload (ir_heap s r);
            s = set_stream r x s
        in if is_complete x \<or> is_error x \<noteq> None
           then (let (ws, s) = wake r s in (Inr ws, s))
           else (Inr [], s))"

definition accept :: "int \<Rightarrow> bool \<Rightarrow> bytes \<Rightarrow> (registry, nat list) op" where
  "accept streamId final payload s =
     (if streamId \<le> 0 then (Inl ''DATA_STREAM_ID_INVALID'', s)
      else case lookup streamId s of
        Some r \<Rightarrow> accept_chunk r final payload s
      | None \<Rightarrow>
          if size_streams s \<ge> ir_maxUnclaimedStreams s then (Inl ''DATA_STREAM_LIMIT_EXCEEDED'', s)
          else (let (r, s) = createUnclaimedStream streamId s in accept_chunk r final payload s))"

text \<open>The stream the call refers to, and whether it has to wait as the given waiter.\<close>

datatype wait_begin = Ready nat | Waiting nat

definition wait_start :: "stream_descriptor \<Rightarrow> nat \<Rightarrow> (registry, wait_begin) op" where
  "wait_start d waiter s =
     (if sd_streamId d \<le> 0 then (Inl ''DATA_STREAM_ID_INVALID'', s)
      else
        let (r, s) = (case lookup (sd_streamId d) s of
              Some r \<Rightarrow> (r, s) | None \<Rightarrow> create_stream (sd_streamId d) NoTimer s);
            x = (ir_heap s r)\<lparr> is_retention := NoTimer \<rparr>
        in if \<not> is_complete x \<and> is_error x = None
           then (Inr (Waiting r), set_stream r (x\<lparr> is_waiters := is_waiters x @ [waiter] \<rparr>) s)
           else (Inr (Ready r), set_stream r x s))"

text \<open>\<open>Buffer.concat(list, length)\<close> cuts off or fills with zero bytes.\<close>

definition buffer_concat :: "bytes list \<Rightarrow> nat \<Rightarrow> bytes" where
  "buffer_concat cs n = take n (concat cs @ replicate n 0)"

definition claim :: "(bytes \<Rightarrow> string) \<Rightarrow> stream_descriptor \<Rightarrow> istream \<Rightarrow> bytes res" where
  "claim sha256 d x =
     (case is_error x of
        Some e \<Rightarrow> Inl e
      | None \<Rightarrow>
          let data = buffer_concat (is_chunks x) (is_bytes x) in
          if sd_totalBytes d \<noteq> None \<and> sd_totalBytes d \<noteq> Some (length data)
          then Inl ''DATA_STREAM_LENGTH_MISMATCH''
          else if sd_sha256 d \<noteq> None \<and> sd_sha256 d \<noteq> Some (sha256 data)
          then Inl ''DATA_STREAM_HASH_MISMATCH''
          else Inr data)"

definition release_stream :: "int \<Rightarrow> nat \<Rightarrow> nat option \<Rightarrow> registry \<Rightarrow> registry" where
  "release_stream i r waiter s =
     (let x = ir_heap s r;
          x = (case waiter of None \<Rightarrow> x | Some w \<Rightarrow> x\<lparr> is_waiters := remove1 w (is_waiters x) \<rparr>);
          x = (if is_retention x = NoTimer then x else x\<lparr> is_retention := Disarmed \<rparr>);
          s = delete_if_same i r (set_stream r x s)
      in set_stream r (x\<lparr> is_chunks := [] \<rparr>) s)"

definition wait_finish ::
  "(bytes \<Rightarrow> string) \<Rightarrow> stream_descriptor \<Rightarrow> nat \<Rightarrow> nat option \<Rightarrow> bool \<Rightarrow> (registry, bytes) op" where
  "wait_finish sha256 d r waiter timedOut s =
     ((if timedOut then Inl ''DATA_STREAM_TIMEOUT'' else claim sha256 d (ir_heap s r)),
      release_stream (sd_streamId d) r waiter s)"

definition retention_expired :: "int \<Rightarrow> nat \<Rightarrow> registry \<Rightarrow> registry" where
  "retention_expired i r s =
     (let x = (ir_heap s r)\<lparr> is_retention := Disarmed \<rparr>; s' = set_stream r x s in
      if lookup i s = Some r \<and> is_waiters x = []
      then set_stream r (x\<lparr> is_chunks := [] \<rparr>) (delete_if_same i r s')
      else s')"

fun close_all :: "string \<Rightarrow> (int \<times> nat) list \<Rightarrow> registry \<Rightarrow> nat list \<times> registry" where
  "close_all e [] s = ([], s)"
| "close_all e ((i, r) # rest) s =
     (let s = set_stream r ((ir_heap s r)\<lparr> is_error := Some e,
                is_retention := (if is_retention (ir_heap s r) = NoTimer then NoTimer else Disarmed) \<rparr>) s;
          (ws, s) = wake r s;
          s = set_stream r ((ir_heap s r)\<lparr> is_chunks := [] \<rparr>) s;
          (ws', s) = close_all e rest s
      in (ws @ ws', s))"

definition close_registry :: "string \<Rightarrow> registry \<Rightarrow> nat list \<times> registry" where
  "close_registry e s =
     (let (ws, s) = close_all e (ir_streams s) s in (ws, s\<lparr> ir_streams := [] \<rparr>))"

subsection \<open>Runs\<close>

text \<open>
  The suspended \<open>waitFor\<close> calls are kept beside the registry: descriptor, stream and waiter. A call
  that need not wait runs to its end at once. A suspended call resumes with a timeout only while
  its waiter is still registered, and normally only after it was woken.
\<close>

type_synonym suspended = "stream_descriptor \<times> nat \<times> nat"

inductive registry_reachable ::
  "(bytes \<Rightarrow> string) \<Rightarrow> nat \<Rightarrow> nat \<Rightarrow> registry \<Rightarrow> suspended set \<Rightarrow> bool" for sha256 maxBytes maxUnclaimed where
  start: "registry_reachable sha256 maxBytes maxUnclaimed (new_registry maxBytes maxUnclaimed) {}"
| accept: "registry_reachable sha256 maxBytes maxUnclaimed s calls \<Longrightarrow> accept i f p s = (res, s') \<Longrightarrow>
    registry_reachable sha256 maxBytes maxUnclaimed s' calls"
| wait_error: "registry_reachable sha256 maxBytes maxUnclaimed s calls \<Longrightarrow> wait_start d w s = (Inl e, s') \<Longrightarrow>
    registry_reachable sha256 maxBytes maxUnclaimed s' calls"
| wait_suspend: "registry_reachable sha256 maxBytes maxUnclaimed s calls \<Longrightarrow>
    wait_start d w s = (Inr (Waiting r), s') \<Longrightarrow>
    registry_reachable sha256 maxBytes maxUnclaimed s' (insert (d, r, w) calls)"
| wait_ready: "registry_reachable sha256 maxBytes maxUnclaimed s calls \<Longrightarrow>
    wait_start d w s = (Inr (Ready r), s1) \<Longrightarrow> wait_finish sha256 d r None False s1 = (res, s') \<Longrightarrow>
    registry_reachable sha256 maxBytes maxUnclaimed s' calls"
| resume: "registry_reachable sha256 maxBytes maxUnclaimed s calls \<Longrightarrow> (d, r, w) \<in> calls \<Longrightarrow>
    timedOut \<longleftrightarrow> w \<in> set (is_waiters (ir_heap s r)) \<Longrightarrow>
    wait_finish sha256 d r (Some w) timedOut s = (res, s') \<Longrightarrow>
    registry_reachable sha256 maxBytes maxUnclaimed s' (calls - {(d, r, w)})"
| retention: "registry_reachable sha256 maxBytes maxUnclaimed s calls \<Longrightarrow> (i, r) \<in> set (ir_streams s) \<Longrightarrow>
    is_retention (ir_heap s r) = Armed \<Longrightarrow>
    registry_reachable sha256 maxBytes maxUnclaimed (retention_expired i r s) calls"
| close: "registry_reachable sha256 maxBytes maxUnclaimed s calls \<Longrightarrow> close_registry e s = (ws, s') \<Longrightarrow>
    registry_reachable sha256 maxBytes maxUnclaimed s' calls"

subsection \<open>The invariant\<close>

definition buffered :: "istream \<Rightarrow> nat" where
  "buffered x = length (concat (is_chunks x))"

definition armed :: "registry \<Rightarrow> (int \<times> nat) list" where
  "armed s = filter (\<lambda>(i, r). is_retention (ir_heap s r) = Armed) (ir_streams s)"

definition stream_ok :: "nat \<Rightarrow> istream \<Rightarrow> bool" where
  "stream_ok m x \<longleftrightarrow> buffered x \<le> m \<and> is_retention x \<noteq> Disarmed \<and>
     (is_retention x = Armed \<longrightarrow> is_waiters x = []) \<and>
     (is_error x = None \<longrightarrow> is_bytes x = buffered x) \<and> (is_error x \<noteq> None \<longrightarrow> is_complete x)"

definition registry_ok :: "registry \<Rightarrow> suspended set \<Rightarrow> bool" where
  "registry_ok s calls \<longleftrightarrow>
     distinct (map fst (ir_streams s)) \<and> distinct (map snd (ir_streams s)) \<and>
     (\<forall>(i, r) \<in> set (ir_streams s). 0 < i \<and> r < ir_next s \<and> stream_ok (ir_maxStreamBytes s) (ir_heap s r)) \<and>
     length (armed s) \<le> ir_maxUnclaimedStreams s \<and>
     (\<forall>(d, r, w) \<in> calls. r < ir_next s \<and> (\<forall>i. (i, r) \<in> set (ir_streams s) \<longrightarrow> i = sd_streamId d))"

lemma lookup_Some: "distinct (map fst (ir_streams s)) \<Longrightarrow> lookup i s = Some r \<longleftrightarrow> (i, r) \<in> set (ir_streams s)"
  by (simp add: lookup_def)

lemma armed_le: "length (armed s) \<le> size_streams s"
  by (simp add: armed_def size_streams_def)

lemma registry_one_id:
  "registry_ok s calls \<Longrightarrow> (i, r) \<in> set (ir_streams s) \<Longrightarrow> (j, r) \<in> set (ir_streams s) \<Longrightarrow> i = j"
  unfolding registry_ok_def distinct_map inj_on_def by (metis fst_conv snd_conv)

lemma registry_lookup: "registry_ok s calls \<Longrightarrow> lookup i s = Some r \<longleftrightarrow> (i, r) \<in> set (ir_streams s)"
  by (simp add: registry_ok_def lookup_Some)

text \<open>Replacing the object of one reference.\<close>

lemma armed_set_stream:
  assumes "is_retention x = Armed \<longrightarrow> is_retention (ir_heap s r) = Armed"
  shows "length (armed (set_stream r x s)) \<le> length (armed s)"
proof -
  have "length (filter P xs) \<le> length (filter Q xs)" if "\<And>x. x \<in> set xs \<Longrightarrow> P x \<Longrightarrow> Q x" for P Q :: "int \<times> nat \<Rightarrow> bool" and xs
    using that by (induction xs) auto
  then show ?thesis using assms by (fastforce simp: armed_def set_stream_def)
qed

lemma registry_ok_set_stream:
  assumes "registry_ok s calls" "stream_ok (ir_maxStreamBytes s) (ir_heap s r) \<Longrightarrow> stream_ok (ir_maxStreamBytes s) x"
    and "is_retention x = Armed \<longrightarrow> is_retention (ir_heap s r) = Armed"
  shows "registry_ok (set_stream r x s) calls"
  using assms armed_set_stream [OF assms(3)]
  by (fastforce simp: registry_ok_def set_stream_def)

lemma registry_ok_filter:
  assumes "registry_ok s calls"
  shows "registry_ok (s\<lparr> ir_streams := filter P (ir_streams s) \<rparr>) calls"
proof -
  have "length (filter Q (filter P xs)) \<le> length (filter Q xs)" for Q and xs :: "(int \<times> nat) list"
    by (induction xs) auto
  then show ?thesis
    using assms by (auto simp: registry_ok_def armed_def distinct_map_filter intro: order_trans)
qed

lemma registry_ok_create:
  assumes "registry_ok s calls" "lookup i s = None" "0 < i" "t \<noteq> Disarmed"
    and "t = Armed \<Longrightarrow> size_streams s < ir_maxUnclaimedStreams s"
    and "create_stream i t s = (r, s')"
  shows "registry_ok s' calls \<and> r = ir_next s \<and> ir_heap s' r = fresh_stream t \<and>
    (i, r) \<in> set (ir_streams s') \<and> r < ir_next s' \<and> ir_maxStreamBytes s' = ir_maxStreamBytes s"
proof -
  have fresh: "i \<notin> fst ` set (ir_streams s)"
    using assms(2) by (simp add: lookup_def map_of_eq_None_iff)
  have next_new: "ir_next s \<notin> snd ` set (ir_streams s)"
    using assms(1) by (auto simp: registry_ok_def)
  have s': "r = ir_next s" "s' = s\<lparr> ir_streams := ir_streams s @ [(i, ir_next s)],
      ir_heap := (ir_heap s)(ir_next s := fresh_stream t), ir_next := ir_next s + 1 \<rparr>"
    using assms(6) by (auto simp: create_stream_def)
  have "filter (\<lambda>(i, r). is_retention (((ir_heap s)(ir_next s := fresh_stream t)) r) = Armed) (ir_streams s)
      = armed s"
    unfolding armed_def using next_new by (intro filter_cong) (auto simp: image_iff)
  then have "armed s' = armed s @ (if t = Armed then [(i, ir_next s)] else [])"
    by (simp add: s' armed_def fresh_stream_def)
  then have "length (armed s') \<le> ir_maxUnclaimedStreams s'"
    using assms(1,5) armed_le [of s] by (auto simp: registry_ok_def s')
  moreover have "stream_ok (ir_maxStreamBytes s) (fresh_stream t)"
    using assms(4) by (simp add: stream_ok_def fresh_stream_def buffered_def)
  ultimately show ?thesis
    using assms(1,3) fresh next_new by (fastforce simp: registry_ok_def s')
qed

lemma set_stream_simps [simp]:
  "ir_streams (set_stream r x s) = ir_streams s"
  "ir_next (set_stream r x s) = ir_next s"
  "ir_maxStreamBytes (set_stream r x s) = ir_maxStreamBytes s"
  "ir_maxUnclaimedStreams (set_stream r x s) = ir_maxUnclaimedStreams s"
  "ir_heap (set_stream r x s) = (ir_heap s)(r := x)"
  "set_stream r x (set_stream r y s) = set_stream r x s"
  "lookup i (set_stream r x s) = lookup i s"
  by (simp_all add: set_stream_def lookup_def)

lemma accept_chunk_state:
  assumes "accept_chunk r f p s = (res, s')"
  shows "s' = s \<or> (\<exists>x. s' = set_stream r x s \<and> (is_retention x = Armed \<longrightarrow> is_retention (ir_heap s r) \<noteq> NoTimer) \<and>
    (stream_ok (ir_maxStreamBytes s) (ir_heap s r) \<longrightarrow> stream_ok (ir_maxStreamBytes s) x))"
proof (cases "is_complete (ir_heap s r)")
  case False
  define x where "x = extend_stream (ir_maxStreamBytes s) f p (ir_heap s r)"
  define y where "y = (if is_complete x \<or> is_error x \<noteq> None then x\<lparr> is_waiters := [] \<rparr> else x)"
  have "s' = set_stream r y s"
    using assms False by (auto simp: accept_chunk_def wake_def Let_def x_def [symmetric] y_def)
  moreover have "is_retention y = Armed \<longrightarrow> is_retention (ir_heap s r) \<noteq> NoTimer"
    by (auto simp: y_def x_def extend_stream_def Let_def)
  moreover have "stream_ok (ir_maxStreamBytes s) (ir_heap s r) \<longrightarrow> stream_ok (ir_maxStreamBytes s) y"
    using False
    by (cases "is_retention (ir_heap s r)")
      (auto simp: stream_ok_def y_def x_def extend_stream_def buffered_def Let_def)
  ultimately show ?thesis by blast
qed (use assms in \<open>simp add: accept_chunk_def\<close>)

lemma registry_ok_accept_chunk:
  assumes "registry_ok s calls" "(i, r) \<in> set (ir_streams s)" "accept_chunk r f p s = (res, s')"
  shows "registry_ok s' calls"
  using accept_chunk_state [OF assms(3)]
proof (elim disjE exE conjE)
  fix x
  assume x: "s' = set_stream r x s" "is_retention x = Armed \<longrightarrow> is_retention (ir_heap s r) \<noteq> NoTimer"
    "stream_ok (ir_maxStreamBytes s) (ir_heap s r) \<longrightarrow> stream_ok (ir_maxStreamBytes s) x"
  have "stream_ok (ir_maxStreamBytes s) (ir_heap s r)"
    using assms(1,2) by (auto simp: registry_ok_def)
  then have "is_retention (ir_heap s r) \<noteq> Disarmed" by (simp add: stream_ok_def)
  then have "is_retention x = Armed \<longrightarrow> is_retention (ir_heap s r) = Armed"
    using x(2) by (cases "is_retention (ir_heap s r)") auto
  then show ?thesis using registry_ok_set_stream [OF assms(1)] x by blast
qed (use assms(1) in simp)

lemma registry_ok_accept:
  assumes "registry_ok s calls" and "accept i f p s = (res, s')"
  shows "registry_ok s' calls"
proof (cases "lookup i s")
  case (Some r)
  then have "(i, r) \<in> set (ir_streams s)"
    using assms(1) by (simp add: registry_ok_def lookup_Some)
  then show ?thesis
    using registry_ok_accept_chunk [OF assms(1)] assms Some
    by (auto simp: accept_def split: if_splits)
next
  case None
  obtain r s1 where c: "create_stream i Armed s = (r, s1)" by fastforce
  show ?thesis
  proof (cases "i \<le> 0 \<or> size_streams s \<ge> ir_maxUnclaimedStreams s")
    case False
    then have "registry_ok s1 calls" "(i, r) \<in> set (ir_streams s1)"
      using registry_ok_create [OF assms(1) None _ _ _ c] by auto
    moreover have "accept_chunk r f p s1 = (res, s')"
      using assms(2) None False by (simp add: accept_def createUnclaimedStream_def c)
    ultimately show ?thesis by (rule registry_ok_accept_chunk)
  qed (use assms None in \<open>auto simp: accept_def split: if_splits\<close>)
qed

lemma registry_ok_wait_start:
  assumes "registry_ok s calls" and "wait_start d w s = (res, s')"
  shows "registry_ok s' calls \<and>
    (\<forall>r. res = Inr (Ready r) \<or> res = Inr (Waiting r) \<longrightarrow> (sd_streamId d, r) \<in> set (ir_streams s'))"
proof (cases "sd_streamId d \<le> 0")
  case False
  obtain r s1 where r: "(case lookup (sd_streamId d) s of
      Some r \<Rightarrow> (r, s) | None \<Rightarrow> create_stream (sd_streamId d) NoTimer s) = (r, s1)"
    by fastforce
  have ok: "registry_ok s1 calls" and mem: "(sd_streamId d, r) \<in> set (ir_streams s1)"
    using r assms(1) registry_ok_create [OF assms(1) _ _ _ _, of "sd_streamId d" NoTimer r s1] False
    by (auto simp: registry_ok_def lookup_Some split: option.splits)
  obtain x where x: "s' = set_stream r x s1" "is_retention x = NoTimer"
    "res = Inr (Ready r) \<or> res = Inr (Waiting r)"
    "is_chunks x = is_chunks (ir_heap s1 r)" "is_bytes x = is_bytes (ir_heap s1 r)"
    "is_error x = is_error (ir_heap s1 r)" "is_complete x = is_complete (ir_heap s1 r)"
    using assms(2) False by (auto simp: wait_start_def r Let_def split: if_splits)
  have "registry_ok s' calls"
    unfolding x(1) by (rule registry_ok_set_stream [OF ok]) (auto simp: stream_ok_def x buffered_def)
  then show ?thesis using mem x by auto
qed (use assms in \<open>auto simp: wait_start_def\<close>)

lemma registry_ok_out:
  assumes "registry_ok s calls" and "r \<notin> snd ` set (ir_streams s)"
  shows "registry_ok (set_stream r x s) calls"
proof -
  have "armed (set_stream r x s) = armed s"
    unfolding armed_def using assms(2) by (intro filter_cong) (auto simp: image_iff)
  moreover have "(\<forall>(i, q) \<in> set (ir_streams s). 0 < i \<and> q < ir_next s \<and>
        stream_ok (ir_maxStreamBytes s) (((ir_heap s)(r := x)) q)) \<longleftrightarrow>
      (\<forall>(i, q) \<in> set (ir_streams s). 0 < i \<and> q < ir_next s \<and>
        stream_ok (ir_maxStreamBytes s) (ir_heap s q))"
    using assms(2) by (intro ball_cong) (auto simp: image_iff)
  ultimately show ?thesis using assms(1) unfolding registry_ok_def by simp
qed

lemma delete_if_same_ok:
  assumes "registry_ok s calls" and "\<forall>i'. (i', r) \<in> set (ir_streams s) \<longrightarrow> i' = i"
  shows "registry_ok (delete_if_same i r s) calls \<and> r \<notin> snd ` set (ir_streams (delete_if_same i r s))"
proof (cases "lookup i s = Some r")
  case True
  then have "(i, r) \<in> set (ir_streams s)"
    using assms(1) by (simp add: registry_ok_def lookup_Some)
  have "r \<notin> snd ` set (filter (\<lambda>e. fst e \<noteq> i) (ir_streams s))"
  proof
    assume "r \<in> snd ` set (filter (\<lambda>e. fst e \<noteq> i) (ir_streams s))"
    then obtain j where "(j, r) \<in> set (ir_streams s)" "j \<noteq> i" by auto
    then show False using assms(2) by blast
  qed
  then show ?thesis using True registry_ok_filter [OF assms(1)] by (simp add: delete_if_same_def)
next
  case False
  then have "(i, r) \<notin> set (ir_streams s)"
    using assms(1) by (simp add: registry_ok_def lookup_Some)
  then have "r \<notin> snd ` set (ir_streams s)" using assms(2) by (metis imageE prod.collapse)
  then show ?thesis using False assms(1) by (simp add: delete_if_same_def)
qed

lemma delete_set_stream: "delete_if_same i r (set_stream q x s) = set_stream q x (delete_if_same i r s)"
  by (simp add: delete_if_same_def set_stream_def lookup_def)

lemma registry_ok_release:
  assumes "registry_ok s calls" and "\<forall>i'. (i', r) \<in> set (ir_streams s) \<longrightarrow> i' = i"
  shows "registry_ok (release_stream i r w s) calls"
  unfolding release_stream_def Let_def delete_set_stream set_stream_simps
  using delete_if_same_ok [OF assms] by (auto intro: registry_ok_out)

lemma close_all_fields:
  "close_all e xs s = (ws, s') \<Longrightarrow> ir_next s' = ir_next s \<and>
     ir_maxStreamBytes s' = ir_maxStreamBytes s \<and> ir_maxUnclaimedStreams s' = ir_maxUnclaimedStreams s"
  by (induction e xs s arbitrary: ws s' rule: close_all.induct)
    (fastforce simp: wake_def Let_def split: prod.splits)+

lemma registry_ok_close:
  assumes "registry_ok s calls" and "close_registry e s = (ws, s')"
  shows "registry_ok s' calls"
  using assms close_all_fields [of e "ir_streams s" s]
  by (fastforce simp: close_registry_def registry_ok_def armed_def split: prod.splits)

abbreviation same_limits :: "registry \<Rightarrow> registry \<Rightarrow> bool" where
  "same_limits s' s \<equiv> ir_maxStreamBytes s' = ir_maxStreamBytes s \<and>
     ir_maxUnclaimedStreams s' = ir_maxUnclaimedStreams s"

lemma create_fields: "create_stream i t s = (r, s') \<Longrightarrow> same_limits s' s"
  by (auto simp: create_stream_def)

lemma accept_chunk_fields: "accept_chunk r f p s = (res, s') \<Longrightarrow> same_limits s' s"
  using accept_chunk_state by fastforce

lemma accept_fields: "accept i f p s = (res, s') \<Longrightarrow> same_limits s' s"
  by (auto simp: accept_def createUnclaimedStream_def Let_def dest!: accept_chunk_fields create_fields
      split: if_splits option.splits prod.splits)

lemma wait_start_fields: "wait_start d w s = (res, s') \<Longrightarrow> same_limits s' s"
  by (auto simp: wait_start_def Let_def dest!: create_fields split: if_splits option.splits prod.splits)

lemma release_fields: "same_limits (release_stream i r w s) s"
  by (simp add: release_stream_def Let_def delete_if_same_def)

lemma close_fields: "close_registry e s = (ws, s') \<Longrightarrow> same_limits s' s"
  using close_all_fields by (fastforce simp: close_registry_def split: prod.splits)

lemma registry_reachable_ok:
  "registry_reachable sha256 m u s calls \<Longrightarrow>
     registry_ok s calls \<and> ir_maxStreamBytes s = m \<and> ir_maxUnclaimedStreams s = u"
proof (induction rule: registry_reachable.induct)
  case start
  then show ?case by (simp add: registry_ok_def new_registry_def armed_def)
next
  case (accept s calls i f p res s')
  then show ?case using registry_ok_accept accept_fields by metis
next
  case (wait_error s calls d w e s')
  then show ?case using registry_ok_wait_start wait_start_fields by metis
next
  case (wait_suspend s calls d w r s')
  have ok: "registry_ok s' calls" "(sd_streamId d, r) \<in> set (ir_streams s')"
    using registry_ok_wait_start wait_suspend by auto
  then have "registry_ok s' (insert (d, r, w) calls)"
    by (auto simp: registry_ok_def distinct_map inj_on_def) (metis old.prod.inject snd_conv)
  then show ?case using wait_suspend wait_start_fields by metis
next
  case (wait_ready s calls d w r s1 res s')
  have ok: "registry_ok s1 calls" "(sd_streamId d, r) \<in> set (ir_streams s1)"
    using registry_ok_wait_start wait_ready by auto
  then have "\<forall>i. (i, r) \<in> set (ir_streams s1) \<longrightarrow> i = sd_streamId d"
    by (auto simp: registry_ok_def distinct_map inj_on_def) (metis old.prod.inject snd_conv)
  then have "registry_ok s' calls"
    using registry_ok_release [OF ok(1)] wait_ready by (auto simp: wait_finish_def)
  then show ?case using wait_ready wait_start_fields release_fields by (metis snd_conv wait_finish_def)
next
  case (resume s calls d r w timedOut res s')
  then have ok: "registry_ok s calls" by simp
  then have "\<forall>i. (i, r) \<in> set (ir_streams s) \<longrightarrow> i = sd_streamId d"
    using resume(2) by (auto simp: registry_ok_def)
  then have "registry_ok s' calls"
    using registry_ok_release [OF ok] resume(4) by (auto simp: wait_finish_def)
  then have "registry_ok s' (calls - {(d, r, w)})" by (auto simp: registry_ok_def)
  then show ?case using resume release_fields by (metis snd_conv wait_finish_def)
next
  case (retention s calls i r)
  have "lookup i s = Some r" using retention registry_lookup by blast
  moreover have "\<forall>i'. (i', r) \<in> set (ir_streams s) \<longrightarrow> i' = i"
    using retention registry_one_id by blast
  moreover have "is_waiters (ir_heap s r) = []"
    using retention(2,3,4) unfolding registry_ok_def stream_ok_def by blast
  ultimately have r: "is_waiters (ir_heap s r) = []" "lookup i s = Some r"
    "\<forall>i'. (i', r) \<in> set (ir_streams s) \<longrightarrow> i' = i"
    by simp_all
  have ok: "registry_ok s calls" using retention by blast
  have "retention_expired i r s =
      set_stream r ((ir_heap s r)\<lparr> is_retention := Disarmed, is_chunks := [] \<rparr>) (delete_if_same i r s)"
    using r by (simp add: retention_expired_def Let_def delete_set_stream)
  moreover have "registry_ok (delete_if_same i r s) calls"
    "r \<notin> snd ` set (ir_streams (delete_if_same i r s))"
    using delete_if_same_ok [OF ok r(3)] by blast+
  moreover have "same_limits (delete_if_same i r s) s" by (simp add: delete_if_same_def)
  ultimately show ?case using retention registry_ok_out by simp
next
  case (close s calls e ws s')
  then show ?case using registry_ok_close close_fields by metis
qed

subsection \<open>Delivery\<close>

fun accept_all :: "(int \<times> bool \<times> bytes) list \<Rightarrow> (registry, unit) op" where
  "accept_all [] s = (Inr (), s)"
| "accept_all ((i, f, p) # frames) s =
     (case accept i f p s of (Inl e, s') \<Rightarrow> (Inl e, s') | (Inr _, s') \<Rightarrow> accept_all frames s')"

definition view :: "int \<Rightarrow> registry \<Rightarrow> (bytes list \<times> nat \<times> bool \<times> string option) option" where
  "view i s = map_option (\<lambda>r. let x = ir_heap s r in (is_chunks x, is_bytes x, is_complete x, is_error x))
     (lookup i s)"

lemma extend_stream_content:
  "is_chunks (extend_stream m f p x) =
     (if is_bytes x + length p > m then is_chunks x else is_chunks x @ [p])"
  "is_bytes (extend_stream m f p x) = is_bytes x + length p"
  "is_complete (extend_stream m f p x) = (is_bytes x + length p > m \<or> f)"
  "is_error (extend_stream m f p x) =
     (if is_bytes x + length p > m then Some ''DATA_STREAM_TOO_LARGE'' else is_error x)"
  by (auto simp: extend_stream_def Let_def)

lemma accept_chunk_view:
  assumes "registry_ok s calls" "lookup i s = Some r" "accept_chunk r f p s = (Inr ws, s')"
  shows "view i s' = Some
      (let x = extend_stream (ir_maxStreamBytes s) f p (ir_heap s r)
       in (is_chunks x, is_bytes x, is_complete x, is_error x))"
    "j \<noteq> i \<Longrightarrow> view j s' = view j s" "\<not> is_complete (ir_heap s r)"
proof -
  define x where "x = extend_stream (ir_maxStreamBytes s) f p (ir_heap s r)"
  define y where "y = (if is_complete x \<or> is_error x \<noteq> None then x\<lparr> is_waiters := [] \<rparr> else x)"
  show nc: "\<not> is_complete (ir_heap s r)"
    using assms(3) by (auto simp: accept_chunk_def split: if_splits)
  have s': "s' = set_stream r y s"
    using assms(3) nc by (auto simp: accept_chunk_def wake_def Let_def x_def [symmetric] y_def)
  then show "view i s' = Some
      (let x = extend_stream (ir_maxStreamBytes s) f p (ir_heap s r)
       in (is_chunks x, is_bytes x, is_complete x, is_error x))"
    using assms(2) by (simp add: view_def x_def [symmetric] y_def)
  have "lookup j s \<noteq> Some r" if "j \<noteq> i"
    using assms(1,2) that registry_one_id by (auto simp: registry_lookup)
  then show "j \<noteq> i \<Longrightarrow> view j s' = view j s"
    using s' by (auto simp: view_def map_option_case split: option.splits)
qed

lemma accept_view:
  assumes "registry_ok s calls" and "accept i f p s = (Inr ws, s')"
  shows "j \<noteq> i \<Longrightarrow> view j s' = view j s"
    and "(view i s = None \<and> cs = [] \<or> view i s = Some (cs, length (concat cs), False, None)) \<Longrightarrow>
      length (concat cs) + length p \<le> ir_maxStreamBytes s \<Longrightarrow>
      view i s' = Some (cs @ [p], length (concat (cs @ [p])), f, None)"
proof -
  obtain r s1 where r: "registry_ok s1 calls" "lookup i s1 = Some r" "accept_chunk r f p s1 = (Inr ws, s')"
    "ir_maxStreamBytes s1 = ir_maxStreamBytes s" "j \<noteq> i \<Longrightarrow> view j s1 = view j s"
    "view i s = None \<and> view i s1 = Some ([], 0, False, None) \<or> s1 = s"
  proof (cases "lookup i s")
    case (Some r)
    then show ?thesis using assms that [of s r] by (auto simp: accept_def split: if_splits)
  next
    case None
    obtain r s1 where c: "create_stream i Armed s = (r, s1)" by fastforce
    have g: "0 < i" "size_streams s < ir_maxUnclaimedStreams s"
      using assms(2) None by (auto simp: accept_def split: if_splits)
    note k = registry_ok_create [OF assms(1) None g(1) retention.distinct(5) g(2) c]
    have a: "accept_chunk r f p s1 = (Inr ws, s')"
      using assms(2) None g by (simp add: accept_def createUnclaimedStream_def c)
    have l: "lookup i s1 = Some r" using k by (metis registry_lookup)
    have "ir_next s \<notin> snd ` set (ir_streams s)" using assms(1) by (auto simp: registry_ok_def)
    then have "view j s1 = view j s" if "j \<noteq> i"
      using c that map_of_SomeD [of "ir_streams s" j "ir_next s"]
      by (auto simp: create_stream_def view_def lookup_def map_add_def map_option_case
          dest: map_of_SomeD split: option.splits) (force dest: map_of_SomeD)
    moreover have "view i s1 = Some ([], 0, False, None)"
      using k l by (auto simp: view_def fresh_stream_def Let_def)
    ultimately show ?thesis using that [of s1 r] k a l None by (simp add: view_def)
  qed
  show "j \<noteq> i \<Longrightarrow> view j s' = view j s" using accept_chunk_view(2) [OF r(1-3)] r(5) by simp
  assume cs: "view i s = None \<and> cs = [] \<or> view i s = Some (cs, length (concat cs), False, None)"
    and len: "length (concat cs) + length p \<le> ir_maxStreamBytes s"
  have "view i s1 \<noteq> None" using r(2) by (simp add: view_def)
  then have v: "view i s1 = Some (cs, length (concat cs), False, None)" using cs r(6) by auto
  then have "is_chunks (ir_heap s1 r) = cs" "is_bytes (ir_heap s1 r) = length (concat cs)"
    "is_error (ir_heap s1 r) = None"
    using r(2) by (auto simp: view_def Let_def)
  then show "view i s' = Some (cs @ [p], length (concat (cs @ [p])), f, None)"
    using accept_chunk_view(1) [OF r(1-3)] len by (simp add: Let_def extend_stream_content r(4))
qed

lemma accept_all_other:
  "registry_ok s calls \<Longrightarrow> accept_all frames s = (Inr (), s') \<Longrightarrow> \<forall>f \<in> set frames. fst f \<noteq> i \<Longrightarrow>
     view i s' = view i s \<and> registry_ok s' calls"
proof (induction frames s rule: accept_all.induct)
  case (2 j f p frames s)
  then obtain ws s1 where a: "accept j f p s = (Inr ws, s1)" "accept_all frames s1 = (Inr (), s')"
    by (auto split: prod.splits sum.splits)
  then show ?case
    using 2 accept_view(1) [OF 2(2) a(1), of i] registry_ok_accept [OF 2(2) a(1)] by auto
qed simp

lemma accept_all_stream:
  "registry_ok s calls \<Longrightarrow> accept_all frames s = (Inr (), s') \<Longrightarrow>
   view i s = None \<and> cs = [] \<or> view i s = Some (cs, length (concat cs), False, None) \<Longrightarrow>
   map snd (filter (\<lambda>f. fst f = i) frames) = map (Pair False) ps @ [(True, q)] \<Longrightarrow>
   length (concat (cs @ ps @ [q])) \<le> ir_maxStreamBytes s \<Longrightarrow>
   view i s' = Some (cs @ ps @ [q], length (concat (cs @ ps @ [q])), True, None) \<and> registry_ok s' calls"
proof (induction frames s arbitrary: cs ps rule: accept_all.induct)
  case (2 j f p frames s)
  then obtain ws s1 where a: "accept j f p s = (Inr ws, s1)" "accept_all frames s1 = (Inr (), s')"
    by (auto split: prod.splits sum.splits)
  note ok = registry_ok_accept [OF 2(2) a(1)]
  note m = accept_fields [OF a(1)]
  show ?case
  proof (cases "j = i")
    case False
    then have "view i s1 = view i s" using accept_view(1) [OF 2(2) a(1)] by simp
    then show ?thesis using 2 a ok m False by simp
  next
    case True
    show ?thesis
    proof (cases ps)
      case Nil
      then have f: "f" "p = q" "\<forall>f \<in> set frames. fst f \<noteq> i"
        using 2(5) True by (auto simp: filter_empty_conv)
      have "view i s1 = Some (cs @ [q], length (concat (cs @ [q])), True, None)"
        using accept_view(2) [OF 2(2), of i f p ws s1 cs] a(1) 2(4,6) True f Nil by simp
      then show ?thesis using accept_all_other [OF ok a(2) f(3)] Nil by simp
    next
      case (Cons p' ps')
      then have f: "\<not> f" "p = p'"
        "map snd (filter (\<lambda>f. fst f = i) frames) = map (Pair False) ps' @ [(True, q)]"
        using 2(5) True by auto
      have "view i s1 = Some (cs @ [p], length (concat (cs @ [p])), False, None)"
        using accept_view(2) [OF 2(2), of i f p ws s1 cs] a(1) 2(4,6) True f Cons by simp
      then show ?thesis
        using 2(1) [OF a(1) [symmetric] refl ok a(2), of "cs @ [p]" ps'] f Cons 2(6) m by simp
    qed
  qed
qed simp

lemma wait_complete:
  assumes "registry_ok s calls" "view i s = Some (cs, length (concat cs), True, None)"
    and "sd_streamId d = i" "sd_totalBytes d \<in> {None, Some (length (concat cs))}"
    and "sd_sha256 d \<in> {None, Some (sha256 (concat cs))}"
  shows "\<exists>r s1 s'. wait_start d w s = (Inr (Ready r), s1) \<and>
    wait_finish sha256 d r None False s1 = (Inr (concat cs), s') \<and> lookup i s' = None"
proof -
  obtain r where r: "lookup i s = Some r" and x: "is_chunks (ir_heap s r) = cs"
    "is_bytes (ir_heap s r) = length (concat cs)" "is_complete (ir_heap s r)" "is_error (ir_heap s r) = None"
    using assms(2) by (auto simp: view_def Let_def)
  have i: "0 < i" using assms(1) r registry_lookup by (fastforce simp: registry_ok_def)
  define s1 where "s1 = set_stream r ((ir_heap s r)\<lparr> is_retention := NoTimer \<rparr>) s"
  have "wait_start d w s = (Inr (Ready r), s1)"
    using r x i assms(3) by (simp add: wait_start_def s1_def)
  moreover have "claim sha256 d (ir_heap s1 r) = Inr (concat cs)"
    using x assms(4,5) by (auto simp: claim_def s1_def buffer_concat_def)
  moreover have "lookup i (release_stream i r None s1) = None"
    using r by (simp add: release_stream_def Let_def delete_set_stream s1_def)
      (simp add: delete_if_same_def lookup_def map_of_eq_None_iff image_iff)
  ultimately show ?thesis using assms(3) by (simp add: wait_finish_def)
qed

subsection \<open>Properties\<close>

text \<open>
  C25. Whatever the guest sends and in whatever order waits, timeouts and a close interleave: no
  stream of the registry buffers more than the limit, at most the configured number of streams is
  unclaimed, every registered stream has one identifier, and an unclaimed stream has no waiter.
\<close>

theorem registry_bounded:
  assumes "registry_reachable sha256 maxBytes maxUnclaimed s calls"
  shows "(\<forall>(i, r) \<in> set (ir_streams s). length (concat (is_chunks (ir_heap s r))) \<le> maxBytes \<and>
      (is_retention (ir_heap s r) = Armed \<longrightarrow> is_waiters (ir_heap s r) = [])) \<and>
    length (filter (\<lambda>(i, r). is_retention (ir_heap s r) = Armed) (ir_streams s)) \<le> maxUnclaimed \<and>
    distinct (map fst (ir_streams s)) \<and> distinct (map snd (ir_streams s))"
  using registry_reachable_ok [OF assms]
  by (fastforce simp: registry_ok_def stream_ok_def buffered_def armed_def)

theorem registry_bounded_witness:
  "\<exists>s ws. accept 5 False [1, 2] (new_registry 4 1) = (Inr ws, s) \<and>
     map fst (ir_streams s) = [5] \<and> distinct (map snd (ir_streams s)) \<and>
     length (filter (\<lambda>(i, r). is_retention (ir_heap s r) = Armed) (ir_streams s)) \<le> 1"
proof -
  obtain ws s where a: "accept 5 False [1, 2] (new_registry 4 1) = (Inr ws, s)"
    "map fst (ir_streams s) = [5]"
    by (simp add: accept_def new_registry_def lookup_def size_streams_def createUnclaimedStream_def
        create_stream_def accept_chunk_def extend_stream_def fresh_stream_def set_stream_def Let_def)
  have "registry_reachable (\<lambda>_. []) 4 1 s {}"
    by (rule registry_reachable.accept [OF registry_reachable.start a(1)])
  from registry_bounded [OF this] a show ?thesis
    by (intro exI [of _ s] exI [of _ ws]) simp
qed

text \<open>
  C24. A stream whose frames fit the limit is delivered exactly: after its frames arrived in
  order, the last one marked final, with frames of other streams in between, \<open>waitFor\<close> does not
  suspend, accepts a matching length and digest, returns the concatenated payloads and forgets the
  stream.
\<close>

theorem stream_delivered:
  assumes "registry_reachable sha256 maxBytes maxUnclaimed s calls" and "lookup i s = None"
    and "accept_all frames s = (Inr (), s1)"
    and "map snd (filter (\<lambda>f. fst f = i) frames) = map (Pair False) ps @ [(True, q)]"
    and "length (concat (ps @ [q])) \<le> maxBytes"
    and "sd_streamId d = i" "sd_totalBytes d \<in> {None, Some (length (concat (ps @ [q])))}"
    and "sd_sha256 d \<in> {None, Some (sha256 (concat (ps @ [q])))}"
  shows "\<exists>r s2 s3. wait_start d w s1 = (Inr (Ready r), s2) \<and>
    wait_finish sha256 d r None False s2 = (Inr (concat (ps @ [q])), s3) \<and> lookup i s3 = None"
proof -
  have ok: "registry_ok s calls" and m: "ir_maxStreamBytes s = maxBytes"
    using registry_reachable_ok [OF assms(1)] by auto
  have "view i s = None" using assms(2) by (simp add: view_def)
  then have "view i s1 = Some (ps @ [q], length (concat (ps @ [q])), True, None) \<and> registry_ok s1 calls"
    using accept_all_stream [OF ok assms(3), of i "[]" ps q] assms(4,5) m by simp
  then show ?thesis using wait_complete [of s1 calls i "ps @ [q]" d] assms(6-8) by blast
qed

theorem stream_delivered_witness:
  "\<exists>s1 r s2 s3. accept_all [(5, False, [1]), (6, True, [9]), (5, True, [2])] (new_registry 4 2) = (Inr (), s1) \<and>
     wait_start \<lparr> sd_streamId = 5, sd_totalBytes = Some 2, sd_sha256 = None \<rparr> 0 s1 = (Inr (Ready r), s2) \<and>
     wait_finish (\<lambda>_. []) \<lparr> sd_streamId = 5, sd_totalBytes = Some 2, sd_sha256 = None \<rparr> r None False s2 =
       (Inr [1, 2], s3)"
proof -
  let ?frames = "[(5, False, [1]), (6, True, [9]), (5, True, [2])] :: (int \<times> bool \<times> bytes) list"
  obtain s1 where a: "accept_all ?frames (new_registry 4 2) = (Inr (), s1)"
    by (simp add: accept_def new_registry_def lookup_def size_streams_def createUnclaimedStream_def
        create_stream_def accept_chunk_def extend_stream_def fresh_stream_def set_stream_def wake_def Let_def)
  have new: "lookup 5 (new_registry 4 2) = None" by (simp add: new_registry_def lookup_def)
  show ?thesis
    using stream_delivered [OF registry_reachable.start [of "\<lambda>_. []" 4 2] new a, of "[[1]]" "[2]"
        "\<lparr> sd_streamId = 5, sd_totalBytes = Some 2, sd_sha256 = None \<rparr>" 0]
    by (intro exI [of _ s1]) (simp only: a, auto)
qed

end
