(* ===== verification/Host_Fs.thy ===== *)
theory Host_Fs
  imports Js_Path
begin

text \<open>
  The file system of a host as the transfer code uses it. A path is a normalised absolute path; the
  entries are files with their modification time, directories and symbolic links. Paths through symbolic links are not followed. Errors are the \<open>code\<close> of the errors that
  Node raises.
\<close>

datatype hnode = HFile bytes int | HDir | HLink | HOther

type_synonym host_fs = "(string \<times> hnode) list"

definition ENOENT :: string where "ENOENT = ''ENOENT''"

definition isMissing :: "string \<Rightarrow> bool" where
  "isMissing e \<longleftrightarrow> e = ENOENT"

definition node :: "host_fs \<Rightarrow> string \<Rightarrow> hnode option" where
  "node fs p = (if p = ''/'' then Some HDir else map_of fs p)"

definition fs_put :: "string \<Rightarrow> hnode \<Rightarrow> host_fs \<Rightarrow> host_fs" where
  "fs_put p n fs = (p, n) # filter (\<lambda>e. fst e \<noteq> p) fs"

definition fs_del :: "string \<Rightarrow> host_fs \<Rightarrow> host_fs" where
  "fs_del p fs = filter (\<lambda>e. fst e \<noteq> p) fs"

definition ancestors :: "string \<Rightarrow> string list" where
  "ancestors p = (let segs = path_segments p in map (\<lambda>k. path_of (take k segs)) [0..<length segs])"

definition is_dir :: "host_fs \<Rightarrow> string \<Rightarrow> bool" where
  "is_dir fs p \<longleftrightarrow> node fs p = Some HDir"

definition obstructed :: "host_fs \<Rightarrow> string \<Rightarrow> bool" where
  "obstructed fs p \<longleftrightarrow> list_ex (\<lambda>a. node fs a \<noteq> None \<and> \<not> is_dir fs a) (ancestors p)"

definition lstat :: "host_fs \<Rightarrow> string \<Rightarrow> hnode res" where
  "lstat fs p =
     (case node fs p of
        Some n \<Rightarrow> Inr n
      | None \<Rightarrow> Inl (if obstructed fs p then ''ENOTDIR'' else ENOENT))"

definition optionalLstat :: "host_fs \<Rightarrow> string \<Rightarrow> hnode option res" where
  "optionalLstat fs p =
     (case lstat fs p of
        Inr n \<Rightarrow> Inr (Some n)
      | Inl e \<Rightarrow> if isMissing e then Inr None else Inl e)"

text \<open>\<open>mkdir(path, { recursive: true })\<close>.\<close>

fun mkdir_chain :: "string list \<Rightarrow> host_fs \<Rightarrow> host_fs res" where
  "mkdir_chain [] fs = Inr fs"
| "mkdir_chain (p # ps) fs =
     (case node fs p of
        None \<Rightarrow> mkdir_chain ps (fs_put p HDir fs)
      | Some HDir \<Rightarrow> mkdir_chain ps fs
      | Some _ \<Rightarrow> Inl (if ps = [] then ''EEXIST'' else ''ENOTDIR''))"

definition mkdir_p :: "string \<Rightarrow> host_fs \<Rightarrow> host_fs res" where
  "mkdir_p p fs = mkdir_chain (ancestors p @ [p]) fs"

definition child_name :: "string \<Rightarrow> string \<Rightarrow> string option" where
  "child_name d p =
     (let sd = path_segments d; sp = path_segments p in
      if length sp = length sd + 1 \<and> take (length sd) sp = sd then Some (last sp) else None)"

definition readdir :: "string \<Rightarrow> host_fs \<Rightarrow> (string \<times> hnode) list res" where
  "readdir d fs =
     (case lstat fs d of
        Inl e \<Rightarrow> Inl e
      | Inr HDir \<Rightarrow>
          Inr (List.map_filter (\<lambda>(p, n). map_option (\<lambda>name. (name, n)) (child_name d p)) fs)
      | Inr _ \<Rightarrow> Inl ''ENOTDIR'')"

definition rename_file :: "string \<Rightarrow> string \<Rightarrow> host_fs \<Rightarrow> host_fs res" where
  "rename_file a b fs =
     (case node fs a of
        None \<Rightarrow> Inl ENOENT
      | Some n \<Rightarrow> if is_dir fs b then Inl ''EISDIR'' else Inr (fs_put b n (fs_del a fs)))"

definition rm_force :: "string \<Rightarrow> host_fs \<Rightarrow> host_fs res" where
  "rm_force p fs = (if is_dir fs p then Inl ''EISDIR'' else Inr (fs_del p fs))"

text \<open>Opening with \<open>wx\<close>: the file must not exist, its directory must.\<close>

definition create_new :: "string \<Rightarrow> hnode \<Rightarrow> host_fs \<Rightarrow> host_fs res" where
  "create_new p n fs =
     (if node fs p \<noteq> None then Inl ''EEXIST''
      else if \<not> is_dir fs (posix_dirname p) then Inl ENOENT
      else Inr (fs_put p n fs))"

definition file_bytes :: "host_fs \<Rightarrow> string \<Rightarrow> bytes option" where
  "file_bytes fs p = (case node fs p of Some (HFile b _) \<Rightarrow> Some b | _ \<Rightarrow> None)"

text \<open>\<open>file.write(data, 0, data.length, offset)\<close> and \<open>file.read(buffer, 0, wanted, offset)\<close>.\<close>

definition write_at :: "bytes \<Rightarrow> nat \<Rightarrow> bytes \<Rightarrow> bytes" where
  "write_at content offset data =
     take offset (content @ replicate (offset - length content) 0) @ data @
     drop (offset + length data) content"

definition read_at :: "bytes \<Rightarrow> nat \<Rightarrow> nat \<Rightarrow> bytes" where
  "read_at content wanted offset = take wanted (drop offset content)"

lemma node_put [simp]: "p \<noteq> ''/'' \<Longrightarrow> node (fs_put p n fs) q = (if q = p then Some n else node fs q)"
proof -
  have "map_of (filter (\<lambda>e. fst e \<noteq> p) fs) q = (if q = p then None else map_of fs q)" for q
    by (induction fs) auto
  then show "p \<noteq> ''/'' \<Longrightarrow> ?thesis" by (auto simp: node_def fs_put_def)
qed

lemma node_del [simp]:
  "p \<noteq> ''/'' \<Longrightarrow> node (fs_del p fs) q = (if q = p then None else node fs q)"
proof -
  have "map_of (filter (\<lambda>e. fst e \<noteq> p) fs) q = (if q = p then None else map_of fs q)" for q
    by (induction fs) auto
  then show "p \<noteq> ''/'' \<Longrightarrow> ?thesis" by (auto simp: node_def fs_del_def)
qed

lemma write_at_end [simp]: "write_at content (length content) data = content @ data"
  by (simp add: write_at_def)

lemma length_read_at: "length (read_at content wanted offset) = min wanted (length content - offset)"
  by (simp add: read_at_def)

subsection \<open>Further operations of the simulated guest's directory\<close>

definition mkdir_single :: "string \<Rightarrow> host_fs \<Rightarrow> host_fs res" where
  "mkdir_single p fs =
     (if node fs p \<noteq> None then Inl ''EEXIST''
      else if \<not> is_dir fs (posix_dirname p) then Inl ENOENT
      else Inr (fs_put p HDir fs))"

definition below :: "string \<Rightarrow> string \<Rightarrow> bool" where
  "below d p \<longleftrightarrow>
     (let sd = path_segments d; sp = path_segments p in
      length sd < length sp \<and> take (length sd) sp = sd)"

definition remove_tree :: "string \<Rightarrow> host_fs \<Rightarrow> host_fs" where
  "remove_tree p fs = filter (\<lambda>e. fst e \<noteq> p \<and> \<not> below p (fst e)) fs"

text \<open>\<open>rm(path, { recursive, force: false })\<close>.\<close>

definition rm_strict :: "bool \<Rightarrow> string \<Rightarrow> host_fs \<Rightarrow> host_fs res" where
  "rm_strict recursive p fs =
     (case lstat fs p of
        Inl e \<Rightarrow> Inl e
      | Inr HDir \<Rightarrow> if recursive then Inr (remove_tree p fs) else Inl ''ERR_FS_EISDIR''
      | Inr _ \<Rightarrow> Inr (fs_del p fs))"

text \<open>\<open>rename\<close> of a file or of a directory with what it holds.\<close>

definition rebase :: "string \<Rightarrow> string \<Rightarrow> string \<Rightarrow> string" where
  "rebase a b p = path_of (path_segments b @ drop (length (path_segments a)) (path_segments p))"

definition rename_any :: "string \<Rightarrow> string \<Rightarrow> host_fs \<Rightarrow> host_fs res" where
  "rename_any a b fs =
     (case lstat fs a of
        Inl e \<Rightarrow> Inl e
      | Inr HDir \<Rightarrow>
          if below a b then Inl ''EINVAL''
          else if a = b then Inr fs
          else if \<not> is_dir fs (posix_dirname b) then Inl ENOENT
          else if node fs b \<notin> {None, Some HDir} then Inl ''ENOTDIR''
          else if list_ex (below b \<circ> fst) fs then Inl ''ENOTEMPTY''
          else Inr (map (\<lambda>(p, n). (if p = a \<or> below a p then rebase a b p else p, n)) (fs_del b fs))
      | Inr _ \<Rightarrow>
          if \<not> is_dir fs (posix_dirname b) then Inl ENOENT
          else if a = b then Inr fs else rename_file a b fs)"

end
