(* ===== verification/Js_Win32.thy ===== *)
theory Js_Win32
  imports Js_Path
begin

text \<open>
  \<open>win32.normalize\<close>, \<open>win32.join\<close> and \<open>win32.dirname\<close> of \<open>node:path\<close>, which build guest paths, and
  \<open>joinGuestPath\<close> of \<open>src/host/transfers.ts\<close>. A path has a device (a drive letter with its colon or
  an UNC share), may be absolute, and has a tail of segments.
\<close>

definition bslash :: char where "bslash = CHR 0x5c"

definition is_sep :: "char \<Rightarrow> bool" where
  "is_sep c \<longleftrightarrow> c = slash \<or> c = bslash"

definition is_drive_letter :: "char \<Rightarrow> bool" where
  "is_drive_letter c \<longleftrightarrow> (let n = of_char c :: nat in 65 \<le> n \<and> n \<le> 90 \<or> 97 \<le> n \<and> n \<le> 122)"

fun split_seps :: "string \<Rightarrow> string list" where
  "split_seps [] = [[]]"
| "split_seps (c # cs) =
     (if is_sep c then [] # split_seps cs
      else (case split_seps cs of [] \<Rightarrow> [[c]] | p # ps \<Rightarrow> (c # p) # ps))"

text \<open>\<open>normalizeString\<close>: the accumulator holds the segments kept so far, last one first.\<close>

fun win_segments :: "bool \<Rightarrow> string list \<Rightarrow> string list \<Rightarrow> string list" where
  "win_segments upwards acc [] = rev acc"
| "win_segments upwards acc (s # ss) =
     (if s = [] \<or> s = ''.'' then win_segments upwards acc ss
      else if s = ''..'' then
        (if acc \<noteq> [] \<and> hd acc \<noteq> ''..'' then win_segments upwards (tl acc) ss
         else if upwards then win_segments upwards (''..'' # acc) ss
         else win_segments upwards acc ss)
      else win_segments upwards (s # acc) ss)"

text \<open>The host and share of an UNC path and what follows them.\<close>

definition unc_scan :: "string \<Rightarrow> (string \<times> string \<times> string) option" where
  "unc_scan path =
     (let rest = drop 2 path; first = takeWhile (Not \<circ> is_sep) rest;
          r1 = dropWhile (Not \<circ> is_sep) rest; r2 = dropWhile is_sep r1
      in if first = [] \<or> r1 = [] \<or> r2 = [] then None
         else Some (first, takeWhile (Not \<circ> is_sep) r2, dropWhile (Not \<circ> is_sep) r2))"

text \<open>Device, absoluteness and remaining text.\<close>

definition win_root :: "string \<Rightarrow> string \<times> bool \<times> string" where
  "win_root path =
     (case path of
        [] \<Rightarrow> ([], False, [])
      | c # r \<Rightarrow>
          if is_sep c then
            (if r \<noteq> [] \<and> is_sep (hd r)
             then (case unc_scan path of
                     None \<Rightarrow> ([], True, path)
                   | Some (first, second, r3) \<Rightarrow>
                       ([bslash, bslash] @ first @ [bslash] @ second, True, r3))
             else ([], True, r))
          else if is_drive_letter c \<and> r \<noteq> [] \<and> hd r = CHR '':'' then
            (if tl r \<noteq> [] \<and> is_sep (hd (tl r)) then (take 2 path, True, drop 3 path)
             else (take 2 path, False, drop 2 path))
          else ([], False, path))"

definition win32_normalize :: "string \<Rightarrow> string" where
  "win32_normalize path =
     (if path = [] then ''.''
      else if length path = 1 then (if path = ''/'' then [bslash] else path)
      else
        let (device, isAbs, rest) = win_root path;
            tail = join_with [bslash] (win_segments (\<not> isAbs) [] (split_seps rest));
            tail = (if tail = [] \<and> \<not> isAbs then ''.'' else tail);
            tail = (if tail \<noteq> [] \<and> is_sep (last path) then tail @ [bslash] else tail)
        in device @ (if isAbs then bslash # tail else tail))"

definition win32_join :: "string list \<Rightarrow> string" where
  "win32_join args =
     (case filter (\<lambda>a. a \<noteq> []) args of
        [] \<Rightarrow> ''.''
      | firstPart # more \<Rightarrow>
          let joined = join_with [bslash] (firstPart # more);
              lead = length (takeWhile is_sep (take 3 firstPart));
              needsReplace = \<not> (lead = 2 \<and> length firstPart > 2);
              slashCount = length (takeWhile is_sep joined)
          in win32_normalize
               (if needsReplace \<and> slashCount \<ge> 2 then bslash # drop slashCount joined else joined))"

text \<open>The index \<open>dirname\<close> cuts at, and the end of the root part.\<close>

definition dirname_root :: "string \<Rightarrow> nat option" where
  "dirname_root path =
     (case path of
        [] \<Rightarrow> None
      | c # r \<Rightarrow>
          if is_sep c then
            (if r \<noteq> [] \<and> is_sep (hd r)
             then (case unc_scan path of
                     None \<Rightarrow> Some 1
                   | Some (_, _, r3) \<Rightarrow> Some (length path - length r3 + 1))
             else Some 1)
          else if is_drive_letter c \<and> r \<noteq> [] \<and> hd r = CHR '':''
          then Some (if tl r \<noteq> [] \<and> is_sep (hd (tl r)) then 3 else 2)
          else None)"

definition win32_dirname :: "string \<Rightarrow> string" where
  "win32_dirname path =
     (if path = [] then ''.''
      else if length path = 1 then (if is_sep (hd path) then path else ''.'')
      else if (case unc_scan path of Some (_, _, r3) \<Rightarrow> is_sep (hd path) \<and> is_sep (path ! 1) \<and> r3 = []
               | None \<Rightarrow> False) then path
      else
        let start = (case dirname_root path of None \<Rightarrow> 0 | Some k \<Rightarrow> k);
            body = drop start path;
            r = dropWhile (Not \<circ> is_sep) (dropWhile is_sep (rev body))
        in if r = [] then (case dirname_root path of None \<Rightarrow> ''.'' | Some k \<Rightarrow> take k path)
           else take (start + length r - 1) path)"

definition joinGuestPath :: "string \<Rightarrow> string \<Rightarrow> string" where
  "joinGuestPath base portableRelativePath =
     win32_join (base # split_on slash portableRelativePath)"

end
