(* ===== verification/Transfers.thy ===== *)
theory Transfers
  imports Host_Fs Js_Win32 Base64 Crc32
begin

text \<open>
  File and directory transfers: \<open>TransferCoordinator\<close> of \<open>src/host/transfers.ts\<close>. An operation is a
  function on the coordinator's state that returns a value or the message of the error it throws;
  assignments made before an error stay. The guest is reached through a requester argument that may
  change the whole state: whatever runs while a request is awaited (a cancellation, another
  transfer, the guest itself) is part of what the requester does. SHA-256 and the text encoding of
  JSON values are arguments; a hash object is the bytes fed to it so far, an open file is the path
  it was opened at, and a file the coordinator writes has modification time 0 (nothing reads it).
\<close>

subsection \<open>Constants, data and state\<close>

definition TRANSFER_CHUNK_BYTES :: nat where "TRANSFER_CHUNK_BYTES = 64 * 1024"
definition MAX_WIN98_TRANSFER_BYTES :: nat where "MAX_WIN98_TRANSFER_BYTES = 300 * 1024 * 1024"

definition TRANSFER_METHODS :: "string list" where
  "TRANSFER_METHODS = [''file_push'', ''file_pull'', ''directory_push'', ''directory_pull'']"

record transfer_progress =
  tp_direction :: string
  tp_files :: nat
  tp_directories :: nat
  tp_bytes :: nat
  tp_chunks :: nat
  tp_skipped :: nat
  tp_source :: string
  tp_destination :: string
  tp_sha256 :: "string option"
  tp_totalBytes :: "nat option"
  tp_totalFiles :: "nat option"
  tp_currentPath :: "string option"

record guest_response =
  gr_ok :: bool
  gr_code :: string
  gr_message :: string
  gr_data :: js

record active_transfer =
  at_operationId :: string
  at_sessionId :: string
  at_cancelled :: bool
  at_guestTransferId :: "string option"
  at_hostTempPath :: "string option"
  at_hostMetaPath :: "string option"

record host_entry =
  hn_relativePath :: string
  hn_absolutePath :: string
  hn_isDirectory :: bool
  hn_size :: nat

record guest_entry =
  ge_relativePath :: string
  ge_guestPath :: string
  ge_isDirectory :: bool

record pull_partial =
  pp_offset :: nat
  pp_expectedSize :: "nat option"

record transfer_result =
  tr_bytes :: nat
  tr_chunks :: nat
  tr_sha256 :: string

datatype transfer_event =
    ResourceOpened string string
  | ResourceClosed string string
  | Progress string transfer_progress

record 'g coordinator =
  tc_guest :: 'g
  tc_fs :: host_fs
  tc_active :: "active_transfer list"
  tc_destinations :: "string list"
  tc_retained :: "(string \<times> string) list"
  tc_events :: "transfer_event list"

type_synonym 'g requester = "string \<Rightarrow> string \<Rightarrow> params \<Rightarrow> int \<Rightarrow> ('g coordinator, guest_response) op"

record 'g xenv =
  x_req :: "'g requester"
  x_timeout :: int
  x_sha :: "bytes \<Rightarrow> string"
  x_parse :: "bytes \<Rightarrow> js option"
  x_stringify :: "js \<Rightarrow> bytes"
  x_cwd :: string

definition getfs :: "('g coordinator, host_fs) op" where
  "getfs = getS tc_fs"

definition updfs :: "(host_fs \<Rightarrow> host_fs res) \<Rightarrow> ('g coordinator, unit) op" where
  "updfs f s = (case f (tc_fs s) of Inl e \<Rightarrow> (Inl e, s) | Inr fs \<Rightarrow> (Inr (), s\<lparr> tc_fs := fs \<rparr>))"

text \<open>\<open>Promise.allSettled\<close> of a removal: a failure is ignored.\<close>

definition rm_settled :: "string \<Rightarrow> 'g coordinator \<Rightarrow> 'g coordinator" where
  "rm_settled p s =
     (case rm_force p (tc_fs s) of Inl _ \<Rightarrow> s | Inr fs \<Rightarrow> s\<lparr> tc_fs := fs \<rparr>)"

definition finallyS :: "('s, 'a) op \<Rightarrow> ('s \<Rightarrow> 's) \<Rightarrow> ('s, 'a) op" where
  "finallyS m f s = (let (r, s') = m s in (r, f s'))"

definition catchS :: "('s, 'a) op \<Rightarrow> (string \<Rightarrow> 's \<Rightarrow> 's) \<Rightarrow> ('s, 'a) op" where
  "catchS m h s = (case m s of (Inl e, s') \<Rightarrow> (Inl e, h e s') | (Inr x, s') \<Rightarrow> (Inr x, s'))"

subsection \<open>Bookkeeping of active transfers\<close>

definition report :: "string \<Rightarrow> transfer_progress \<Rightarrow> ('g coordinator, unit) op" where
  "report sessionId p = modifyS (\<lambda>s. s\<lparr> tc_events := tc_events s @ [Progress sessionId p] \<rparr>)"

definition emptyProgress :: "string \<Rightarrow> string \<Rightarrow> string \<Rightarrow> transfer_progress" where
  "emptyProgress direction source destination =
     \<lparr> tp_direction = direction, tp_files = 0, tp_directories = 0, tp_bytes = 0, tp_chunks = 0,
       tp_skipped = 0, tp_source = source, tp_destination = destination, tp_sha256 = None,
       tp_totalBytes = None, tp_totalFiles = None, tp_currentPath = None \<rparr>"

definition resource_name :: "string \<Rightarrow> string" where
  "resource_name operationId = ''transfer:'' @ operationId"

definition register :: "string \<Rightarrow> string \<Rightarrow> 'g coordinator \<Rightarrow> 'g coordinator" where
  "register operationId sessionId s =
     s\<lparr> tc_active := tc_active s @
          [\<lparr> at_operationId = operationId, at_sessionId = sessionId, at_cancelled = False,
             at_guestTransferId = None, at_hostTempPath = None, at_hostMetaPath = None \<rparr>],
        tc_events := tc_events s @ [ResourceOpened sessionId (resource_name operationId)] \<rparr>"

definition unregister :: "string \<Rightarrow> string \<Rightarrow> 'g coordinator \<Rightarrow> 'g coordinator" where
  "unregister operationId sessionId s =
     s\<lparr> tc_active := filter (\<lambda>t. at_operationId t \<noteq> operationId) (tc_active s),
        tc_events := tc_events s @ [ResourceClosed sessionId (resource_name operationId)] \<rparr>"

definition update_transfer ::
  "string \<Rightarrow> (active_transfer \<Rightarrow> active_transfer) \<Rightarrow> 'g coordinator \<Rightarrow> 'g coordinator" where
  "update_transfer operationId f s =
     s\<lparr> tc_active := map (\<lambda>t. if at_operationId t = operationId then f t else t) (tc_active s) \<rparr>"

definition cancelled :: "string \<Rightarrow> 'g coordinator \<Rightarrow> bool" where
  "cancelled operationId s \<longleftrightarrow>
     list_ex (\<lambda>t. at_operationId t = operationId \<and> at_cancelled t) (tc_active s)"

definition assertActive :: "string \<Rightarrow> ('g coordinator, unit) op" where
  "assertActive operationId s =
     ((if cancelled operationId s then Inl ''TRANSFER_CANCELLED'' else Inr ()), s)"

definition retainHostPartial :: "string \<Rightarrow> string \<Rightarrow> string \<Rightarrow> 'g coordinator \<Rightarrow> 'g coordinator" where
  "retainHostPartial sessionId tempPath metaPath s =
     s\<lparr> tc_retained := remdups (tc_retained s @ [(sessionId, tempPath), (sessionId, metaPath)]) \<rparr>"

definition releaseHostPartial :: "string \<Rightarrow> string \<Rightarrow> string \<Rightarrow> 'g coordinator \<Rightarrow> 'g coordinator" where
  "releaseHostPartial sessionId tempPath metaPath s =
     s\<lparr> tc_retained := filter (\<lambda>e. e \<noteq> (sessionId, tempPath) \<and> e \<noteq> (sessionId, metaPath)) (tc_retained s) \<rparr>"

subsection \<open>Reading parameters and responses\<close>

definition requireString :: "params \<Rightarrow> string \<Rightarrow> string res" where
  "requireString params key =
     (case jsget params key of
        JStr s \<Rightarrow> if s = [] then Inl (''PARAMETER_REQUIRED:'' @ key) else Inr s
      | _ \<Rightarrow> Inl (''PARAMETER_REQUIRED:'' @ key))"

definition numberField :: "params \<Rightarrow> string \<Rightarrow> nat res" where
  "numberField record key =
     (case js_safe_integer (jsget record key) of
        None \<Rightarrow> Inl (''GUEST_RESPONSE_INVALID:'' @ key)
      | Some i \<Rightarrow> if i < 0 then Inl (''GUEST_RESPONSE_INVALID:'' @ key) else Inr (nat i))"

definition booleanField :: "params \<Rightarrow> string \<Rightarrow> bool res" where
  "booleanField record key =
     (case jsget record key of
        JBool b \<Rightarrow> Inr b
      | _ \<Rightarrow> Inl (''GUEST_RESPONSE_INVALID:'' @ key))"

definition guestOk ::
  "'g xenv \<Rightarrow> string \<Rightarrow> string \<Rightarrow> params \<Rightarrow> ('g coordinator, params) op" where
  "guestOk env sessionId method params =
     bindS (x_req env sessionId method params (x_timeout env)) (\<lambda>response.
       if \<not> gr_ok response then throwS (gr_code response @ '':'' @ gr_message response)
       else returnS (case gr_data response of JObj m \<Rightarrow> m | _ \<Rightarrow> []))"

subsection \<open>Host files\<close>

function hash_loop :: "string \<Rightarrow> bytes \<Rightarrow> nat \<Rightarrow> nat \<Rightarrow> bytes \<Rightarrow> bytes res" where
  "hash_loop err content fsize offset hash =
     (if offset < fsize then
        let wanted = min TRANSFER_CHUNK_BYTES (fsize - offset);
            got = read_at content wanted offset
        in if got = [] then Inl err
           else hash_loop err content fsize (offset + length got) (hash @ got)
      else Inr hash)"
  by pat_completeness auto
termination
  by (relation "measure (\<lambda>(err, content, fsize, offset, hash). fsize - offset)")
    (auto simp: diff_less_mono2)

declare hash_loop.simps [simp del]

definition hashOpenFile :: "(bytes \<Rightarrow> string) \<Rightarrow> bytes \<Rightarrow> nat \<Rightarrow> string res" where
  "hashOpenFile sha content fsize =
     bindR (hash_loop ''HOST_FILE_CHANGED_DURING_TRANSFER'' content fsize 0 [])
       (\<lambda>hash. Inr (sha hash))"

definition updateOpenFileHash :: "bytes \<Rightarrow> bytes \<Rightarrow> nat \<Rightarrow> bytes res" where
  "updateOpenFileHash hash content fsize =
     hash_loop ''HOST_PARTIAL_CHANGED_DURING_TRANSFER'' content fsize 0 hash"

definition resolveHostPath :: "'g xenv \<Rightarrow> string \<Rightarrow> bool \<Rightarrow> ('g coordinator, string) op" where
  "resolveHostPath env path mustExist =
     (let candidate = posix_resolve (x_cwd env) [path] in
      if mustExist then bindS getfs (\<lambda>fs. bindS (liftS (lstat fs candidate)) (\<lambda>_. returnS candidate))
      else returnS candidate)"

definition rejectCaseConflict :: "string \<Rightarrow> host_fs \<Rightarrow> unit res" where
  "rejectCaseConflict path fs =
     (case readdir (posix_dirname path) fs of
        Inl e \<Rightarrow> if isMissing e then Inr () else Inl e
      | Inr entries \<Rightarrow>
          let name = posix_basename path in
          (case find (\<lambda>entry. to_lower entry = to_lower name \<and> entry \<noteq> name) (map fst entries) of
             None \<Rightarrow> Inr ()
           | Some collision \<Rightarrow> Inl (''CASE_INSENSITIVE_COLLISION:'' @ collision @ '':'' @ name)))"

definition ensureDirectoryDestination :: "string \<Rightarrow> ('g coordinator, unit) op" where
  "ensureDirectoryDestination path =
     bindS getfs (\<lambda>fs.
       case lstat fs path of
         Inl e \<Rightarrow> if isMissing e then updfs (mkdir_p path) else throwS e
       | Inr HLink \<Rightarrow> throwS ''HOST_SYMLINK_REJECTED''
       | Inr HDir \<Rightarrow> returnS ()
       | Inr _ \<Rightarrow> throwS ''HOST_DESTINATION_NOT_DIRECTORY'')"

definition prepareHostDestination :: "string \<Rightarrow> bool \<Rightarrow> ('g coordinator, unit) op" where
  "prepareHostDestination hostPath overwrite =
     bindS (updfs (mkdir_p (posix_dirname hostPath))) (\<lambda>_.
     bindS getfs (\<lambda>fs.
     bindS (liftS (rejectCaseConflict hostPath fs)) (\<lambda>_.
       case lstat fs hostPath of
         Inl e \<Rightarrow> if isMissing e then returnS () else throwS e
       | Inr HLink \<Rightarrow> throwS ''HOST_SYMLINK_REJECTED''
       | Inr HDir \<Rightarrow> throwS ''HOST_DESTINATION_IS_DIRECTORY''
       | Inr _ \<Rightarrow> if overwrite then returnS () else throwS ''HOST_DESTINATION_EXISTS'')))"

subsection \<open>Pushing a file\<close>

text \<open>Content, and \<open>stat\<close>'s size and time, of an open file.\<close>

definition handle_bytes :: "host_fs \<Rightarrow> string \<Rightarrow> bytes" where
  "handle_bytes fs p = (case node fs p of Some (HFile b _) \<Rightarrow> b | _ \<Rightarrow> [])"

definition handle_stat :: "host_fs \<Rightarrow> string \<Rightarrow> (nat \<times> int) option" where
  "handle_stat fs p = (case node fs p of Some (HFile b t) \<Rightarrow> Some (length b, t) | _ \<Rightarrow> None)"

definition lstat_source :: "string \<Rightarrow> host_fs \<Rightarrow> (nat \<times> int) res" where
  "lstat_source path fs =
     (case lstat fs path of
        Inl e \<Rightarrow> Inl e
      | Inr HLink \<Rightarrow> Inl ''HOST_SYMLINK_REJECTED''
      | Inr (HFile b t) \<Rightarrow>
          if length b > MAX_WIN98_TRANSFER_BYTES then Inl ''TRANSFER_TOO_LARGE_FOR_WIN98''
          else Inr (length b, t)
      | Inr _ \<Rightarrow> Inl ''HOST_SOURCE_NOT_FILE'')"

definition push_step ::
  "'g xenv \<Rightarrow> string \<Rightarrow> string \<Rightarrow> string \<Rightarrow> nat \<Rightarrow> string \<Rightarrow>
   (transfer_progress \<Rightarrow> nat \<Rightarrow> nat \<Rightarrow> transfer_progress) \<Rightarrow> nat \<times> nat \<times> transfer_progress \<Rightarrow>
   ('g coordinator, nat \<times> nat \<times> transfer_progress) op" where
  "push_step env sessionId operationId hostPath fsize transferId upd = (\<lambda>(offset, chunks, summary).
     bindS (assertActive operationId) (\<lambda>_.
     bindS getfs (\<lambda>fs.
     let wanted = min TRANSFER_CHUNK_BYTES (fsize - offset);
         chunk = read_at (handle_bytes fs hostPath) wanted offset
     in if chunk = [] then throwS ''HOST_FILE_CHANGED_DURING_TRANSFER''
        else
          bindS (guestOk env sessionId ''file_write_chunk''
                   [(''transferId'', JStr transferId), (''offset'', js_of_nat offset),
                    (''dataBase64'', JStr (base64_encode chunk)), (''crc32'', js_of_nat (crc32 chunk))])
          (\<lambda>chunkResult.
          bindS (liftS (numberField chunkResult ''nextOffset'')) (\<lambda>nextOffset.
          if nextOffset \<noteq> offset + length chunk then throwS ''TRANSFER_OFFSET_MISMATCH''
          else
            let summary = upd summary nextOffset (chunks + 1)
            in bindS (report sessionId summary) (\<lambda>_.
               returnS (nextOffset, chunks + 1, summary)))))))"

lemma push_step_progress:
  "push_step env sid opid path fsize tid upd st s = (Inr st', s') \<Longrightarrow> fst st < fst st'"
  by (cases st) (auto simp: push_step_def bindS_eq_Inr Let_def split: if_splits)

function push_loop ::
  "'g xenv \<Rightarrow> string \<Rightarrow> string \<Rightarrow> string \<Rightarrow> nat \<Rightarrow> string \<Rightarrow>
   (transfer_progress \<Rightarrow> nat \<Rightarrow> nat \<Rightarrow> transfer_progress) \<Rightarrow> nat \<times> nat \<times> transfer_progress \<Rightarrow>
   ('g coordinator, nat \<times> nat \<times> transfer_progress) op" where
  "push_loop env sessionId operationId hostPath fsize transferId upd st s =
     (if fst st < fsize then
        (case push_step env sessionId operationId hostPath fsize transferId upd st s of
           (Inl e, s') \<Rightarrow> (Inl e, s')
         | (Inr st', s') \<Rightarrow> push_loop env sessionId operationId hostPath fsize transferId upd st' s')
      else (Inr st, s))"
  by pat_completeness auto
termination
  by (relation "measure (\<lambda>(env, sid, opid, path, fsize, tid, upd, st, s). fsize - fst st)")
    (auto dest!: push_step_progress [OF sym] simp: diff_less_mono2)

declare push_loop.simps [simp del]

definition pushOpened ::
  "'g xenv \<Rightarrow> string \<Rightarrow> string \<Rightarrow> string \<Rightarrow> string \<Rightarrow> bool \<Rightarrow> nat \<times> int \<Rightarrow>
   (transfer_progress \<Rightarrow> nat \<Rightarrow> nat \<Rightarrow> transfer_progress) \<Rightarrow> transfer_progress \<Rightarrow>
   ('g coordinator, transfer_result \<times> transfer_progress) op" where
  "pushOpened env sessionId operationId hostPath guestPath overwrite info upd summary =
     bindS (assertActive operationId) (\<lambda>_.
     bindS getfs (\<lambda>fs.
     bindS (liftS (hashOpenFile (x_sha env) (handle_bytes fs hostPath) (fst info))) (\<lambda>sha256.
     if handle_stat fs hostPath \<noteq> Some info then throwS ''HOST_FILE_CHANGED_DURING_TRANSFER''
     else
       bindS (guestOk env sessionId ''file_write_begin''
                [(''path'', JStr guestPath), (''size'', js_of_nat (fst info)), (''sha256'', JStr sha256),
                 (''overwrite'', JBool overwrite)]) (\<lambda>response.
       bindS (liftS (stringField response ''transferId'')) (\<lambda>transferId.
       bindS (liftS (numberField response ''resumeOffset'')) (\<lambda>resumeOffset.
       if resumeOffset > fst info then throwS ''TRANSFER_RESUME_OFFSET_INVALID''
       else
         bindS (modifyS (update_transfer operationId (\<lambda>t. t\<lparr> at_guestTransferId := Some transferId \<rparr>))) (\<lambda>_.
         let summary = upd summary resumeOffset 0 in
         bindS (report sessionId summary) (\<lambda>_.
         bindS (push_loop env sessionId operationId hostPath (fst info) transferId upd
                  (resumeOffset, 0, summary)) (\<lambda>(offset, chunks, summary).
         bindS (guestOk env sessionId ''file_write_commit''
                  [(''transferId'', JStr transferId), (''sha256'', JStr sha256)]) (\<lambda>_.
         bindS (modifyS (update_transfer operationId (\<lambda>t. t\<lparr> at_guestTransferId := None \<rparr>))) (\<lambda>_.
         bindS getfs (\<lambda>fs.
         if handle_stat fs hostPath \<noteq> Some info then throwS ''HOST_FILE_CHANGED_DURING_TRANSFER''
         else returnS (\<lparr> tr_bytes = offset, tr_chunks = chunks, tr_sha256 = sha256 \<rparr>, summary)))))))))))))"

definition pushOneFile ::
  "'g xenv \<Rightarrow> string \<Rightarrow> string \<Rightarrow> string \<Rightarrow> string \<Rightarrow> bool \<Rightarrow>
   (transfer_progress \<Rightarrow> nat \<Rightarrow> nat \<Rightarrow> transfer_progress) \<Rightarrow> transfer_progress \<Rightarrow>
   ('g coordinator, transfer_result \<times> transfer_progress) op" where
  "pushOneFile env sessionId operationId hostPath guestPath overwrite upd summary =
     bindS getfs (\<lambda>fs.
     bindS (liftS (lstat_source hostPath fs)) (\<lambda>info.
     let parent = win32_dirname guestPath in
     bindS (if parent \<noteq> guestPath
            then guestOk env sessionId ''fs_mkdir'' [(''path'', JStr parent), (''recursive'', JBool True)]
            else returnS []) (\<lambda>_.
     bindS getfs (\<lambda>fs.
     bindS (liftS (lstat fs hostPath)) (\<lambda>_.
     finallyS (pushOpened env sessionId operationId hostPath guestPath overwrite info upd summary)
       (update_transfer operationId (\<lambda>t. t\<lparr> at_guestTransferId := None \<rparr>)))))))"

subsection \<open>Pulling a file\<close>

definition partial_path :: "'g xenv \<Rightarrow> string \<Rightarrow> string" where
  "partial_path env hostPath =
     posix_resolve (x_cwd env)
       [posix_dirname hostPath, ''.'' @ posix_basename hostPath @ ''.win98mcp.partial'']"

definition meta_path :: "'g xenv \<Rightarrow> string \<Rightarrow> string" where
  "meta_path env hostPath = partial_path env hostPath @ ''.json''"

text \<open>The size the metadata file promises, if it is valid for this guest path and partial.\<close>

definition metadata_size :: "js option \<Rightarrow> string \<Rightarrow> nat \<Rightarrow> nat option" where
  "metadata_size metadata guestPath tempSize =
     (case metadata of
        Some (JObj m) \<Rightarrow>
          (case js_safe_integer (jsget m ''expectedSize'') of
             Some n \<Rightarrow>
               if jsget m ''version'' = js_of_int 1 \<and> jsget m ''guestPath'' = JStr guestPath \<and>
                  n \<ge> int tempSize \<and> n \<le> int MAX_WIN98_TRANSFER_BYTES
               then Some (nat n) else None
           | None \<Rightarrow> None)
      | _ \<Rightarrow> None)"

definition openPullPartial ::
  "'g xenv \<Rightarrow> string \<Rightarrow> string \<Rightarrow> string \<Rightarrow> ('g coordinator, pull_partial) op" where
  "openPullPartial env tempPath metaPath guestPath =
     bindS getfs (\<lambda>fs.
     bindS (liftS (optionalLstat fs tempPath)) (\<lambda>tempInfo.
     bindS (liftS (optionalLstat fs metaPath)) (\<lambda>metaInfo.
     if tempInfo = Some HLink \<or> metaInfo = Some HLink then throwS ''HOST_SYMLINK_REJECTED''
     else
       let resumed =
         (case (tempInfo, metaInfo) of
            (Some (HFile partial _), Some (HFile metadata _)) \<Rightarrow>
              if length partial \<le> MAX_WIN98_TRANSFER_BYTES
              then map_option (\<lambda>n. (length partial, n))
                     (metadata_size (x_parse env metadata) guestPath (length partial))
              else None
          | _ \<Rightarrow> None)
       in case resumed of
            Some (offset, expected) \<Rightarrow> returnS \<lparr> pp_offset = offset, pp_expectedSize = Some expected \<rparr>
          | None \<Rightarrow>
              bindS (modifyS (rm_settled tempPath \<circ> rm_settled metaPath)) (\<lambda>_.
              bindS (updfs (create_new tempPath (HFile [] 0))) (\<lambda>_.
              returnS \<lparr> pp_offset = 0, pp_expectedSize = None \<rparr>)))))"

definition writePullMetadata ::
  "'g xenv \<Rightarrow> string \<Rightarrow> string \<Rightarrow> nat \<Rightarrow> ('g coordinator, unit) op" where
  "writePullMetadata env metaPath guestPath expectedSize =
     updfs (create_new metaPath
       (HFile (x_stringify env (JObj [(''version'', js_of_int 1), (''guestPath'', JStr guestPath),
                                      (''expectedSize'', js_of_nat expectedSize)])) 0))"

definition is_lower_hex :: "char \<Rightarrow> bool" where
  "is_lower_hex c \<longleftrightarrow> (let n = of_char c :: nat in 48 \<le> n \<and> n \<le> 57 \<or> 97 \<le> n \<and> n \<le> 102)"

definition is_sha256_hex :: "string \<Rightarrow> bool" where
  "is_sha256_hex h \<longleftrightarrow> length h = 64 \<and> list_all is_lower_hex h"

text \<open>
  The local variables of the loop: offset, chunks, the expected size, whether the metadata file
  has been written, the bytes fed to the hash, and the progress summary.
\<close>

record pull_state =
  ps_offset :: nat
  ps_chunks :: nat
  ps_expectedSize :: "nat option"
  ps_resumed :: bool
  ps_hash :: bytes
  ps_summary :: transfer_progress

type_synonym pull_callback = "transfer_progress \<Rightarrow> nat \<Rightarrow> nat \<Rightarrow> nat \<Rightarrow> transfer_progress res"

definition pull_report ::
  "string \<Rightarrow> pull_callback \<Rightarrow> nat \<Rightarrow> pull_state \<Rightarrow> ('g coordinator, pull_state) op" where
  "pull_report sessionId upd expected ps =
     bindS (liftS (upd (ps_summary ps) (ps_offset ps) (ps_chunks ps) expected)) (\<lambda>summary.
     bindS (report sessionId summary) (\<lambda>_. returnS (ps\<lparr> ps_summary := summary \<rparr>)))"

text \<open>Writing to a handle whose file is gone changes nothing that a path can reach.\<close>

definition write_partial :: "string \<Rightarrow> nat \<Rightarrow> bytes \<Rightarrow> host_fs \<Rightarrow> host_fs res" where
  "write_partial tempPath offset data fs =
     (case node fs tempPath of
        Some (HFile content t) \<Rightarrow> Inr (fs_put tempPath (HFile (write_at content offset data) t) fs)
      | _ \<Rightarrow> Inr fs)"

text \<open>The fields of a response, and the checks on them that precede the data.\<close>

record chunk_fields =
  cf_offset :: nat
  cf_nextOffset :: nat
  cf_size :: nat
  cf_eof :: bool

definition read_chunk_fields :: "params \<Rightarrow> chunk_fields res" where
  "read_chunk_fields response =
     bindR (numberField response ''offset'') (\<lambda>responseOffset.
     bindR (numberField response ''nextOffset'') (\<lambda>nextOffset.
     bindR (numberField response ''size'') (\<lambda>fsize.
     bindR (booleanField response ''eof'') (\<lambda>eof.
       Inr \<lparr> cf_offset = responseOffset, cf_nextOffset = nextOffset, cf_size = fsize, cf_eof = eof \<rparr>))))"

definition expected_size :: "pull_state \<Rightarrow> chunk_fields \<Rightarrow> nat res" where
  "expected_size ps cf =
     (if cf_offset cf \<noteq> ps_offset ps \<or> cf_size cf > MAX_WIN98_TRANSFER_BYTES
      then Inl ''TRANSFER_OFFSET_MISMATCH''
      else
        let expected = (case ps_expectedSize ps of None \<Rightarrow> cf_size cf | Some n \<Rightarrow> n) in
        if expected \<noteq> cf_size cf then Inl ''GUEST_FILE_CHANGED_DURING_TRANSFER''
        else if ps_offset ps > expected then Inl ''TRANSFER_RESUME_OFFSET_INVALID''
        else Inr expected)"

definition read_chunk_data :: "pull_state \<Rightarrow> chunk_fields \<Rightarrow> params \<Rightarrow> bytes res" where
  "read_chunk_data ps cf response =
     bindR (base64Field response ''dataBase64'') (\<lambda>data.
       if length data > TRANSFER_CHUNK_BYTES \<or> cf_nextOffset cf \<noteq> ps_offset ps + length data \<or>
          (\<not> cf_eof cf \<and> data = [])
       then Inl ''TRANSFER_CHUNK_INVALID'' else Inr data)"

definition store_chunk ::
  "string \<Rightarrow> string \<Rightarrow> pull_callback \<Rightarrow> nat \<Rightarrow> nat \<Rightarrow> bytes \<Rightarrow> pull_state \<Rightarrow>
   ('g coordinator, pull_state) op" where
  "store_chunk sessionId tempPath upd expected nextOffset data ps =
     (if data = [] then returnS ps
      else
        bindS (updfs (write_partial tempPath (ps_offset ps) data)) (\<lambda>_.
        pull_report sessionId upd expected
          (ps\<lparr> ps_hash := ps_hash ps @ data, ps_offset := nextOffset, ps_chunks := ps_chunks ps + 1 \<rparr>)))"

text \<open>The advertised digest at the end of the file.\<close>

definition end_of_file :: "pull_state \<Rightarrow> chunk_fields \<Rightarrow> nat \<Rightarrow> params \<Rightarrow> string option res" where
  "end_of_file ps cf expected response =
     (if \<not> cf_eof cf then Inr None
      else if ps_offset ps \<noteq> expected then Inl ''TRANSFER_SIZE_MISMATCH''
      else case jsget response ''sha256'' of
             JStr advertised \<Rightarrow>
               if is_sha256_hex advertised then Inr (Some advertised)
               else Inl ''GUEST_RESPONSE_INVALID:sha256''
           | _ \<Rightarrow> Inl ''GUEST_RESPONSE_INVALID:sha256'')"

text \<open>One turn of the loop: the new loop state, and the advertised digest when it is the last.\<close>

definition pull_step ::
  "'g xenv \<Rightarrow> string \<Rightarrow> string \<Rightarrow> string \<Rightarrow> string \<Rightarrow> string \<Rightarrow> pull_callback \<Rightarrow> pull_state \<Rightarrow>
   ('g coordinator, pull_state \<times> string option) op" where
  "pull_step env sessionId operationId guestPath tempPath metaPath upd ps =
     bindS (assertActive operationId) (\<lambda>_.
     bindS (guestOk env sessionId ''file_read_chunk''
              [(''path'', JStr guestPath), (''offset'', js_of_nat (ps_offset ps)),
               (''length'', js_of_nat TRANSFER_CHUNK_BYTES)]) (\<lambda>response.
     bindS (liftS (read_chunk_fields response)) (\<lambda>cf.
     bindS (liftS (expected_size ps cf)) (\<lambda>expected.
     bindS (if ps_resumed ps then returnS () else writePullMetadata env metaPath guestPath expected) (\<lambda>_.
     bindS (pull_report sessionId upd expected
              (ps\<lparr> ps_expectedSize := Some expected, ps_resumed := True \<rparr>)) (\<lambda>ps.
     bindS (liftS (read_chunk_data ps cf response)) (\<lambda>data.
     bindS (store_chunk sessionId tempPath upd expected (cf_nextOffset cf) data ps) (\<lambda>ps.
     bindS (liftS (end_of_file ps cf expected response)) (\<lambda>digest. returnS (ps, digest))))))))))"

lemma pull_report_same:
  "pull_report sid upd n ps s = (Inr ps', s') \<Longrightarrow>
     ps_offset ps' = ps_offset ps \<and> ps_chunks ps' = ps_chunks ps \<and> ps_hash ps' = ps_hash ps \<and>
     ps_expectedSize ps' = ps_expectedSize ps \<and> ps_resumed ps' = ps_resumed ps"
  by (auto simp: pull_report_def bindS_eq_Inr)

lemma expected_size_ok:
  "expected_size ps cf = Inr n \<Longrightarrow> ps_offset ps = cf_offset cf \<and> ps_offset ps \<le> n \<and>
     n = cf_size cf \<and> n \<le> MAX_WIN98_TRANSFER_BYTES \<and> ps_expectedSize ps \<in> {None, Some n}"
  by (auto simp: expected_size_def Let_def split: if_splits option.splits)

lemma read_chunk_data_ok:
  "read_chunk_data ps cf r = Inr data \<Longrightarrow> cf_nextOffset cf = ps_offset ps + length data \<and>
     length data \<le> TRANSFER_CHUNK_BYTES \<and> (cf_eof cf \<or> data \<noteq> [])"
  by (auto simp: read_chunk_data_def bindR_eq_Inr split: if_splits)

lemma store_chunk_state:
  assumes "store_chunk sid tmp upd n next data ps s = (Inr ps', s')"
  shows "ps_offset ps' = (if data = [] then ps_offset ps else next) \<and> ps_hash ps' = ps_hash ps @ data \<and>
    ps_expectedSize ps' = ps_expectedSize ps \<and> ps_resumed ps' = ps_resumed ps"
  using assms by (auto simp: store_chunk_def bindS_eq_Inr dest!: pull_report_same split: if_splits)

lemma end_of_file_None: "end_of_file ps cf n r = Inr None \<Longrightarrow> \<not> cf_eof cf"
  by (auto simp: end_of_file_def split: if_splits js.splits)

lemma assertActive_ok: "assertActive opid s = (Inr w, s') \<Longrightarrow> s' = s \<and> \<not> cancelled opid s"
  by (simp add: assertActive_def split: if_splits)

lemma pull_stepE:
  assumes "pull_step env sid opid gp tmp meta upd ps s = (Inr (ps', d), s')"
  obtains r cf n ps1 data s1 s2 s3 w where
    "\<not> cancelled opid s"
    "guestOk env sid ''file_read_chunk''
       [(''path'', JStr gp), (''offset'', js_of_nat (ps_offset ps)),
        (''length'', js_of_nat TRANSFER_CHUNK_BYTES)] s = (Inr r, s1)"
    "read_chunk_fields r = Inr cf"
    "expected_size ps cf = Inr n"
    "(if ps_resumed ps then returnS () else writePullMetadata env meta gp n) s1 = (Inr w, s2)"
    "pull_report sid upd n (ps\<lparr> ps_expectedSize := Some n, ps_resumed := True \<rparr>) s2 = (Inr ps1, s3)"
    "read_chunk_data ps1 cf r = Inr data"
    "store_chunk sid tmp upd n (cf_nextOffset cf) data ps1 s3 = (Inr ps', s')"
    "end_of_file ps' cf n r = Inr d"
  using assms unfolding pull_step_def bindS_eq_Inr liftS_eq returnS_eq sum.inject prod.inject
  apply (elim exE conjE)
  apply hypsubst
  apply (frule assertActive_ok)
  apply (elim conjE)
  apply hypsubst
  apply (rule that)
          apply assumption+
  done

lemma pull_step_progress:
  assumes "pull_step env sid opid gp tmp meta upd ps s = (Inr (ps', None), s')"
  shows "ps_offset ps < ps_offset ps' \<and> ps_offset ps \<le> MAX_WIN98_TRANSFER_BYTES"
  using assms
proof (cases rule: pull_stepE)
  case (1 r cf n ps1 data s1 s2 s3 w)
  have data: "data \<noteq> []" using read_chunk_data_ok [OF 1(7)] end_of_file_None [OF 1(9)] by simp
  have "ps_offset ps1 = ps_offset ps" using pull_report_same [OF 1(6)] by simp
  moreover have "ps_offset ps' = ps_offset ps1 + length data"
    using store_chunk_state [OF 1(8)] read_chunk_data_ok [OF 1(7)] data by simp
  ultimately show ?thesis using expected_size_ok [OF 1(4)] data by simp
qed

function pull_loop ::
  "'g xenv \<Rightarrow> string \<Rightarrow> string \<Rightarrow> string \<Rightarrow> string \<Rightarrow> string \<Rightarrow> pull_callback \<Rightarrow> pull_state \<Rightarrow>
   ('g coordinator, pull_state \<times> string) op" where
  "pull_loop env sessionId operationId guestPath tempPath metaPath upd ps s =
     (case pull_step env sessionId operationId guestPath tempPath metaPath upd ps s of
        (Inl e, s') \<Rightarrow> (Inl e, s')
      | (Inr (ps', Some digest), s') \<Rightarrow> (Inr (ps', digest), s')
      | (Inr (ps', None), s') \<Rightarrow>
          pull_loop env sessionId operationId guestPath tempPath metaPath upd ps' s')"
  by pat_completeness simp
termination
  by (relation "measure (\<lambda>(env, sid, opid, gp, tmp, meta, upd, ps, s).
        MAX_WIN98_TRANSFER_BYTES + 1 - ps_offset ps)")
    (simp, clarsimp, drule sym, drule pull_step_progress, linarith)

declare pull_loop.simps [simp del]

end
