(* ===== verification/Transfer_Ops.thy ===== *)
theory Transfer_Ops
  imports Transfers
begin

text \<open>
  The operations of \<open>TransferCoordinator\<close> built on the loops of \<open>Transfers\<close>: pulling one file, the
  four transfer methods, the two directory walks and the abort of a session.
\<close>

subsection \<open>Pulling one file\<close>

text \<open>\<open>discardHostPartial\<close>: the alternatives of the regular expression, anchored at the start.\<close>

definition DISCARD_PREFIXES :: "string list" where
  "DISCARD_PREFIXES =
     [''TRANSFER_HASH'', ''TRANSFER_SIZE'', ''TRANSFER_OFFSET'', ''TRANSFER_CHUNK'', ''TRANSFER_RESUME'',
      ''GUEST_FILE_CHANGED'', ''GUEST_RESPONSE_INVALID'', ''HOST_SHORT_WRITE'', ''HOST_PARTIAL_CHANGED'']"

definition discardHostPartial :: "string \<Rightarrow> bool" where
  "discardHostPartial message \<longleftrightarrow> list_ex (starts_with message) DISCARD_PREFIXES"

definition clear_host_paths :: "string \<Rightarrow> 'g coordinator \<Rightarrow> 'g coordinator" where
  "clear_host_paths operationId =
     update_transfer operationId (\<lambda>t. t\<lparr> at_hostTempPath := None, at_hostMetaPath := None \<rparr>)"

definition unlock_destination :: "string \<Rightarrow> 'g coordinator \<Rightarrow> 'g coordinator" where
  "unlock_destination hostPath s =
     s\<lparr> tc_destinations := removeAll hostPath (tc_destinations s) \<rparr>"

text \<open>The body of the \<open>try\<close> block, its \<open>catch\<close> and its \<open>finally\<close>.\<close>

definition pull_body ::
  "'g xenv \<Rightarrow> string \<Rightarrow> string \<Rightarrow> string \<Rightarrow> string \<Rightarrow> pull_callback \<Rightarrow> pull_partial \<Rightarrow>
   transfer_progress \<Rightarrow> ('g coordinator, transfer_result \<times> transfer_progress) op" where
  "pull_body env sessionId operationId guestPath hostPath upd resumed summary =
     (let tempPath = partial_path env hostPath; metaPath = meta_path env hostPath in
     bindS getfs (\<lambda>fs.
     bindS (liftS (updateOpenFileHash [] (handle_bytes fs tempPath) (pp_offset resumed))) (\<lambda>hash.
     bindS (pull_loop env sessionId operationId guestPath tempPath metaPath upd
              \<lparr> ps_offset = pp_offset resumed, ps_chunks = 0, ps_expectedSize = pp_expectedSize resumed,
                ps_resumed = (pp_expectedSize resumed \<noteq> None), ps_hash = hash, ps_summary = summary \<rparr>)
       (\<lambda>(ps, guestSha256).
     let sha256 = x_sha env (ps_hash ps) in
     if sha256 \<noteq> guestSha256 then throwS ''TRANSFER_HASH_MISMATCH''
     else
       bindS (assertActive operationId) (\<lambda>_.
       bindS (updfs (rename_file tempPath hostPath)) (\<lambda>_.
       bindS (updfs (rm_force metaPath)) (\<lambda>_.
       bindS (modifyS (clear_host_paths operationId \<circ> releaseHostPartial sessionId tempPath metaPath)) (\<lambda>_.
       returnS (\<lparr> tr_bytes = ps_offset ps, tr_chunks = ps_chunks ps, tr_sha256 = sha256 \<rparr>,
                ps_summary ps)))))))))"

definition pull_failed :: "'g xenv \<Rightarrow> string \<Rightarrow> string \<Rightarrow> string \<Rightarrow> 'g coordinator \<Rightarrow> 'g coordinator" where
  "pull_failed env sessionId hostPath e s =
     (let tempPath = partial_path env hostPath; metaPath = meta_path env hostPath in
      if discardHostPartial e
      then releaseHostPartial sessionId tempPath metaPath (rm_settled metaPath (rm_settled tempPath s))
      else s)"

definition note_host_partial ::
  "string \<Rightarrow> string \<Rightarrow> string \<Rightarrow> string \<Rightarrow> 'g coordinator \<Rightarrow> 'g coordinator" where
  "note_host_partial sessionId operationId tempPath metaPath s =
     retainHostPartial sessionId tempPath metaPath
       (update_transfer operationId
          (\<lambda>t. t\<lparr> at_hostTempPath := Some tempPath, at_hostMetaPath := Some metaPath \<rparr>) s)"

definition pull_reserved ::
  "'g xenv \<Rightarrow> string \<Rightarrow> string \<Rightarrow> string \<Rightarrow> string \<Rightarrow> pull_callback \<Rightarrow> transfer_progress \<Rightarrow>
   ('g coordinator, transfer_result \<times> transfer_progress) op" where
  "pull_reserved env sessionId operationId guestPath hostPath upd summary =
     bindS (getS tc_destinations) (\<lambda>destinations.
     if hostPath \<in> set destinations then throwS ''HOST_DESTINATION_TRANSFER_ACTIVE''
     else
       bindS (modifyS (\<lambda>s. s\<lparr> tc_destinations := hostPath # tc_destinations s \<rparr>)) (\<lambda>_.
       bindS (openPullPartial env (partial_path env hostPath) (meta_path env hostPath) guestPath) (\<lambda>resumed.
       bindS (modifyS (note_host_partial sessionId operationId (partial_path env hostPath)
                         (meta_path env hostPath))) (\<lambda>_.
       finallyS
         (catchS (pull_body env sessionId operationId guestPath hostPath upd resumed summary)
            (pull_failed env sessionId hostPath))
         (unlock_destination hostPath \<circ> clear_host_paths operationId)))))"

definition pullOneFile ::
  "'g xenv \<Rightarrow> string \<Rightarrow> string \<Rightarrow> string \<Rightarrow> string \<Rightarrow> bool \<Rightarrow> pull_callback \<Rightarrow> transfer_progress \<Rightarrow>
   ('g coordinator, transfer_result \<times> transfer_progress) op" where
  "pullOneFile env sessionId operationId guestPath hostPath overwrite upd summary =
     bindS (prepareHostDestination hostPath overwrite) (\<lambda>_.
       pull_reserved env sessionId operationId guestPath hostPath upd summary)"

subsection \<open>The file operations\<close>

definition pushFileOperation ::
  "'g xenv \<Rightarrow> string \<Rightarrow> params \<Rightarrow> string \<Rightarrow> ('g coordinator, transfer_progress) op" where
  "pushFileOperation env sessionId params operationId =
     bindS (liftS (requireString params ''host_path'')) (\<lambda>hostPath.
     bindS (liftS (requireString params ''guest_path'')) (\<lambda>guestPath.
     let overwrite = (jsget params ''overwrite'' = JBool True) in
     bindS (resolveHostPath env hostPath True) (\<lambda>source.
     bindS getfs (\<lambda>fs.
     bindS (liftS (lstat_source source fs)) (\<lambda>info.
     let summary = (emptyProgress ''host-to-guest'' source guestPath)
           \<lparr> tp_totalBytes := Some (fst info), tp_totalFiles := Some 1, tp_currentPath := Some source \<rparr> in
     bindS (report sessionId summary) (\<lambda>_.
     bindS (pushOneFile env sessionId operationId source guestPath overwrite
              (\<lambda>summary bytes chunks. summary\<lparr> tp_bytes := bytes, tp_chunks := chunks \<rparr>) summary)
       (\<lambda>(result, summary).
     let summary = summary\<lparr> tp_files := 1, tp_bytes := tr_bytes result, tp_chunks := tr_chunks result,
                            tp_sha256 := Some (tr_sha256 result) \<rparr> in
     bindS (report sessionId summary) (\<lambda>_. returnS summary))))))))"

definition pullFileOperation ::
  "'g xenv \<Rightarrow> string \<Rightarrow> params \<Rightarrow> string \<Rightarrow> ('g coordinator, transfer_progress) op" where
  "pullFileOperation env sessionId params operationId =
     bindS (liftS (requireString params ''guest_path'')) (\<lambda>guestPath.
     bindS (liftS (requireString params ''host_path'')) (\<lambda>hostPath.
     let overwrite = (jsget params ''overwrite'' = JBool True) in
     bindS (resolveHostPath env hostPath False) (\<lambda>destination.
     let summary = (emptyProgress ''guest-to-host'' guestPath destination)
           \<lparr> tp_totalFiles := Some 1, tp_currentPath := Some guestPath \<rparr> in
     bindS (report sessionId summary) (\<lambda>_.
     bindS (pullOneFile env sessionId operationId guestPath destination overwrite
              (\<lambda>summary bytes chunks totalBytes. Inr
                 (summary\<lparr> tp_bytes := bytes, tp_chunks := chunks, tp_totalBytes := Some totalBytes \<rparr>)) summary)
       (\<lambda>(result, summary).
     let summary = summary\<lparr> tp_files := 1, tp_bytes := tr_bytes result, tp_chunks := tr_chunks result,
                            tp_sha256 := Some (tr_sha256 result) \<rparr> in
     bindS (report sessionId summary) (\<lambda>_. returnS summary))))))"

subsection \<open>Walking a host directory\<close>

text \<open>
  \<open>collectHostTree\<close>: the directory is walked in one step, with the cancellation check of its start.
  The first argument bounds the depth; \<open>Depth_bound\<close> stands for a walk cut off by it.
\<close>

definition Depth_bound :: string where "Depth_bound = ''(depth bound of the model)''"

definition host_child_path :: "string \<Rightarrow> string \<Rightarrow> string" where
  "host_child_path relativeDirectory name =
     (if relativeDirectory \<noteq> [] then relativeDirectory @ ''/'' @ name else name)"

fun visit_children ::
  "(string \<Rightarrow> string \<Rightarrow> host_entry list res) \<Rightarrow> string \<Rightarrow> unit res \<Rightarrow> host_fs \<Rightarrow> string \<Rightarrow> string \<Rightarrow>
   string list \<Rightarrow> (string \<times> hnode) list \<Rightarrow> host_entry list res" where
  "visit_children visit cwd active fs directory relativeDirectory names [] = Inr []"
| "visit_children visit cwd active fs directory relativeDirectory names ((name, kind) # children) =
     bindR active (\<lambda>_.
     if to_lower name \<in> set names
     then Inl (''CASE_INSENSITIVE_COLLISION:'' @ directory @ '':'' @ name)
     else
       let absolutePath = posix_resolve cwd [directory, name];
           relativePath = host_child_path relativeDirectory name in
       bindR (lstat fs absolutePath) (\<lambda>info.
       if kind = HLink \<or> info = HLink then Inl (''HOST_SYMLINK_REJECTED:'' @ absolutePath)
       else
         bindR
           (case info of
              HDir \<Rightarrow>
                bindR (visit absolutePath relativePath) (\<lambda>below.
                  Inr (\<lparr> hn_relativePath = relativePath, hn_absolutePath = absolutePath,
                         hn_isDirectory = True, hn_size = 0 \<rparr> # below))
            | HFile content _ \<Rightarrow>
                if length content > MAX_WIN98_TRANSFER_BYTES
                then Inl (''TRANSFER_TOO_LARGE_FOR_WIN98:'' @ absolutePath)
                else Inr [\<lparr> hn_relativePath = relativePath, hn_absolutePath = absolutePath,
                            hn_isDirectory = False, hn_size = length content \<rparr>]
            | _ \<Rightarrow> Inl (''HOST_FILE_TYPE_UNSUPPORTED:'' @ absolutePath)) (\<lambda>found.
         bindR (visit_children visit cwd active fs directory relativeDirectory
                  (to_lower name # names) children) (\<lambda>more. Inr (found @ more)))))"

primrec visit_directory ::
  "nat \<Rightarrow> string \<Rightarrow> unit res \<Rightarrow> host_fs \<Rightarrow> string \<Rightarrow> string \<Rightarrow> host_entry list res" where
  "visit_directory 0 cwd active fs directory relativeDirectory = Inl Depth_bound"
| "visit_directory (Suc depth) cwd active fs directory relativeDirectory =
     bindR (readdir directory fs) (\<lambda>children.
       visit_children (visit_directory depth cwd active fs) cwd active fs directory relativeDirectory
         [] children)"

definition fs_depth :: "host_fs \<Rightarrow> nat" where
  "fs_depth fs = fold max (map (\<lambda>e. length (path_segments (fst e))) fs) 0"

definition collectHostTree :: "'g xenv \<Rightarrow> string \<Rightarrow> string \<Rightarrow> ('g coordinator, host_entry list) op" where
  "collectHostTree env operationId rootDir s =
     (visit_directory (Suc (fs_depth (tc_fs s))) (x_cwd env) (fst (assertActive operationId s))
        (tc_fs s) rootDir [], s)"

subsection \<open>Walking a guest directory\<close>

text \<open>
  \<open>collectGuestTree\<close>: the entries a listing adds, and the directories it queues. A guest may keep
  answering with new directories for ever, so the walk takes a bound on the number of listings;
  \<open>Listing_bound\<close> stands for a walk that has not ended by then.
\<close>

definition Listing_bound :: string where "Listing_bound = ''(listing bound of the model)''"

fun guest_entries ::
  "string \<Rightarrow> string \<Rightarrow> string list \<Rightarrow> js list \<Rightarrow> guest_entry list res" where
  "guest_entries currentPath currentRelative names [] = Inr []"
| "guest_entries currentPath currentRelative names (raw # rawEntries) =
     (case raw of
        JObj record \<Rightarrow>
          bindR (stringField record ''name'') (\<lambda>name.
          bindR (validateGuestEntryName name) (\<lambda>_.
          if to_lower name \<in> set names
          then Inl (''CASE_INSENSITIVE_COLLISION:'' @ currentPath @ '':'' @ name)
          else
            bindR (booleanField record ''isDirectory'') (\<lambda>isDirectory.
            bindR (guest_entries currentPath currentRelative (to_lower name # names) rawEntries) (\<lambda>more.
            Inr (\<lparr> ge_relativePath = host_child_path currentRelative name,
                   ge_guestPath = win32_join [currentPath, name],
                   ge_isDirectory = isDirectory \<rparr> # more)))))
      | _ \<Rightarrow> Inl ''GUEST_DIRECTORY_ENTRY_INVALID'')"

primrec collect_guest ::
  "nat \<Rightarrow> 'g xenv \<Rightarrow> string \<Rightarrow> string \<Rightarrow> (string \<times> string) list \<Rightarrow> guest_entry list \<Rightarrow>
   ('g coordinator, guest_entry list) op" where
  "collect_guest 0 env sessionId operationId queue entries =
     (if queue = [] then returnS entries else throwS Listing_bound)"
| "collect_guest (Suc n) env sessionId operationId queue entries =
     (case queue of
        [] \<Rightarrow> returnS entries
      | (path, relativePath) # queue \<Rightarrow>
          bindS (assertActive operationId) (\<lambda>_.
          bindS (guestOk env sessionId ''fs_list'' [(''path'', JStr path), (''recursive'', JBool False)])
            (\<lambda>result.
          case jsget result ''entries'' of
            JArr rawEntries \<Rightarrow>
              bindS (liftS (guest_entries path relativePath [] rawEntries)) (\<lambda>found.
              collect_guest n env sessionId operationId
                (queue @ map (\<lambda>e. (ge_guestPath e, ge_relativePath e)) (filter ge_isDirectory found))
                (entries @ found))
          | _ \<Rightarrow> throwS ''GUEST_DIRECTORY_LIST_INVALID'')))"

definition collectGuestTree ::
  "nat \<Rightarrow> 'g xenv \<Rightarrow> string \<Rightarrow> string \<Rightarrow> string \<Rightarrow> ('g coordinator, guest_entry list) op" where
  "collectGuestTree listings env sessionId operationId rootPath =
     collect_guest listings env sessionId operationId [(rootPath, [])] []"

subsection \<open>The directory operations\<close>

primrec push_directories ::
  "'g xenv \<Rightarrow> string \<Rightarrow> string \<Rightarrow> string \<Rightarrow> host_entry list \<Rightarrow> transfer_progress \<Rightarrow>
   ('g coordinator, transfer_progress) op" where
  "push_directories env sessionId operationId guestPath [] summary = returnS summary"
| "push_directories env sessionId operationId guestPath (entry # entries) summary =
     bindS (assertActive operationId) (\<lambda>_.
     bindS (guestOk env sessionId ''fs_mkdir''
              [(''path'', JStr (joinGuestPath guestPath (hn_relativePath entry))), (''recursive'', JBool True)])
       (\<lambda>_. push_directories env sessionId operationId guestPath entries
              (summary\<lparr> tp_directories := tp_directories summary + 1 \<rparr>)))"

primrec push_files ::
  "'g xenv \<Rightarrow> string \<Rightarrow> string \<Rightarrow> string \<Rightarrow> bool \<Rightarrow> nat \<Rightarrow> nat \<Rightarrow> host_entry list \<Rightarrow> transfer_progress \<Rightarrow>
   ('g coordinator, transfer_progress) op" where
  "push_files env sessionId operationId guestPath overwrite completedBytes completedChunks [] summary =
     returnS summary"
| "push_files env sessionId operationId guestPath overwrite completedBytes completedChunks
     (entry # entries) summary =
     bindS (assertActive operationId) (\<lambda>_.
     bindS (pushOneFile env sessionId operationId (hn_absolutePath entry)
              (joinGuestPath guestPath (hn_relativePath entry)) overwrite
              (\<lambda>summary bytes chunks. summary\<lparr> tp_currentPath := Some (hn_relativePath entry),
                 tp_bytes := completedBytes + bytes, tp_chunks := completedChunks + chunks \<rparr>) summary)
       (\<lambda>(result, summary).
     let completedBytes = completedBytes + tr_bytes result;
         completedChunks = completedChunks + tr_chunks result;
         summary = summary\<lparr> tp_files := tp_files summary + 1, tp_bytes := completedBytes,
                            tp_chunks := completedChunks \<rparr> in
     bindS (report sessionId summary) (\<lambda>_.
     push_files env sessionId operationId guestPath overwrite completedBytes completedChunks entries
       summary)))"

definition pushDirectoryOperation ::
  "'g xenv \<Rightarrow> string \<Rightarrow> params \<Rightarrow> string \<Rightarrow> ('g coordinator, transfer_progress) op" where
  "pushDirectoryOperation env sessionId params operationId =
     bindS (liftS (requireString params ''host_path'')) (\<lambda>hostPath.
     bindS (liftS (requireString params ''guest_path'')) (\<lambda>guestPath.
     let overwrite = (jsget params ''overwrite'' = JBool True) in
     bindS (resolveHostPath env hostPath True) (\<lambda>source.
     bindS getfs (\<lambda>fs.
     bindS (liftS (lstat fs source)) (\<lambda>info.
     if info = HLink then throwS ''HOST_SYMLINK_REJECTED''
     else if info \<noteq> HDir then throwS ''HOST_SOURCE_NOT_DIRECTORY''
     else
       bindS (collectHostTree env operationId source) (\<lambda>entries.
       bindS (assertActive operationId) (\<lambda>_.
       let files = filter (\<lambda>e. \<not> hn_isDirectory e) entries;
           totalBytes = sum_list (map hn_size files) in
       if totalBytes > MAX_WIN98_TRANSFER_BYTES then throwS ''TRANSFER_TOO_LARGE_FOR_WIN98''
       else
         let summary = (emptyProgress ''host-to-guest'' source guestPath)
               \<lparr> tp_totalFiles := Some (length files), tp_totalBytes := Some totalBytes \<rparr> in
         bindS (report sessionId summary) (\<lambda>_.
         bindS (guestOk env sessionId ''fs_mkdir'' [(''path'', JStr guestPath), (''recursive'', JBool True)])
           (\<lambda>_.
         bindS (push_directories env sessionId operationId guestPath (filter hn_isDirectory entries) summary)
           (\<lambda>summary.
         push_files env sessionId operationId guestPath overwrite 0 0 files summary))))))))))"

primrec pull_directories ::
  "'g xenv \<Rightarrow> string \<Rightarrow> string \<Rightarrow> guest_entry list \<Rightarrow> transfer_progress \<Rightarrow>
   ('g coordinator, transfer_progress) op" where
  "pull_directories env operationId destination [] summary = returnS summary"
| "pull_directories env operationId destination (entry # entries) summary =
     bindS (assertActive operationId) (\<lambda>_.
     bindS (liftS (resolveRelative (x_cwd env) destination (ge_relativePath entry))) (\<lambda>target.
     bindS getfs (\<lambda>fs.
     bindS (liftS (rejectCaseConflict target fs)) (\<lambda>_.
     bindS (updfs (mkdir_p target)) (\<lambda>_.
     pull_directories env operationId destination entries
       (summary\<lparr> tp_directories := tp_directories summary + 1 \<rparr>))))))"

definition directory_pull_callback :: "string \<Rightarrow> nat \<Rightarrow> nat \<Rightarrow> pull_callback" where
  "directory_pull_callback relativePath completedBytes completedChunks summary bytes chunks totalBytes =
     (if completedBytes + totalBytes > MAX_WIN98_TRANSFER_BYTES then Inl ''TRANSFER_TOO_LARGE_FOR_WIN98''
      else Inr (summary\<lparr> tp_currentPath := Some relativePath, tp_bytes := completedBytes + bytes,
                         tp_chunks := completedChunks + chunks,
                         tp_totalBytes := Some (completedBytes + totalBytes) \<rparr>))"

primrec pull_files ::
  "'g xenv \<Rightarrow> string \<Rightarrow> string \<Rightarrow> string \<Rightarrow> bool \<Rightarrow> nat \<Rightarrow> nat \<Rightarrow> guest_entry list \<Rightarrow> transfer_progress \<Rightarrow>
   ('g coordinator, transfer_progress) op" where
  "pull_files env sessionId operationId destination overwrite completedBytes completedChunks [] summary =
     returnS summary"
| "pull_files env sessionId operationId destination overwrite completedBytes completedChunks
     (entry # entries) summary =
     bindS (assertActive operationId) (\<lambda>_.
     bindS (liftS (resolveRelative (x_cwd env) destination (ge_relativePath entry))) (\<lambda>target.
     bindS getfs (\<lambda>fs.
     bindS (liftS (rejectCaseConflict target fs)) (\<lambda>_.
     bindS (pullOneFile env sessionId operationId (ge_guestPath entry) target overwrite
              (directory_pull_callback (ge_relativePath entry) completedBytes completedChunks) summary)
       (\<lambda>(result, summary).
     let completedBytes = completedBytes + tr_bytes result;
         completedChunks = completedChunks + tr_chunks result;
         summary = summary\<lparr> tp_files := tp_files summary + 1, tp_bytes := completedBytes,
                            tp_chunks := completedChunks \<rparr> in
     bindS (report sessionId summary) (\<lambda>_.
     pull_files env sessionId operationId destination overwrite completedBytes completedChunks entries
       summary))))))"

definition pullDirectoryOperation ::
  "nat \<Rightarrow> 'g xenv \<Rightarrow> string \<Rightarrow> params \<Rightarrow> string \<Rightarrow> ('g coordinator, transfer_progress) op" where
  "pullDirectoryOperation listings env sessionId params operationId =
     bindS (liftS (requireString params ''guest_path'')) (\<lambda>guestPath.
     bindS (liftS (requireString params ''host_path'')) (\<lambda>hostPath.
     let overwrite = (jsget params ''overwrite'' = JBool True) in
     bindS (resolveHostPath env hostPath False) (\<lambda>destination.
     bindS getfs (\<lambda>fs.
     bindS (liftS (rejectCaseConflict destination fs)) (\<lambda>_.
     bindS (ensureDirectoryDestination destination) (\<lambda>_.
     bindS (collectGuestTree listings env sessionId operationId guestPath) (\<lambda>entries.
     bindS (assertActive operationId) (\<lambda>_.
     let files = filter (\<lambda>e. \<not> ge_isDirectory e) entries;
         summary = (emptyProgress ''guest-to-host'' guestPath destination)
           \<lparr> tp_totalFiles := Some (length files) \<rparr> in
     bindS (report sessionId summary) (\<lambda>_.
     bindS (pull_directories env operationId destination (filter ge_isDirectory entries) summary)
       (\<lambda>summary.
     pull_files env sessionId operationId destination overwrite 0 0 files summary))))))))))"

subsection \<open>Running and aborting\<close>

text \<open>\<open>execute\<close>; the operation identifier is the random UUID that \<open>register\<close> draws.\<close>

definition execute ::
  "nat \<Rightarrow> 'g xenv \<Rightarrow> string \<Rightarrow> string \<Rightarrow> params \<Rightarrow> string \<Rightarrow> ('g coordinator, transfer_progress) op" where
  "execute listings env sessionId meth params operationId s =
     finallyS
       (if meth = ''file_push'' then pushFileOperation env sessionId params operationId
        else if meth = ''file_pull'' then pullFileOperation env sessionId params operationId
        else if meth = ''directory_push'' then pushDirectoryOperation env sessionId params operationId
        else if meth = ''directory_pull'' then pullDirectoryOperation listings env sessionId params operationId
        else throwS (''TRANSFER_METHOD_INVALID:'' @ meth))
       (unregister operationId sessionId) (register operationId sessionId s)"

text \<open>
  \<open>abortSession\<close>, cut at its awaits. \<open>settle\<close> is what runs until the guest has answered and the
  transfers are done.
\<close>

definition session_transfers :: "string \<Rightarrow> 'g coordinator \<Rightarrow> active_transfer list" where
  "session_transfers sessionId s = filter (\<lambda>t. at_sessionId t = sessionId) (tc_active s)"

definition abort_partials :: "string \<Rightarrow> 'g coordinator \<Rightarrow> string list" where
  "abort_partials sessionId s =
     concat (map (\<lambda>t. List.map_filter id [at_hostTempPath t, at_hostMetaPath t])
       (session_transfers sessionId s)) @
     map snd (filter (\<lambda>e. fst e = sessionId) (tc_retained s))"

definition abort_mark :: "string \<Rightarrow> 'g coordinator \<Rightarrow> 'g coordinator" where
  "abort_mark sessionId s =
     s\<lparr> tc_retained := filter (\<lambda>e. fst e \<noteq> sessionId) (tc_retained s),
        tc_active := map (\<lambda>t. if at_sessionId t = sessionId then t\<lparr> at_cancelled := True \<rparr> else t)
          (tc_active s) \<rparr>"

definition abort_requests :: "'g xenv \<Rightarrow> string \<Rightarrow> active_transfer list \<Rightarrow> 'g coordinator \<Rightarrow> 'g coordinator" where
  "abort_requests env sessionId ts s =
     fold (\<lambda>t s. case at_guestTransferId t of
                   None \<Rightarrow> s
                 | Some i \<Rightarrow>
                     if i = [] then s
                     else snd (x_req env sessionId ''file_write_abort'' [(''transferId'', JStr i)]
                                 (x_timeout env) s)) ts s"

definition abortSession ::
  "'g xenv \<Rightarrow> ('g coordinator \<Rightarrow> 'g coordinator) \<Rightarrow> string \<Rightarrow> 'g coordinator \<Rightarrow> 'g coordinator" where
  "abortSession env settle sessionId s =
     (let transfers = session_transfers sessionId s;
          hostPartials = abort_partials sessionId s
      in fold rm_settled hostPartials
           (settle (abort_requests env sessionId transfers (abort_mark sessionId s))))"

definition abortAll ::
  "'g xenv \<Rightarrow> ('g coordinator \<Rightarrow> 'g coordinator) \<Rightarrow> 'g coordinator \<Rightarrow> 'g coordinator" where
  "abortAll env settle s =
     fold (abortSession env settle)
       (remdups (map at_sessionId (tc_active s) @ map fst (tc_retained s))) s"

end
