(* ===== verification/Transfer_Props.thy ===== *)
theory Transfer_Props
  imports Transfer_Ops "HOL-Library.Code_Target_Nat"
begin

text \<open>
  What a pull of one file guarantees whatever the guest answers: a file that arrives is exactly the
  bytes whose digest the guest advertised, and a pull that fails leaves the destination as it was.
\<close>

subsection \<open>Paths of a destination and its partial\<close>

lemma clean_suffix: "clean (init @ [n]) \<Longrightarrow> clean (init @ [''.'' @ n @ ''.win98mcp.partial'' @ t]) \<longleftrightarrow> slash \<notin> set t"
  by simp

lemma partial_path_of:
  assumes "clean (init @ [n])"
  shows "partial_path env (path_of (init @ [n])) = path_of (init @ [''.'' @ n @ ''.win98mcp.partial''])"
proof -
  have "clean (init @ [''.'' @ n @ ''.win98mcp.partial''])" using assms by simp
  then show ?thesis
    unfolding partial_path_def dirname_path_of [OF assms] basename_path_of [OF assms]
    by (rule resolve_child)
qed

lemma partial_distinct:
  assumes "clean (init @ [n])"
  defines "host \<equiv> path_of (init @ [n])"
  shows "partial_path env host \<noteq> host" "meta_path env host \<noteq> host"
    "meta_path env host \<noteq> partial_path env host"
    "partial_path env host \<noteq> ''/''" "meta_path env host \<noteq> ''/''" "host \<noteq> ''/''"
proof -
  have p: "partial_path env host = path_of (init @ [''.'' @ n @ ''.win98mcp.partial''])"
    unfolding host_def by (rule partial_path_of [OF assms(1)])
  have l: "length (partial_path env host) = length host + 18"
    unfolding p unfolding host_def by (simp add: path_of_snoc)
  then show "partial_path env host \<noteq> host" by auto
  have "length (meta_path env host) = length host + 23" by (simp add: meta_path_def l)
  then show "meta_path env host \<noteq> host" by auto
  show "meta_path env host \<noteq> partial_path env host" by (simp add: meta_path_def)
  have "length host \<ge> 2" using assms(1) by (cases n) (auto simp: host_def path_of_snoc)
  then show "partial_path env host \<noteq> ''/''" "meta_path env host \<noteq> ''/''" "host \<noteq> ''/''"
    using l by (auto simp: meta_path_def)
qed

subsection \<open>What the steps of a pull change on the host\<close>

definition same_outside :: "string set \<Rightarrow> 'g coordinator \<Rightarrow> 'g coordinator \<Rightarrow> bool" where
  "same_outside X s s' \<longleftrightarrow> (\<forall>q. q \<notin> X \<longrightarrow> node (tc_fs s') q = node (tc_fs s) q)"

lemma same_outside_refl [simp]: "same_outside X s s"
  by (simp add: same_outside_def)

lemma same_outside_rel [simp]: "reflp (same_outside X)" "transp (same_outside X)"
  by (auto simp: same_outside_def intro: reflpI transpI)

lemma same_outside_fs: "tc_fs s' = tc_fs s \<Longrightarrow> same_outside X s s'"
  by (simp add: same_outside_def)

text \<open>A requester that leaves the nodes outside \<open>X\<close> alone.\<close>

definition fs_quiet :: "'g xenv \<Rightarrow> string \<Rightarrow> string set \<Rightarrow> bool" where
  "fs_quiet env sid X \<longleftrightarrow> (\<forall>m p t. keeps (same_outside X) (x_req env sid m p t))"

lemma keeps_updfs:
  assumes "\<And>fs fs' q. f fs = Inr fs' \<Longrightarrow> q \<notin> X \<Longrightarrow> node fs' q = node fs q"
  shows "keeps (same_outside X) (updfs f)"
  by (rule keepsI) (auto simp: updfs_def same_outside_def assms split: sum.splits)

lemma keeps_guestOk:
  "fs_quiet env sid X \<Longrightarrow> keeps (same_outside X) (guestOk env sid m p)"
  unfolding guestOk_def fs_quiet_def
  by (intro keeps_bindS keeps_if keeps_pure same_outside_rel) auto

lemma keeps_assertActive: "keeps (same_outside X) (assertActive opid)"
  by (rule keepsI) (auto simp: assertActive_def)

lemma keeps_report: "keeps (same_outside X) (report sid p)"
  unfolding report_def by (intro keeps_modifyS same_outside_fs) simp

lemma keeps_pull_report: "keeps (same_outside X) (pull_report sid upd n ps)"
  unfolding pull_report_def by (intro keeps_bindS keeps_pure keeps_report same_outside_rel)

lemma keeps_writePullMetadata:
  "p \<in> X \<Longrightarrow> p \<noteq> ''/'' \<Longrightarrow> keeps (same_outside X) (writePullMetadata env p gp n)"
  unfolding writePullMetadata_def
  by (rule keeps_updfs) (auto simp: create_new_def split: if_splits)

lemma keeps_store_chunk:
  "p \<in> X \<Longrightarrow> p \<noteq> ''/'' \<Longrightarrow> keeps (same_outside X) (store_chunk sid p upd n next data ps)"
  unfolding store_chunk_def
  by (intro keeps_if keeps_bindS keeps_pure keeps_pull_report keeps_updfs same_outside_rel)
    (auto simp: write_partial_def split: option.splits hnode.splits)

lemma keeps_pull_step:
  assumes "fs_quiet env sid X" "tmp \<in> X" "meta \<in> X" "tmp \<noteq> ''/''" "meta \<noteq> ''/''"
  shows "keeps (same_outside X) (pull_step env sid opid gp tmp meta upd ps)"
  unfolding pull_step_def
  by (intro keeps_bindS keeps_if keeps_assertActive keeps_guestOk keeps_pure keeps_pull_report
      keeps_writePullMetadata keeps_store_chunk same_outside_rel assms)

lemma keeps_pull_loop:
  assumes "fs_quiet env sid X" "tmp \<in> X" "meta \<in> X" "tmp \<noteq> ''/''" "meta \<noteq> ''/''"
  shows "keeps (same_outside X) (pull_loop env sid opid gp tmp meta upd ps)"
proof (rule keepsI)
  fix s r s'
  assume "pull_loop env sid opid gp tmp meta upd ps s = (r, s')"
  then show "same_outside X s s'"
    using assms
  proof (induction env sid opid gp tmp meta upd ps s rule: pull_loop.induct)
    case (1 env sid opid gp tmp meta upd ps s)
    obtain r1 s1 where st: "pull_step env sid opid gp tmp meta upd ps s = (r1, s1)" by fastforce
    have k: "same_outside X s s1"
      using keeps_pull_step [OF 1(3-7)] st by (rule keepsD)
    consider ps' where "r1 = Inr (ps', None)" | "s' = s1"
      using 1(2) st by (subst (asm) pull_loop.simps) (auto split: sum.splits option.splits)
    then show ?case
    proof cases
      case (1 ps')
      then have "pull_loop env sid opid gp tmp meta upd ps' s1 = (r, s')"
        using "1.prems"(1) st by (subst (asm) pull_loop.simps) simp
      then have "same_outside X s1 s'"
        using "1.IH" st 1 "1.prems" by metis
      with k show ?thesis by (rule transpD [OF same_outside_rel(2)])
    qed (use k in simp)
  qed
qed

subsection \<open>The partial holds what the hash has seen\<close>

definition partial_holds :: "string \<Rightarrow> pull_state \<Rightarrow> 'g coordinator \<Rightarrow> bool" where
  "partial_holds tmp ps s \<longleftrightarrow>
     (\<exists>t. node (tc_fs s) tmp = Some (HFile (ps_hash ps) t)) \<and> length (ps_hash ps) = ps_offset ps"

lemma partial_holds_node:
  "partial_holds tmp ps s \<Longrightarrow> node (tc_fs s') tmp = node (tc_fs s) tmp \<Longrightarrow>
     ps_hash ps' = ps_hash ps \<Longrightarrow> ps_offset ps' = ps_offset ps \<Longrightarrow> partial_holds tmp ps' s'"
  by (simp add: partial_holds_def)

definition quiet_at :: "'g xenv \<Rightarrow> string \<Rightarrow> string \<Rightarrow> bool" where
  "quiet_at env sid p \<longleftrightarrow> fs_quiet env sid (- {p})"

lemma same_outside_at: "same_outside (- {p}) s s' \<Longrightarrow> node (tc_fs s') p = node (tc_fs s) p"
  by (simp add: same_outside_def)

lemma store_chunk_holds:
  assumes "store_chunk sid tmp upd n next data ps s = (Inr ps', s')" "partial_holds tmp ps s"
    and "next = ps_offset ps + length data" "tmp \<noteq> ''/''"
  shows "partial_holds tmp ps' s'"
proof (cases "data = []")
  case True
  then show ?thesis using assms by (simp add: store_chunk_def)
next
  case False
  let ?ps = "ps\<lparr> ps_hash := ps_hash ps @ data, ps_offset := next, ps_chunks := ps_chunks ps + 1 \<rparr>"
  obtain s1 where w: "updfs (write_partial tmp (ps_offset ps) data) s = (Inr (), s1)"
    and r: "pull_report sid upd n ?ps s1 = (Inr ps', s')"
    using assms(1) False by (auto simp: store_chunk_def bindS_eq_Inr)
  obtain t where t: "node (tc_fs s) tmp = Some (HFile (ps_hash ps) t)" and
    l: "ps_offset ps = length (ps_hash ps)"
    using assms(2) by (auto simp: partial_holds_def)
  have "node (tc_fs s1) tmp = Some (HFile (ps_hash ps @ data) t)"
    using w t assms(4) by (auto simp: updfs_def write_partial_def l)
  then have "partial_holds tmp ?ps s1" using assms(3) l by (simp add: partial_holds_def)
  moreover have "node (tc_fs s') tmp = node (tc_fs s1) tmp"
    using keepsD [OF keeps_pull_report r, of "- {tmp}"] by (rule same_outside_at)
  moreover note pull_report_same [OF r]
  ultimately show ?thesis by (elim partial_holds_node) simp_all
qed

lemma pull_step_holds:
  assumes step: "pull_step env sid opid gp tmp meta upd ps s = (Inr (ps', d), s')"
    and h: "partial_holds tmp ps s" and q: "quiet_at env sid tmp"
    and p: "tmp \<noteq> ''/''" "meta \<noteq> tmp" "meta \<noteq> ''/''"
  shows "partial_holds tmp ps' s'"
  using step
proof (cases rule: pull_stepE)
  case (1 r cf n ps1 data s1 s2 s3 w)
  have "node (tc_fs s1) tmp = node (tc_fs s) tmp"
    using keepsD [OF keeps_guestOk 1(2)] q by (intro same_outside_at) (simp add: quiet_at_def)
  moreover have "node (tc_fs s2) tmp = node (tc_fs s1) tmp"
  proof -
    have "keeps (same_outside (- {tmp}))
        (if ps_resumed ps then returnS () else writePullMetadata env meta gp n)"
      using p by (intro keeps_if keeps_pure keeps_writePullMetadata same_outside_rel) auto
    from keepsD [OF this 1(5)] show ?thesis by (rule same_outside_at)
  qed
  moreover have "node (tc_fs s3) tmp = node (tc_fs s2) tmp"
    using keepsD [OF keeps_pull_report 1(6)] by (rule same_outside_at)
  ultimately have "partial_holds tmp ps1 s3"
    using h pull_report_same [OF 1(6)] by (elim partial_holds_node) simp_all
  then show ?thesis
    using store_chunk_holds [OF 1(8)] read_chunk_data_ok [OF 1(7)] p by simp
qed

text \<open>What the last turn of the loop has checked.\<close>

lemma pull_step_final:
  assumes "pull_step env sid opid gp tmp meta upd ps s = (Inr (ps', Some d), s')"
  shows "is_sha256_hex d \<and> ps_offset ps' \<le> MAX_WIN98_TRANSFER_BYTES"
  using assms
proof (cases rule: pull_stepE)
  case (1 r cf n ps1 data s1 s2 s3 w)
  from 1(9) have "is_sha256_hex d \<and> ps_offset ps' = n"
    unfolding end_of_file_def by (auto split: if_splits js.splits)
  then show ?thesis using expected_size_ok [OF 1(4)] by simp
qed

lemma pull_loop_cases:
  assumes "pull_loop env sid opid gp tmp meta upd ps s = (Inr (ps2, d), s')"
  obtains "pull_step env sid opid gp tmp meta upd ps s = (Inr (ps2, Some d), s')"
  | ps' s1 where "pull_step env sid opid gp tmp meta upd ps s = (Inr (ps', None), s1)"
      "pull_loop env sid opid gp tmp meta upd ps' s1 = (Inr (ps2, d), s')"
  using assms by (subst (asm) pull_loop.simps) (auto split: sum.splits option.splits prod.splits)

lemma pull_loop_holds:
  assumes "pull_loop env sid opid gp tmp meta upd ps s = (Inr (ps2, d), s')"
    and "partial_holds tmp ps s" "quiet_at env sid tmp" "tmp \<noteq> ''/''" "meta \<noteq> tmp" "meta \<noteq> ''/''"
  shows "partial_holds tmp ps2 s' \<and> is_sha256_hex d \<and> ps_offset ps2 \<le> MAX_WIN98_TRANSFER_BYTES"
  using assms
proof (induction env sid opid gp tmp meta upd ps s rule: pull_loop.induct)
  case (1 env sid opid gp tmp meta upd ps s)
  note run = 1(2) and hyps = 1(3-7)
  from run show ?case
  proof (cases rule: pull_loop_cases)
    case 1
    then show ?thesis using pull_step_holds [OF 1 hyps] pull_step_final [OF 1] by simp
  next
    case (2 ps' s1)
    have "partial_holds tmp ps' s1" by (rule pull_step_holds [OF 2(1) hyps])
    with "1.IH" [OF 2(1) [symmetric]] 2(2) hyps show ?thesis by simp
  qed
qed

subsection \<open>Opening the partial\<close>

lemma hash_loop_reads:
  "k \<le> n \<Longrightarrow> n \<le> length content \<Longrightarrow>
     hash_loop err content n k h = Inr (h @ take (n - k) (drop k content))"
proof (induction err content n k h rule: hash_loop.induct)
  case (1 err content n k h)
  show ?case
  proof (cases "k < n")
    case True
    define got where "got = read_at content (min TRANSFER_CHUNK_BYTES (n - k)) k"
    have l: "length got = min TRANSFER_CHUNK_BYTES (n - k)"
      using 1 True by (simp add: got_def length_read_at)
    then have ne: "got \<noteq> []" using True by (auto simp: TRANSFER_CHUNK_BYTES_def)
    have "hash_loop err content n (k + length got) (h @ got) =
        Inr ((h @ got) @ take (n - (k + length got)) (drop (k + length got) content))"
      using "1.IH" [OF True refl got_def ne] 1 l by simp
    moreover have "got @ take (n - (k + length got)) (drop (k + length got) content) =
        take (n - k) (drop k content)"
    proof -
      have "got = take (length got) (drop k content)" unfolding l by (simp add: got_def read_at_def)
      moreover have "n - k = length got + (n - (k + length got))" using l by simp
      ultimately show ?thesis by (metis take_add drop_drop add.commute)
    qed
    ultimately show ?thesis
      using True ne by (subst hash_loop.simps) (simp add: Let_def got_def)
  next
    case False
    then show ?thesis using 1 by (subst hash_loop.simps) simp
  qed
qed

lemma optionalLstat_ok: "optionalLstat fs p = Inr (Some n) \<Longrightarrow> node fs p = Some n"
  by (auto simp: optionalLstat_def lstat_def split: option.splits sum.splits if_splits)

lemma rm_settled_other: "q \<noteq> p \<Longrightarrow> p \<noteq> ''/'' \<Longrightarrow> node (tc_fs (rm_settled p s)) q = node (tc_fs s) q"
  by (simp add: rm_settled_def rm_force_def)

lemma keeps_openPullPartial:
  assumes "tmp \<in> X" "meta \<in> X" "tmp \<noteq> ''/''" "meta \<noteq> ''/''"
  shows "keeps (same_outside X) (openPullPartial env tmp meta gp)"
proof -
  have rm: "same_outside X s (rm_settled p s)" if "p \<in> X" "p \<noteq> ''/''" for s p
    using that by (auto simp: same_outside_def intro!: rm_settled_other)
  have rm2: "keeps (same_outside X) (modifyS (rm_settled tmp \<circ> rm_settled meta))"
  proof (rule keeps_modifyS)
    fix s
    show "same_outside X s ((rm_settled tmp \<circ> rm_settled meta) s)"
      using transpD [OF same_outside_rel(2) rm [of meta s] rm [of tmp "rm_settled meta s"]] assms
      by simp
  qed
  have cr: "keeps (same_outside X) (updfs (create_new tmp (HFile [] 0)))"
    using assms by (intro keeps_updfs) (auto simp: create_new_def split: if_splits)
  have gf: "keeps (same_outside X) getfs" unfolding getfs_def by (intro keeps_pure) simp
  show ?thesis
    unfolding openPullPartial_def Let_def
    by (auto intro!: keeps_bindS keeps_if keeps_pure rm2 cr gf split: option.splits)
qed

lemma openPullPartial_ok:
  assumes "openPullPartial env tmp meta gp s = (Inr pp, s')" "tmp \<noteq> ''/''"
  shows "\<exists>b t. node (tc_fs s') tmp = Some (HFile b t) \<and> length b = pp_offset pp"
proof -
  obtain ti mi where ti: "optionalLstat (tc_fs s) tmp = Inr ti"
    and mi: "optionalLstat (tc_fs s) meta = Inr mi"
    using assms by (auto simp: openPullPartial_def bindS_eq_Inr getfs_def)
  define resumed where "resumed = (case (ti, mi) of
      (Some (HFile partial _), Some (HFile metadata _)) \<Rightarrow>
        if length partial \<le> MAX_WIN98_TRANSFER_BYTES
        then map_option (\<lambda>n. (length partial, n))
               (metadata_size (x_parse env metadata) gp (length partial))
        else None
    | _ \<Rightarrow> None)"
  have nl: "\<not> (ti = Some HLink \<or> mi = Some HLink)"
    and rest: "(case resumed of
        Some (offset, expected) \<Rightarrow> returnS \<lparr> pp_offset = offset, pp_expectedSize = Some expected \<rparr>
      | None \<Rightarrow>
          bindS (modifyS (rm_settled tmp \<circ> rm_settled meta)) (\<lambda>_.
          bindS (updfs (create_new tmp (HFile [] 0))) (\<lambda>_.
          returnS \<lparr> pp_offset = 0, pp_expectedSize = None \<rparr>))) s = (Inr pp, s')"
    using assms ti mi unfolding openPullPartial_def resumed_def getfs_def
    by (auto simp: bindS_eq_Inr Let_def split: if_splits)
  show ?thesis
  proof (cases resumed)
    case None
    then obtain s1 where "updfs (create_new tmp (HFile [] 0)) s1 = (Inr (), s')" "pp_offset pp = 0"
      using rest by (auto simp: bindS_eq_Inr)
    then show ?thesis
      using assms(2) by (auto simp: updfs_def create_new_def split: sum.splits if_splits)
  next
    case (Some oe)
    then obtain b t where "ti = Some (HFile b t)" "fst oe = length b"
      by (auto simp: resumed_def split: option.splits hnode.splits if_splits)
    then show ?thesis
      using rest Some optionalLstat_ok [of "tc_fs s" tmp] ti by (auto split: prod.splits)
  qed
qed

subsection \<open>The destination\<close>

lemma path_segments_chain: "clean (xs @ [x]) \<Longrightarrow> ancestors (path_of (xs @ [x])) = ancestors (path_of xs) @ [path_of xs]"
  by (simp add: ancestors_def)

lemma ancestors_nonroot:
  assumes "clean segs" "a \<in> set (ancestors (path_of segs))"
  shows "\<exists>k<length segs. a = path_of (take k segs)"
  using assms by (auto simp: ancestors_def)

lemma mkdir_chain_node:
  "mkdir_chain ps fs = Inr fs' \<Longrightarrow>
     node fs' q = (if node fs q = None \<and> q \<in> set ps then Some HDir else node fs q)"
proof (induction ps fs rule: mkdir_chain.induct)
  case (2 p ps fs)
  show ?case
  proof (cases "node fs p")
    case None
    then have "p \<noteq> ''/''" by (auto simp: node_def)
    then show ?thesis using 2 None by (auto split: if_splits)
  next
    case (Some n)
    then show ?thesis using 2 by (cases n) auto
  qed
qed simp

definition new_dirs :: "string \<Rightarrow> host_fs \<Rightarrow> string \<Rightarrow> hnode option" where
  "new_dirs host fs q =
     (if node fs q = None \<and> q \<in> set (ancestors host) then Some HDir else node fs q)"

lemma prepare_node:
  assumes "clean (init @ [n])"
    and "prepareHostDestination (path_of (init @ [n])) ov s = (r, s')"
  shows "node (tc_fs s') q = node (tc_fs s) q \<or>
         node (tc_fs s') q = new_dirs (path_of (init @ [n])) (tc_fs s) q"
    and "tc_destinations s' = tc_destinations s"
proof -
  let ?host = "path_of (init @ [n])"
  have chain: "mkdir_p (posix_dirname ?host) fs = mkdir_chain (ancestors ?host) fs" for fs
    using assms(1) unfolding dirname_path_of [OF assms(1)] mkdir_p_def
    by (simp only: path_segments_chain)
  have "s' = s \<or> (\<exists>fs. mkdir_chain (ancestors ?host) (tc_fs s) = Inr fs \<and> s' = s\<lparr> tc_fs := fs \<rparr>)"
    using assms(2) unfolding prepareHostDestination_def
    by (auto simp: bindS_def getfs_def getS_def liftS_def updfs_def returnS_def throwS_def chain
        split: sum.splits if_splits hnode.splits)
  then show "tc_destinations s' = tc_destinations s"
    and "node (tc_fs s') q = node (tc_fs s) q \<or> node (tc_fs s') q = new_dirs ?host (tc_fs s) q"
    by (auto simp: new_dirs_def dest: mkdir_chain_node [of _ _ _ q])
qed

lemma host_not_ancestor:
  assumes "clean (init @ [n])"
  shows "path_of (init @ [n]) \<notin> set (ancestors (path_of (init @ [n])))"
proof
  let ?segs = "init @ [n]"
  assume "path_of ?segs \<in> set (ancestors (path_of ?segs))"
  from ancestors_nonroot [OF assms this] obtain k where
    k: "k < length ?segs" and e: "path_of ?segs = path_of (take k ?segs)" by blast
  have "clean (take k ?segs)"
    using assms unfolding clean_def by (meson in_set_takeD)
  with e assms have "?segs = take k ?segs" by (simp only: path_of_inject)
  then have "length ?segs = length (take k ?segs)" by (rule arg_cong)
  with k show False by simp
qed

lemma prepare_root: "prepareHostDestination ''/'' ov s = (r, s') \<Longrightarrow> s' = s \<and> (\<exists>e. r = Inl e)"
proof -
  have "mkdir_p (posix_dirname ''/'') fs = Inr fs" for fs
  proof -
    have "posix_dirname ''/'' = ''/''" by code_simp
    moreover have "ancestors ''/'' = []" by code_simp
    ultimately show ?thesis by (simp add: mkdir_p_def node_def)
  qed
  moreover have "lstat fs ''/'' = Inr HDir" for fs by (simp add: lstat_def node_def)
  ultimately show "prepareHostDestination ''/'' ov s = (r, s') \<Longrightarrow> s' = s \<and> (\<exists>e. r = Inl e)"
    unfolding prepareHostDestination_def
    by (auto simp: bindS_def getfs_def getS_def liftS_def updfs_def returnS_def throwS_def
        split: sum.splits if_splits) metis+
qed

subsection \<open>Taking a pull apart\<close>

lemma if_throwS_Inr: "(if b then throwS e else m) s = (Inr x, t) \<longleftrightarrow> \<not> b \<and> m s = (Inr x, t)"
  by simp

lemma finally_catch_Inr:
  "finallyS (catchS m h) f s = (Inr x, t) \<longleftrightarrow> (\<exists>u. m s = (Inr x, u) \<and> t = f u)"
  by (auto simp: finallyS_def catchS_def Let_def split: prod.splits sum.splits)

lemma pullOneFile_InrE:
  assumes "pullOneFile env sid opid gp host ov upd sm s = (Inr r, s')"
  obtains w s1 s2 pp s4 where
    "prepareHostDestination host ov s = (Inr w, s1)"
    "host \<notin> set (tc_destinations s1)"
    "openPullPartial env (partial_path env host) (meta_path env host) gp
       (s1\<lparr> tc_destinations := host # tc_destinations s1 \<rparr>) = (Inr pp, s2)"
    "pull_body env sid opid gp host upd pp sm
       (note_host_partial sid opid (partial_path env host) (meta_path env host) s2) = (Inr r, s4)"
    "s' = (unlock_destination host \<circ> clear_host_paths opid) s4"
  using assms
  unfolding pullOneFile_def pull_reserved_def bindS_eq_Inr getS_eq sum.inject if_throwS_Inr modifyS_eq finally_catch_Inr
  apply (elim exE conjE)
  apply hypsubst
  apply (rule that)
      apply assumption+
  done

lemma pull_bodyE:
  assumes "pull_body env sid opid gp host upd pp sm s = (Inr (res, sm'), s')"
  obtains hash ps digest s1 s2 s3 where
    "updateOpenFileHash [] (handle_bytes (tc_fs s) (partial_path env host)) (pp_offset pp) = Inr hash"
    "pull_loop env sid opid gp (partial_path env host) (meta_path env host) upd
       \<lparr> ps_offset = pp_offset pp, ps_chunks = 0, ps_expectedSize = pp_expectedSize pp,
         ps_resumed = (pp_expectedSize pp \<noteq> None), ps_hash = hash, ps_summary = sm \<rparr> s = (Inr (ps, digest), s1)"
    "x_sha env (ps_hash ps) = digest"
    "\<not> cancelled opid s1"
    "updfs (rename_file (partial_path env host) host) s1 = (Inr (), s2)"
    "updfs (rm_force (meta_path env host)) s2 = (Inr (), s3)"
    "s' = (clear_host_paths opid \<circ>
             releaseHostPartial sid (partial_path env host) (meta_path env host)) s3"
    "res = \<lparr> tr_bytes = ps_offset ps, tr_chunks = ps_chunks ps, tr_sha256 = x_sha env (ps_hash ps) \<rparr>"
proof -
  obtain hash p s1 where h: "updateOpenFileHash [] (handle_bytes (tc_fs s) (partial_path env host)) (pp_offset pp) = Inr hash"
    and l: "pull_loop env sid opid gp (partial_path env host) (meta_path env host) upd
       \<lparr> ps_offset = pp_offset pp, ps_chunks = 0, ps_expectedSize = pp_expectedSize pp,
         ps_resumed = (pp_expectedSize pp \<noteq> None), ps_hash = hash, ps_summary = sm \<rparr> s = (Inr p, s1)"
    and r: "(case p of (ps, guestSha256) \<Rightarrow>
       if x_sha env (ps_hash ps) \<noteq> guestSha256 then throwS ''TRANSFER_HASH_MISMATCH''
       else bindS (assertActive opid) (\<lambda>_.
         bindS (updfs (rename_file (partial_path env host) host)) (\<lambda>_.
         bindS (updfs (rm_force (meta_path env host))) (\<lambda>_.
         bindS (modifyS (clear_host_paths opid \<circ>
                  releaseHostPartial sid (partial_path env host) (meta_path env host))) (\<lambda>_.
         returnS (\<lparr> tr_bytes = ps_offset ps, tr_chunks = ps_chunks ps,
                    tr_sha256 = x_sha env (ps_hash ps) \<rparr>, ps_summary ps)))))) s1
       = (Inr (res, sm'), s')"
    using assms unfolding pull_body_def Let_def bindS_eq_Inr getfs_def getS_eq liftS_eq sum.inject
    by (elim exE conjE, hypsubst) (rule that; assumption)
  obtain ps digest where p: "p = (ps, digest)" by fastforce
  have d: "x_sha env (ps_hash ps) = digest" using r by (auto simp: p split: if_splits)
  obtain w w2 s1' s2 s3 where "assertActive opid s1 = (Inr w, s1')"
    "updfs (rename_file (partial_path env host) host) s1' = (Inr (), s2)"
    "updfs (rm_force (meta_path env host)) s2 = (Inr (), s3)"
    "s' = (clear_host_paths opid \<circ>
             releaseHostPartial sid (partial_path env host) (meta_path env host)) s3"
    "res = \<lparr> tr_bytes = ps_offset ps, tr_chunks = ps_chunks ps, tr_sha256 = x_sha env (ps_hash ps) \<rparr>"
    using r d by (auto simp: p bindS_eq_Inr)
  then show thesis
    using that [OF h l [unfolded p] d] assertActive_ok by metis
qed

lemma list_ex_map_same: "(\<And>x. P (f x) = P x) \<Longrightarrow> list_ex P (map f xs) = list_ex P xs"
  by (induction xs) auto

lemma cancelled_bookkeeping [simp]:
  "cancelled opid (clear_host_paths op2 s) = cancelled opid s"
  "cancelled opid (releaseHostPartial sid tmp meta s) = cancelled opid s"
  "cancelled opid (unlock_destination host s) = cancelled opid s"
  unfolding cancelled_def clear_host_paths_def update_transfer_def releaseHostPartial_def
    unlock_destination_def
  by (simp_all add: list_ex_map_same)

lemma fs_bookkeeping [simp]:
  "tc_fs (clear_host_paths op2 s) = tc_fs s"
  "tc_fs (releaseHostPartial sid tmp meta s) = tc_fs s"
  "tc_fs (unlock_destination host s) = tc_fs s"
  "tc_fs (note_host_partial sid op2 tmp meta s) = tc_fs s"
  by (simp_all add: clear_host_paths_def update_transfer_def releaseHostPartial_def
      unlock_destination_def note_host_partial_def retainHostPartial_def)

lemma retained_bookkeeping:
  "tc_retained (unlock_destination host s) = tc_retained s"
  "tc_retained (clear_host_paths op2 s) = tc_retained s"
  "tc_retained (releaseHostPartial sid tmp meta s) = filter (\<lambda>e. e \<noteq> (sid, tmp) \<and> e \<noteq> (sid, meta)) (tc_retained s)"
  by (simp_all add: clear_host_paths_def update_transfer_def releaseHostPartial_def unlock_destination_def)

lemma destinations_bookkeeping: "host \<notin> set (tc_destinations (unlock_destination host s))"
  by (simp add: unlock_destination_def)

subsection \<open>A failed pull\<close>

definition meta_written :: "string \<Rightarrow> pull_state \<Rightarrow> 'g coordinator \<Rightarrow> bool" where
  "meta_written meta ps s \<longleftrightarrow>
     (ps_resumed ps \<longrightarrow> (\<exists>c t. node (tc_fs s) meta = Some (HFile c t)))"

lemma fs_quiet_mono: "fs_quiet env sid X \<Longrightarrow> X \<subseteq> Y \<Longrightarrow> fs_quiet env sid Y"
  unfolding fs_quiet_def keeps_def same_outside_def by blast

lemma pull_step_meta:
  assumes step: "pull_step env sid opid gp tmp meta upd ps s = (Inr (ps', d), s')"
    and m: "meta_written meta ps s" and q: "fs_quiet env sid {tmp}"
    and p: "tmp \<noteq> ''/''" "meta \<noteq> tmp" "meta \<noteq> ''/''"
  shows "ps_resumed ps' \<and> meta_written meta ps' s'"
  using step
proof (cases rule: pull_stepE)
  case (1 r cf n ps1 data s1 s2 s3 w)
  have 2: "node (tc_fs s1) meta = node (tc_fs s) meta"
    using keepsD [OF keeps_guestOk [OF q] 1(2)] p by (simp add: same_outside_def)
  have 3: "\<exists>c t. node (tc_fs s2) meta = Some (HFile c t)"
  proof (cases "ps_resumed ps")
    case True
    then show ?thesis using 1(5) m 2 by (simp add: meta_written_def)
  next
    case False
    then show ?thesis
      using 1(5) p by (auto simp: writePullMetadata_def updfs_def create_new_def split: sum.splits if_splits)
  qed
  have "node (tc_fs s3) meta = node (tc_fs s2) meta"
    using keepsD [OF keeps_pull_report 1(6), of "{tmp}"] p by (simp add: same_outside_def)
  moreover have "node (tc_fs s') meta = node (tc_fs s3) meta"
    using keepsD [OF keeps_store_chunk 1(8), of "{tmp}"] p by (simp add: same_outside_def)
  ultimately show ?thesis
    using 3 store_chunk_state [OF 1(8)] pull_report_same [OF 1(6)] by (simp add: meta_written_def)
qed

lemma pull_loop_meta:
  assumes "pull_loop env sid opid gp tmp meta upd ps s = (Inr (ps2, d), s')"
    and "meta_written meta ps s" "fs_quiet env sid {tmp}" "tmp \<noteq> ''/''" "meta \<noteq> tmp" "meta \<noteq> ''/''"
  shows "\<exists>c t. node (tc_fs s') meta = Some (HFile c t)"
  using assms
proof (induction env sid opid gp tmp meta upd ps s rule: pull_loop.induct)
  case (1 env sid opid gp tmp meta upd ps s)
  note run = 1(2) and hyps = 1(3-7)
  from run show ?case
  proof (cases rule: pull_loop_cases)
    case 1
    then show ?thesis using pull_step_meta [OF 1 hyps] by (simp add: meta_written_def)
  next
    case (2 ps' s1)
    have "meta_written meta ps' s1" using pull_step_meta [OF 2(1) hyps] by simp
    with "1.IH" [OF 2(1) [symmetric]] 2(2) hyps show ?thesis by simp
  qed
qed

lemma openPullPartial_meta:
  assumes "openPullPartial env tmp meta gp s = (Inr pp, s')" "pp_expectedSize pp \<noteq> None"
  shows "\<exists>c t. node (tc_fs s') meta = Some (HFile c t)"
proof -
  obtain ti mi where ti: "optionalLstat (tc_fs s) tmp = Inr ti"
    and mi: "optionalLstat (tc_fs s) meta = Inr mi"
    using assms by (auto simp: openPullPartial_def bindS_eq_Inr getfs_def)
  show ?thesis
  proof (cases mi)
    case None
    then show ?thesis using assms ti mi
      by (auto simp: openPullPartial_def bindS_eq_Inr getfs_def Let_def
          split: if_splits option.splits hnode.splits)
  next
    case (Some n)
    then have n: "node (tc_fs s) meta = Some n" using mi by (simp add: optionalLstat_ok)
    show ?thesis
    proof (cases n)
      case (HFile c t)
      then show ?thesis using assms ti mi n Some
        by (auto simp: openPullPartial_def bindS_eq_Inr getfs_def Let_def
            split: if_splits option.splits hnode.splits)
    qed (use assms ti mi Some in \<open>auto simp: openPullPartial_def bindS_eq_Inr getfs_def Let_def
            split: if_splits option.splits hnode.splits\<close>)
  qed
qed

lemma keeps_finallyS:
  assumes "transp R" "keeps R m" "\<And>s. R s (f s)"
  shows "keeps R (finallyS m f)"
  using assms(2,3) transpD [OF assms(1)]
  unfolding keeps_def finallyS_def Let_def by (auto split: prod.splits) (metis snd_conv)

lemma keeps_pull_body:
  assumes "fs_quiet env sid X" "partial_path env host \<in> X" "meta_path env host \<in> X" "host \<in> X"
    "partial_path env host \<noteq> ''/''" "meta_path env host \<noteq> ''/''" "host \<noteq> ''/''"
  shows "keeps (same_outside X) (pull_body env sid opid gp host upd pp sm)"
proof -
  have ren: "keeps (same_outside X) (updfs (rename_file (partial_path env host) host))"
    using assms by (intro keeps_updfs) (auto simp: rename_file_def split: option.splits if_splits)
  have rm: "keeps (same_outside X) (updfs (rm_force (meta_path env host)))"
    using assms by (intro keeps_updfs) (auto simp: rm_force_def split: if_splits)
  have fin: "keeps (same_outside X)
      (modifyS (clear_host_paths opid \<circ> releaseHostPartial sid (partial_path env host) (meta_path env host)))"
    by (intro keeps_modifyS same_outside_fs) simp
  show ?thesis
    unfolding pull_body_def Let_def getfs_def case_prod_beta
    by (intro keeps_bindS keeps_if keeps_pure keeps_pull_loop keeps_assertActive ren rm fin
        same_outside_rel assms)
qed

text \<open>Up to the renaming the destination is untouched, and nothing after it can fail.\<close>

lemma pull_body_failed:
  assumes run: "pull_body env sid opid gp host upd pp sm s = (Inl e, s')"
    and q: "fs_quiet env sid {}"
    and m: "pp_expectedSize pp \<noteq> None \<longrightarrow>
      (\<exists>c t. node (tc_fs s) (meta_path env host) = Some (HFile c t))"
    and d: "partial_path env host \<noteq> host" "meta_path env host \<noteq> host"
      "meta_path env host \<noteq> partial_path env host" "partial_path env host \<noteq> ''/''"
      "meta_path env host \<noteq> ''/''" "host \<noteq> ''/''"
  shows "node (tc_fs s') host = node (tc_fs s) host"
proof -
  let ?tmp = "partial_path env host" and ?meta = "meta_path env host"
  let ?ps = "\<lambda>h. \<lparr> ps_offset = pp_offset pp, ps_chunks = 0, ps_expectedSize = pp_expectedSize pp,
      ps_resumed = (pp_expectedSize pp \<noteq> None), ps_hash = h, ps_summary = sm \<rparr>"
  have loop_same: "node (tc_fs t) host = node (tc_fs s) host"
    if "pull_loop env sid opid gp ?tmp ?meta upd ps s = (r, t)" for ps r t
    using keepsD [OF keeps_pull_loop [OF fs_quiet_mono [OF q], of "{?tmp, ?meta}"] that] d
    by (simp add: same_outside_def)
  let ?K = "\<lambda>(ps, dg). if x_sha env (ps_hash ps) \<noteq> dg then throwS ''TRANSFER_HASH_MISMATCH''
          else bindS (assertActive opid) (\<lambda>_.
            bindS (updfs (rename_file ?tmp host)) (\<lambda>_. bindS (updfs (rm_force ?meta)) (\<lambda>_.
            bindS (modifyS (clear_host_paths opid \<circ> releaseHostPartial sid ?tmp ?meta)) (\<lambda>_.
            returnS (\<lparr> tr_bytes = ps_offset ps, tr_chunks = ps_chunks ps,
                       tr_sha256 = x_sha env (ps_hash ps) \<rparr>, ps_summary ps)))))"
  consider "s' = s"
    | h where "pull_loop env sid opid gp ?tmp ?meta upd (?ps h) s = (Inl e, s')"
    | h ps dg s1 where "pull_loop env sid opid gp ?tmp ?meta upd (?ps h) s = (Inr (ps, dg), s1)"
        "?K (ps, dg) s1 = (Inl e, s')"
  proof (cases "updateOpenFileHash [] (handle_bytes (tc_fs s) ?tmp) (pp_offset pp)")
    case (Inl e')
    then have "s' = s"
      using run by (simp add: pull_body_def Let_def getfs_def bindS_def getS_def liftS_def)
    then show thesis by (rule that(1))
  next
    case (Inr h)
    then have b: "bindS (pull_loop env sid opid gp ?tmp ?meta upd (?ps h)) ?K s = (Inl e, s')"
      using run by (simp add: pull_body_def Let_def getfs_def bindS_def [of "getS tc_fs"]
          bindS_def [of "liftS x" for x] getS_def liftS_def)
    obtain r1 s1 where l: "pull_loop env sid opid gp ?tmp ?meta upd (?ps h) s = (r1, s1)"
      by fastforce
    show thesis
    proof (cases r1)
      case (Inl e')
      then show thesis using b l that(2) by simp
    next
      case (Inr x)
      obtain ps dg where "x = (ps, dg)" by fastforce
      then show thesis using b l Inr by (intro that(3) [of h ps dg s1]) simp_all
    qed
  qed
  then show ?thesis
  proof cases
    case (2 h)
    then show ?thesis by (rule loop_same)
  next
    case (3 h ps dg s1)
    have "meta_written ?meta (?ps h) s" using m by (simp add: meta_written_def)
    from pull_loop_meta [OF 3(1) this fs_quiet_mono [OF q]] d
    obtain c t where meta: "node (tc_fs s1) ?meta = Some (HFile c t)" by auto
    have "tc_fs s' = tc_fs s1"
    proof (rule ccontr)
      assume n: "tc_fs s' \<noteq> tc_fs s1"
      have a: "assertActive opid s1 = (Inr w, u) \<Longrightarrow> u = s1" for w u
        using assertActive_ok by blast
      have a2: "assertActive opid s1 = (Inl w, u) \<Longrightarrow> u = s1" for w u
        by (simp add: assertActive_def)
      obtain s2 where r: "updfs (rename_file ?tmp host) s1 = (Inr (), s2)"
        and x: "updfs (rm_force ?meta) s2 = (Inl e, s')"
        using 3(2) n
        by (auto simp: bindS_eq_Inl dest: a a2 split: if_splits)
           (auto simp: updfs_def dest!: a split: sum.splits)
      have "node (tc_fs s2) ?meta = Some (HFile c t)"
        using r meta d by (auto simp: updfs_def rename_file_def split: sum.splits option.splits if_splits)
      then show False using x d by (auto simp: updfs_def rm_force_def is_dir_def split: if_splits)
    qed
    then show ?thesis using loop_same [OF 3(1)] by simp
  qed simp
qed

lemma keeps_catchS:
  assumes "transp R" "keeps R m" "\<And>e s. R s (h e s)"
  shows "keeps R (catchS m h)"
proof (rule keepsI)
  fix s r s'
  assume c: "catchS m h s = (r, s')"
  obtain r1 s1 where m: "m s = (r1, s1)" by fastforce
  have "R s s1" using assms(2) m by (rule keepsD)
  moreover have "s' = s1 \<or> (\<exists>e. s' = h e s1)"
    using c m by (cases r1) (auto simp: catchS_def)
  ultimately show "R s s'" using assms(3) transpD [OF assms(1)] by metis
qed

lemma keeps_pull_failed:
  assumes "partial_path env host \<in> X" "meta_path env host \<in> X"
    "partial_path env host \<noteq> ''/''" "meta_path env host \<noteq> ''/''"
  shows "same_outside X s (pull_failed env sid host e s)"
proof -
  have "node (tc_fs (rm_settled (meta_path env host) (rm_settled (partial_path env host) s))) q =
      node (tc_fs s) q" if "q \<notin> X" for q
  proof -
    have "q \<noteq> meta_path env host" "q \<noteq> partial_path env host" using that assms by auto
    then show ?thesis using assms(3,4) by (simp add: rm_settled_other)
  qed
  then show ?thesis by (simp add: same_outside_def pull_failed_def Let_def)
qed

lemma keeps_pull_reserved:
  assumes q: "fs_quiet env sid X" and x: "partial_path env host \<in> X" "meta_path env host \<in> X" "host \<in> X"
    and n: "partial_path env host \<noteq> ''/''" "meta_path env host \<noteq> ''/''" "host \<noteq> ''/''"
  shows "keeps (same_outside X) (pull_reserved env sid opid gp host upd sm)"
  unfolding pull_reserved_def
  by (intro keeps_bindS keeps_if keeps_pure keeps_modifyS keeps_openPullPartial keeps_finallyS
      keeps_catchS keeps_pull_body keeps_pull_failed same_outside_rel same_outside_fs assms)
    simp_all

lemma pull_reserved_failed:
  assumes run: "pull_reserved env sid opid gp host upd sm s = (Inl e, s')"
    and q: "fs_quiet env sid {}"
    and d: "partial_path env host \<noteq> host" "meta_path env host \<noteq> host"
      "meta_path env host \<noteq> partial_path env host" "partial_path env host \<noteq> ''/''"
      "meta_path env host \<noteq> ''/''" "host \<noteq> ''/''"
  shows "node (tc_fs s') host = node (tc_fs s) host"
proof (cases "host \<in> set (tc_destinations s)")
  case True
  then show ?thesis using run by (simp add: pull_reserved_def bindS_def getS_def)
next
  case False
  let ?tmp = "partial_path env host" and ?meta = "meta_path env host"
  let ?s1 = "s\<lparr> tc_destinations := host # tc_destinations s \<rparr>"
  obtain r2 s2 where o: "openPullPartial env ?tmp ?meta gp ?s1 = (r2, s2)" by fastforce
  have h2: "node (tc_fs s2) host = node (tc_fs s) host"
    using keepsD [OF keeps_openPullPartial o, of "{?tmp, ?meta}"] d by (simp add: same_outside_def)
  show ?thesis
  proof (cases r2)
    case (Inl e')
    then have "s' = s2" using run o False by (simp add: pull_reserved_def bindS_def getS_def modifyS_def)
    then show ?thesis using h2 by simp
  next
    case (Inr pp)
    let ?s3 = "note_host_partial sid opid ?tmp ?meta s2"
    obtain r4 s4 where b: "pull_body env sid opid gp host upd pp sm ?s3 = (r4, s4)" by fastforce
    have "finallyS (catchS (pull_body env sid opid gp host upd pp sm) (pull_failed env sid host))
        (unlock_destination host \<circ> clear_host_paths opid) ?s3 = (Inl e, s')"
      using run o Inr False by (simp add: pull_reserved_def bindS_def getS_def modifyS_def)
    then have r4: "r4 = Inl e" and s': "tc_fs s' = tc_fs (pull_failed env sid host e s4)"
      using b by (auto simp: finallyS_def catchS_def Let_def split: sum.splits prod.splits)
    have "node (tc_fs s4) host = node (tc_fs ?s3) host"
    proof (rule pull_body_failed [OF b [unfolded r4] q])
      show "pp_expectedSize pp \<noteq> None \<longrightarrow> (\<exists>c t. node (tc_fs ?s3) ?meta = Some (HFile c t))"
        using openPullPartial_meta [OF o [unfolded Inr]] by simp
    qed (rule d)+
    moreover have "node (tc_fs s') host = node (tc_fs s4) host"
      using keeps_pull_failed [of env host "{?tmp, ?meta}" s4 sid e] d s'
      by (simp add: same_outside_def)
    ultimately show ?thesis using h2 by simp
  qed
qed

lemma openPullPartial_locks:
  assumes "openPullPartial env tmp meta gp s = (r, s')"
  shows "tc_destinations s' = tc_destinations s"
proof -
  let ?R = "\<lambda>a b :: 'a coordinator. tc_destinations b = tc_destinations a"
  have R: "transp ?R" "reflp ?R" by (auto intro: transpI reflpI)
  have rm: "tc_destinations (rm_settled p v) = tc_destinations v" for p and v :: "'a coordinator"
    by (simp add: rm_settled_def split: sum.splits)
  have m: "keeps ?R (modifyS (rm_settled tmp \<circ> rm_settled meta))"
    by (rule keeps_modifyS) (simp add: rm)
  have u: "keeps ?R (updfs f)" for f
    by (rule keepsI) (auto simp: updfs_def split: sum.splits)
  note k = keeps_bindS [OF R(1)] keeps_pure [OF R(2)]
  have "keeps ?R (openPullPartial env tmp meta gp)"
    unfolding openPullPartial_def Let_def getfs_def
    by (auto intro!: k keeps_if m u split: option.splits)
  from keepsD [OF this assms] show ?thesis .
qed

subsection \<open>Properties\<close>

lemma pull_body_exact:
  assumes c: "clean (init @ [n])" and segs: "segs = init @ [n]"
    and pp: "openPullPartial env (partial_path env (path_of segs)) (meta_path env (path_of segs)) gp s1 = (Inr pp, s2)"
    and b: "pull_body env sid opid gp (path_of segs) upd pp sm (note_host_partial sid opid
        (partial_path env (path_of segs)) (meta_path env (path_of segs)) s2) = (Inr (res, sm'), s4)"
    and quiet: "quiet_at env sid (partial_path env (path_of segs))"
  shows "\<exists>data. file_bytes (tc_fs s4) (path_of segs) = Some data \<and> x_sha env data = tr_sha256 res \<and>
      is_sha256_hex (tr_sha256 res) \<and> length data = tr_bytes res \<and> tr_bytes res \<le> MAX_WIN98_TRANSFER_BYTES \<and>
      node (tc_fs s4) (partial_path env (path_of segs)) = None \<and>
      node (tc_fs s4) (meta_path env (path_of segs)) = None \<and>
      (sid, partial_path env (path_of segs)) \<notin> set (tc_retained s4) \<and>
      (sid, meta_path env (path_of segs)) \<notin> set (tc_retained s4) \<and> \<not> cancelled opid s4"
proof -
  let ?host = "path_of segs"
  define tmp where "tmp = partial_path env ?host"
  define meta where "meta = meta_path env ?host"
  note pp = pp [folded tmp_def meta_def] and b = b [folded tmp_def meta_def]
  note d = partial_distinct(1-5) [OF c, of env, folded segs, folded tmp_def meta_def]
    partial_distinct(6) [OF c, folded segs]
  define s3 where "s3 = note_host_partial sid opid tmp meta s2"
  have fs3: "tc_fs s3 = tc_fs s2" by (simp add: s3_def)
  obtain bs t where bs: "node (tc_fs s3) tmp = Some (HFile bs t)" "length bs = pp_offset pp"
    using openPullPartial_ok [OF pp d(4)] fs3 by auto
  have hash: "updateOpenFileHash [] (handle_bytes (tc_fs s3) tmp) (pp_offset pp) = Inr bs"
    unfolding updateOpenFileHash_def handle_bytes_def bs(1) using bs(2)
    by (subst hash_loop_reads) simp_all
  let ?ps = "\<lparr> ps_offset = pp_offset pp, ps_chunks = 0, ps_expectedSize = pp_expectedSize pp,
      ps_resumed = (pp_expectedSize pp \<noteq> None), ps_hash = bs, ps_summary = sm \<rparr>"
  obtain ps digest s5 s6 s7 where
    loop: "pull_loop env sid opid gp tmp meta upd ?ps s3 = (Inr (ps, digest), s5)"
    and sha: "x_sha env (ps_hash ps) = digest" and nc: "\<not> cancelled opid s5"
    and ren: "updfs (rename_file tmp ?host) s5 = (Inr (), s6)"
    and rm: "updfs (rm_force meta) s6 = (Inr (), s7)"
    and s4: "s4 = (clear_host_paths opid \<circ> releaseHostPartial sid tmp meta) s7"
    and res: "res = \<lparr> tr_bytes = ps_offset ps, tr_chunks = ps_chunks ps, tr_sha256 = digest \<rparr>"
  proof (rule pull_bodyE [OF b [folded s3_def], folded tmp_def meta_def], goal_cases)
    case (1 hash' ps digest s5 s6 s7)
    have "hash' = bs" using 1(2) hash by simp
    with 1 show ?case by simp
  qed
  have "partial_holds tmp ?ps s3" using bs by (simp add: partial_holds_def)
  from pull_loop_holds [OF loop this] quiet d obtain t where
    n5: "node (tc_fs s5) tmp = Some (HFile (ps_hash ps) t)" and l: "length (ps_hash ps) = ps_offset ps"
    and hex: "is_sha256_hex digest" and le: "ps_offset ps \<le> MAX_WIN98_TRANSFER_BYTES"
    unfolding tmp_def [symmetric] partial_holds_def by auto
  have n6: "tc_fs s6 = fs_put ?host (HFile (ps_hash ps) t) (fs_del tmp (tc_fs s5))"
    using ren n5 by (auto simp: updfs_def rename_file_def split: if_splits)
  have n7: "tc_fs s7 = fs_del meta (tc_fs s6)"
    using rm by (auto simp: updfs_def rm_force_def split: if_splits)
  have fs: "tc_fs s4 = tc_fs s7" by (simp add: s4)
  have "cancelled opid s7 = cancelled opid s5"
    using ren rm by (auto simp: updfs_def cancelled_def split: sum.splits)
  then have "\<not> cancelled opid s4" using nc by (simp add: s4)
  moreover have "file_bytes (tc_fs s4) ?host = Some (ps_hash ps)" "node (tc_fs s4) tmp = None"
      "node (tc_fs s4) meta = None"
    unfolding fs n7 n6 file_bytes_def node_del [OF d(5)] node_put [OF d(6)] node_del [OF d(4)]
    using d(1,2) by simp_all
  moreover have "(sid, tmp) \<notin> set (tc_retained s4)" "(sid, meta) \<notin> set (tc_retained s4)"
    unfolding s4 comp_apply retained_bookkeeping by simp_all
  moreover have "tr_sha256 res = digest" "tr_bytes res = ps_offset ps" by (simp_all add: res)
  ultimately show ?thesis
    unfolding tmp_def [symmetric] meta_def [symmetric] using sha hex l le by metis
qed


definition demo_sha :: "bytes \<Rightarrow> string" where
  "demo_sha b = replicate 64 (digit_char (length b mod 10))"

text \<open>A guest that holds one file of one byte, and a host with nothing on its disk.\<close>

definition demo_guest :: "unit requester" where
  "demo_guest sid meth params timeout s =
     (Inr \<lparr> gr_ok = True, gr_code = ''OK'', gr_message = [],
            gr_data = JObj [(''offset'', js_of_nat 0), (''nextOffset'', js_of_nat 1),
              (''size'', js_of_nat 1), (''eof'', JBool True), (''dataBase64'', JStr ''QQ==''),
              (''sha256'', JStr (demo_sha [65]))] \<rparr>, s)"

definition demo_env :: "unit xenv" where
  "demo_env = \<lparr> x_req = demo_guest, x_timeout = 1000, x_sha = demo_sha, x_parse = (\<lambda>_. None),
     x_stringify = (\<lambda>_. []), x_cwd = ''/'' \<rparr>"

definition demo_host :: "unit coordinator" where
  "demo_host = \<lparr> tc_guest = (), tc_fs = [], tc_active = [], tc_destinations = [], tc_retained = [],
     tc_events = [] \<rparr>"

definition demo_callback :: pull_callback where
  "demo_callback sm bytes chunks totalBytes = Inr sm"

lemma demo_quiet: "fs_quiet demo_env sid X"
  by (simp add: fs_quiet_def keeps_def demo_env_def demo_guest_def)

definition demo_run :: "(string + transfer_result \<times> transfer_progress) \<times> unit coordinator" where
  "demo_run = pullOneFile demo_env ''s'' ''op'' ''C:/A'' (path_of [''a'']) False demo_callback
      (emptyProgress [] [] []) demo_host"


lemma pullOneFile_outside:
  assumes split: "s' = s1 \<and> (\<exists>e. r = Inl e) \<or> pull_reserved env sid opid gp (path_of segs) upd sm s1 = (r, s')"
    and c: "clean (init @ [n])" and segs: "segs = init @ [n]" and quiet: "fs_quiet env sid {}"
    and q: "q \<notin> {path_of segs, partial_path env (path_of segs), meta_path env (path_of segs)}"
  shows "node (tc_fs s') q = node (tc_fs s1) q"
  using split
proof
  let ?host = "path_of segs"
  note d = partial_distinct(1-5) [OF c, of env, folded segs] partial_distinct(6) [OF c, folded segs]
  assume "pull_reserved env sid opid gp ?host upd sm s1 = (r, s')"
  moreover have "keeps (same_outside {?host, partial_path env ?host, meta_path env ?host})
      (pull_reserved env sid opid gp ?host upd sm)"
    by (rule keeps_pull_reserved [OF fs_quiet_mono [OF quiet]]) (simp_all add: d)
  ultimately have "same_outside {?host, partial_path env ?host, meta_path env ?host} s1 s'"
    by (elim keepsD)
  with q show ?thesis by (simp add: same_outside_def)
qed simp


text \<open>A guest that advertises the digest of another file, and a host where the destination exists.\<close>

definition lying_guest :: "unit requester" where
  "lying_guest sid meth params timeout s =
     (Inr \<lparr> gr_ok = True, gr_code = ''OK'', gr_message = [],
            gr_data = JObj [(''offset'', js_of_nat 0), (''nextOffset'', js_of_nat 1),
              (''size'', js_of_nat 1), (''eof'', JBool True), (''dataBase64'', JStr ''QQ==''),
              (''sha256'', JStr (demo_sha []))] \<rparr>, s)"

definition lying_env :: "unit xenv" where
  "lying_env = demo_env\<lparr> x_req := lying_guest \<rparr>"


text \<open>
  When the partial of a pull cannot be opened (a symbolic link lies at its
  path, or a file system error occurs), the pull fails and its destination stays locked: every
  later pull to it, in any state in which the lock has not been taken away by something else, fails
  and keeps the lock. Nothing but \<open>pullOneFile\<close> of that destination ever removes a lock.
\<close>

theorem failed_open_keeps_lock:
  assumes prep: "prepareHostDestination host ov s = (Inr w, s1)"
    and free: "host \<notin> set (tc_destinations s1)"
    and broken: "openPullPartial env (partial_path env host) (meta_path env host) gp
        (s1\<lparr> tc_destinations := host # tc_destinations s1 \<rparr>) = (Inl e, s2)"
    and later: "host \<in> set (tc_destinations t)" "clean segs" "host = path_of segs"
  shows "pullOneFile env sid opid gp host ov upd sm s = (Inl e, s2) \<and> host \<in> set (tc_destinations s2) \<and>
     (\<exists>e' t'. pullOneFile env2 sid2 opid2 gp2 host ov2 upd2 sm2 t = (Inl e', t') \<and>
        host \<in> set (tc_destinations t') \<and>
        (\<forall>w t1. prepareHostDestination host ov2 t = (Inr w, t1) \<longrightarrow> e' = ''HOST_DESTINATION_TRANSFER_ACTIVE''))"
proof -
  have 1: "pullOneFile env sid opid gp host ov upd sm s = (Inl e, s2)"
    using prep free broken
    by (simp add: pullOneFile_def pull_reserved_def bindS_def getS_def modifyS_def)
  have 2: "host \<in> set (tc_destinations s2)" using openPullPartial_locks [OF broken] by simp
  obtain r t1 where p: "prepareHostDestination host ov2 t = (r, t1)" by fastforce
  have d: "tc_destinations t1 = tc_destinations t"
  proof (cases "segs = []")
    case True
    then have "host = ''/''" using later(3) by (simp add: path_of_def)
    with p show ?thesis using prepare_root by blast
  next
    case False
    then obtain init n where "segs = init @ [n]" by (metis rev_exhaust)
    with p later show ?thesis using prepare_node(2) by blast
  qed
  have 3: "\<exists>e' t'. pullOneFile env2 sid2 opid2 gp2 host ov2 upd2 sm2 t = (Inl e', t') \<and>
        host \<in> set (tc_destinations t') \<and>
        (\<forall>w t1. prepareHostDestination host ov2 t = (Inr w, t1) \<longrightarrow> e' = ''HOST_DESTINATION_TRANSFER_ACTIVE'')"
    using p d later(1)
    by (cases r) (auto simp: pullOneFile_def pull_reserved_def bindS_def getS_def throwS_def)
  show ?thesis using 1 2 3 by blast
qed

theorem failed_open_keeps_lock_witness:
  "fst (pullOneFile demo_env ''s'' ''op'' ''C:/A'' (path_of [''a'']) False demo_callback
      (emptyProgress [] [] []) (demo_host\<lparr> tc_fs := [(''/.a.win98mcp.partial'', HLink)] \<rparr>)) =
     Inl ''HOST_SYMLINK_REJECTED'' \<and>
   fst (pullOneFile demo_env ''s2'' ''op2'' ''C:/A'' (path_of [''a'']) False demo_callback
      (emptyProgress [] [] []) (demo_host\<lparr> tc_destinations := [path_of [''a'']] \<rparr>)) =
     Inl ''HOST_DESTINATION_TRANSFER_ACTIVE''"
proof -
  let ?s = "demo_host\<lparr> tc_fs := [(''/.a.win98mcp.partial'', HLink)] \<rparr>"
  let ?t = "demo_host\<lparr> tc_destinations := [path_of [''a'']] \<rparr>"
  let ?host = "path_of [''a'']"
  let ?p = "prepareHostDestination ?host False ?s"
  let ?o = "openPullPartial demo_env (partial_path demo_env ?host) (meta_path demo_env ?host) ''C:/A''
      ((snd ?p)\<lparr> tc_destinations := ?host # tc_destinations (snd ?p) \<rparr>)"
  have a: "fst ?p = Inr ()" by code_simp
  then have p: "?p = (Inr (), snd ?p)" by (metis prod.collapse)
  have f: "?host \<notin> set (tc_destinations (snd ?p))" by code_simp
  have "fst ?o = Inl ''HOST_SYMLINK_REJECTED''" by code_simp
  then have o: "?o = (Inl ''HOST_SYMLINK_REJECTED'', snd ?o)" by (metis prod.collapse)
  have l: "?host \<in> set (tc_destinations ?t)" by simp
  have c: "clean [''a'']" by (simp add: clean_def)
  have "fst (prepareHostDestination ?host False ?t) = Inr ()" by code_simp
  then have q: "prepareHostDestination ?host False ?t =
      (Inr (), snd (prepareHostDestination ?host False ?t))" by (metis prod.collapse)
  note * = failed_open_keeps_lock [OF p f o l c refl, of "''s''" "''op''" demo_callback
      "emptyProgress [] [] []" demo_env "''s2''" "''op2''" "''C:/A''" False demo_callback
      "emptyProgress [] [] []"]
  show ?thesis using * q by (metis fst_conv)
qed

end
