(* ===== verification/Sim_Files.thy ===== *)
theory Sim_Files
  imports Transfers Js_Number
begin

text \<open>
  The file side of the simulated guest (\<open>src/simulator/simulated-guest.ts\<close>): the write transfers
  that stay resumable until they are committed, aborted or cleaned up, chunked reads, and the
  \<open>fs_\<close> methods. The guest's disk is a \<open>host_fs\<close> below the root directory, without symbolic links.
  An open file is the path it was opened at; a \<open>Hash\<close> object is the bytes fed to it so far. The
  message of an error raised by Node is its code.
\<close>

subsection \<open>Errors and arguments\<close>

datatype sim_error = SimulatedError string string js | NodeError string

type_synonym 'a sres = "sim_error + 'a"

definition node_res :: "'a res \<Rightarrow> 'a sres" where
  "node_res r = (case r of Inl e \<Rightarrow> Inl (NodeError e) | Inr x \<Rightarrow> Inr x)"

definition sim_fail :: "string \<Rightarrow> string \<Rightarrow> 'a sres" where
  "sim_fail code message = Inl (SimulatedError code message JUndef)"

definition requiredString :: "params \<Rightarrow> string \<Rightarrow> string sres" where
  "requiredString params key =
     (case jsget params key of
        JStr s \<Rightarrow> if s = [] then sim_fail ''INVALID_ARGUMENT'' (key @ '' is required'') else Inr s
      | _ \<Rightarrow> sim_fail ''INVALID_ARGUMENT'' (key @ '' is required''))"

definition requiredInteger :: "params \<Rightarrow> string \<Rightarrow> nat \<Rightarrow> nat \<Rightarrow> nat sres" where
  "requiredInteger params key minimum maximum =
     (let failure = sim_fail ''INVALID_ARGUMENT''
            (key @ '' must be an integer between '' @ show_nat minimum @ '' and '' @ show_nat maximum) in
      case js_safe_integer (jsget params key) of
        None \<Rightarrow> failure
      | Some i \<Rightarrow> if i < int minimum \<or> i > int maximum then failure else Inr (nat i))"

definition requiredSha256 :: "params \<Rightarrow> string \<Rightarrow> string sres" where
  "requiredSha256 params key =
     bindR (requiredString params key) (\<lambda>text.
       let value = to_lower text in
       if is_sha256_hex value then Inr value
       else sim_fail ''INVALID_ARGUMENT'' (key @ '' must be a SHA-256 hex digest''))"

definition strictBase64 :: "params \<Rightarrow> string \<Rightarrow> bytes sres" where
  "strictBase64 params key =
     (case jsget params key of
        JStr value \<Rightarrow>
          (case canonical_base64 value of
             Some data \<Rightarrow> Inr data
           | None \<Rightarrow> sim_fail ''INVALID_BASE64'' (key @ '' is invalid''))
      | _ \<Rightarrow> sim_fail ''INVALID_ARGUMENT'' (key @ '' is required''))"

text \<open>\<open>String(value)\<close>; the text of a number is an argument.\<close>

fun js_String :: "(jsnum \<Rightarrow> string) \<Rightarrow> js \<Rightarrow> string" where
  "js_String numtext JUndef = ''undefined''"
| "js_String numtext JNull = ''null''"
| "js_String numtext (JBool b) = (if b then ''true'' else ''false'')"
| "js_String numtext (JNum n) = numtext n"
| "js_String numtext (JStr s) = s"
| "js_String numtext (JArr xs) =
     join_with '','' (map (\<lambda>x. if x = JUndef \<or> x = JNull then [] else js_String numtext x) xs)"
| "js_String numtext (JObj _) = ''[object Object]''"

text \<open>\<open>a ?? b\<close>.\<close>

definition coalesce :: "js \<Rightarrow> js \<Rightarrow> js" where
  "coalesce a b = (if a = JUndef \<or> a = JNull then b else a)"

subsection \<open>State\<close>

record write_transfer =
  wt_id :: string
  wt_finalPath :: string
  wt_tempPath :: string
  wt_expectedSize :: nat
  wt_expectedSha256 :: string
  wt_overwrite :: bool
  wt_offset :: nat
  wt_hash :: bytes
  wt_prefixSha256 :: string

record sim_files =
  sf_fs :: host_fs
  sf_writeTransfers :: "write_transfer list"
  sf_nextTransferId :: nat
  sf_failWriteChunkOnceAtOffset :: "nat option"

record sim_env =
  se_rootDirectory :: string
  se_cwd :: string
  se_sha :: "bytes \<Rightarrow> string"
  se_collate :: "string \<Rightarrow> nat"
  se_numtext :: "jsnum \<Rightarrow> string"

type_synonym ('s, 'a) sop = "(sim_error, 's, 'a) opE"

definition MAX_WIN98_FILE_BYTES :: nat where "MAX_WIN98_FILE_BYTES = 2147483647"

definition injectWriteChunkFailureOnce :: "js \<Rightarrow> sim_files \<Rightarrow> unit res \<times> sim_files" where
  "injectWriteChunkFailureOnce offset s =
     (case js_safe_integer offset of
        Some i \<Rightarrow>
          if i < 0 \<or> i > int MAX_WIN98_FILE_BYTES then (Inl ''SIMULATOR_FAILURE_OFFSET_INVALID'', s)
          else (Inr (), s\<lparr> sf_failWriteChunkOnceAtOffset := Some (nat i) \<rparr>)
      | None \<Rightarrow> (Inl ''SIMULATOR_FAILURE_OFFSET_INVALID'', s))"

definition sim_resolve :: "sim_env \<Rightarrow> string \<Rightarrow> string sres" where
  "sim_resolve env guestPath =
     (case resolveGuestPath (se_cwd env) (se_rootDirectory env) guestPath of
        Inl code \<Rightarrow> sim_fail code guestPath
      | Inr p \<Rightarrow> Inr p)"

definition sim_updfs :: "(host_fs \<Rightarrow> host_fs res) \<Rightarrow> (sim_files, unit) sop" where
  "sim_updfs f s =
     (case f (sf_fs s) of
        Inl e \<Rightarrow> (Inl (NodeError e), s)
      | Inr fs \<Rightarrow> (Inr (), s\<lparr> sf_fs := fs \<rparr>))"

text \<open>A removal whose failure is ignored.\<close>

definition sim_rm :: "string \<Rightarrow> sim_files \<Rightarrow> sim_files" where
  "sim_rm p s = (case rm_force p (sf_fs s) of Inl _ \<Rightarrow> s | Inr fs \<Rightarrow> s\<lparr> sf_fs := fs \<rparr>)"

definition find_transfer :: "string \<Rightarrow> sim_files \<Rightarrow> write_transfer option" where
  "find_transfer tid s = find (\<lambda>t. wt_id t = tid) (sf_writeTransfers s)"

definition delete_transfer :: "string \<Rightarrow> sim_files \<Rightarrow> sim_files" where
  "delete_transfer tid s =
     s\<lparr> sf_writeTransfers := filter (\<lambda>t. wt_id t \<noteq> tid) (sf_writeTransfers s) \<rparr>"

definition replace_transfer :: "write_transfer \<Rightarrow> sim_files \<Rightarrow> sim_files" where
  "replace_transfer t s =
     s\<lparr> sf_writeTransfers := map (\<lambda>u. if wt_id u = wt_id t then t else u) (sf_writeTransfers s) \<rparr>"

definition requireWriteTransfer :: "params \<Rightarrow> (sim_files, write_transfer) sop" where
  "requireWriteTransfer params =
     bindS (liftS (requiredString params ''transferId'')) (\<lambda>tid.
     bindS (getS (find_transfer tid)) (\<lambda>found.
       case found of
         None \<Rightarrow> liftS (sim_fail ''TRANSFER_NOT_FOUND'' ''Transfer is not active'')
       | Some transfer \<Rightarrow> returnS transfer))"

text \<open>\<open>hashFile\<close> of the bytes of an open file.\<close>

definition hashFile :: "(bytes \<Rightarrow> string) \<Rightarrow> bytes \<Rightarrow> nat \<Rightarrow> string sres" where
  "hashFile sha content fsize =
     (case hash_loop [] content fsize 0 [] of
        Inl _ \<Rightarrow> sim_fail ''FILE_CHANGED_DURING_TRANSFER'' ''File became shorter while hashing''
      | Inr hash \<Rightarrow> Inr (sha hash))"

definition verifyWritePartial :: "sim_env \<Rightarrow> write_transfer \<Rightarrow> sim_files \<Rightarrow> bool" where
  "verifyWritePartial env t s =
     (case node (sf_fs s) (wt_tempPath t) of
        Some (HFile content _) \<Rightarrow>
          length content = wt_offset t \<and>
          hashFile (se_sha env) content (wt_offset t) = Inr (wt_prefixSha256 t)
      | _ \<Rightarrow> False)"

definition discardWriteTransfer :: "write_transfer \<Rightarrow> sim_files \<Rightarrow> sim_files" where
  "discardWriteTransfer t s = sim_rm (wt_tempPath t) (delete_transfer (wt_id t) s)"

definition cleanupTransfers :: "sim_files \<Rightarrow> sim_files" where
  "cleanupTransfers s =
     fold discardWriteTransfer (sf_writeTransfers s) (s\<lparr> sf_writeTransfers := [] \<rparr>)"

subsection \<open>Writing a file\<close>

text \<open>\<open>stat\<close> follows links; the guest's disk has none.\<close>

definition sim_stat :: "string \<Rightarrow> host_fs \<Rightarrow> hnode sres" where
  "sim_stat p fs = node_res (lstat fs p)"

definition check_destination :: "string \<Rightarrow> bool \<Rightarrow> host_fs \<Rightarrow> unit sres" where
  "check_destination finalPath overwrite fs =
     (case lstat fs finalPath of
        Inl e \<Rightarrow> if isMissing e then Inr () else Inl (NodeError e)
      | Inr HDir \<Rightarrow> sim_fail ''DESTINATION_IS_DIRECTORY'' ''Destination is a directory''
      | Inr _ \<Rightarrow> if overwrite then Inr () else sim_fail ''ALREADY_EXISTS'' ''Destination exists'')"

text \<open>The loop over the transfers to the same path: resume a matching one, discard the others.\<close>

fun resume_candidates ::
  "sim_env \<Rightarrow> string \<Rightarrow> nat \<Rightarrow> string \<Rightarrow> bool \<Rightarrow> write_transfer list \<Rightarrow> sim_files \<Rightarrow>
   (string \<times> nat) option \<times> sim_files" where
  "resume_candidates env finalPath expectedSize expectedSha256 overwrite [] s = (None, s)"
| "resume_candidates env finalPath expectedSize expectedSha256 overwrite (c # cs) s =
     (if wt_finalPath c \<noteq> finalPath
      then resume_candidates env finalPath expectedSize expectedSha256 overwrite cs s
      else if wt_expectedSize c = expectedSize \<and> wt_expectedSha256 c = expectedSha256 \<and>
              wt_overwrite c = overwrite \<and> verifyWritePartial env c s
      then (Some (wt_id c, wt_offset c), s)
      else resume_candidates env finalPath expectedSize expectedSha256 overwrite cs
             (discardWriteTransfer c s))"

definition sim_transfer_id :: "nat \<Rightarrow> string" where
  "sim_transfer_id n = ''sim-transfer-'' @ show_nat n"

definition sim_temp_path :: "sim_env \<Rightarrow> string \<Rightarrow> string \<Rightarrow> string" where
  "sim_temp_path env finalPath tid =
     posix_resolve (se_cwd env)
       [posix_dirname finalPath, ''.'' @ posix_basename finalPath @ ''.'' @ tid @ ''.tmp'']"

definition begin_new ::
  "sim_env \<Rightarrow> string \<Rightarrow> nat \<Rightarrow> string \<Rightarrow> bool \<Rightarrow> (sim_files, params) sop" where
  "begin_new env finalPath expectedSize expectedSha256 overwrite s =
     (let tid = sim_transfer_id (sf_nextTransferId s); tempPath = sim_temp_path env finalPath tid in
      bindS (modifyS (\<lambda>s. s\<lparr> sf_nextTransferId := sf_nextTransferId s + 1 \<rparr>)) (\<lambda>_.
      bindS (sim_updfs (rm_force tempPath)) (\<lambda>_.
      bindS (sim_updfs (create_new tempPath (HFile [] 0))) (\<lambda>_.
      bindS (modifyS (\<lambda>s. s\<lparr> sf_writeTransfers := sf_writeTransfers s @
               [\<lparr> wt_id = tid, wt_finalPath = finalPath, wt_tempPath = tempPath,
                  wt_expectedSize = expectedSize, wt_expectedSha256 = expectedSha256,
                  wt_overwrite = overwrite, wt_offset = 0, wt_hash = [],
                  wt_prefixSha256 = se_sha env [] \<rparr>] \<rparr>)) (\<lambda>_.
      returnS [(''transferId'', JStr tid), (''resumeOffset'', js_of_nat 0)])))) s)"

definition fileWriteBegin :: "sim_env \<Rightarrow> params \<Rightarrow> (sim_files, params) sop" where
  "fileWriteBegin env params =
     bindS (liftS (requiredString params ''path'')) (\<lambda>guestPath.
     bindS (liftS (requiredInteger params ''size'' 0 MAX_WIN98_FILE_BYTES)) (\<lambda>expectedSize.
     bindS (liftS (requiredSha256 params ''sha256'')) (\<lambda>expectedSha256.
     let overwrite = (jsget params ''overwrite'' = JBool True) in
     bindS (liftS (sim_resolve env guestPath)) (\<lambda>finalPath.
     bindS (sim_updfs (mkdir_p (posix_dirname finalPath))) (\<lambda>_.
     bindS (getS sf_fs) (\<lambda>fs.
     bindS (liftS (check_destination finalPath overwrite fs)) (\<lambda>_.
     bindS (\<lambda>s. let (found, s') = resume_candidates env finalPath expectedSize expectedSha256 overwrite
                      (sf_writeTransfers s) s in (Inr found, s')) (\<lambda>found.
       case found of
         Some (tid, offset) \<Rightarrow>
           returnS [(''transferId'', JStr tid), (''resumeOffset'', js_of_nat offset)]
       | None \<Rightarrow> begin_new env finalPath expectedSize expectedSha256 overwrite))))))))"

definition chunk_checks :: "write_transfer \<Rightarrow> params \<Rightarrow> bytes sres" where
  "chunk_checks t params =
     bindR (strictBase64 params ''dataBase64'') (\<lambda>data.
       if length data > TRANSFER_CHUNK_BYTES
       then sim_fail ''CHUNK_TOO_LARGE'' (''Decoded chunk exceeds '' @ show_nat TRANSFER_CHUNK_BYTES @ '' bytes'')
       else if wt_offset t + length data > wt_expectedSize t
       then sim_fail ''SIZE_MISMATCH'' ''Chunk exceeds the declared file size''
       else
         bindR (requiredInteger params ''crc32'' 0 4294967295) (\<lambda>expectedCrc32.
           if crc32 data \<noteq> expectedCrc32
           then sim_fail ''CRC_MISMATCH''
                  (''Expected CRC32 '' @ show_nat expectedCrc32 @ '', calculated '' @ show_nat (crc32 data))
           else Inr data))"

definition sim_write :: "string \<Rightarrow> nat \<Rightarrow> bytes \<Rightarrow> sim_files \<Rightarrow> sim_files" where
  "sim_write p offset data s =
     (case write_partial p offset data (sf_fs s) of
        Inl _ \<Rightarrow> s
      | Inr fs \<Rightarrow> s\<lparr> sf_fs := fs \<rparr>)"

definition accept_chunk :: "sim_env \<Rightarrow> write_transfer \<Rightarrow> bytes \<Rightarrow> sim_files \<Rightarrow> sim_files" where
  "accept_chunk env t data s =
     replace_transfer (t\<lparr> wt_hash := wt_hash t @ data, wt_offset := wt_offset t + length data,
                          wt_prefixSha256 := se_sha env (wt_hash t @ data) \<rparr>)
       (sim_write (wt_tempPath t) (wt_offset t) data s)"

definition fileWriteChunk :: "sim_env \<Rightarrow> params \<Rightarrow> (sim_files, params) sop" where
  "fileWriteChunk env params =
     bindS (requireWriteTransfer params) (\<lambda>t.
     bindS (liftS (requiredInteger params ''offset'' 0 MAX_WIN98_FILE_BYTES)) (\<lambda>offset.
     if offset \<noteq> wt_offset t
     then liftS (sim_fail ''OFFSET_MISMATCH''
            (''Expected offset '' @ show_nat (wt_offset t) @ '', received '' @ show_nat offset))
     else
       bindS (getS sf_failWriteChunkOnceAtOffset) (\<lambda>failAt.
       if failAt = Some offset
       then bindS (modifyS (\<lambda>s. s\<lparr> sf_failWriteChunkOnceAtOffset := None \<rparr>)) (\<lambda>_.
            liftS (sim_fail ''TRANSIENT_TRANSFER_FAILURE''
              (''Injected transient failure at offset '' @ show_nat offset)))
       else
         bindS (liftS (chunk_checks t params)) (\<lambda>data.
         bindS (modifyS (accept_chunk env t data)) (\<lambda>_.
         returnS [(''nextOffset'', js_of_nat (wt_offset t + length data))])))))"

definition commit_checks :: "sim_env \<Rightarrow> write_transfer \<Rightarrow> params \<Rightarrow> string sres" where
  "commit_checks env t params =
     (if wt_offset t \<noteq> wt_expectedSize t
      then sim_fail ''SIZE_MISMATCH''
             (''Expected '' @ show_nat (wt_expectedSize t) @ '' bytes, received '' @ show_nat (wt_offset t))
      else
        bindR (requiredSha256 params ''sha256'') (\<lambda>declaredSha256.
          let actualSha256 = se_sha env (wt_hash t) in
          if actualSha256 \<noteq> wt_expectedSha256 t \<or> actualSha256 \<noteq> declaredSha256
          then sim_fail ''SHA256_MISMATCH'' ''Transferred file hash did not match''
          else Inr actualSha256))"

definition commit_vacant :: "write_transfer \<Rightarrow> host_fs \<Rightarrow> unit sres" where
  "commit_vacant t fs =
     (if wt_overwrite t then Inr ()
      else
        case lstat fs (wt_finalPath t) of
          Inr _ \<Rightarrow> sim_fail ''ALREADY_EXISTS'' ''Destination exists''
        | Inl e \<Rightarrow> if isMissing e then Inr () else Inl (NodeError e))"

definition fileWriteCommit :: "sim_env \<Rightarrow> params \<Rightarrow> (sim_files, params) sop" where
  "fileWriteCommit env params =
     bindS (requireWriteTransfer params) (\<lambda>t s.
       case bindS (liftS (commit_checks env t params)) (\<lambda>actualSha256.
            bindS (getS sf_fs) (\<lambda>fs.
            bindS (liftS (commit_vacant t fs)) (\<lambda>_.
            bindS (sim_updfs (rename_file (wt_tempPath t) (wt_finalPath t))) (\<lambda>_.
            bindS (modifyS (delete_transfer (wt_id t))) (\<lambda>_.
            returnS [(''size'', js_of_nat (wt_offset t)), (''sha256'', JStr actualSha256),
                     (''committed'', JBool True)]))))) s of
         (Inr r, s') \<Rightarrow> (Inr r, s')
       | (Inl e, s') \<Rightarrow> (Inl e, sim_rm (wt_tempPath t) (delete_transfer (wt_id t) s')))"

definition fileWriteAbort :: "params \<Rightarrow> (sim_files, params) sop" where
  "fileWriteAbort params =
     bindS (requireWriteTransfer params) (\<lambda>t.
     bindS (modifyS (delete_transfer (wt_id t))) (\<lambda>_.
     bindS (sim_updfs (rm_force (wt_tempPath t))) (\<lambda>_.
     returnS [(''aborted'', JBool True)])))"

subsection \<open>Reading a file\<close>

text \<open>One request is one step here, so the file cannot change between its two \<open>stat\<close> calls.\<close>

definition fileReadChunk :: "sim_env \<Rightarrow> params \<Rightarrow> (sim_files, params) sop" where
  "fileReadChunk env params =
     bindS (liftS (requiredString params ''path'')) (\<lambda>guestPath.
     bindS (liftS (requiredInteger params ''offset'' 0 MAX_WIN98_FILE_BYTES)) (\<lambda>offset.
     bindS (liftS (requiredInteger params ''length'' 1 TRANSFER_CHUNK_BYTES)) (\<lambda>len.
     bindS (liftS (sim_resolve env guestPath)) (\<lambda>guestFile.
     bindS (getS sf_fs) (\<lambda>fs.
     bindS (liftS (sim_stat guestFile fs)) (\<lambda>info.
     case info of
       HFile content _ \<Rightarrow>
         if length content > MAX_WIN98_FILE_BYTES
         then liftS (sim_fail ''FILE_TOO_LARGE'' ''File exceeds the Windows 98 transfer limit'')
         else if offset > length content
         then liftS (sim_fail ''OFFSET_MISMATCH''
                (''Offset '' @ show_nat offset @ '' exceeds file size '' @ show_nat (length content)))
         else
           let data = read_at content (min len (length content - offset)) offset;
               nextOffset = offset + length data;
               eof = (nextOffset = length content)
           in bindS (if eof then liftS (map_sum (\<lambda>e. e) Some (hashFile (se_sha env) content (length content)))
                     else returnS None) (\<lambda>sha256.
              returnS ([(''dataBase64'', JStr (base64_encode data)), (''offset'', js_of_nat offset),
                        (''nextOffset'', js_of_nat nextOffset), (''eof'', JBool eof),
                        (''size'', js_of_nat (length content)), (''crc32'', js_of_nat (crc32 data))] @
                       (case sha256 of
                          Some h \<Rightarrow> if h = [] then [] else [(''sha256'', JStr h)]
                        | None \<Rightarrow> [])))
     | _ \<Rightarrow> liftS (sim_fail ''PATH_NOT_FILE'' ''Path is not a file'')))))))"

subsection \<open>The file system methods\<close>

definition list_entry :: "string \<times> hnode \<Rightarrow> js" where
  "list_entry e = JObj [(''name'', JStr (fst e)), (''isDirectory'', JBool (snd e = HDir)),
     (''isFile'', JBool (case snd e of HFile _ _ \<Rightarrow> True | _ \<Rightarrow> False))]"

definition node_size :: "hnode \<Rightarrow> nat" where
  "node_size n = (case n of HFile b _ \<Rightarrow> length b | _ \<Rightarrow> 0)"

text \<open>\<open>stat().size\<close> of a directory depends on the file system; it is 0 here.\<close>

definition handleFilesystem :: "sim_env \<Rightarrow> string \<Rightarrow> params \<Rightarrow> (sim_files, params) sop" where
  "handleFilesystem env meth params =
     (if meth = ''fs_drives''
      then returnS [(''drives'', JArr [JObj [(''path'', JStr (''C:'' @ [bslash])), (''driveType'', js_of_nat 3)]])]
      else
        bindS (liftS (sim_resolve env (js_String (se_numtext env)
                 (coalesce (jsget params ''path'') (coalesce (jsget params ''source'') (JStr [])))))) (\<lambda>guestPath.
        if meth = ''fs_stat'' then
          bindS (getS sf_fs) (\<lambda>fs.
          bindS (liftS (sim_stat guestPath fs)) (\<lambda>info.
          returnS [(''path'', JStr (js_String (se_numtext env) (jsget params ''path''))),
                   (''isDirectory'', JBool (info = HDir)), (''size'', js_of_nat (node_size info))]))
        else if meth = ''fs_list'' then
          bindS (getS sf_fs) (\<lambda>fs.
          bindS (liftS (node_res (readdir guestPath fs))) (\<lambda>entries.
          returnS [(''entries'', JArr (map list_entry (sort_key (\<lambda>e. se_collate env (fst e)) entries)))]))
        else if meth = ''fs_mkdir'' then
          bindS (sim_updfs (if jsget params ''recursive'' \<noteq> JBool False then mkdir_p guestPath
                            else mkdir_single guestPath)) (\<lambda>_.
          returnS [(''created'', JBool True)])
        else if meth = ''fs_delete'' then
          bindS (sim_updfs (rm_strict (jsget params ''recursive'' = JBool True) guestPath)) (\<lambda>_.
          returnS [(''deleted'', JBool True)])
        else if meth = ''fs_move'' then
          bindS (liftS (sim_resolve env (js_String (se_numtext env)
                   (coalesce (jsget params ''destination'') (JStr []))))) (\<lambda>destination.
          bindS (sim_updfs (rename_any guestPath destination)) (\<lambda>_.
          returnS [(''moved'', JBool True)]))
        else liftS (sim_fail ''METHOD_NOT_SUPPORTED'' meth)))"

end
