(* ===== verification/Sim_Guest.thy ===== *)
theory Sim_Guest
  imports Sim_Files Protocol
begin

text \<open>
  The simulated guest (\<open>SimulatedGuest\<close> of \<open>src/simulator/simulated-guest.ts\<close>): desktop state,
  mouse, keyboard, windows, shells, the dispatcher of its methods, the response to a request, and
  the frames it reads. The PNG encoder, the UTF-8 decoder, JSON text and the text of a number are
  arguments. A \<open>Set\<close> is the list of its elements in insertion order. Time passes in \<open>delay\<close> actions
  without effect.
\<close>

subsection \<open>Numbers, text and byte ranges of JavaScript\<close>

fun js_Number :: "(jsnum \<Rightarrow> string) \<Rightarrow> js \<Rightarrow> jsnum" where
  "js_Number numtext JUndef = NaN"
| "js_Number numtext JNull = Fin 0"
| "js_Number numtext (JBool b) = Fin (if b then 1 else 0)"
| "js_Number numtext (JNum n) = n"
| "js_Number numtext (JStr s) = js_number s"
| "js_Number numtext (JArr xs) = js_number (js_String numtext (JArr xs))"
| "js_Number numtext (JObj _) = NaN"

fun num_add :: "jsnum \<Rightarrow> jsnum \<Rightarrow> jsnum" where
  "num_add NaN _ = NaN"
| "num_add _ NaN = NaN"
| "num_add (Fin a) (Fin b) = Fin (a + b)"
| "num_add PInf NInf = NaN"
| "num_add NInf PInf = NaN"
| "num_add PInf _ = PInf"
| "num_add NInf _ = NInf"
| "num_add _ y = y"

fun num_min :: "jsnum \<Rightarrow> jsnum \<Rightarrow> jsnum" where
  "num_min NaN _ = NaN"
| "num_min _ NaN = NaN"
| "num_min (Fin a) (Fin b) = Fin (min a b)"
| "num_min NInf _ = NInf"
| "num_min _ NInf = NInf"
| "num_min PInf y = y"
| "num_min x PInf = x"

text \<open>How \<open>subarray\<close> reads an index: truncated, counted from the end when negative, clamped.\<close>

definition rat_trunc :: "rat \<Rightarrow> int" where
  "rat_trunc q = (if q < 0 then - \<lfloor>- q\<rfloor> else \<lfloor>q\<rfloor>)"

fun range_index :: "nat \<Rightarrow> jsnum \<Rightarrow> nat" where
  "range_index len NaN = 0"
| "range_index len PInf = len"
| "range_index len NInf = 0"
| "range_index len (Fin q) =
     (let i = rat_trunc q in
      if i < 0 then nat (int len + i) else min len (nat i))"

definition subarray :: "bytes \<Rightarrow> jsnum \<Rightarrow> jsnum \<Rightarrow> bytes" where
  "subarray b start stop =
     (let i = range_index (length b) start; j = range_index (length b) stop
      in take (j - i) (drop i b))"

fun js_truthy :: "js \<Rightarrow> bool" where
  "js_truthy JUndef = False"
| "js_truthy JNull = False"
| "js_truthy (JBool b) = b"
| "js_truthy (JNum n) = (n \<noteq> NaN \<and> n \<noteq> Fin 0)"
| "js_truthy (JStr s) = (s \<noteq> [])"
| "js_truthy (JArr _) = True"
| "js_truthy (JObj _) = True"

definition upper_char :: "char \<Rightarrow> char" where
  "upper_char c =
     (let n = of_char c :: nat in
      if 97 \<le> n \<and> n \<le> 122 \<or> 224 \<le> n \<and> n \<le> 254 \<and> n \<noteq> 247 then char_of (n - 32) else c)"

text \<open>\<open>toUpperCase\<close>; the two code units that it turns into something longer never equal a key name.\<close>

definition to_upper :: "string \<Rightarrow> string" where
  "to_upper s = map upper_char s"

definition utf8_encode :: "string \<Rightarrow> bytes" where
  "utf8_encode s = concat (map (\<lambda>c. let n = of_char c :: nat in
     if n < 128 then [of_nat n] else [of_nat (192 + n div 64), of_nat (128 + n mod 64)]) s)"

definition latin1_bytes :: "string \<Rightarrow> bytes" where
  "latin1_bytes s = map (\<lambda>c. of_nat (of_char c :: nat)) s"

definition win32_basename :: "string \<Rightarrow> string" where
  "win32_basename path =
     (let body = (case path of
            c # d # r \<Rightarrow> if is_drive_letter c \<and> d = CHR '':'' then r else path
          | _ \<Rightarrow> path)
      in rev (takeWhile (Not \<circ> is_sep) (dropWhile is_sep (rev body))))"

subsection \<open>State\<close>

record sim_shell =
  sh_id :: string
  sh_processId :: nat
  sh_output :: bytes
  sh_cursor :: nat
  sh_running :: bool
  sh_exitCode :: "int option"
  sh_stdin :: "bytes list"

record sim_window =
  sw_windowId :: nat
  sw_title :: string
  sw_className :: string
  sw_processId :: nat
  sw_visible :: bool
  sw_enabled :: bool
  sw_rect :: "nat \<times> nat \<times> nat \<times> nat"

record sim_guest =
  sg_files :: sim_files
  sg_clipboard :: string
  sg_mouseX :: int
  sg_mouseY :: int
  sg_buttons :: "string list"
  sg_pressedKeys :: "string list"
  sg_inputEvents :: "params list"
  sg_shells :: "sim_shell list"
  sg_nextShellId :: nat
  sg_nextProcessId :: nat
  sg_windows :: "sim_window list"
  sg_focusedWindowId :: nat
  sg_notepadText :: string
  sg_notepadSelectAll :: bool
  sg_notepadGuestPath :: string

record desk_env = sim_env +
  de_width :: nat
  de_height :: nat
  de_png :: "nat \<Rightarrow> nat \<Rightarrow> bytes \<Rightarrow> bytes"
  de_utf8_decode :: "bytes \<Rightarrow> string"

definition initial_windows :: "sim_window list" where
  "initial_windows =
     [\<lparr> sw_windowId = 100, sw_title = ''Windows 98 Simulator'', sw_className = ''SIMULATED'',
        sw_processId = 1, sw_visible = True, sw_enabled = True, sw_rect = (20, 20, 420, 260) \<rparr>,
      \<lparr> sw_windowId = 101, sw_title = ''Untitled - Notepad'', sw_className = ''Notepad'',
        sw_processId = 2, sw_visible = True, sw_enabled = True, sw_rect = (60, 50, 500, 350) \<rparr>]"

definition new_sim_guest :: "host_fs \<Rightarrow> sim_guest" where
  "new_sim_guest fs =
     \<lparr> sg_files = \<lparr> sf_fs = fs, sf_writeTransfers = [], sf_nextTransferId = 1,
                    sf_failWriteChunkOnceAtOffset = None \<rparr>,
       sg_clipboard = [], sg_mouseX = 10, sg_mouseY = 10, sg_buttons = [], sg_pressedKeys = [],
       sg_inputEvents = [], sg_shells = [], sg_nextShellId = 1, sg_nextProcessId = 1000,
       sg_windows = initial_windows, sg_focusedWindowId = 100, sg_notepadText = [],
       sg_notepadSelectAll = False,
       sg_notepadGuestPath = ''C:'' @ [bslash] @ ''MCPTEST'' @ [bslash] @ ''NOTE.TXT'' \<rparr>"

text \<open>An operation on the files, run on the whole guest.\<close>

definition on_files :: "(sim_files, 'a) sop \<Rightarrow> (sim_guest, 'a) sop" where
  "on_files m s = (let (r, f) = m (sg_files s) in (r, s\<lparr> sg_files := f \<rparr>))"

definition push_event :: "params \<Rightarrow> sim_guest \<Rightarrow> sim_guest" where
  "push_event e s = s\<lparr> sg_inputEvents := sg_inputEvents s @ [e] \<rparr>"

definition cleanupInput :: "sim_guest \<Rightarrow> sim_guest" where
  "cleanupInput s = s\<lparr> sg_buttons := [], sg_pressedKeys := [] \<rparr>"

definition add_once :: "'a \<Rightarrow> 'a list \<Rightarrow> 'a list" where
  "add_once x xs = (if x \<in> set xs then xs else xs @ [x])"

subsection \<open>Screen and mouse\<close>

definition pixel :: "nat \<Rightarrow> nat \<Rightarrow> bytes" where
  "pixel x y = [of_nat (x mod 256), of_nat (y mod 256), of_nat ((x + y) mod 256), 255]"

definition screen_pixels :: "nat \<Rightarrow> nat \<Rightarrow> bytes" where
  "screen_pixels w h = concat (map (\<lambda>y. concat (map (\<lambda>x. pixel x y) [0..<w])) [0..<h])"

definition captureScreen :: "'z desk_env_scheme \<Rightarrow> sim_guest \<Rightarrow> params" where
  "captureScreen env s =
     [(''width'', js_of_nat (de_width env)), (''height'', js_of_nat (de_height env)),
      (''colorDepth'', js_of_nat 24),
      (''cursor'', JObj [(''x'', js_of_int (sg_mouseX s)), (''y'', js_of_int (sg_mouseY s))]),
      (''mimeType'', JStr ''image/png''),
      (''imageBase64'', JStr (base64_encode
         (de_png env (de_width env) (de_height env) (screen_pixels (de_width env) (de_height env)))))]"

definition applyPosition :: "'z desk_env_scheme \<Rightarrow> js \<Rightarrow> js \<Rightarrow> (sim_guest, unit) sop" where
  "applyPosition env x y s =
     (if x = JUndef \<or> y = JUndef then (Inr (), s)
      else
        let nextX = js_Number (se_numtext env) x; nextY = js_Number (se_numtext env) y in
        case (js_integer (JNum nextX), js_integer (JNum nextY)) of
          (Some i, Some j) \<Rightarrow>
            if i < 0 \<or> j < 0 \<or> i \<ge> int (de_width env) \<or> j \<ge> int (de_height env)
            then (sim_fail ''COORDINATE_OUT_OF_BOUNDS'' (se_numtext env nextX @ '','' @ se_numtext env nextY), s)
            else (Inr (), s\<lparr> sg_mouseX := i, sg_mouseY := j \<rparr>)
        | _ \<Rightarrow> (sim_fail ''COORDINATE_OUT_OF_BOUNDS'' (se_numtext env nextX @ '','' @ se_numtext env nextY), s))"

definition mouse_buttons :: "string \<Rightarrow> string \<Rightarrow> string list \<Rightarrow> string list" where
  "mouse_buttons meth button bs =
     (if meth = ''mouse_down'' then add_once button bs
      else if meth = ''mouse_up'' then removeAll button bs
      else if meth = ''mouse_release_all'' then []
      else bs)"

definition handleMouse :: "'z desk_env_scheme \<Rightarrow> string \<Rightarrow> params \<Rightarrow> (sim_guest, params) sop" where
  "handleMouse env meth params =
     bindS (if meth = ''mouse_drag'' then applyPosition env (jsget params ''to_x'') (jsget params ''to_y'')
            else applyPosition env (jsget params ''x'') (jsget params ''y'')) (\<lambda>_.
     let button = js_String (se_numtext env) (coalesce (jsget params ''button'') (JStr ''left'')) in
     bindS (modifyS (\<lambda>s. s\<lparr> sg_buttons := mouse_buttons meth button (sg_buttons s) \<rparr>)) (\<lambda>_.
     bindS (modifyS (\<lambda>s. push_event
              (jsput ''y'' (js_of_int (sg_mouseY s)) (jsput ''x'' (js_of_int (sg_mouseX s))
                (params @ [(''method'', JStr meth)]))) s)) (\<lambda>_.
     getS (\<lambda>s. [(''x'', js_of_int (sg_mouseX s)), (''y'', js_of_int (sg_mouseY s)),
                (''buttonsDown'', JArr (map JStr (sg_buttons s)))]))))"

subsection \<open>Keyboard\<close>

text \<open>\<open>writeFile\<close>: the file is created or replaced.\<close>

definition write_file :: "string \<Rightarrow> bytes \<Rightarrow> host_fs \<Rightarrow> host_fs res" where
  "write_file p b fs =
     (if is_dir fs p then Inl ''EISDIR''
      else if \<not> is_dir fs (posix_dirname p) then Inl ENOENT
      else Inr (fs_put p (HFile b 0) fs))"

definition save_notepad :: "'z desk_env_scheme \<Rightarrow> (sim_guest, unit) sop" where
  "save_notepad env s =
     on_files
       (bindS (liftS (sim_resolve (sim_env.truncate env) (sg_notepadGuestPath s))) (\<lambda>destination.
        bindS (sim_updfs (mkdir_p (posix_dirname destination))) (\<lambda>_.
        sim_updfs (write_file destination (latin1_bytes (sg_notepadText s)))))) s"

definition hotkey :: "'z desk_env_scheme \<Rightarrow> string list \<Rightarrow> (sim_guest, unit) sop" where
  "hotkey env keys s =
     (if sg_focusedWindowId s = 101 \<and> ''CTRL'' \<in> set keys then
        if ''A'' \<in> set keys then (Inr (), s\<lparr> sg_notepadSelectAll := True \<rparr>)
        else if ''V'' \<in> set keys then
          (Inr (), s\<lparr> sg_notepadText := (if sg_notepadSelectAll s then sg_clipboard s
                                          else sg_notepadText s @ sg_clipboard s),
                      sg_notepadSelectAll := False \<rparr>)
        else if ''S'' \<in> set keys then save_notepad env s
        else (Inr (), s)
      else (Inr (), s))"

definition handleKeyboard :: "'z desk_env_scheme \<Rightarrow> string \<Rightarrow> params \<Rightarrow> (sim_guest, params) sop" where
  "handleKeyboard env meth params =
     (let text = js_String (se_numtext env);
          key = text (coalesce (jsget params ''key'') (coalesce (jsget params ''virtual_key'')
                  (coalesce (jsget params ''scan_code'') (JStr []))));
          action = text (coalesce (jsget params ''action'') (JStr ''press''))
      in bindS
           (\<lambda>s. if meth = ''keyboard_release_all'' then (Inr (), s\<lparr> sg_pressedKeys := [] \<rparr>)
                else if meth = ''keyboard_hotkey'' then
                  hotkey env (case jsget params ''keys'' of
                                JArr xs \<Rightarrow> map (\<lambda>i. to_upper (text i)) xs | _ \<Rightarrow> [])
                    (s\<lparr> sg_pressedKeys := [] \<rparr>)
                else if meth = ''keyboard_type'' \<and> sg_focusedWindowId s = 101 then
                  let typed = text (coalesce (jsget params ''text'') (JStr [])) in
                  (Inr (), s\<lparr> sg_notepadText :=
                      (if sg_notepadSelectAll s then typed else sg_notepadText s @ typed),
                      sg_notepadSelectAll := False \<rparr>)
                else if action = ''down'' then
                  (Inr (), s\<lparr> sg_pressedKeys := add_once key (sg_pressedKeys s) \<rparr>)
                else if action = ''up'' then
                  (Inr (), s\<lparr> sg_pressedKeys := removeAll key (sg_pressedKeys s) \<rparr>)
                else (Inr (), s)) (\<lambda>_.
         bindS (modifyS (push_event (params @ [(''method'', JStr meth)]))) (\<lambda>_.
         getS (\<lambda>s. [(''keysDown'', JArr (map JStr (sg_pressedKeys s)))]))))"

subsection \<open>Windows\<close>

definition find_window :: "nat \<Rightarrow> sim_guest \<Rightarrow> sim_window option" where
  "find_window windowId s = find (\<lambda>w. sw_windowId w = windowId \<and> sw_visible w) (sg_windows s)"

definition focusWindow :: "params \<Rightarrow> (sim_guest, params) sop" where
  "focusWindow params =
     bindS (liftS (requiredInteger params ''window_id'' 1 4294967295)) (\<lambda>windowId.
     bindS (getS (find_window windowId)) (\<lambda>found.
     case found of
       None \<Rightarrow> liftS (sim_fail ''WINDOW_NOT_FOUND'' (''Window '' @ show_nat windowId @ '' is not available''))
     | Some window \<Rightarrow>
         if \<not> sw_enabled window
         then liftS (sim_fail ''WINDOW_DISABLED'' (''Window '' @ show_nat windowId @ '' is disabled''))
         else
           bindS (modifyS (\<lambda>s. push_event
                    [(''method'', JStr ''window_focus''), (''window_id'', js_of_nat windowId)]
                    (s\<lparr> sg_focusedWindowId := windowId \<rparr>))) (\<lambda>_.
           returnS [(''windowId'', js_of_nat windowId), (''accepted'', JBool True),
                    (''focused'', JBool True)])))"

definition hide_window :: "nat \<Rightarrow> sim_window list \<Rightarrow> sim_window list" where
  "hide_window windowId ws =
     map (\<lambda>w. if sw_windowId w = windowId \<and> sw_visible w then w\<lparr> sw_visible := False \<rparr> else w) ws"

definition closeWindow :: "params \<Rightarrow> (sim_guest, params) sop" where
  "closeWindow params =
     bindS (liftS (requiredInteger params ''window_id'' 1 4294967295)) (\<lambda>windowId.
     bindS (getS (find_window windowId)) (\<lambda>found.
     case found of
       None \<Rightarrow> liftS (sim_fail ''WINDOW_NOT_FOUND'' (''Window '' @ show_nat windowId @ '' is not available''))
     | Some window \<Rightarrow>
         bindS (modifyS (\<lambda>s. s\<lparr> sg_windows := hide_window windowId (sg_windows s),
                  sg_focusedWindowId := (if sg_focusedWindowId s = windowId then 100
                                         else sg_focusedWindowId s) \<rparr>)) (\<lambda>_.
         returnS [(''windowId'', js_of_nat windowId), (''accepted'', JBool True),
                  (''closed'', JBool True)])))"

definition window_json :: "nat \<Rightarrow> sim_window \<Rightarrow> js" where
  "window_json focused w =
     (let (x, y, width, height) = sw_rect w in
      JObj [(''windowId'', js_of_nat (sw_windowId w)), (''title'', JStr (sw_title w)),
        (''className'', JStr (sw_className w)), (''processId'', js_of_nat (sw_processId w)),
        (''visible'', JBool (sw_visible w)), (''enabled'', JBool (sw_enabled w)),
        (''rect'', JObj [(''x'', js_of_nat x), (''y'', js_of_nat y), (''width'', js_of_nat width),
                         (''height'', js_of_nat height)]),
        (''focused'', JBool (sw_windowId w = focused))])"

subsection \<open>A batch of input actions\<close>

text \<open>What an exception that is not a \<open>SimulatedError\<close> is reported as.\<close>

definition error_code_of :: "sim_error \<Rightarrow> string" where
  "error_code_of e =
     (case e of SimulatedError code _ _ \<Rightarrow> code | NodeError _ \<Rightarrow> ''SIMULATOR_OPERATION_FAILED'')"

definition error_message_of :: "sim_error \<Rightarrow> string" where
  "error_message_of e = (case e of SimulatedError _ m _ \<Rightarrow> m | NodeError m \<Rightarrow> m)"

definition batch_action :: "'z desk_env_scheme \<Rightarrow> nat \<Rightarrow> js \<Rightarrow> (sim_guest, unit) sop" where
  "batch_action env index action =
     (case action of
        JObj record \<Rightarrow>
          bindS (liftS (requiredString record ''type'')) (\<lambda>actionType.
          if actionType = ''delay'' then
            bindS (liftS (requiredInteger record ''milliseconds'' 0 (10 * 60 * 1000))) (\<lambda>milliseconds.
            modifyS (push_event [(''method'', JStr ''delay''), (''milliseconds'', js_of_nat milliseconds)]))
          else if starts_with actionType ''mouse_'' then
            bindS (handleMouse env actionType record) (\<lambda>_. returnS ())
          else if starts_with actionType ''keyboard_'' then
            bindS (handleKeyboard env actionType record) (\<lambda>_. returnS ())
          else if actionType = ''clipboard_set'' then
            (let t = js_String (se_numtext env) (coalesce (jsget record ''text'') (JStr [])) in
             modifyS (\<lambda>s. push_event [(''method'', JStr ''clipboard_set''), (''text'', JStr t)]
               (s\<lparr> sg_clipboard := t \<rparr>)))
          else if actionType = ''window_focus'' then
            bindS (focusWindow record) (\<lambda>_. returnS ())
          else liftS (sim_fail ''METHOD_NOT_SUPPORTED'' (''Batch action '' @ actionType @ '' is not supported'')))
      | _ \<Rightarrow> liftS (sim_fail ''INVALID_ARGUMENT'' (''Batch action '' @ show_nat index @ '' must be an object'')))"

definition batch_failure :: "nat \<Rightarrow> sim_error \<Rightarrow> js" where
  "batch_failure index e =
     JObj [(''index'', js_of_nat index), (''code'', JStr (error_code_of e)),
           (''message'', JStr (error_message_of e))]"

text \<open>The loop over the actions: how many completed, and the failures.\<close>

fun batch_loop ::
  "'z desk_env_scheme \<Rightarrow> bool \<Rightarrow> nat \<Rightarrow> js list \<Rightarrow> nat \<Rightarrow> js list \<Rightarrow> (sim_guest, nat \<times> js list) sop" where
  "batch_loop env stopOnError index [] completed errors = returnS (completed, errors)"
| "batch_loop env stopOnError index (action # actions) completed errors = (\<lambda>s.
     case batch_action env index action s of
       (Inr _, s') \<Rightarrow> batch_loop env stopOnError (index + 1) actions (completed + 1) errors s'
     | (Inl e, s') \<Rightarrow>
         if stopOnError then (Inl e, cleanupInput s')
         else batch_loop env stopOnError (index + 1) actions completed
                (errors @ [batch_failure index e]) (cleanupInput s'))"

definition handleInputBatch :: "'z desk_env_scheme \<Rightarrow> params \<Rightarrow> (sim_guest, params) sop" where
  "handleInputBatch env params =
     (case jsget params ''actions'' of
        JArr actions \<Rightarrow>
          bindS (batch_loop env (jsget params ''stop_on_error'' \<noteq> JBool False) 0 actions 0 [])
            (\<lambda>(completed, errors) s.
              let summary = [(''completed'', js_of_nat completed), (''failed'', js_of_nat (length errors)),
                             (''errors'', JArr errors)] in
              (Inr ((if jsget params ''screenshot_after'' = JBool True then captureScreen env s else [])
                      @ summary), s))
      | _ \<Rightarrow> liftS (sim_fail ''INVALID_ARGUMENT'' ''actions must be an array''))"

subsection \<open>Shells\<close>

text \<open>
  The regular expressions of \<open>shellExec\<close>. The first finds a word \<open>fail\<close> or \<open>false\<close>; the second
  finds \<open>START NOTEPAD file\<close> and gives the file.
\<close>

fun split_ws :: "string \<Rightarrow> string list" where
  "split_ws [] = [[]]"
| "split_ws (c # cs) =
     (if is_ws c then [] # split_ws cs
      else (case split_ws cs of [] \<Rightarrow> [[c]] | p # ps \<Rightarrow> (c # p) # ps))"

definition command_fails :: "string \<Rightarrow> bool" where
  "command_fails command \<longleftrightarrow> list_ex (\<lambda>w. to_lower w \<in> {''fail'', ''false''}) (split_ws command)"

definition is_line_end :: "char \<Rightarrow> bool" where
  "is_line_end c \<longleftrightarrow> of_char c \<in> {10, 13 :: nat}"

definition keyword_rest :: "string \<Rightarrow> string \<Rightarrow> string option" where
  "keyword_rest word s =
     (if to_lower (take (length word) s) = word then Some (drop (length word) s) else None)"

text \<open>\<open>\s+(.+?)\s*$\<close>\<close>

definition notepad_file :: "string \<Rightarrow> string option" where
  "notepad_file rest =
     (let ws = takeWhile is_ws rest; body = dropWhile is_ws rest in
      if ws = [] then None
      else if body \<noteq> [] then
        (let g = trim_end body in if list_ex is_line_end g then None else Some g)
      else case filter (Not \<circ> is_line_end) (tl ws) of [] \<Rightarrow> None | g \<Rightarrow> Some [last g])"

definition notepad_match_at :: "string \<Rightarrow> string option" where
  "notepad_match_at s =
     (case keyword_rest ''start'' s of
        None \<Rightarrow> None
      | Some r \<Rightarrow>
          if r = [] \<or> \<not> is_ws (hd r) then None
          else
            case keyword_rest ''notepad'' (dropWhile is_ws r) of
              None \<Rightarrow> None
            | Some r \<Rightarrow> notepad_file (case keyword_rest ''.exe'' r of Some r' \<Rightarrow> r' | None \<Rightarrow> r))"

fun notepad_search :: "bool \<Rightarrow> string \<Rightarrow> string option" where
  "notepad_search boundary [] = None"
| "notepad_search boundary (c # cs) =
     (case (if boundary then notepad_match_at (c # cs) else None) of
        Some g \<Rightarrow> Some g
      | None \<Rightarrow> notepad_search (is_ws c) cs)"

definition strip_quotes :: "string \<Rightarrow> string" where
  "strip_quotes s =
     (let t = (if s \<noteq> [] \<and> hd s = CHR 0x22 then tl s else s)
      in if t \<noteq> [] \<and> last t = CHR 0x22 then butlast t else t)"

definition open_notepad :: "string \<Rightarrow> sim_guest \<Rightarrow> sim_guest" where
  "open_notepad g s =
     (let requestedPath = strip_quotes (trim g) in
      s\<lparr> sg_notepadGuestPath := requestedPath, sg_notepadText := [], sg_notepadSelectAll := False,
         sg_windows := map (\<lambda>w. if sw_windowId w = 101
              then w\<lparr> sw_visible := True, sw_title := win32_basename requestedPath @ '' - Notepad'' \<rparr>
              else w) (sg_windows s) \<rparr>)"

definition crlf :: string where "crlf = [CHR 0x0D, CHR 0x0A]"

definition shellExec :: "'z desk_env_scheme \<Rightarrow> params \<Rightarrow> (sim_guest, params) sop" where
  "shellExec env params s =
     (let command = js_String (se_numtext env) (coalesce (jsget params ''command'') (JStr []));
          failed = command_fails command;
          s' = (case notepad_search True command of None \<Rightarrow> s | Some g \<Rightarrow> open_notepad g s);
          result = [(''command'', JStr command),
            (''stdout'', JStr (if failed then [] else ''simulated: '' @ command @ crlf)),
            (''stderr'', JStr (if failed then ''simulated failure: '' @ command @ crlf else [])),
            (''exitCode'', js_of_nat (if failed then 1 else 0)), (''durationMs'', js_of_nat 1),
            (''encoding'', JStr ''cp437'')]
      in if failed then
           (Inl (SimulatedError ''COMMAND_FAILED'' (''Command exited with code 1: '' @ command)
              (JObj (result @ (if jsget params ''screenshot_on_error'' \<noteq> JBool False
                               then captureScreen env s' else [])))), s')
         else (Inr result, s'))"

definition shellStart :: "'z desk_env_scheme \<Rightarrow> params \<Rightarrow> (sim_guest, params) sop" where
  "shellStart env params s =
     (let shid = ''sim-shell-'' @ show_nat (sg_nextShellId s); pid = sg_nextProcessId s;
          command = js_String (se_numtext env) (coalesce (jsget params ''command'') (JStr []))
      in (Inr [(''sessionId'', JStr shid), (''processId'', js_of_nat pid), (''running'', JBool True)],
          s\<lparr> sg_nextShellId := sg_nextShellId s + 1, sg_nextProcessId := pid + 1,
             sg_shells := sg_shells s @
               [\<lparr> sh_id = shid, sh_processId = pid,
                  sh_output = utf8_encode (''simulated terminal: '' @ command @ crlf), sh_cursor = 0,
                  sh_running = True, sh_exitCode = None, sh_stdin = [] \<rparr>] \<rparr>))"

definition requireShell :: "string \<Rightarrow> (sim_guest, sim_shell) sop" where
  "requireShell shid s =
     (case find (\<lambda>h. sh_id h = shid) (sg_shells s) of
        None \<Rightarrow> (sim_fail ''SHELL_NOT_FOUND'' shid, s)
      | Some shell \<Rightarrow> (Inr shell, s))"

definition put_shell :: "sim_shell \<Rightarrow> sim_guest \<Rightarrow> sim_guest" where
  "put_shell h s = s\<lparr> sg_shells := map (\<lambda>g. if sh_id g = sh_id h then h else g) (sg_shells s) \<rparr>"

definition exit_json :: "int option \<Rightarrow> js" where
  "exit_json c = (case c of None \<Rightarrow> JNull | Some i \<Rightarrow> js_of_int i)"

definition shell_param :: "'z desk_env_scheme \<Rightarrow> params \<Rightarrow> string" where
  "shell_param env params =
     js_String (se_numtext env) (coalesce (jsget params ''session_id'') (JStr []))"

definition shellRead :: "'z desk_env_scheme \<Rightarrow> params \<Rightarrow> (sim_guest, params) sop" where
  "shellRead env params =
     bindS (requireShell (shell_param env params)) (\<lambda>shell.
     let after = js_Number (se_numtext env) (coalesce (jsget params ''after_cursor'') (js_of_nat 0));
         maxBytes = num_min (js_Number (se_numtext env) (coalesce (jsget params ''max_bytes'') (js_of_nat 65536)))
                      (Fin 65536);
         chunk = subarray (sh_output shell) after (num_add after maxBytes)
     in returnS [(''sessionId'', JStr (sh_id shell)), (''processId'', js_of_nat (sh_processId shell)),
          (''cursor'', JNum (num_add after (Fin (of_nat (length chunk))))),
          (''stdout'', JStr (de_utf8_decode env chunk)), (''running'', JBool (sh_running shell)),
          (''exitCode'', exit_json (sh_exitCode shell))])"

definition shellWrite :: "'z desk_env_scheme \<Rightarrow> params \<Rightarrow> (sim_guest, params) sop" where
  "shellWrite env params =
     bindS (requireShell (shell_param env params)) (\<lambda>shell.
     let text = js_String (se_numtext env);
         data = (if js_truthy (jsget params ''base64'') then base64_decode (text (jsget params ''base64''))
                 else utf8_encode (text (coalesce (jsget params ''text'') (JStr []))));
         shell' = shell\<lparr> sh_stdin := sh_stdin shell @ [data], sh_output := sh_output shell @ data \<rparr>;
         shell' = (if jsget params ''eof'' = JBool True
                   then shell'\<lparr> sh_running := False, sh_exitCode := Some 0 \<rparr> else shell')
     in bindS (modifyS (put_shell shell')) (\<lambda>_.
        returnS [(''sessionId'', JStr (sh_id shell)), (''processId'', js_of_nat (sh_processId shell)),
                 (''acceptedBytes'', js_of_nat (length data))]))"

definition methodExitCode :: "params \<Rightarrow> int" where
  "methodExitCode params = (if jsget params ''force'' = JBool False then 0 else - 1)"

definition shellStop :: "'z desk_env_scheme \<Rightarrow> params \<Rightarrow> (sim_guest, params) sop" where
  "shellStop env params =
     bindS (requireShell (shell_param env params)) (\<lambda>shell.
     bindS (modifyS (put_shell (shell\<lparr> sh_running := False, sh_exitCode := Some (methodExitCode params) \<rparr>))) (\<lambda>_.
     returnS [(''sessionId'', JStr (sh_id shell)), (''processId'', js_of_nat (sh_processId shell)),
              (''running'', JBool False), (''exitCode'', js_of_int (methodExitCode params))]))"

subsection \<open>Dispatch and responses\<close>

definition capabilities :: "'z desk_env_scheme \<Rightarrow> params" where
  "capabilities env =
     [(''guestId'', JStr ''simulated-win98''), (''guestBuildId'', JStr ''simulator-1''),
      (''protocolVersion'', js_of_nat 2), (''osName'', JStr ''Microsoft Windows 98 Second Edition''),
      (''osVersion'', JStr ''4.10.2222 A''), (''ansiCodePage'', js_of_nat 1252),
      (''oemCodePage'', js_of_nat 437), (''screenWidth'', js_of_nat (de_width env)),
      (''screenHeight'', js_of_nat (de_height env)), (''colorDepth'', js_of_nat 24),
      (''supportsLongFileNames'', JBool True), (''supportsMouseWheel'', JBool True),
      (''maxPath'', js_of_nat 260), (''maxFileBytes'', js_of_nat 2147483647),
      (''commands'', JArr (map JStr [''screen_capture'', ''mouse'', ''keyboard'', ''clipboard'',
         ''windows'', ''shell'', ''processes'', ''filesystem'', ''fs_drives'', ''system'',
         ''show_message'', ''agent_diagnostics'']))]"

definition process_json :: "nat \<Rightarrow> nat \<Rightarrow> string \<Rightarrow> params" where
  "process_json pid parent executable =
     [(''processId'', js_of_nat pid), (''parentProcessId'', js_of_nat parent), (''executable'', JStr executable)]"

definition process_list :: "sim_guest \<Rightarrow> js" where
  "process_list s =
     JArr ([JObj (process_json 1 0 ''SIMULATOR.EXE''), JObj (process_json 2 1 ''NOTEPAD.EXE'')] @
       map (\<lambda>h. JObj (process_json (sh_processId h) 1 ''COMMAND.COM'' @ [(''running'', JBool (sh_running h))]))
         (sg_shells s))"

definition session_abort :: "sim_guest \<Rightarrow> sim_guest" where
  "session_abort s =
     (let s = (cleanupInput s)\<lparr> sg_shells := [] \<rparr> in s\<lparr> sg_files := cleanupTransfers (sg_files s) \<rparr>)"

definition dispatch :: "'z desk_env_scheme \<Rightarrow> string \<Rightarrow> params \<Rightarrow> (sim_guest, params) sop" where
  "dispatch env meth params =
     (let text = js_String (se_numtext env); fenv = sim_env.truncate env in
      if meth = ''session_abort'' then
        bindS (modifyS session_abort) (\<lambda>_. returnS [(''sanitized'', JBool True)])
      else if meth = ''show_message'' then
        (let message = text (coalesce (jsget params ''message'') (JStr [])) in
         if message = [] then liftS (sim_fail ''MESSAGE_REQUIRED'' ''message is required'')
         else bindS (modifyS (push_event [(''method'', JStr meth), (''message'', JStr message)])) (\<lambda>_.
              returnS [(''accepted'', JBool True)]))
      else if meth = ''agent_diagnostics'' then
        returnS [(''agentLogPath'', JStr ''MCPAGENT.LOG''), (''crashLogPath'', JStr ''MCPCRASH.LOG''),
          (''supervisorLogPath'', JStr ''MCPSUPERVISOR.LOG''),
          (''supervisorState'', JStr (''state=WIN98CTL running'' @ crlf @ ''restarts=1'' @ crlf)),
          (''lastCrash'', JStr [])]
      else if meth = ''screen_capture'' \<or> meth = ''window_capture'' then getS (captureScreen env)
      else if meth = ''mouse_position'' then
        getS (\<lambda>s. [(''x'', js_of_int (sg_mouseX s)), (''y'', js_of_int (sg_mouseY s))])
      else if starts_with meth ''mouse_'' then handleMouse env meth params
      else if starts_with meth ''keyboard_'' then handleKeyboard env meth params
      else if meth = ''input_batch'' then handleInputBatch env params
      else if meth = ''clipboard_get'' then
        getS (\<lambda>s. [(''text'', JStr (sg_clipboard s)), (''format'', JStr ''text'')])
      else if meth = ''clipboard_set'' then
        (let t = text (coalesce (jsget params ''text'') (JStr [])) in
         bindS (modifyS (\<lambda>s. s\<lparr> sg_clipboard := t \<rparr>)) (\<lambda>_.
         returnS [(''length'', js_of_nat (length t))]))
      else if meth = ''window_list'' then
        getS (\<lambda>s. [(''windows'', JArr (map (window_json (sg_focusedWindowId s))
          (filter (\<lambda>w. jsget params ''visible_only'' \<noteq> JBool True \<or> sw_visible w) (sg_windows s))))])
      else if meth = ''window_focus'' then focusWindow params
      else if meth = ''window_close'' then closeWindow params
      else if meth = ''shell_exec'' then shellExec env params
      else if meth = ''shell_start'' then shellStart env params
      else if meth = ''shell_read'' then shellRead env params
      else if meth = ''shell_write'' then shellWrite env params
      else if meth = ''shell_terminate'' \<or> meth = ''shell_close'' then shellStop env params
      else if meth = ''process_list'' then getS (\<lambda>s. [(''processes'', process_list s)])
      else if meth = ''process_wait'' then
        returnS [(''processId'', JNum (js_Number (se_numtext env) (jsget params ''process_id''))),
                 (''exited'', JBool True), (''exitCode'', js_of_nat 0)]
      else if meth = ''process_kill'' then
        returnS [(''processId'', JNum (js_Number (se_numtext env) (jsget params ''process_id''))),
                 (''killed'', JBool True)]
      else if starts_with meth ''fs_'' then on_files (handleFilesystem fenv meth params)
      else if meth = ''file_write_begin'' then on_files (fileWriteBegin fenv params)
      else if meth = ''file_write_chunk'' then on_files (fileWriteChunk fenv params)
      else if meth = ''file_write_commit'' then on_files (fileWriteCommit fenv params)
      else if meth = ''file_write_abort'' then on_files (fileWriteAbort params)
      else if meth = ''file_read_chunk'' then on_files (fileReadChunk fenv params)
      else if meth = ''system_info'' then returnS [(''capabilities'', JObj (capabilities env))]
      else if meth = ''system_reboot'' \<or> meth = ''system_shutdown'' then
        returnS [(''accepted'', JBool True), (''simulated'', JBool True)]
      else liftS (sim_fail ''METHOD_NOT_SUPPORTED'' meth))"

text \<open>\<open>handleRequest\<close>: the response record; its \<open>requestId\<close> is the request's.\<close>

definition handleRequest :: "'z desk_env_scheme \<Rightarrow> string \<Rightarrow> params \<Rightarrow> sim_guest \<Rightarrow> guest_response \<times> sim_guest" where
  "handleRequest env meth params s =
     (case dispatch env meth params s of
        (Inr data, s') \<Rightarrow>
          (\<lparr> gr_ok = True, gr_code = ''OK'', gr_message = meth @ '' completed'', gr_data = JObj data \<rparr>, s')
      | (Inl e, s') \<Rightarrow>
          (\<lparr> gr_ok = False, gr_code = error_code_of e, gr_message = error_message_of e,
             gr_data = (case e of SimulatedError _ _ d \<Rightarrow> d | NodeError _ \<Rightarrow> JUndef) \<rparr>, s'))"

subsection \<open>The connection\<close>

record sim_link =
  sl_decoder :: bytes
  sl_ready :: bool
  sl_hostSequence :: int
  sl_guestSequence :: int

datatype sim_action =
    SimConnected
  | SimRequest bytes
  | SimCancelled bytes
  | SimPong bytes

definition new_link :: sim_link where
  "new_link = \<lparr> sl_decoder = [], sl_ready = False, sl_hostSequence = 1, sl_guestSequence = 1 \<rparr>"

definition handleHandshakeFrame :: "int \<Rightarrow> sim_link \<Rightarrow> (string + sim_action) \<times> sim_link" where
  "handleHandshakeFrame ftype l =
     (if ftype \<noteq> frame_code Ready then (Inl ''SIMULATOR_HANDSHAKE_ORDER_INVALID'', l)
      else (Inr SimConnected, l\<lparr> sl_ready := True, sl_hostSequence := 1, sl_guestSequence := 1 \<rparr>))"

definition sim_frame :: "decoded_frame \<Rightarrow> sim_link \<Rightarrow> (string + sim_action list) \<times> sim_link" where
  "sim_frame f l =
     (if \<not> sl_ready l then
        (let (r, l') = handleHandshakeFrame (fh_type (df_header f)) l in (map_sum (\<lambda>e. e) (\<lambda>a. [a]) r, l'))
      else if fh_sequence (df_header f) \<noteq> sl_hostSequence l
      then (Inl ''SIMULATOR_FRAME_SEQUENCE_INVALID'', l)
      else
        let l = l\<lparr> sl_hostSequence := sl_hostSequence l + 1 \<rparr>; t = fh_type (df_header f) in
        if t = frame_code Ready then (Inr [SimConnected], l\<lparr> sl_ready := True \<rparr>)
        else if t = frame_code Request then (Inr [SimRequest (df_payload f)], l)
        else if t = frame_code Cancel then (Inr [SimCancelled (df_payload f)], l)
        else if t = frame_code Ping then (Inr [SimPong (df_payload f)], l)
        else (Inr [], l))"

fun sim_frames :: "decoded_frame list \<Rightarrow> sim_link \<Rightarrow> sim_action list \<times> string option \<times> sim_link" where
  "sim_frames [] l = ([], None, l)"
| "sim_frames (f # fs) l =
     (case sim_frame f l of
        (Inl e, l') \<Rightarrow> ([], Some e, l')
      | (Inr acts, l') \<Rightarrow> (let (more, e, l'') = sim_frames fs l' in (acts @ more, e, l'')))"

text \<open>\<open>onData\<close>: the actions taken, and the protocol error that closes the socket, if any.\<close>

definition sim_onData :: "bytes \<Rightarrow> sim_link \<Rightarrow> sim_action list \<times> string option \<times> sim_link" where
  "sim_onData chunk l =
     (case decoder_push (sl_decoder l) chunk of
        (Inl e, rest) \<Rightarrow> ([], Some e, l\<lparr> sl_decoder := rest \<rparr>)
      | (Inr fs, rest) \<Rightarrow> sim_frames fs (l\<lparr> sl_decoder := rest \<rparr>))"

text \<open>\<open>sendSigned\<close>: the frame written, with the next sequence number.\<close>

definition sendSigned :: "int \<Rightarrow> bytes \<Rightarrow> sim_link \<Rightarrow> (string + bytes) \<times> sim_link" where
  "sendSigned ftype payload l =
     (if \<not> sl_ready l then (Inl ''SIMULATOR_NOT_READY'', l)
      else (encodeFrame ftype 0 0 (sl_guestSequence l) payload,
            l\<lparr> sl_guestSequence := sl_guestSequence l + 1 \<rparr>))"

text \<open>A socket that closes, and \<open>stop\<close>.\<close>

definition sim_closed :: "sim_guest \<Rightarrow> sim_guest" where
  "sim_closed s = (let s = cleanupInput s in s\<lparr> sg_files := cleanupTransfers (sg_files s) \<rparr>)"

subsection \<open>The guest as the other end of a transfer\<close>

definition sim_requester :: "'z desk_env_scheme \<Rightarrow> sim_guest requester" where
  "sim_requester env sessionId meth params timeout s =
     (let (response, g) = handleRequest env meth params (tc_guest s)
      in (Inr response, s\<lparr> tc_guest := g \<rparr>))"

end
