(* ===== verification/Sim_Transfers.thy ===== *)
theory Sim_Transfers
  imports Transfer_Props Sim_Guest
begin

text \<open>
  The two ends of a transfer together. What a guest has to promise for chunked reads and for
  resumable writes is stated as two interfaces; that a pull or a push then completes and delivers
  the exact bytes is proved from them once; and the simulated guest's own operations are shown to
  keep the promises.
\<close>

subsection \<open>Steps that only touch the host\<close>

definition host_only :: "'g coordinator \<Rightarrow> 'g coordinator \<Rightarrow> bool" where
  "host_only s s' \<longleftrightarrow> tc_guest s' = tc_guest s \<and> tc_active s' = tc_active s \<and>
     tc_destinations s' = tc_destinations s \<and> tc_retained s' = tc_retained s"

lemma host_only_rel [simp]: "reflp host_only" "transp host_only"
  by (auto simp: host_only_def intro: reflpI transpI)

lemma keeps_host_updfs: "keeps host_only (updfs f)"
  by (rule keepsI) (auto simp: updfs_def host_only_def split: sum.splits)

lemma host_only_rm: "host_only s (rm_settled p s)"
  by (simp add: rm_settled_def host_only_def split: sum.splits)

lemma keeps_host_openPullPartial: "keeps host_only (openPullPartial env tmp meta gp)"
proof -
  have m: "keeps host_only (modifyS (rm_settled tmp \<circ> rm_settled meta))"
    by (rule keeps_modifyS)
      (use transpD [OF host_only_rel(2) host_only_rm host_only_rm] in \<open>simp add: comp_def\<close>)
  show ?thesis
    unfolding openPullPartial_def Let_def getfs_def
    by (auto intro!: keeps_bindS keeps_pure keeps_if m keeps_host_updfs split: option.splits)
qed

lemma keeps_host_prepare: "keeps host_only (prepareHostDestination p ov)"
  unfolding prepareHostDestination_def getfs_def
  by (auto intro!: keeps_bindS keeps_pure keeps_if keeps_host_updfs split: sum.splits hnode.splits)

lemma prepare_not_dir:
  assumes "prepareHostDestination p ov s = (Inr w, s1)"
  shows "\<not> is_dir (tc_fs s1) p"
proof
  assume d: "is_dir (tc_fs s1) p"
  obtain m where m: "(case lstat (tc_fs m) p of
         Inl e \<Rightarrow> if isMissing e then returnS () else throwS e
       | Inr HLink \<Rightarrow> throwS ''HOST_SYMLINK_REJECTED''
       | Inr HDir \<Rightarrow> throwS ''HOST_DESTINATION_IS_DIRECTORY''
       | Inr _ \<Rightarrow> if ov then returnS () else throwS ''HOST_DESTINATION_EXISTS'') m = (Inr w, s1)"
    using assms unfolding prepareHostDestination_def bindS_eq_Inr getfs_def getS_eq liftS_eq sum.inject
    by (elim exE conjE, hypsubst) (rule that)
  then have "s1 = m" by (auto split: sum.splits hnode.splits if_splits)
  with d have "lstat (tc_fs m) p = Inr HDir" by (simp add: lstat_def is_dir_def)
  with m show False by simp
qed

subsection \<open>Where a pull can start from\<close>

text \<open>
  The partial and its metadata are absent or plain files, and if they would be resumed then the
  partial is a prefix of the guest's file and the promised size is the file's.
\<close>

definition partial_usable :: "'g xenv \<Rightarrow> string \<Rightarrow> bytes \<Rightarrow> string \<Rightarrow> host_fs \<Rightarrow> bool" where
  "partial_usable env gp content host fs \<longleftrightarrow>
     is_dir fs (posix_dirname host) \<and> \<not> obstructed fs host \<and>
     (\<forall>q \<in> {partial_path env host, meta_path env host}.
        case node fs q of None \<Rightarrow> True | Some (HFile _ _) \<Rightarrow> True | _ \<Rightarrow> False) \<and>
     (case (node fs (partial_path env host), node fs (meta_path env host)) of
        (Some (HFile b _), Some (HFile m _)) \<Rightarrow>
          (\<forall>n. length b \<le> MAX_WIN98_TRANSFER_BYTES \<and>
               metadata_size (x_parse env m) gp (length b) = Some n \<longrightarrow>
             n = length content \<and> b = take (length b) content \<and> length b \<le> length content)
      | _ \<Rightarrow> True)"

lemma siblings:
  assumes "clean (init @ [n])"
  defines "host \<equiv> path_of (init @ [n])"
  shows "posix_dirname (partial_path env host) = path_of init"
    "posix_dirname (meta_path env host) = path_of init" "posix_dirname host = path_of init"
    "ancestors (partial_path env host) = ancestors host"
    "ancestors (meta_path env host) = ancestors host"
    "path_of init \<notin> {host, partial_path env host, meta_path env host}"
proof -
  let ?t = "''.'' @ n @ ''.win98mcp.partial''"
  let ?m = "''.'' @ n @ ''.win98mcp.partial.json''"
  have c: "clean (init @ [?t])" "clean (init @ [?m])" using assms(1) by simp_all
  have t: "partial_path env host = path_of (init @ [?t])"
    unfolding host_def by (rule partial_path_of [OF assms(1)])
  have m: "meta_path env host = path_of (init @ [?m])"
    unfolding meta_path_def t by (simp add: path_of_snoc)
  show "posix_dirname (partial_path env host) = path_of init" unfolding t by (rule dirname_path_of [OF c(1)])
  show "posix_dirname (meta_path env host) = path_of init" unfolding m by (rule dirname_path_of [OF c(2)])
  show "posix_dirname host = path_of init" unfolding host_def by (rule dirname_path_of [OF assms(1)])
  show "ancestors (partial_path env host) = ancestors host" "ancestors (meta_path env host) = ancestors host"
    unfolding t m unfolding host_def path_segments_chain [OF c(1)] path_segments_chain [OF c(2)]
      path_segments_chain [OF assms(1)] by (rule refl)+
  have ne: "path_of init \<noteq> path_of (init @ [x])" if "clean (init @ [x])" for x
  proof
    assume "path_of init = path_of (init @ [x])"
    moreover have "clean init" using that by simp
    ultimately have "init = init @ [x]" using that by (simp only: path_of_inject)
    then show False by simp
  qed
  have "path_of init \<noteq> host" unfolding host_def by (rule ne [OF assms(1)])
  moreover have "path_of init \<noteq> partial_path env host" unfolding t by (rule ne [OF c(1)])
  moreover have "path_of init \<noteq> meta_path env host" unfolding m by (rule ne [OF c(2)])
  ultimately show "path_of init \<notin> {host, partial_path env host, meta_path env host}" by simp
qed

text \<open>Opening then gives a partial that is a prefix of the file, and room for the metadata.\<close>

lemma openPullPartial_usable:
  assumes u: "partial_usable env gp content host (tc_fs s)" and host: "host = path_of (init @ [n])"
    and c: "clean (init @ [n])"
  shows "\<exists>pp s' t. openPullPartial env (partial_path env host) (meta_path env host) gp s = (Inr pp, s') \<and>
      node (tc_fs s') (partial_path env host) = Some (HFile (take (pp_offset pp) content) t) \<and>
      pp_offset pp \<le> length content \<and> pp_expectedSize pp \<in> {None, Some (length content)} \<and>
      (pp_expectedSize pp = None \<longrightarrow> node (tc_fs s') (meta_path env host) = None \<and>
         is_dir (tc_fs s') (posix_dirname (meta_path env host)))"
proof -
  let ?tmp = "partial_path env host" and ?meta = "meta_path env host"
  note sib = siblings(1,2) [OF c, of env, folded host] siblings(3) [OF c, folded host]
    siblings(4-6) [OF c, of env, folded host]
  note d = partial_distinct(1-5) [OF c, of env, folded host]
  have ob: "\<not> obstructed (tc_fs s) ?tmp" "\<not> obstructed (tc_fs s) ?meta"
    using u sib(4,5) by (simp_all add: partial_usable_def obstructed_def)
  have ol: "optionalLstat (tc_fs s) q = Inr (node (tc_fs s) q)" if "\<not> obstructed (tc_fs s) q" for q
    using that by (simp add: optionalLstat_def lstat_def isMissing_def split: option.splits)
  define resumed where "resumed =
      (case (node (tc_fs s) ?tmp, node (tc_fs s) ?meta) of
         (Some (HFile partial _), Some (HFile metadata _)) \<Rightarrow>
           if length partial \<le> MAX_WIN98_TRANSFER_BYTES
           then map_option (\<lambda>n. (length partial, n))
                  (metadata_size (x_parse env metadata) gp (length partial))
           else None
       | _ \<Rightarrow> None)"
  have nl: "node (tc_fs s) ?tmp \<noteq> Some HLink" "node (tc_fs s) ?meta \<noteq> Some HLink"
    "\<not> is_dir (tc_fs s) ?tmp" "\<not> is_dir (tc_fs s) ?meta"
    using u by (auto simp: partial_usable_def is_dir_def split: option.splits hnode.splits)
  have run: "openPullPartial env ?tmp ?meta gp s =
      (case resumed of
         Some (offset, expected) \<Rightarrow> returnS \<lparr> pp_offset = offset, pp_expectedSize = Some expected \<rparr>
       | None \<Rightarrow>
           bindS (modifyS (rm_settled ?tmp \<circ> rm_settled ?meta)) (\<lambda>_.
           bindS (updfs (create_new ?tmp (HFile [] 0))) (\<lambda>_.
           returnS \<lparr> pp_offset = 0, pp_expectedSize = None \<rparr>))) s"
    unfolding openPullPartial_def resumed_def getfs_def
    using ol [OF ob(1)] ol [OF ob(2)] nl(1,2) by (simp add: bindS_def getS_def liftS_def Let_def)
  show ?thesis
  proof (cases resumed)
    case None
    define s1 where "s1 = rm_settled ?tmp (rm_settled ?meta s)"
    have f1: "tc_fs s1 = fs_del ?tmp (fs_del ?meta (tc_fs s))"
      using nl d by (simp add: s1_def rm_settled_def rm_force_def is_dir_def)
    have dir: "is_dir (tc_fs s1) (path_of init)"
      using u sib(3,6) d by (simp add: f1 partial_usable_def is_dir_def)
    have cr: "create_new ?tmp (HFile [] 0) (tc_fs s1) = Inr (fs_put ?tmp (HFile [] 0) (tc_fs s1))"
      using dir d sib(1) by (simp add: create_new_def f1)
    have "openPullPartial env ?tmp ?meta gp s =
        (Inr \<lparr> pp_offset = 0, pp_expectedSize = None \<rparr>, s1\<lparr> tc_fs := fs_put ?tmp (HFile [] 0) (tc_fs s1) \<rparr>)"
      unfolding run None by (simp add: bindS_def modifyS_def updfs_def returnS_def cr s1_def [symmetric])
    moreover have "is_dir (fs_put ?tmp (HFile [] 0) (tc_fs s1)) (posix_dirname ?meta)"
      using dir sib(2,6) d by (simp add: is_dir_def)
    ultimately show ?thesis using d by (simp add: f1)
  next
    case (Some oe)
    then obtain b t m t2 k where bm: "node (tc_fs s) ?tmp = Some (HFile b t)"
      "node (tc_fs s) ?meta = Some (HFile m t2)" "length b \<le> MAX_WIN98_TRANSFER_BYTES"
      "metadata_size (x_parse env m) gp (length b) = Some k" "oe = (length b, k)"
      by (auto simp: resumed_def split: option.splits hnode.splits if_splits)
    then have "k = length content" "b = take (length b) content" "length b \<le> length content"
      using u by (auto simp: partial_usable_def)
    then show ?thesis using run Some bm by (simp add: returnS_def)
  qed
qed

subsection \<open>The interface of chunked reads\<close>

abbreviation read_params :: "string \<Rightarrow> nat \<Rightarrow> params" where
  "read_params gp k \<equiv> [(''path'', JStr gp), (''offset'', js_of_nat k),
     (''length'', js_of_nat TRANSFER_CHUNK_BYTES)]"

abbreviation chunk_at :: "bytes \<Rightarrow> nat \<Rightarrow> bytes" where
  "chunk_at content k \<equiv> take TRANSFER_CHUNK_BYTES (drop k content)"

definition callback_total :: "pull_callback \<Rightarrow> bool" where
  "callback_total upd \<longleftrightarrow> (\<forall>sm b ch t. \<exists>sm'. upd sm b ch t = Inr sm')"

locale guest_reader =
  fixes env :: "'g xenv" and sid :: string and gp :: string and content :: bytes
    and holds :: "'g \<Rightarrow> bool"
  assumes file_fits: "holds g \<Longrightarrow>
      length content \<le> MAX_WIN98_TRANSFER_BYTES \<and> is_sha256_hex (x_sha env content)"
    and read_chunk: "holds (tc_guest s) \<Longrightarrow> k \<le> length content \<Longrightarrow>
      \<exists>r. guestOk env sid ''file_read_chunk'' (read_params gp k) s = (Inr r, s) \<and>
        read_chunk_fields r = Inr \<lparr> cf_offset = k, cf_nextOffset = k + length (chunk_at content k),
          cf_size = length content, cf_eof = (k + length (chunk_at content k) = length content) \<rparr> \<and>
        base64Field r ''dataBase64'' = Inr (chunk_at content k) \<and>
        (k + length (chunk_at content k) = length content \<longrightarrow>
           jsget r ''sha256'' = JStr (x_sha env content))"
begin

lemma pull_step_reads:
  assumes g: "holds (tc_guest s)" and h: "partial_holds tmp ps s"
    and k: "ps_offset ps \<le> length content" "ps_hash ps = take (ps_offset ps) content"
    and e: "ps_expectedSize ps \<in> {None, Some (length content)}"
    and m: "ps_resumed ps \<or> node (tc_fs s) meta = None \<and> is_dir (tc_fs s) (posix_dirname meta)"
    and p: "tmp \<noteq> ''/''" "meta \<noteq> tmp" "meta \<noteq> ''/''"
    and c: "\<not> cancelled opid s" and u: "callback_total upd"
  shows "\<exists>ps' d s'. pull_step env sid opid gp tmp meta upd ps s = (Inr (ps', d), s') \<and>
      tc_guest s' = tc_guest s \<and> tc_active s' = tc_active s \<and>
      ps_resumed ps' \<and> ps_expectedSize ps' = Some (length content) \<and>
      ps_offset ps' \<le> length content \<and> ps_hash ps' = take (ps_offset ps') content \<and>
      (case d of None \<Rightarrow> True | Some h \<Rightarrow> h = x_sha env content \<and> ps_offset ps' = length content) \<and>
      (d = None \<longrightarrow> ps_offset ps < ps_offset ps')"
proof -
  let ?k = "ps_offset ps" and ?len = "length content"
  let ?data = "chunk_at content ?k"
  let ?cf = "\<lparr> cf_offset = ?k, cf_nextOffset = ?k + length ?data, cf_size = ?len,
      cf_eof = (?k + length ?data = ?len) \<rparr>"
  obtain r where r: "guestOk env sid ''file_read_chunk'' (read_params gp ?k) s = (Inr r, s)"
    "read_chunk_fields r = Inr ?cf" "base64Field r ''dataBase64'' = Inr ?data"
    "?k + length ?data = ?len \<longrightarrow> jsget r ''sha256'' = JStr (x_sha env content)"
    using read_chunk [OF g k(1)] by blast
  have a: "assertActive opid s = (Inr (), s)" using c by (simp add: assertActive_def)
  have ex: "expected_size ps ?cf = Inr ?len"
    using e k(1) file_fits [OF g] by (auto simp: expected_size_def Let_def)
  obtain s1 where w: "(if ps_resumed ps then returnS () else writePullMetadata env meta gp ?len) s
        = (Inr (), s1)" and s1: "tc_guest s1 = tc_guest s" "tc_active s1 = tc_active s"
      "node (tc_fs s1) tmp = node (tc_fs s) tmp"
    using m p by (cases "ps_resumed ps")
      (auto simp: writePullMetadata_def updfs_def create_new_def)
  obtain sm1 where sm1: "upd (ps_summary ps) ?k (ps_chunks ps) ?len = Inr sm1" using u unfolding callback_total_def by blast
  define ps1 where "ps1 = ps\<lparr> ps_expectedSize := Some ?len, ps_resumed := True, ps_summary := sm1 \<rparr>"
  define s2 where "s2 = s1\<lparr> tc_events := tc_events s1 @ [Progress sid sm1] \<rparr>"
  have rep: "pull_report sid upd ?len (ps\<lparr> ps_expectedSize := Some ?len, ps_resumed := True \<rparr>) s1 =
      (Inr ps1, s2)"
    by (simp add: pull_report_def bindS_def liftS_def sm1 report_def modifyS_def returnS_def ps1_def s2_def)
  have dl: "length ?data \<le> TRANSFER_CHUNK_BYTES" by simp
  have de: "?data = [] \<longleftrightarrow> ?k = ?len" using k(1) by (auto simp: TRANSFER_CHUNK_BYTES_def)
  have rd: "read_chunk_data ps1 ?cf r = Inr ?data"
    using r(3) de by (auto simp: read_chunk_data_def ps1_def)
  define ps2 where "ps2 = (if ?data = [] then ps1 else ps1\<lparr> ps_hash := ps_hash ps1 @ ?data,
      ps_offset := ?k + length ?data, ps_chunks := ps_chunks ps1 + 1 \<rparr>)"
  obtain ps3 s3 where st: "store_chunk sid tmp upd ?len (?k + length ?data) ?data ps1 s2 = (Inr ps3, s3)"
    and s3: "tc_guest s3 = tc_guest s" "tc_active s3 = tc_active s"
    and ps3: "ps_offset ps3 = ?k + length ?data" "ps_hash ps3 = ps_hash ps @ ?data"
      "ps_resumed ps3" "ps_expectedSize ps3 = Some ?len"
  proof (cases "?data = []")
    case True
    show thesis
      by (rule that [of ps1 s2]) (use True s1 in \<open>auto simp: store_chunk_def ps1_def s2_def\<close>)
  next
    case False
    obtain t where t: "node (tc_fs s2) tmp = Some (HFile (ps_hash ps) t)"
      using h s1(3) by (auto simp: partial_holds_def s2_def)
    obtain sm3 where sm3: "upd sm1 (?k + length ?data) (ps_chunks ps + 1) ?len = Inr sm3" using u unfolding callback_total_def by blast
    show thesis
      by (rule that [of "ps1\<lparr> ps_hash := ps_hash ps1 @ ?data, ps_offset := ?k + length ?data,
            ps_chunks := ps_chunks ps1 + 1, ps_summary := sm3 \<rparr>"
          "(s2\<lparr> tc_fs := fs_put tmp (HFile (write_at (ps_hash ps) ?k ?data) t) (tc_fs s2) \<rparr>)
             \<lparr> tc_events := tc_events s2 @ [Progress sid sm3] \<rparr>"])
        (use False t sm3 s1 in \<open>simp_all add: store_chunk_def bindS_def updfs_def write_partial_def
            ps1_def pull_report_def liftS_def report_def modifyS_def returnS_def s2_def\<close>)
  qed
  define d where "d = (if ?k + length ?data = ?len then Some (x_sha env content) else None)"
  have eof: "end_of_file ps3 ?cf ?len r = Inr d"
    using r(4) ps3(1) file_fits [OF g] by (auto simp: end_of_file_def d_def)
  have "pull_step env sid opid gp tmp meta upd ps s = (Inr (ps3, d), s3)"
    unfolding pull_step_def
    using a r(1,2) ex w rep rd st eof
    by (simp add: bindS_def liftS_def returnS_def)
  moreover have "ps_hash ps3 = take (ps_offset ps3) content"
    unfolding ps3 k(2) take_add by (simp add: min_def)
  moreover have "ps_offset ps3 \<le> ?len" using ps3 k(1) by simp
  moreover have "d = None \<longrightarrow> ?k < ps_offset ps3" using ps3 de by (auto simp: d_def)
  ultimately show ?thesis using s3 ps3 by (auto simp: d_def split: if_splits)
qed

lemma pull_loop_delivers:
  assumes "holds (tc_guest s)" "partial_holds tmp ps s"
    and "ps_offset ps \<le> length content" "ps_hash ps = take (ps_offset ps) content"
    and "ps_expectedSize ps \<in> {None, Some (length content)}"
    and "ps_resumed ps \<or> node (tc_fs s) meta = None \<and> is_dir (tc_fs s) (posix_dirname meta)"
    and p: "tmp \<noteq> ''/''" "meta \<noteq> tmp" "meta \<noteq> ''/''" and quiet: "quiet_at env sid tmp"
    and "\<not> cancelled opid s" and u: "callback_total upd"
  shows "\<exists>ps' s'. pull_loop env sid opid gp tmp meta upd ps s = (Inr (ps', x_sha env content), s') \<and>
      ps_hash ps' = content \<and> ps_offset ps' = length content \<and>
      tc_guest s' = tc_guest s \<and> tc_active s' = tc_active s"
  using assms(1-6,11)
proof (induction "length content - ps_offset ps" arbitrary: ps s rule: less_induct)
  case less
  from pull_step_reads [OF less.prems(1-6) p less.prems(7) u] obtain ps' d s' where
    st: "pull_step env sid opid gp tmp meta upd ps s = (Inr (ps', d), s')"
    and s': "tc_guest s' = tc_guest s" "tc_active s' = tc_active s"
    and ps': "ps_resumed ps'" "ps_expectedSize ps' = Some (length content)"
      "ps_offset ps' \<le> length content" "ps_hash ps' = take (ps_offset ps') content"
    and d: "case d of None \<Rightarrow> True | Some h \<Rightarrow> h = x_sha env content \<and> ps_offset ps' = length content"
      "d = None \<longrightarrow> ps_offset ps < ps_offset ps'"
    by (elim exE conjE) (rule that)
  show ?case
  proof (cases d)
    case None
    have h: "partial_holds tmp ps' s'" by (rule pull_step_holds [OF st less.prems(2) quiet p])
    have "\<exists>ps2 s2. pull_loop env sid opid gp tmp meta upd ps' s' = (Inr (ps2, x_sha env content), s2) \<and>
      ps_hash ps2 = content \<and> ps_offset ps2 = length content \<and>
      tc_guest s2 = tc_guest s' \<and> tc_active s2 = tc_active s'"
    proof (rule less.hyps)
      show "length content - ps_offset ps' < length content - ps_offset ps"
        using d(2) None ps'(3) less.prems(3) by simp
      show "\<not> cancelled opid s'" using less.prems(7) s' by (simp add: cancelled_def)
    qed (use s' ps' h less.prems(1) in simp_all)
    then show ?thesis using s' st None by (subst pull_loop.simps) simp
  next
    case (Some h)
    then show ?thesis using s' st d(1) ps' by (subst pull_loop.simps) simp
  qed
qed

lemma pullOneFile_delivers:
  assumes g: "holds (tc_guest s)" and quiet: "fs_quiet env sid {}"
    and prep: "prepareHostDestination host ov s = (Inr w, s1)"
    and usable: "partial_usable env gp content host (tc_fs s1)"
    and host: "host = path_of segs" "clean segs" and free: "host \<notin> set (tc_destinations s)"
    and active: "\<not> cancelled opid s" and total: "callback_total upd"
  shows "\<exists>res sm' s'. pullOneFile env sid opid gp host ov upd sm s = (Inr (res, sm'), s') \<and>
      tr_bytes res = length content \<and> tr_sha256 res = x_sha env content \<and>
      file_bytes (tc_fs s') host = Some content \<and> tc_guest s' = tc_guest s"
proof -
  have "segs \<noteq> []"
  proof
    assume "segs = []"
    with host(1) have "host = ''/''" by (simp add: path_of_def)
    then show False using prepare_root [OF prep [unfolded \<open>host = ''/''\<close>]] by simp
  qed
  then obtain init n where segs: "segs = init @ [n]" by (metis rev_exhaust)
  have c: "clean (init @ [n])" and h: "host = path_of (init @ [n])" using host segs by simp_all
  define tmp where "tmp = partial_path env host"
  define meta where "meta = meta_path env host"
  note d = partial_distinct(1-5) [OF c, of env, folded h, folded tmp_def meta_def]
    partial_distinct(6) [OF c, folded h]
  have 1: "tc_guest s1 = tc_guest s" "tc_active s1 = tc_active s" "tc_destinations s1 = tc_destinations s"
    using keepsD [OF keeps_host_prepare prep] by (simp_all add: host_only_def)
  let ?s1 = "s1\<lparr> tc_destinations := host # tc_destinations s1 \<rparr>"
  have "partial_usable env gp content host (tc_fs ?s1)" using usable by simp
  from openPullPartial_usable [OF this h c, folded tmp_def meta_def] obtain pp s2 t where
    o: "openPullPartial env tmp meta gp ?s1 = (Inr pp, s2)"
    and n2: "node (tc_fs s2) tmp = Some (HFile (take (pp_offset pp) content) t)"
    and pp: "pp_offset pp \<le> length content" "pp_expectedSize pp \<in> {None, Some (length content)}"
    and room: "pp_expectedSize pp = None \<longrightarrow> node (tc_fs s2) meta = None \<and> is_dir (tc_fs s2) (posix_dirname meta)"
    by (elim exE conjE) (rule that)
  have 2: "tc_guest s2 = tc_guest s" "tc_active s2 = tc_active s"
    using keepsD [OF keeps_host_openPullPartial o] 1 by (simp_all add: host_only_def)
  define s3 where "s3 = note_host_partial sid opid tmp meta s2"
  have 3: "tc_guest s3 = tc_guest s" "tc_fs s3 = tc_fs s2"
    using 2 by (simp_all add: s3_def note_host_partial_def retainHostPartial_def update_transfer_def)
  have act3: "\<not> cancelled opid s3"
    using active 2(2)
    by (simp add: s3_def note_host_partial_def retainHostPartial_def update_transfer_def cancelled_def
        list_ex_map_same)
  define hash where "hash = take (pp_offset pp) content"
  have lh: "length hash = pp_offset pp" using pp(1) by (simp add: hash_def)
  have hs: "updateOpenFileHash [] (handle_bytes (tc_fs s3) tmp) (pp_offset pp) = Inr hash"
    unfolding updateOpenFileHash_def handle_bytes_def 3(2) n2 using lh
    by (simp add: hash_loop_reads hash_def [symmetric])
  let ?ps = "\<lparr> ps_offset = pp_offset pp, ps_chunks = 0, ps_expectedSize = pp_expectedSize pp,
      ps_resumed = (pp_expectedSize pp \<noteq> None), ps_hash = hash, ps_summary = sm \<rparr>"
  have "\<exists>ps' s'. pull_loop env sid opid gp tmp meta upd ?ps s3 = (Inr (ps', x_sha env content), s') \<and>
      ps_hash ps' = content \<and> ps_offset ps' = length content \<and>
      tc_guest s' = tc_guest s3 \<and> tc_active s' = tc_active s3"
  proof (rule pull_loop_delivers)
    show "partial_holds tmp ?ps s3" using n2 lh by (simp add: partial_holds_def 3 hash_def)
    show "quiet_at env sid tmp" unfolding quiet_at_def using quiet by (rule fs_quiet_mono) simp
  qed (use g 3 pp room d act3 total in \<open>auto simp: hash_def\<close>)
  then obtain ps s4 where loop: "pull_loop env sid opid gp tmp meta upd ?ps s3 = (Inr (ps, x_sha env content), s4)"
    and ps: "ps_hash ps = content" "ps_offset ps = length content"
    and 4: "tc_guest s4 = tc_guest s" "tc_active s4 = tc_active s3" using 3 by auto
  have n4: "\<exists>t. node (tc_fs s4) tmp = Some (HFile content t)"
  proof -
    have ph: "partial_holds tmp ?ps s3" using n2 lh by (simp add: partial_holds_def 3 hash_def)
    have q: "quiet_at env sid tmp" unfolding quiet_at_def using quiet by (rule fs_quiet_mono) simp
    show ?thesis
      using pull_loop_holds [OF loop ph q d(4) d(3) d(5)] ps by (simp add: partial_holds_def)
  qed
  have m4: "\<exists>c t. node (tc_fs s4) meta = Some (HFile c t)"
  proof (rule pull_loop_meta [OF loop _ fs_quiet_mono [OF quiet] d(4) d(3) d(5)])
    show "meta_written meta ?ps s3"
      using openPullPartial_meta [OF o] by (auto simp: meta_written_def 3)
  qed simp
  have dir4: "\<not> is_dir (tc_fs s4) host"
  proof -
    have "node (tc_fs s2) host = node (tc_fs s1) host"
      using keepsD [OF keeps_openPullPartial o, of "{tmp, meta}"] d by (simp add: same_outside_def)
    moreover have "node (tc_fs s4) host = node (tc_fs s3) host"
      using keepsD [OF keeps_pull_loop [OF fs_quiet_mono [OF quiet], of "{tmp, meta}"] loop] d
      by (simp add: same_outside_def)
    ultimately show ?thesis using prepare_not_dir [OF prep] by (simp add: is_dir_def 3)
  qed
  obtain t where t: "node (tc_fs s4) tmp = Some (HFile content t)" using n4 by blast
  define s5 where "s5 = s4\<lparr> tc_fs := fs_put host (HFile content t) (fs_del tmp (tc_fs s4)) \<rparr>"
  have ren: "updfs (rename_file tmp host) s4 = (Inr (), s5)"
    using t dir4 by (simp add: updfs_def rename_file_def s5_def)
  define s6 where "s6 = s5\<lparr> tc_fs := fs_del meta (tc_fs s5) \<rparr>"
  have rm: "updfs (rm_force meta) s5 = (Inr (), s6)"
    using m4 d by (auto simp: updfs_def rm_force_def is_dir_def s5_def s6_def)
  have nc: "assertActive opid s4 = (Inr (), s4)"
    using act3 4 by (simp add: assertActive_def cancelled_def)
  let ?res = "\<lparr> tr_bytes = ps_offset ps, tr_chunks = ps_chunks ps, tr_sha256 = x_sha env content \<rparr>"
  let ?s7 = "clear_host_paths opid (releaseHostPartial sid tmp meta s6)"
  have body: "pull_body env sid opid gp host upd pp sm s3 = (Inr (?res, ps_summary ps), ?s7)"
    unfolding pull_body_def tmp_def [symmetric] meta_def [symmetric] Let_def getfs_def
    using hs loop nc ren rm ps
    by (simp add: bindS_def [of "getS tc_fs"] bindS_def [of "liftS x" for x] getS_def liftS_def
        modifyS_def bindS_def [of "modifyS x" for x] returnS_def)
  have "pullOneFile env sid opid gp host ov upd sm s =
      (Inr (?res, ps_summary ps), unlock_destination host (clear_host_paths opid ?s7))"
    unfolding pullOneFile_def pull_reserved_def tmp_def [symmetric] meta_def [symmetric]
    using prep free 1 o body
    by (simp add: bindS_def [of "getS x" for x] getS_def modifyS_def bindS_def [of "modifyS x" for x]
        s3_def [symmetric] finallyS_def catchS_def)
  moreover have "file_bytes (tc_fs s6) host = Some content"
    using d by (simp add: s6_def s5_def file_bytes_def)
  moreover have "tc_guest (unlock_destination host (clear_host_paths opid ?s7)) = tc_guest s"
    using 4 by (simp add: unlock_destination_def clear_host_paths_def update_transfer_def
        releaseHostPartial_def s6_def s5_def)
  ultimately show ?thesis using ps by simp
qed

end

subsection \<open>The simulated guest keeps the promise\<close>

definition sim_xenv ::
  "'z desk_env_scheme \<Rightarrow> int \<Rightarrow> (bytes \<Rightarrow> js option) \<Rightarrow> (js \<Rightarrow> bytes) \<Rightarrow> string \<Rightarrow> sim_guest xenv" where
  "sim_xenv denv timeout parse stringify cwd =
     \<lparr> x_req = sim_requester denv, x_timeout = timeout, x_sha = se_sha denv, x_parse = parse,
       x_stringify = stringify, x_cwd = cwd \<rparr>"

abbreviation guest_fs :: "sim_guest \<Rightarrow> host_fs" where
  "guest_fs g \<equiv> sf_fs (sg_files g)"

lemma sim_quiet: "fs_quiet (sim_xenv denv timeout parse stringify cwd) sid X"
  by (auto simp: fs_quiet_def sim_xenv_def keeps_def sim_requester_def same_outside_def
      split: prod.splits)

lemma sim_guestOk:
  assumes "dispatch denv meth params (tc_guest s) = (Inr data, g)"
  shows "guestOk (sim_xenv denv timeout parse stringify cwd) sid meth params s =
    (Inr data, s\<lparr> tc_guest := g \<rparr>)"
  using assms
  by (simp add: guestOk_def bindS_def sim_xenv_def sim_requester_def handleRequest_def returnS_def)

lemma numberField_of_nat [simp]:
  "jsget r k = js_of_nat n \<Longrightarrow> int n \<le> max_safe_integer \<Longrightarrow> numberField r k = Inr n"
  by (simp add: numberField_def)

lemma booleanField_of_bool [simp]: "jsget r k = JBool b \<Longrightarrow> booleanField r k = Inr b"
  by (simp add: booleanField_def)

lemma requiredInteger_of_nat [simp]:
  "jsget r k = js_of_nat n \<Longrightarrow> int n \<le> max_safe_integer \<Longrightarrow> lo \<le> n \<Longrightarrow> n \<le> hi \<Longrightarrow>
     requiredInteger r k lo hi = Inr n"
  by (simp add: requiredInteger_def)

lemma requiredString_of_string [simp]:
  "jsget r k = JStr t \<Longrightarrow> t \<noteq> [] \<Longrightarrow> requiredString r k = Inr t"
  by (simp add: requiredString_def)

lemma small_safe: "n \<le> MAX_WIN98_FILE_BYTES \<Longrightarrow> int n \<le> max_safe_integer"
  by (simp add: MAX_WIN98_FILE_BYTES_def max_safe_integer_def)

lemma transfer_fits_file: "n \<le> MAX_WIN98_TRANSFER_BYTES \<Longrightarrow> n \<le> MAX_WIN98_FILE_BYTES"
  by (simp add: MAX_WIN98_FILE_BYTES_def MAX_WIN98_TRANSFER_BYTES_def)

lemma hashFile_exact: "n \<le> length content \<Longrightarrow> hashFile sha content n = Inr (sha (take n content))"
  by (simp add: hashFile_def hash_loop_reads)

definition sim_holds :: "'z desk_env_scheme \<Rightarrow> string \<Rightarrow> bytes \<Rightarrow> sim_guest \<Rightarrow> bool" where
  "sim_holds denv gp content g \<longleftrightarrow>
     gp \<noteq> [] \<and> length content \<le> MAX_WIN98_TRANSFER_BYTES \<and> is_sha256_hex (se_sha denv content) \<and>
     (\<exists>p t. sim_resolve (sim_env.truncate denv) gp = Inr p \<and>
        node (guest_fs g) p = Some (HFile content t))"

definition read_reply :: "(bytes \<Rightarrow> string) \<Rightarrow> bytes \<Rightarrow> nat \<Rightarrow> params" where
  "read_reply sha content k =
     (let data = chunk_at content k; eof = (k + length data = length content) in
      [(''dataBase64'', JStr (base64_encode data)), (''offset'', js_of_nat k),
       (''nextOffset'', js_of_nat (k + length data)), (''eof'', JBool eof),
       (''size'', js_of_nat (length content)), (''crc32'', js_of_nat (crc32 data))] @
      (if eof then [(''sha256'', JStr (sha content))] else []))"

lemma fileReadChunk_exact:
  assumes gp: "gp \<noteq> []" and size: "length content \<le> MAX_WIN98_FILE_BYTES"
    and hex: "is_sha256_hex (se_sha env content)"
    and p: "sim_resolve env gp = Inr p" "node (sf_fs f) p = Some (HFile content t)"
    and k: "k \<le> length content"
  shows "fileReadChunk env (read_params gp k) f = (Inr (read_reply (se_sha env) content k), f)"
proof -
  let ?params = "read_params gp k"
  have "requiredString ?params ''path'' = Inr gp" using gp by simp
  moreover have "requiredInteger ?params ''offset'' 0 MAX_WIN98_FILE_BYTES = Inr k"
    using k size small_safe [of k] by simp
  moreover have "requiredInteger ?params ''length'' 1 TRANSFER_CHUNK_BYTES = Inr TRANSFER_CHUNK_BYTES"
    by (simp add: TRANSFER_CHUNK_BYTES_def max_safe_integer_def)
  moreover have "sim_stat p (sf_fs f) = Inr (HFile content t)"
    using p(2) by (simp add: sim_stat_def node_res_def lstat_def)
  moreover have "read_at content (min TRANSFER_CHUNK_BYTES (length content - k)) k = chunk_at content k"
    by (simp add: read_at_def min_def)
  moreover have "se_sha env content \<noteq> []" using hex by (auto simp: is_sha256_hex_def)
  moreover have "hashFile (se_sha env) content (length content) = Inr (se_sha env content)"
    by (simp add: hashFile_exact)
  ultimately show ?thesis
    using p(1) size k unfolding fileReadChunk_def read_reply_def
    by (simp add: bindS_def liftS_def getS_def returnS_def Let_def)
qed

lemma dispatch_read:
  "dispatch denv ''file_read_chunk'' params g = on_files (fileReadChunk (sim_env.truncate denv) params) g"
  by (simp add: dispatch_def starts_with_def)

lemma read_reply_fields:
  assumes "length content \<le> MAX_WIN98_FILE_BYTES" "k \<le> length content"
  shows "read_chunk_fields (read_reply sha content k) =
      Inr \<lparr> cf_offset = k, cf_nextOffset = k + length (chunk_at content k), cf_size = length content,
            cf_eof = (k + length (chunk_at content k) = length content) \<rparr>"
    and "base64Field (read_reply sha content k) ''dataBase64'' = Inr (chunk_at content k)"
    and "k + length (chunk_at content k) = length content \<Longrightarrow>
      jsget (read_reply sha content k) ''sha256'' = JStr (sha content)"
proof -
  have "k + length (chunk_at content k) \<le> MAX_WIN98_FILE_BYTES" using assms by simp
  then show "read_chunk_fields (read_reply sha content k) =
      Inr \<lparr> cf_offset = k, cf_nextOffset = k + length (chunk_at content k), cf_size = length content,
            cf_eof = (k + length (chunk_at content k) = length content) \<rparr>"
    using assms small_safe [of k] small_safe [of "length content"]
      small_safe [of "k + length (chunk_at content k)"]
    by (simp add: read_chunk_fields_def read_reply_def Let_def numberField_def booleanField_def)
  show "base64Field (read_reply sha content k) ''dataBase64'' = Inr (chunk_at content k)"
    using base64Field_encode [of "read_reply sha content k" "''dataBase64''" "chunk_at content k"]
    by (simp add: read_reply_def Let_def)
  show "k + length (chunk_at content k) = length content \<Longrightarrow>
      jsget (read_reply sha content k) ''sha256'' = JStr (sha content)"
    by (simp add: read_reply_def Let_def)
qed

interpretation sim_reader: guest_reader "sim_xenv denv timeout parse stringify cwd" sid gp content
  "sim_holds denv gp content"
  for denv :: "'z desk_env_scheme" and timeout parse stringify cwd sid gp content
proof (unfold_locales, goal_cases)
  case (1 g)
  then show ?case by (simp add: sim_holds_def sim_xenv_def)
next
  case (2 s k)
  obtain p t where p: "sim_resolve (sim_env.truncate denv) gp = Inr p"
    "node (guest_fs (tc_guest s)) p = Some (HFile content t)"
    using 2(1) by (auto simp: sim_holds_def)
  have gp: "gp \<noteq> []" and size: "length content \<le> MAX_WIN98_FILE_BYTES"
    and hex: "is_sha256_hex (se_sha (sim_env.truncate denv) content)"
    using 2(1) by (simp_all add: sim_holds_def transfer_fits_file sim_env.truncate_def)
  have "fileReadChunk (sim_env.truncate denv) (read_params gp k) (sg_files (tc_guest s)) =
      (Inr (read_reply (se_sha denv) content k), sg_files (tc_guest s))"
    using fileReadChunk_exact [OF gp size hex p 2(2)] by (simp add: sim_env.truncate_def)
  then have "dispatch denv ''file_read_chunk'' (read_params gp k) (tc_guest s) =
      (Inr (read_reply (se_sha denv) content k), tc_guest s)"
    unfolding dispatch_read on_files_def by simp
  from sim_guestOk [OF this, of timeout parse stringify cwd sid]
  have "guestOk (sim_xenv denv timeout parse stringify cwd) sid ''file_read_chunk'' (read_params gp k) s =
      (Inr (read_reply (se_sha denv) content k), s)" by simp
  then show ?case
    using read_reply_fields [OF size 2(2), of "se_sha denv"]
    by (intro exI [of _ "read_reply (se_sha denv) content k"]) (simp add: sim_xenv_def)
qed

text \<open>
  C6. Pulling a file of at most 300 MiB from the simulated guest ends, without an error,
  with exactly the guest's bytes at the destination, whatever the sizes and however far an earlier
  attempt had got: only a partial that could be resumed must be a prefix of the file.
\<close>

theorem sim_pull_delivers:
  assumes g: "sim_holds denv gp content (tc_guest s)"
    and prep: "prepareHostDestination host ov s = (Inr w, s1)"
    and usable: "partial_usable (sim_xenv denv timeout parse stringify cwd) gp content host (tc_fs s1)"
    and host: "host = path_of segs" "clean segs" and free: "host \<notin> set (tc_destinations s)"
    and active: "\<not> cancelled opid s" and total: "callback_total upd"
  shows "\<exists>res sm' s'. pullOneFile (sim_xenv denv timeout parse stringify cwd) sid opid gp host ov upd sm s =
        (Inr (res, sm'), s') \<and>
      tr_bytes res = length content \<and> tr_sha256 res = se_sha denv content \<and>
      file_bytes (tc_fs s') host = Some content \<and> tc_guest s' = tc_guest s"
  using sim_reader.pullOneFile_delivers [OF g sim_quiet prep usable host free active total]
  by (simp add: sim_xenv_def)

definition demo_denv :: desk_env where
  "demo_denv = \<lparr> se_rootDirectory = ''/g'', se_cwd = ''/'', se_sha = demo_sha, se_collate = length,
     se_numtext = (\<lambda>_. ''0''), de_width = 640, de_height = 480, de_png = (\<lambda>_ _ b. b),
     de_utf8_decode = map (\<lambda>b. char_of (unat b)) \<rparr>"

definition demo_sim_env :: "sim_guest xenv" where
  "demo_sim_env = sim_xenv demo_denv 1000 (\<lambda>_. None) (\<lambda>_. []) ''/''"

definition demo_sim_host :: "sim_guest coordinator" where
  "demo_sim_host = \<lparr> tc_guest = new_sim_guest [(''/g/F'', HFile [1, 2, 3] 9), (''/g'', HDir)],
     tc_fs = [], tc_active = [], tc_destinations = [], tc_retained = [], tc_events = [] \<rparr>"

theorem sim_pull_delivers_witness:
  "file_bytes (tc_fs (snd (pullOneFile demo_sim_env ''s'' ''op'' ''C:/F'' (path_of [''a'']) False
     demo_callback (emptyProgress [] [] []) demo_sim_host))) (path_of [''a'']) = Some [1, 2, 3]"
proof -
  let ?host = "path_of [''a'']"
  let ?p = "prepareHostDestination ?host False demo_sim_host"
  have "sim_resolve (sim_env.truncate demo_denv) ''C:/F'' = Inr ''/g/F''" by code_simp
  moreover have "is_sha256_hex (se_sha demo_denv [1, 2, 3])" by code_simp
  ultimately have g: "sim_holds demo_denv ''C:/F'' [1, 2, 3] (tc_guest demo_sim_host)"
    by (simp add: sim_holds_def demo_sim_host_def new_sim_guest_def node_def MAX_WIN98_TRANSFER_BYTES_def)
  have "fst ?p = Inr ()" by code_simp
  then have p: "?p = (Inr (), snd ?p)" by (metis prod.collapse)
  have n: "node (tc_fs (snd ?p)) (partial_path demo_sim_env ?host) = None"
    "node (tc_fs (snd ?p)) (meta_path demo_sim_env ?host) = None" by code_simp+
  have d: "is_dir (tc_fs (snd ?p)) (posix_dirname ?host)" "\<not> obstructed (tc_fs (snd ?p)) ?host"
    by code_simp+
  have u: "partial_usable demo_sim_env ''C:/F'' [1, 2, 3] ?host (tc_fs (snd ?p))"
    using n d by (simp add: partial_usable_def)
  have c: "clean [''a'']" by (simp add: clean_def)
  have f: "?host \<notin> set (tc_destinations demo_sim_host)" "\<not> cancelled ''op'' demo_sim_host"
    by (simp_all add: demo_sim_host_def cancelled_def)
  have t: "callback_total demo_callback" by (simp add: callback_total_def demo_callback_def)
  show ?thesis
    using sim_pull_delivers [OF g p u [unfolded demo_sim_env_def] refl c f t, of "''s''" "emptyProgress [] [] []"]
    unfolding demo_sim_env_def [symmetric] by auto
qed

subsection \<open>The interface of resumable writes\<close>

locale guest_writer =
  fixes env :: "'g xenv" and sid :: string and gp :: string and data :: bytes and overwrite :: bool
    and willing :: "'g \<Rightarrow> bool" and ready :: "'g \<Rightarrow> bool" and opened :: "'g \<Rightarrow> string \<Rightarrow> nat \<Rightarrow> bool"
    and delivered :: "'g \<Rightarrow> bool"
  assumes make_parent: "willing (tc_guest s) \<Longrightarrow> win32_dirname gp \<noteq> gp \<Longrightarrow>
      \<exists>r g. guestOk env sid ''fs_mkdir'' [(''path'', JStr (win32_dirname gp)), (''recursive'', JBool True)] s =
        (Inr r, s\<lparr> tc_guest := g \<rparr>) \<and> ready g"
    and no_parent: "willing g \<Longrightarrow> win32_dirname gp = gp \<Longrightarrow> ready g"
    and begin_write: "ready (tc_guest s) \<Longrightarrow>
      \<exists>r g tid k. guestOk env sid ''file_write_begin''
          [(''path'', JStr gp), (''size'', js_of_nat (length data)), (''sha256'', JStr (x_sha env data)),
           (''overwrite'', JBool overwrite)] s = (Inr r, s\<lparr> tc_guest := g \<rparr>) \<and>
        stringField r ''transferId'' = Inr tid \<and> numberField r ''resumeOffset'' = Inr k \<and>
        k \<le> length data \<and> opened g tid k"
    and write_chunk: "opened (tc_guest s) tid k \<Longrightarrow> k < length data \<Longrightarrow>
      \<exists>r g. guestOk env sid ''file_write_chunk''
          [(''transferId'', JStr tid), (''offset'', js_of_nat k),
           (''dataBase64'', JStr (base64_encode (chunk_at data k))),
           (''crc32'', js_of_nat (crc32 (chunk_at data k)))] s = (Inr r, s\<lparr> tc_guest := g \<rparr>) \<and>
        numberField r ''nextOffset'' = Inr (k + length (chunk_at data k)) \<and>
        opened g tid (k + length (chunk_at data k))"
    and commit: "opened (tc_guest s) tid (length data) \<Longrightarrow>
      \<exists>r g. guestOk env sid ''file_write_commit''
          [(''transferId'', JStr tid), (''sha256'', JStr (x_sha env data))] s = (Inr r, s\<lparr> tc_guest := g \<rparr>) \<and>
        delivered g"
begin

lemma push_loop_delivers:
  assumes "opened (tc_guest s) tid k" "k \<le> length data" "\<not> cancelled opid s"
    and "node (tc_fs s) path = Some (HFile data t)"
  shows "\<exists>chunks' sm' s'. push_loop env sid opid path (length data) tid upd (k, chunks, sm) s =
        (Inr (length data, chunks', sm'), s') \<and>
      opened (tc_guest s') tid (length data) \<and> tc_fs s' = tc_fs s \<and> tc_active s' = tc_active s"
  using assms
proof (induction "length data - k" arbitrary: k chunks sm s rule: less_induct)
  case less
  show ?case
  proof (cases "k < length data")
    case False
    then show ?thesis using less.prems by (subst push_loop.simps) auto
  next
    case True
    let ?c = "chunk_at data k"
    have c: "read_at (handle_bytes (tc_fs s) path) (min TRANSFER_CHUNK_BYTES (length data - k)) k = ?c"
      using less.prems(4) by (simp add: handle_bytes_def read_at_def min_def)
    have ne: "?c \<noteq> []" using True by (simp add: TRANSFER_CHUNK_BYTES_def)
    obtain r g where w: "guestOk env sid ''file_write_chunk''
          [(''transferId'', JStr tid), (''offset'', js_of_nat k),
           (''dataBase64'', JStr (base64_encode ?c)), (''crc32'', js_of_nat (crc32 ?c))] s =
        (Inr r, s\<lparr> tc_guest := g \<rparr>)" "numberField r ''nextOffset'' = Inr (k + length ?c)"
      "opened g tid (k + length ?c)"
      using write_chunk [OF less.prems(1) True] by blast
    let ?sm = "upd sm (k + length ?c) (chunks + 1)"
    let ?s = "s\<lparr> tc_guest := g, tc_events := tc_events s @ [Progress sid ?sm] \<rparr>"
    have a: "assertActive opid s = (Inr (), s)" using less.prems(3) by (simp add: assertActive_def)
    have step: "push_step env sid opid path (length data) tid upd (k, chunks, sm) s =
        (Inr (k + length ?c, chunks + 1, ?sm), ?s)"
      using ne unfolding push_step_def prod.case getfs_def
      by (simp add: bindS_def a getS_def c w(1,2) Let_def liftS_def report_def modifyS_def returnS_def
          del: length_take)
    have "\<exists>chunks' sm' s'. push_loop env sid opid path (length data) tid upd (k + length ?c, chunks + 1, ?sm) ?s =
        (Inr (length data, chunks', sm'), s') \<and>
      opened (tc_guest s') tid (length data) \<and> tc_fs s' = tc_fs ?s \<and> tc_active s' = tc_active ?s"
    proof (rule less.hyps)
      show "length data - (k + length ?c) < length data - k"
        using True by (simp add: TRANSFER_CHUNK_BYTES_def)
    qed (use w less.prems in \<open>simp_all add: cancelled_def\<close>)
    then obtain chunks' sm' s' where
      "push_loop env sid opid path (length data) tid upd (k + length ?c, chunks + 1, ?sm) ?s =
        (Inr (length data, chunks', sm'), s')"
      "opened (tc_guest s') tid (length data)" "tc_fs s' = tc_fs ?s" "tc_active s' = tc_active ?s"
      by blast
    then show ?thesis using step True
      by (subst push_loop.simps) (simp del: length_take)
  qed
qed

end

lemma hashOpenFile_exact: "n \<le> length content \<Longrightarrow> hashOpenFile sha content n = Inr (sha (take n content))"
  by (simp add: hashOpenFile_def hash_loop_reads)

context guest_writer
begin

lemma pushOpened_delivers:
  assumes r: "ready (tc_guest s)" and f: "node (tc_fs s) path = Some (HFile data t)"
    and active: "\<not> cancelled opid s"
  shows "\<exists>chunks sm' s'. pushOpened env sid opid path gp overwrite (length data, t) upd sm s =
      (Inr (\<lparr> tr_bytes = length data, tr_chunks = chunks, tr_sha256 = x_sha env data \<rparr>, sm'), s') \<and>
    delivered (tc_guest s') \<and> tc_fs s' = tc_fs s"
proof -
  have hb: "handle_bytes (tc_fs s) path = data" and hs: "handle_stat (tc_fs s) path = Some (length data, t)"
    using f by (simp_all add: handle_bytes_def handle_stat_def)
  have a: "assertActive opid s = (Inr (), s)" using active by (simp add: assertActive_def)
  obtain rb g tid k where b: "guestOk env sid ''file_write_begin''
          [(''path'', JStr gp), (''size'', js_of_nat (length data)), (''sha256'', JStr (x_sha env data)),
           (''overwrite'', JBool overwrite)] s = (Inr rb, s\<lparr> tc_guest := g \<rparr>)"
    "stringField rb ''transferId'' = Inr tid" "numberField rb ''resumeOffset'' = Inr k"
    "k \<le> length data" "opened g tid k"
    using begin_write [OF r] by blast
  define s1 where "s1 = update_transfer opid (\<lambda>t. t\<lparr> at_guestTransferId := Some tid \<rparr>) (s\<lparr> tc_guest := g \<rparr>)"
  define sm1 where "sm1 = upd sm k 0"
  define s2 where "s2 = s1\<lparr> tc_events := tc_events s1 @ [Progress sid sm1] \<rparr>"
  have 2: "tc_guest s2 = g" "tc_fs s2 = tc_fs s"
    by (simp_all add: s2_def s1_def update_transfer_def)
  have act2: "\<not> cancelled opid s2"
    using active by (simp add: s2_def s1_def update_transfer_def cancelled_def list_ex_map_same)
  from push_loop_delivers [OF _ b(4) act2 f [folded 2(2)], of tid upd 0 sm1]
  obtain chunks sm3 s3 where
    l: "push_loop env sid opid path (length data) tid upd (k, 0, sm1) s2 = (Inr (length data, chunks, sm3), s3)"
    and o3: "opened (tc_guest s3) tid (length data)" and f3: "tc_fs s3 = tc_fs s"
    using b(5) 2 by auto
  obtain rc g4 where cm: "guestOk env sid ''file_write_commit''
          [(''transferId'', JStr tid), (''sha256'', JStr (x_sha env data))] s3 = (Inr rc, s3\<lparr> tc_guest := g4 \<rparr>)"
    "delivered g4"
    using commit [OF o3] by blast
  define s5 where "s5 = update_transfer opid (\<lambda>t. t\<lparr> at_guestTransferId := None \<rparr>) (s3\<lparr> tc_guest := g4 \<rparr>)"
  have 5: "tc_guest s5 = g4" "tc_fs s5 = tc_fs s"
    using f3 by (simp_all add: s5_def update_transfer_def)
  have "pushOpened env sid opid path gp overwrite (length data, t) upd sm s =
      (Inr (\<lparr> tr_bytes = length data, tr_chunks = chunks, tr_sha256 = x_sha env data \<rparr>, sm3), s5)"
    unfolding pushOpened_def getfs_def
    using a b(1-4) l cm(1) hb hs 5(2)
    by (simp add: bindS_def getS_def liftS_def hashOpenFile_exact Let_def modifyS_def returnS_def
        report_def s1_def [symmetric] sm1_def [symmetric] s2_def [symmetric] s5_def [symmetric])
  then show ?thesis using cm(2) 5 by simp
qed

lemma pushOneFile_delivers:
  assumes w: "willing (tc_guest s)" and f: "node (tc_fs s) path = Some (HFile data t)"
    and size: "length data \<le> MAX_WIN98_TRANSFER_BYTES" and active: "\<not> cancelled opid s"
  shows "\<exists>chunks sm' s'. pushOneFile env sid opid path gp overwrite upd sm s =
      (Inr (\<lparr> tr_bytes = length data, tr_chunks = chunks, tr_sha256 = x_sha env data \<rparr>, sm'), s') \<and>
    delivered (tc_guest s') \<and> tc_fs s' = tc_fs s"
proof -
  have info: "lstat_source path (tc_fs s) = Inr (length data, t)"
    using f size by (simp add: lstat_source_def lstat_def)
  have fin: "tc_guest (update_transfer opid h v) = tc_guest v" "tc_fs (update_transfer opid h v) = tc_fs v"
    for h and v :: "'g coordinator" by (simp_all add: update_transfer_def)
  have "\<exists>r g. (if win32_dirname gp \<noteq> gp
        then guestOk env sid ''fs_mkdir'' [(''path'', JStr (win32_dirname gp)), (''recursive'', JBool True)]
        else returnS []) s = (Inr r, s\<lparr> tc_guest := g \<rparr>) \<and> ready g"
  proof (cases "win32_dirname gp = gp")
    case True
    then show ?thesis
      using no_parent [OF w True] by (intro exI [of _ "[]"] exI [of _ "tc_guest s"]) (simp add: returnS_def)
  next
    case False
    then show ?thesis using make_parent [OF w False] by simp
  qed
  then obtain r g where mk: "(if win32_dirname gp \<noteq> gp
        then guestOk env sid ''fs_mkdir'' [(''path'', JStr (win32_dirname gp)), (''recursive'', JBool True)]
        else returnS []) s = (Inr r, s\<lparr> tc_guest := g \<rparr>)" and rd: "ready g" by blast
  have l: "lstat (tc_fs s) path = Inr (HFile data t)" using f by (simp add: lstat_def)
  have rd': "ready (tc_guest (s\<lparr> tc_guest := g \<rparr>))" and f': "node (tc_fs (s\<lparr> tc_guest := g \<rparr>)) path = Some (HFile data t)"
    and act': "\<not> cancelled opid (s\<lparr> tc_guest := g \<rparr>)"
    using rd f active by (simp_all add: cancelled_def)
  from pushOpened_delivers [OF rd' f' act', of upd sm] obtain chunks sm' s' where
    p: "pushOpened env sid opid path gp overwrite (length data, t) upd sm (s\<lparr> tc_guest := g \<rparr>) =
      (Inr (\<lparr> tr_bytes = length data, tr_chunks = chunks, tr_sha256 = x_sha env data \<rparr>, sm'), s')"
    and d: "delivered (tc_guest s')" "tc_fs s' = tc_fs s" by auto
  have "pushOneFile env sid opid path gp overwrite upd sm s =
      (Inr (\<lparr> tr_bytes = length data, tr_chunks = chunks, tr_sha256 = x_sha env data \<rparr>, sm'),
       update_transfer opid (\<lambda>t. t\<lparr> at_guestTransferId := None \<rparr>) s')"
    unfolding pushOneFile_def getfs_def Let_def
    using info mk l p
    by (simp add: bindS_def [of "getS x" for x] getS_def bindS_def [of "liftS x" for x] liftS_def
        finallyS_def)
  then show ?thesis using d fin by metis
qed

end

end
