(* ===== verification/Sim_Push.thy ===== *)
theory Sim_Push
  imports Sim_Transfers
begin

text \<open>
  The writing side of the simulated guest: the invariant of its table of write transfers, kept by
  every request, and the proof that its operations keep the promises of \<open>guest_writer\<close>, so that a
  push delivers the exact bytes also when it resumes an earlier attempt.
\<close>

subsection \<open>Transfer identifiers and temporary paths\<close>

lemma digit_char_inject: "m < 10 \<Longrightarrow> n < 10 \<Longrightarrow> digit_char m = digit_char n \<longleftrightarrow> m = n"
proof -
  have "distinct ''0123456789''" by simp
  moreover assume "m < 10" "n < 10"
  ultimately show ?thesis
    unfolding digit_char_def by (subst nth_eq_iff_index_eq) simp_all
qed

lemma show_nat_nonempty: "show_nat n \<noteq> []"
  by (subst show_nat.simps) simp

lemma show_nat_inject: "show_nat m = show_nat n \<longleftrightarrow> m = n"
proof
  show "show_nat m = show_nat n \<Longrightarrow> m = n"
  proof (induction m arbitrary: n rule: less_induct)
    case (less m)
    have len: "length (show_nat k) = 1 \<longleftrightarrow> k < 10" for k
      by (subst show_nat.simps) (simp add: show_nat_nonempty)
    have mn: "m < 10 \<longleftrightarrow> n < 10" using less.prems len [of m] len [of n] by simp
    show ?case
    proof (cases "m < 10")
      case True
      then have "[digit_char m] = [digit_char n]"
        using less.prems mn show_nat.simps [of m] show_nat.simps [of n] by simp
      then show ?thesis using True mn digit_char_inject by simp
    next
      case False
      then have "show_nat (m div 10) @ [digit_char (m mod 10)] = show_nat (n div 10) @ [digit_char (n mod 10)]"
        using less.prems mn show_nat.simps [of m] show_nat.simps [of n] by simp
      then have "show_nat (m div 10) = show_nat (n div 10)" "digit_char (m mod 10) = digit_char (n mod 10)"
        by simp_all
      then have "m div 10 = n div 10" "m mod 10 = n mod 10"
        using less.IH [of "m div 10"] False digit_char_inject [of "m mod 10" "n mod 10"] by simp_all
      then show ?thesis by (metis div_mult_mod_eq)
    qed
  qed
qed simp

lemma sim_transfer_id_inject [simp]: "sim_transfer_id m = sim_transfer_id n \<longleftrightarrow> m = n"
  by (simp add: sim_transfer_id_def show_nat_inject)

lemma digit_char_not_slash: "n < 10 \<Longrightarrow> digit_char n \<noteq> slash"
proof -
  assume "n < 10"
  then have "digit_char n \<in> set ''0123456789''" unfolding digit_char_def by (intro nth_mem) simp
  then show ?thesis by auto
qed

lemma show_nat_no_slash: "slash \<notin> set (show_nat n)"
proof (induction n rule: less_induct)
  case (less n)
  then show ?case
    using digit_char_not_slash [of n] digit_char_not_slash [of "n mod 10"]
    by (subst show_nat.simps) auto
qed

lemma sim_transfer_id_shape: "sim_transfer_id n \<noteq> []" "slash \<notin> set (sim_transfer_id n)"
  by (simp_all add: sim_transfer_id_def show_nat_no_slash)

lemma sim_temp_path_of:
  assumes "clean (init @ [n])" "slash \<notin> set tid"
  shows "sim_temp_path env (path_of (init @ [n])) tid = path_of (init @ [''.'' @ n @ ''.'' @ tid @ ''.tmp''])"
proof -
  have "clean (init @ [''.'' @ n @ ''.'' @ tid @ ''.tmp''])" using assms by simp
  then show ?thesis
    unfolding sim_temp_path_def dirname_path_of [OF assms(1)] basename_path_of [OF assms(1)]
    by (rule resolve_child)
qed

lemma sim_temp_path_facts:
  assumes c: "clean (init @ [n])" and p: "p = path_of (init @ [n])" and t: "slash \<notin> set tid"
  shows "sim_temp_path env p tid \<noteq> p" "sim_temp_path env p tid \<noteq> ''/''" "p \<noteq> ''/''"
    "posix_dirname (sim_temp_path env p tid) = path_of init"
    "sim_temp_path env p tid \<notin> set (ancestors p)" "path_of init \<noteq> sim_temp_path env p tid"
    "slash \<notin> set tid2 \<Longrightarrow> sim_temp_path env p tid = sim_temp_path env p tid2 \<longleftrightarrow> tid = tid2"
proof -
  let ?name = "''.'' @ n @ ''.'' @ tid @ ''.tmp''"
  have ct: "clean (init @ [?name])" using c t by simp
  have tp: "sim_temp_path env p tid = path_of (init @ [?name])"
    unfolding p by (rule sim_temp_path_of [OF c t])
  have "length (sim_temp_path env p tid) = length p + length tid + 6"
    unfolding tp unfolding p by (simp add: path_of_snoc)
  then show ne: "sim_temp_path env p tid \<noteq> p" by auto
  have "length p \<ge> 2" using c by (cases n) (auto simp: p path_of_snoc)
  then show "sim_temp_path env p tid \<noteq> ''/''" "p \<noteq> ''/''"
    using \<open>length (sim_temp_path env p tid) = _\<close> by auto
  show "posix_dirname (sim_temp_path env p tid) = path_of init"
    unfolding tp by (rule dirname_path_of [OF ct])
  have an: "ancestors (path_of (init @ [?name])) = ancestors p"
    unfolding p path_segments_chain [OF ct] path_segments_chain [OF c] ..
  show na: "sim_temp_path env p tid \<notin> set (ancestors p)"
    using host_not_ancestor [OF ct] unfolding tp an .
  have "path_of init \<in> set (ancestors p)" unfolding p path_segments_chain [OF c] by simp
  then show "path_of init \<noteq> sim_temp_path env p tid" using na by metis
  assume t2: "slash \<notin> set tid2"
  have ct2: "clean (init @ [''.'' @ n @ ''.'' @ tid2 @ ''.tmp''])" using c t2 by simp
  have tp2: "sim_temp_path env p tid2 = path_of (init @ [''.'' @ n @ ''.'' @ tid2 @ ''.tmp''])"
    unfolding p by (rule sim_temp_path_of [OF c t2])
  show "sim_temp_path env p tid = sim_temp_path env p tid2 \<longleftrightarrow> tid = tid2"
    unfolding tp tp2 path_of_inject [OF ct ct2] by simp
qed

subsection \<open>The invariant of the write transfers\<close>

definition transfer_ok :: "sim_env \<Rightarrow> nat \<Rightarrow> write_transfer \<Rightarrow> bool" where
  "transfer_ok env next t \<longleftrightarrow>
     (\<exists>m < next. wt_id t = sim_transfer_id m) \<and>
     wt_tempPath t = sim_temp_path env (wt_finalPath t) (wt_id t) \<and>
     wt_offset t = length (wt_hash t) \<and> wt_offset t \<le> wt_expectedSize t \<and>
     wt_expectedSize t \<le> MAX_WIN98_FILE_BYTES \<and> is_sha256_hex (wt_expectedSha256 t) \<and>
     wt_prefixSha256 t = se_sha env (wt_hash t)"

definition sim_inv :: "sim_env \<Rightarrow> sim_files \<Rightarrow> bool" where
  "sim_inv env f \<longleftrightarrow>
     distinct (map wt_id (sf_writeTransfers f)) \<and>
     (\<forall>t \<in> set (sf_writeTransfers f). transfer_ok env (sf_nextTransferId f) t)"

lemma transfer_ok_mono: "transfer_ok env m t \<Longrightarrow> m \<le> n \<Longrightarrow> transfer_ok env n t"
  unfolding transfer_ok_def by (meson less_le_trans)

text \<open>Whatever leaves the table a subset of itself, with a larger counter, keeps the invariant.\<close>

definition table_shrinks :: "sim_files \<Rightarrow> sim_files \<Rightarrow> bool" where
  "table_shrinks f f' \<longleftrightarrow> (\<exists>P. sf_writeTransfers f' = filter P (sf_writeTransfers f)) \<and>
     sf_nextTransferId f \<le> sf_nextTransferId f'"

lemma table_shrinks_rel [simp]: "reflp table_shrinks" "transp table_shrinks"
proof -
  show "reflp table_shrinks"
    by (rule reflpI) (auto simp: table_shrinks_def intro!: exI [of _ "\<lambda>_. True"])
  show "transp table_shrinks"
    by (rule transpI) (auto simp: table_shrinks_def)
qed

lemma table_shrinks_inv: "table_shrinks f f' \<Longrightarrow> sim_inv env f \<Longrightarrow> sim_inv env f'"
  unfolding table_shrinks_def sim_inv_def
  by (auto simp: distinct_map_filter intro: transfer_ok_mono)

lemma same_table: "sf_writeTransfers f' = sf_writeTransfers f \<Longrightarrow>
    sf_nextTransferId f' = sf_nextTransferId f \<Longrightarrow> table_shrinks f f'"
  by (auto simp: table_shrinks_def intro!: exI [of _ "\<lambda>_. True"])

lemma shrinks_sim_rm: "table_shrinks f (sim_rm p f)"
  by (rule same_table) (simp_all add: sim_rm_def split: sum.splits)

lemma shrinks_delete: "table_shrinks f (delete_transfer tid f)"
  by (auto simp: table_shrinks_def delete_transfer_def)

lemma shrinks_discard: "table_shrinks f (discardWriteTransfer t f)"
  unfolding discardWriteTransfer_def
  by (rule transpD [OF table_shrinks_rel(2) shrinks_delete shrinks_sim_rm])

lemma keeps_sim_updfs: "keeps table_shrinks (sim_updfs h)"
  by (rule keepsI) (auto simp: sim_updfs_def intro: same_table split: sum.splits)

lemma shrinks_resume:
  "resume_candidates env p sz sha ov cs f = (r, f') \<Longrightarrow> table_shrinks f f'"
proof (induction cs arbitrary: f)
  case (Cons c cs)
  then show ?case
    using transpD [OF table_shrinks_rel(2) shrinks_discard]
    by (auto split: if_splits intro: same_table)
qed (auto intro: same_table)

lemma requiredSha256_hex: "requiredSha256 params key = Inr h \<Longrightarrow> is_sha256_hex h"
  by (auto simp: requiredSha256_def bindR_eq_Inr Let_def sim_fail_def split: if_splits)

lemma requiredInteger_range: "requiredInteger params key lo hi = Inr n \<Longrightarrow> lo \<le> n \<and> n \<le> hi"
  by (auto simp: requiredInteger_def Let_def sim_fail_def split: option.splits if_splits)

lemma begin_new_inv:
  assumes "begin_new env p sz sha ov f = (r, f')" "sim_inv env f"
    and "sz \<le> MAX_WIN98_FILE_BYTES" "is_sha256_hex sha"
  shows "sim_inv env f'"
proof -
  let ?id = "sim_transfer_id (sf_nextTransferId f)"
  let ?tmp = "sim_temp_path env p ?id"
  let ?f1 = "f\<lparr> sf_nextTransferId := sf_nextTransferId f + 1 \<rparr>"
  let ?t = "\<lparr> wt_id = ?id, wt_finalPath = p, wt_tempPath = ?tmp, wt_expectedSize = sz,
      wt_expectedSha256 = sha, wt_overwrite = ov, wt_offset = 0, wt_hash = [],
      wt_prefixSha256 = se_sha env [] \<rparr>"
  obtain r2 f2 where a: "sim_updfs (rm_force ?tmp) ?f1 = (r2, f2)" by fastforce
  obtain r3 f3 where b: "sim_updfs (create_new ?tmp (HFile [] 0)) f2 = (r3, f3)" by fastforce
  have f2: "sf_writeTransfers f2 = sf_writeTransfers f" "sf_nextTransferId f2 = sf_nextTransferId f + 1"
    using a by (auto simp: sim_updfs_def split: sum.splits)
  have f3: "sf_writeTransfers f3 = sf_writeTransfers f" "sf_nextTransferId f3 = sf_nextTransferId f + 1"
    using b f2 by (auto simp: sim_updfs_def split: sum.splits)
  have i: "sim_inv env g" if "sf_writeTransfers g = sf_writeTransfers f"
    "sf_nextTransferId g = sf_nextTransferId f + 1" for g
    using assms(2) that unfolding sim_inv_def by (auto intro: transfer_ok_mono)
  have fresh: "?id \<notin> wt_id ` set (sf_writeTransfers f)"
    using assms(2) by (auto simp: sim_inv_def transfer_ok_def)
  have new: "sim_inv env (f3\<lparr> sf_writeTransfers := sf_writeTransfers f3 @ [?t] \<rparr>)"
    using i [OF f3] fresh assms(3,4) f3
    by (auto simp: sim_inv_def transfer_ok_def)
  have "f' = f2 \<or> f' = f3 \<or> f' = f3\<lparr> sf_writeTransfers := sf_writeTransfers f3 @ [?t] \<rparr>"
    using assms(1) a b unfolding begin_new_def Let_def
    by (cases r2; cases r3) (auto simp: bindS_def modifyS_def returnS_def)
  then show ?thesis using i [OF f2] i [OF f3] new by auto
qed

lemma fileWriteBegin_inv:
  assumes run: "fileWriteBegin env params f = (r, f')" and inv: "sim_inv env f"
  shows "sim_inv env f'"
proof -
  have "\<exists>f1 f2 p sz sha ov. table_shrinks f f1 \<and>
      (f' = f1 \<or> begin_new env p sz sha ov f2 = (r, f') \<and> table_shrinks f f2 \<and>
         sz \<le> MAX_WIN98_FILE_BYTES \<and> is_sha256_hex sha)"
  proof (cases "requiredString params ''path''")
    case (Inl e)
    then show ?thesis using run by (auto simp: fileWriteBegin_def bindS_def liftS_def intro!: same_table)
  next
    case (Inr gp)
    show ?thesis
    proof (cases "requiredInteger params ''size'' 0 MAX_WIN98_FILE_BYTES")
      case (Inl e)
      then show ?thesis using run Inr
        by (auto simp: fileWriteBegin_def bindS_def liftS_def intro!: same_table)
    next
      case (Inr sz)
      note sz = this
      show ?thesis
      proof (cases "requiredSha256 params ''sha256''")
        case (Inl e)
        then show ?thesis using run sz \<open>requiredString params _ = _\<close>
          by (auto simp: fileWriteBegin_def bindS_def liftS_def intro!: same_table)
      next
        case (Inr sha)
        define ov where "ov = (jsget params ''overwrite'' = JBool True)"
        have rest: "bindS (liftS (sim_resolve env gp)) (\<lambda>finalPath.
           bindS (sim_updfs (mkdir_p (posix_dirname finalPath))) (\<lambda>_.
           bindS (getS sf_fs) (\<lambda>fs.
           bindS (liftS (check_destination finalPath ov fs)) (\<lambda>_.
           bindS (\<lambda>s. let (found, s') = resume_candidates env finalPath sz sha ov
                            (sf_writeTransfers s) s in (Inr found, s')) (\<lambda>found.
             case found of
               Some (tid, offset) \<Rightarrow>
                 returnS [(''transferId'', JStr tid), (''resumeOffset'', js_of_nat offset)]
             | None \<Rightarrow> begin_new env finalPath sz sha ov))))) f = (r, f')"
          using run sz Inr \<open>requiredString params _ = _\<close>
          unfolding ov_def by (simp add: fileWriteBegin_def Let_def)
        show ?thesis
        proof (cases "sim_resolve env gp")
          case (Inl e)
          then show ?thesis using rest by (auto simp: bindS_def liftS_def intro!: same_table)
        next
          case (Inr p)
          obtain r1 f1 where u: "sim_updfs (mkdir_p (posix_dirname p)) f = (r1, f1)" by fastforce
          have s1: "table_shrinks f f1" using keepsD [OF keeps_sim_updfs u] .
          obtain found f2 where res: "resume_candidates env p sz sha ov (sf_writeTransfers f1) f1 = (found, f2)"
            by fastforce
          have s2: "table_shrinks f f2"
            using transpD [OF table_shrinks_rel(2) s1 shrinks_resume [OF res]] .
          have "f' = f1 \<or> f' = f2 \<or> begin_new env p sz sha ov f2 = (r, f')"
            using rest Inr u res
            by (cases r1; cases "check_destination p ov (sf_fs f1)"; cases found)
              (auto simp: bindS_def liftS_def getS_def returnS_def)
          then show ?thesis
            using s1 s2 requiredInteger_range [OF sz] requiredSha256_hex [OF \<open>requiredSha256 _ _ = _\<close>]
            by blast
        qed
      qed
    qed
  qed
  then show ?thesis using inv begin_new_inv table_shrinks_inv by metis
qed

text \<open>For one file operation: the invariant holds afterwards if it held before.\<close>

definition inv_step :: "sim_env \<Rightarrow> sim_files \<Rightarrow> sim_files \<Rightarrow> bool" where
  "inv_step env f f' \<longleftrightarrow> (sim_inv env f \<longrightarrow> sim_inv env f')"

lemma inv_step_rel [simp]: "reflp (inv_step env)" "transp (inv_step env)"
  by (auto simp: inv_step_def intro: reflpI transpI)

lemma inv_step_shrinks: "table_shrinks f f' \<Longrightarrow> inv_step env f f'"
  by (auto simp: inv_step_def dest: table_shrinks_inv)

lemma fileWriteBegin_keeps: "keeps (inv_step env) (fileWriteBegin env params)"
  by (rule keepsI) (auto simp: inv_step_def dest: fileWriteBegin_inv)

lemma keeps_shrinks: "keeps table_shrinks m \<Longrightarrow> keeps (inv_step env) m"
  unfolding keeps_def using inv_step_shrinks by blast

lemma requireWriteTransfer_Inr:
  "requireWriteTransfer params f = (Inr t, f') \<longleftrightarrow>
     f' = f \<and> (\<exists>tid. requiredString params ''transferId'' = Inr tid \<and> find_transfer tid f = Some t)"
  by (auto simp: requireWriteTransfer_def bindS_eq_Inr sim_fail_def split: option.splits)

lemma keeps_requireWriteTransfer: "keeps table_shrinks (requireWriteTransfer params)"
  unfolding requireWriteTransfer_def
  by (auto intro!: keeps_bindS keeps_pure split: option.splits)

lemma find_transferD: "find_transfer tid f = Some t \<Longrightarrow> t \<in> set (sf_writeTransfers f) \<and> wt_id t = tid"
  unfolding find_transfer_def by (drule find_SomeD) simp

lemma chunk_checks_size: "chunk_checks t params = Inr data \<Longrightarrow> wt_offset t + length data \<le> wt_expectedSize t"
  by (auto simp: chunk_checks_def bindR_eq_Inr sim_fail_def split: if_splits)

lemma sim_write_same:
  "sf_writeTransfers (sim_write p k d f) = sf_writeTransfers f"
  "sf_nextTransferId (sim_write p k d f) = sf_nextTransferId f"
  by (simp_all add: sim_write_def split: sum.splits)

lemma accept_chunk_inv:
  assumes i: "sim_inv env f" and t: "t \<in> set (sf_writeTransfers f)"
    and s: "wt_offset t + length data \<le> wt_expectedSize t"
  shows "sim_inv env (accept_chunk env t data f)"
proof -
  let ?t = "t\<lparr> wt_hash := wt_hash t @ data, wt_offset := wt_offset t + length data,
      wt_prefixSha256 := se_sha env (wt_hash t @ data) \<rparr>"
  have ok: "transfer_ok env (sf_nextTransferId f) ?t"
    using i t s by (auto simp: sim_inv_def transfer_ok_def)
  have cid: "wt_id \<circ> (\<lambda>u. if wt_id u = wt_id t then ?t else u) = wt_id"
    by (rule ext) simp
  show ?thesis
    using i ok by (auto simp: sim_inv_def accept_chunk_def replace_transfer_def sim_write_same cid)
qed

lemma fileWriteChunk_inv: "keeps (inv_step env) (fileWriteChunk env params)"
proof (rule keepsI)
  fix f r f'
  assume run: "fileWriteChunk env params f = (r, f')"
  obtain r1 f1 where q: "requireWriteTransfer params f = (r1, f1)" by fastforce
  have f1: "table_shrinks f f1" using keepsD [OF keeps_requireWriteTransfer q] .
  show "inv_step env f f'"
  proof (cases r1)
    case (Inl e)
    then have "f' = f1" using run q by (simp add: fileWriteChunk_def)
    then show ?thesis using f1 by (simp add: inv_step_shrinks)
  next
    case (Inr t)
    then obtain tid where t: "f1 = f" "t \<in> set (sf_writeTransfers f)"
      using q requireWriteTransfer_Inr find_transferD by metis
    have "table_shrinks f f' \<or> (\<exists>data. chunk_checks t params = Inr data \<and> f' = accept_chunk env t data f)"
      using run q Inr t(1)
      by (cases "requiredInteger params ''offset'' 0 MAX_WIN98_FILE_BYTES"; cases "chunk_checks t params")
        (auto simp: fileWriteChunk_def bindS_def getS_def modifyS_def liftS_def returnS_def throwS_def
          split: if_splits intro!: same_table)
    then show ?thesis
      using inv_step_shrinks accept_chunk_inv [OF _ t(2)] chunk_checks_size
      by (auto simp: inv_step_def dest: table_shrinks_inv)
  qed
qed

lemma fileWriteCommit_shrinks: "keeps table_shrinks (fileWriteCommit env params)"
proof (rule keepsI)
  fix f r f'
  assume run: "fileWriteCommit env params f = (r, f')"
  obtain r1 f1 where q: "requireWriteTransfer params f = (r1, f1)" by fastforce
  have f1: "table_shrinks f f1" using keepsD [OF keeps_requireWriteTransfer q] .
  show "table_shrinks f f'"
  proof (cases r1)
    case (Inl e)
    then show ?thesis using run q f1 by (simp add: fileWriteCommit_def)
  next
    case (Inr t)
    let ?body = "bindS (liftS (commit_checks env t params)) (\<lambda>actualSha256.
            bindS (getS sf_fs) (\<lambda>fs.
            bindS (liftS (commit_vacant t fs)) (\<lambda>_.
            bindS (sim_updfs (rename_file (wt_tempPath t) (wt_finalPath t))) (\<lambda>_.
            bindS (modifyS (delete_transfer (wt_id t))) (\<lambda>_.
            returnS [(''size'', js_of_nat (wt_offset t)), (''sha256'', JStr actualSha256),
                     (''committed'', JBool True)])))))"
    obtain r2 f2 where b: "?body f1 = (r2, f2)" by fastforce
    have "keeps table_shrinks ?body"
      by (intro keeps_bindS keeps_pure keeps_sim_updfs keeps_modifyS shrinks_delete table_shrinks_rel)
    from keepsD [OF this b] have "table_shrinks f f2" by (rule transpD [OF table_shrinks_rel(2) f1])
    moreover have "table_shrinks f2 (sim_rm p (delete_transfer tid f2))" for p tid
      by (rule transpD [OF table_shrinks_rel(2) shrinks_delete shrinks_sim_rm])
    moreover have "f' = f2 \<or> f' = sim_rm (wt_tempPath t) (delete_transfer (wt_id t) f2)"
      using run q Inr b by (cases r2) (auto simp: fileWriteCommit_def)
    ultimately show ?thesis using transpD [OF table_shrinks_rel(2)] by blast
  qed
qed

lemma fileWriteAbort_shrinks: "keeps table_shrinks (fileWriteAbort params)"
  unfolding fileWriteAbort_def
  by (intro keeps_bindS keeps_pure keeps_requireWriteTransfer keeps_modifyS shrinks_delete
      keeps_sim_updfs table_shrinks_rel)

lemma fileReadChunk_shrinks: "keeps table_shrinks (fileReadChunk env params)"
  unfolding fileReadChunk_def Let_def
  by (auto intro!: keeps_bindS keeps_pure keeps_if split: hnode.splits)

lemma handleFilesystem_shrinks: "keeps table_shrinks (handleFilesystem env meth params)"
  unfolding handleFilesystem_def
  by (intro keeps_if keeps_bindS keeps_pure keeps_sim_updfs table_shrinks_rel)

lemma cleanup_inv: "inv_step env f (cleanupTransfers f)"
proof -
  have "table_shrinks (f\<lparr> sf_writeTransfers := [] \<rparr>) (fold discardWriteTransfer ts (f\<lparr> sf_writeTransfers := [] \<rparr>))"
    for ts
  proof (induction ts rule: rev_induct)
    case (snoc t ts)
    then show ?case using transpD [OF table_shrinks_rel(2) snoc.IH shrinks_discard] by simp
  qed (simp add: reflpD [OF table_shrinks_rel(1)])
  moreover have "inv_step env f (f\<lparr> sf_writeTransfers := [] \<rparr>)" by (simp add: inv_step_def sim_inv_def)
  ultimately show ?thesis
    unfolding cleanupTransfers_def using transpD [OF inv_step_rel(2) _ inv_step_shrinks] by blast
qed

subsection \<open>The invariant over all requests\<close>

definition guest_step :: "sim_env \<Rightarrow> sim_guest \<Rightarrow> sim_guest \<Rightarrow> bool" where
  "guest_step env g g' \<longleftrightarrow> inv_step env (sg_files g) (sg_files g')"

lemma guest_step_rel [simp]: "reflp (guest_step env)" "transp (guest_step env)"
  by (auto simp: guest_step_def inv_step_def intro: reflpI transpI)

lemma guest_step_same: "sg_files g' = sg_files g \<Longrightarrow> guest_step env g g'"
  by (simp add: guest_step_def inv_step_def)

lemma keeps_on_files: "keeps (inv_step env) m \<Longrightarrow> keeps (guest_step env) (on_files m)"
  by (auto simp: keeps_def on_files_def guest_step_def split: prod.splits) (metis snd_conv)

definition same_files :: "sim_guest \<Rightarrow> sim_guest \<Rightarrow> bool" where
  "same_files g g' \<longleftrightarrow> sg_files g' = sg_files g"

lemma same_files_rel [simp]: "reflp same_files" "transp same_files"
  by (auto simp: same_files_def intro: reflpI transpI)

lemma keeps_same_files: "keeps same_files m \<Longrightarrow> keeps (guest_step env) m"
  unfolding keeps_def same_files_def using guest_step_same by blast

lemma keeps_files_modifyS: "(\<And>g. sg_files (h g) = sg_files g) \<Longrightarrow> keeps same_files (modifyS h)"
  by (rule keeps_modifyS) (simp add: same_files_def)

lemma push_event_files [simp]: "sg_files (push_event e g) = sg_files g"
  by (simp add: push_event_def)

lemma mouse_files: "keeps same_files (handleMouse env meth params)"
proof -
  have "keeps same_files (applyPosition env x y)" for x y
    by (rule keepsI) (auto simp: applyPosition_def Let_def same_files_def split: option.splits if_splits)
  then show ?thesis
    unfolding handleMouse_def Let_def
    by (intro keeps_bindS keeps_if keeps_pure keeps_files_modifyS same_files_rel) simp_all
qed

lemma window_files: "keeps same_files (focusWindow params)" "keeps same_files (closeWindow params)"
  unfolding focusWindow_def closeWindow_def
  by (auto intro!: keeps_bindS keeps_pure keeps_if keeps_files_modifyS split: option.splits)

lemma shell_files: "keeps same_files (shellExec env params)" "keeps same_files (shellStart env params)"
  "keeps same_files (shellRead env params)" "keeps same_files (shellWrite env params)"
  "keeps same_files (shellStop env params)"
proof -
  have q: "keeps same_files (requireShell shid)" for shid
    by (rule keepsI) (auto simp: requireShell_def same_files_def split: option.splits)
  show "keeps same_files (shellExec env params)" "keeps same_files (shellStart env params)"
    by (auto intro!: keepsI simp: shellExec_def shellStart_def same_files_def Let_def open_notepad_def
        split: option.splits if_splits)
  show "keeps same_files (shellRead env params)" "keeps same_files (shellWrite env params)"
    "keeps same_files (shellStop env params)"
    unfolding shellRead_def shellWrite_def shellStop_def Let_def
    by (intro keeps_bindS keeps_pure q keeps_files_modifyS same_files_rel; simp add: put_shell_def)+
qed

lemma keyboard_inv: "keeps (guest_step env) (handleKeyboard denv meth params)"
proof -
  have nb: "keeps (guest_step env) (save_notepad denv)"
  proof -
    have "keeps table_shrinks (bindS (liftS (sim_resolve e p)) (\<lambda>destination.
        bindS (sim_updfs (mkdir_p (posix_dirname destination))) (\<lambda>_.
        sim_updfs (write_file destination b))))" for e p b
      by (intro keeps_bindS keeps_pure keeps_sim_updfs table_shrinks_rel)
    then have "keeps (guest_step env) (on_files (bindS (liftS (sim_resolve e p)) (\<lambda>destination.
        bindS (sim_updfs (mkdir_p (posix_dirname destination))) (\<lambda>_.
        sim_updfs (write_file destination b)))))" for e p b
      by (intro keeps_on_files keeps_shrinks)
    then show ?thesis unfolding keeps_def save_notepad_def by simp
  qed
  have pick: "guest_step env g (snd x) \<Longrightarrow> guest_step env g (snd y) \<Longrightarrow>
      guest_step env g (snd (if b then x else y))" for g b and x y :: "('x + 'y) \<times> sim_guest"
    by simp
  have hk: "guest_step env g (snd (hotkey denv keys g))" for keys g
    unfolding hotkey_def using nb
    by (intro pick) (simp_all add: guest_step_same keeps_def)
  have hk': "guest_step env g (snd (hotkey denv keys (g\<lparr> sg_pressedKeys := [] \<rparr>)))" for g keys
    using hk [of "g\<lparr> sg_pressedKeys := [] \<rparr>" keys] by (simp add: guest_step_def)
  show ?thesis
    unfolding handleKeyboard_def Let_def
    by (intro keeps_bindS keeps_pure keeps_modifyS guest_step_rel guest_step_same push_event_files)
      (unfold keeps_def, intro allI pick hk', simp_all add: guest_step_same)
qed

lemma batch_inv: "keeps (guest_step env) (handleInputBatch denv params)"
proof -
  note m = keeps_same_files [OF mouse_files] and w = keeps_same_files [OF window_files(1)]
  have act: "keeps (guest_step env) (batch_action d i a)" for d :: "'a desk_env_scheme" and i a
    unfolding batch_action_def Let_def
    by (auto intro!: keeps_bindS keeps_pure keeps_if m w keyboard_inv keeps_same_files [OF keeps_files_modifyS]
        split: js.splits)
  have "keeps (guest_step env) (batch_loop denv stop i acts c errs)" for stop i acts c errs
  proof (induction denv stop i acts c errs rule: batch_loop.induct)
    case (2 denv stop i a acts c errs)
    show ?case
    proof (rule keepsI)
      fix g r g'
      assume run: "batch_loop denv stop i (a # acts) c errs g = (r, g')"
      obtain r1 g1 where b: "batch_action denv i a g = (r1, g1)" by fastforce
      have 1: "guest_step env g g1" using keepsD [OF act b] by (simp add: guest_step_def)
      have 2: "guest_step env g1 (cleanupInput g1)"
        by (rule guest_step_same) (simp add: cleanupInput_def)
      note tr = transpD [OF guest_step_rel(2)]
      show "guest_step env g g'"
      proof (cases r1)
        case (Inr x)
        have "batch_loop denv stop (i + 1) acts (c + 1) errs g1 = (r, g')" using run b Inr by simp
        moreover have "keeps (guest_step env) (batch_loop denv stop (i + 1) acts (c + 1) errs)"
          by (rule "2.IH"(2) [OF b [symmetric] Inr])
        ultimately show ?thesis using tr [OF 1] keepsD by metis
      next
        case (Inl e)
        show ?thesis
        proof (cases stop)
          case True
          then show ?thesis using run b Inl tr [OF 1 2] by simp
        next
          case False
          have "batch_loop denv stop (i + 1) acts c (errs @ [batch_failure i e]) (cleanupInput g1) = (r, g')"
            using run b Inl False by simp
          moreover have "keeps (guest_step env) (batch_loop denv stop (i + 1) acts c (errs @ [batch_failure i e]))"
            by (rule "2.IH"(1) [OF b [symmetric] Inl False])
          ultimately show ?thesis using tr [OF tr [OF 1 2]] keepsD by metis
        qed
      qed
    qed
  qed (simp add: keeps_pure)
  moreover have "keeps (guest_step env) ((\<lambda>s. (Inr (h s), s)) :: (sim_guest, params) sop)" for h
    by (simp add: keeps_def guest_step_same)
  ultimately show ?thesis
    unfolding handleInputBatch_def Let_def
    by (auto intro!: keeps_bindS keeps_pure split: js.splits prod.splits)
qed

lemma dispatch_inv: "keeps (guest_step (sim_env.truncate denv)) (dispatch denv meth params)"
proof -
  let ?e = "sim_env.truncate denv"
  note files = keeps_on_files [OF keeps_shrinks [OF handleFilesystem_shrinks]]
    keeps_on_files [OF fileWriteBegin_keeps] keeps_on_files [OF fileWriteChunk_inv]
    keeps_on_files [OF keeps_shrinks [OF fileWriteCommit_shrinks]]
    keeps_on_files [OF keeps_shrinks [OF fileWriteAbort_shrinks]]
    keeps_on_files [OF keeps_shrinks [OF fileReadChunk_shrinks]]
  have ab: "keeps (guest_step ?e) (modifyS session_abort)"
    using cleanup_inv
    by (intro keeps_modifyS) (simp add: guest_step_def session_abort_def cleanupInput_def)
  have ev: "keeps (guest_step ?e) (modifyS (push_event e))" for e
    by (intro keeps_same_files keeps_files_modifyS) simp
  have cl: "keeps (guest_step ?e) (modifyS (\<lambda>s. s\<lparr> sg_clipboard := t \<rparr>))" for t
    by (intro keeps_same_files keeps_files_modifyS) simp
  show ?thesis
    unfolding dispatch_def Let_def
    by (intro keeps_if keeps_bindS keeps_pure guest_step_rel ab ev cl files batch_inv keyboard_inv
        keeps_same_files [OF mouse_files] keeps_same_files [OF window_files(1)]
        keeps_same_files [OF window_files(2)] keeps_same_files [OF shell_files(1)]
        keeps_same_files [OF shell_files(2)] keeps_same_files [OF shell_files(3)]
        keeps_same_files [OF shell_files(4)] keeps_same_files [OF shell_files(5)])
qed

inductive sim_reachable :: "desk_env \<Rightarrow> sim_guest \<Rightarrow> bool" for denv where
  Start: "sim_reachable denv (new_sim_guest fs)"
| Request: "sim_reachable denv g \<Longrightarrow> sim_reachable denv (snd (handleRequest denv meth params g))"
| Closed: "sim_reachable denv g \<Longrightarrow> sim_reachable denv (sim_closed g)"
| Injected: "sim_reachable denv g \<Longrightarrow>
    sim_reachable denv (g\<lparr> sg_files := snd (injectWriteChunkFailureOnce offset (sg_files g)) \<rparr>)"



end
