(* ===== verification/Sim_Delivery.thy ===== *)
theory Sim_Delivery
  imports Sim_Push
begin

text \<open>
  A push to the simulated guest from end to end: its operations keep the promises of
  \<open>guest_writer\<close>, also when an interrupted transfer is resumed.
\<close>

subsection \<open>Looking up transfers\<close>

lemma find_map_replace:
  "find (\<lambda>u. wt_id u = tid) ts = Some t \<Longrightarrow> wt_id t' = tid \<Longrightarrow>
     find (\<lambda>u. wt_id u = tid) (map (\<lambda>u. if wt_id u = wt_id t' then t' else u) ts) = Some t'"
  by (induction ts) (auto split: if_splits)

lemma find_replace: "find_transfer tid f = Some t \<Longrightarrow> wt_id t' = tid \<Longrightarrow>
    find_transfer tid (replace_transfer t' f) = Some t'"
  unfolding find_transfer_def replace_transfer_def
  using find_map_replace [of tid "sf_writeTransfers f" t t'] by simp

lemma find_snoc: "find P xs = None \<Longrightarrow> P x \<Longrightarrow> find P (xs @ [x]) = Some x"
  by (induction xs) (auto split: if_splits)

lemma find_delete: "tid \<noteq> tid2 \<Longrightarrow> find_transfer tid (delete_transfer tid2 f) = find_transfer tid f"
proof -
  assume "tid \<noteq> tid2"
  then have "find (\<lambda>t. wt_id t = tid) (filter (\<lambda>t. wt_id t \<noteq> tid2) ts) = find (\<lambda>t. wt_id t = tid) ts" for ts
    by (induction ts) auto
  then show ?thesis by (simp add: find_transfer_def delete_transfer_def)
qed

lemma find_distinct:
  "distinct (map wt_id (sf_writeTransfers f)) \<Longrightarrow> c \<in> set (sf_writeTransfers f) \<Longrightarrow>
     find_transfer (wt_id c) f = Some c"
proof -
  have "distinct (map wt_id ts) \<Longrightarrow> c \<in> set ts \<Longrightarrow> find (\<lambda>t. wt_id t = wt_id c) ts = Some c" for ts
    by (induction ts) (auto simp: rev_image_eqI)
  then show "distinct (map wt_id (sf_writeTransfers f)) \<Longrightarrow> c \<in> set (sf_writeTransfers f) \<Longrightarrow> ?thesis"
    by (simp add: find_transfer_def)
qed

lemma sim_rm_node: "q \<noteq> p \<Longrightarrow> p \<noteq> ''/'' \<Longrightarrow> node (sf_fs (sim_rm p f)) q = node (sf_fs f) q"
  by (simp add: sim_rm_def rm_force_def)

lemma sim_rm_keeps [simp]:
  "sf_writeTransfers (sim_rm p f) = sf_writeTransfers f"
  "sf_nextTransferId (sim_rm p f) = sf_nextTransferId f"
  "sf_failWriteChunkOnceAtOffset (sim_rm p f) = sf_failWriteChunkOnceAtOffset f"
  by (simp_all add: sim_rm_def split: sum.splits)

lemma find_sim_rm [simp]: "find_transfer tid (sim_rm p f) = find_transfer tid f"
  by (simp add: find_transfer_def)

lemma verify_node: "node (sf_fs f') (wt_tempPath c) = node (sf_fs f) (wt_tempPath c) \<Longrightarrow>
    verifyWritePartial env c f' = verifyWritePartial env c f"
  by (simp add: verifyWritePartial_def)

subsection \<open>Resuming or discarding the candidates\<close>

definition matching :: "string \<Rightarrow> nat \<Rightarrow> string \<Rightarrow> bool \<Rightarrow> write_transfer \<Rightarrow> bool" where
  "matching p sz sha ov c \<longleftrightarrow> wt_finalPath c = p \<and> wt_expectedSize c = sz \<and> wt_expectedSha256 c = sha \<and>
     wt_overwrite c = ov"

definition resume_kept :: "(string \<Rightarrow> string) \<Rightarrow> write_transfer list \<Rightarrow> sim_files \<Rightarrow> sim_files \<Rightarrow> bool" where
  "resume_kept T cs f f2 \<longleftrightarrow>
     sf_nextTransferId f2 = sf_nextTransferId f \<and>
     sf_failWriteChunkOnceAtOffset f2 = sf_failWriteChunkOnceAtOffset f \<and>
     (\<forall>q. q \<notin> T ` wt_id ` set cs \<longrightarrow> node (sf_fs f2) q = node (sf_fs f) q) \<and>
     (\<forall>tid. tid \<notin> wt_id ` set cs \<longrightarrow> find_transfer tid f2 = find_transfer tid f)"

definition resume_hit ::
  "sim_env \<Rightarrow> string \<Rightarrow> nat \<Rightarrow> string \<Rightarrow> bool \<Rightarrow> write_transfer list \<Rightarrow> sim_files \<Rightarrow> sim_files \<Rightarrow> string \<Rightarrow> nat \<Rightarrow> bool" where
  "resume_hit env p sz sha ov cs f f2 tid k \<longleftrightarrow>
     (\<exists>c \<in> set cs. tid = wt_id c \<and> k = wt_offset c \<and> matching p sz sha ov c \<and>
        find_transfer tid f2 = Some c \<and>
        node (sf_fs f2) (wt_tempPath c) = node (sf_fs f) (wt_tempPath c) \<and> verifyWritePartial env c f)"

lemma discard_kept:
  assumes "wt_tempPath c = T (wt_id c)" "T (wt_id c) \<noteq> ''/''"
  shows "resume_kept T [c] f (discardWriteTransfer c f)"
  unfolding resume_kept_def
proof (intro conjI allI impI)
  fix q
  assume "q \<notin> T ` wt_id ` set [c]"
  then have "q \<noteq> wt_tempPath c" using assms by simp
  then have "node (sf_fs (discardWriteTransfer c f)) q = node (sf_fs (delete_transfer (wt_id c) f)) q"
    unfolding discardWriteTransfer_def using assms by (intro sim_rm_node) simp_all
  then show "node (sf_fs (discardWriteTransfer c f)) q = node (sf_fs f) q"
    by (simp add: delete_transfer_def)
next
  fix tid
  assume "tid \<notin> wt_id ` set [c]"
  then show "find_transfer tid (discardWriteTransfer c f) = find_transfer tid f"
    by (simp add: discardWriteTransfer_def find_delete)
qed (simp_all add: discardWriteTransfer_def delete_transfer_def)

lemma resume_kept_trans:
  assumes 1: "resume_kept T [c] f f1" and 2: "resume_kept T cs f1 f2"
  shows "resume_kept T (c # cs) f f2"
  unfolding resume_kept_def
proof (intro conjI allI impI)
  fix q
  assume "q \<notin> T ` wt_id ` set (c # cs)"
  then show "node (sf_fs f2) q = node (sf_fs f) q" using 1 2 by (simp add: resume_kept_def)
next
  fix tid
  assume "tid \<notin> wt_id ` set (c # cs)"
  then show "find_transfer tid f2 = find_transfer tid f" using 1 2 by (simp add: resume_kept_def)
qed (use 1 2 in \<open>simp_all add: resume_kept_def\<close>)

lemma resume_hit_mono:
  assumes "resume_hit env p sz sha ov cs f1 f2 tid k"
    and "\<And>d. d \<in> set cs \<Longrightarrow> wt_finalPath d = p \<Longrightarrow>
      node (sf_fs f1) (wt_tempPath d) = node (sf_fs f) (wt_tempPath d)"
  shows "resume_hit env p sz sha ov (c # cs) f f2 tid k"
proof -
  obtain d where d: "d \<in> set cs" "tid = wt_id d" "k = wt_offset d" "matching p sz sha ov d"
    "find_transfer tid f2 = Some d" "node (sf_fs f2) (wt_tempPath d) = node (sf_fs f1) (wt_tempPath d)"
    "verifyWritePartial env d f1"
    using assms(1) by (auto simp: resume_hit_def)
  have n: "node (sf_fs f1) (wt_tempPath d) = node (sf_fs f) (wt_tempPath d)"
    using assms(2) [OF d(1)] d(4) by (simp add: matching_def)
  show ?thesis
    unfolding resume_hit_def
    using d n verify_node [OF n, of env] by (intro bexI [of _ d]) simp_all
qed

lemma resume_spec:
  assumes "resume_candidates env p sz sha ov cs f = (found, f2)"
    and "distinct (map wt_id cs)" "\<forall>c \<in> set cs. find_transfer (wt_id c) f = Some c"
    and "\<forall>c \<in> set cs. wt_finalPath c = p \<longrightarrow> wt_tempPath c = T (wt_id c)"
    and "inj_on T (wt_id ` set cs)" "\<forall>c \<in> set cs. T (wt_id c) \<noteq> ''/''"
  shows "resume_kept T cs f f2 \<and>
    (\<forall>tid k. found = Some (tid, k) \<longrightarrow> resume_hit env p sz sha ov cs f f2 tid k)"
  using assms
proof (induction cs arbitrary: f)
  case Nil
  then show ?case by (simp add: resume_kept_def)
next
  case (Cons c cs)
  have dist: "wt_id c \<notin> wt_id ` set cs" "distinct (map wt_id cs)" using Cons.prems(2) by simp_all
  have inj: "inj_on T (wt_id ` set cs)" using Cons.prems(5) by (simp add: inj_on_def)
  have hyps: "\<forall>c \<in> set cs. wt_finalPath c = p \<longrightarrow> wt_tempPath c = T (wt_id c)"
    "\<forall>c \<in> set cs. T (wt_id c) \<noteq> ''/''" using Cons.prems(4,6) by simp_all
  have tneq: "T (wt_id d) \<noteq> T (wt_id c)" if "d \<in> set cs" for d
  proof
    assume e: "T (wt_id d) = T (wt_id c)"
    have "wt_id d = wt_id c" by (rule inj_onD [OF Cons.prems(5) e]) (use that in simp_all)
    then have "wt_id c \<in> wt_id ` set cs" using that by (metis imageI)
    then show False using dist(1) by simp
  qed
  show ?case
  proof (cases "matching p sz sha ov c \<and> verifyWritePartial env c f")
    case True
    then have r: "found = Some (wt_id c, wt_offset c)" "f2 = f"
      using Cons.prems(1) by (simp_all add: matching_def)
    have "find_transfer (wt_id c) f = Some c" using Cons.prems(3) by simp
    then have "resume_hit env p sz sha ov (c # cs) f f (wt_id c) (wt_offset c)"
      unfolding resume_hit_def using True by (intro bexI [of _ c]) simp_all
    then show ?thesis unfolding r by (simp add: resume_kept_def)
  next
    case False
    define f1 where "f1 = (if wt_finalPath c = p then discardWriteTransfer c f else f)"
    have run: "resume_candidates env p sz sha ov cs f1 = (found, f2)"
    proof (cases "wt_finalPath c = p")
      case True
      then have "\<not> (wt_expectedSize c = sz \<and> wt_expectedSha256 c = sha \<and> wt_overwrite c = ov \<and>
          verifyWritePartial env c f)" using False by (simp add: matching_def)
      then show ?thesis using Cons.prems(1) True by (auto simp: f1_def split: if_splits)
    qed (use Cons.prems(1) in \<open>simp add: f1_def\<close>)
    have k1: "resume_kept T [c] f f1"
    proof (cases "wt_finalPath c = p")
      case True
      then have "resume_kept T [c] f (discardWriteTransfer c f)"
        using Cons.prems(4,6) by (intro discard_kept) simp_all
      then show ?thesis using True by (simp add: f1_def)
    qed (simp add: f1_def resume_kept_def)
    have finds: "\<forall>d \<in> set cs. find_transfer (wt_id d) f1 = Some d"
    proof
      fix d
      assume d: "d \<in> set cs"
      then have "wt_id d \<in> wt_id ` set cs" by (rule imageI)
      then have "wt_id d \<notin> wt_id ` set [c]" using dist(1) by auto
      then have "find_transfer (wt_id d) f1 = find_transfer (wt_id d) f"
        using k1 by (simp add: resume_kept_def)
      then show "find_transfer (wt_id d) f1 = Some d" using Cons.prems(3) d by simp
    qed
    have nodes: "node (sf_fs f1) (wt_tempPath d) = node (sf_fs f) (wt_tempPath d)"
      if "d \<in> set cs" "wt_finalPath d = p" for d
      using k1 tneq [OF that(1)] hyps(1) that by (simp add: resume_kept_def)
    note IH = Cons.IH [OF run dist(2) finds hyps(1) inj hyps(2)]
    show ?thesis
    proof (intro conjI allI impI)
      show "resume_kept T (c # cs) f f2" by (rule resume_kept_trans [OF k1 conjunct1 [OF IH]])
    next
      fix tid k
      assume "found = Some (tid, k)"
      then have h: "resume_hit env p sz sha ov cs f1 f2 tid k" using IH by simp
      show "resume_hit env p sz sha ov (c # cs) f f2 tid k" by (rule resume_hit_mono [OF h nodes])
    qed
  qed
qed

subsection \<open>An open transfer\<close>

definition sim_opened ::
  "'z desk_env_scheme \<Rightarrow> bytes \<Rightarrow> bool \<Rightarrow> string \<Rightarrow> sim_guest \<Rightarrow> string \<Rightarrow> nat \<Rightarrow> bool" where
  "sim_opened denv data ov p g tid k \<longleftrightarrow>
     (\<exists>t m. find_transfer tid (sg_files g) = Some t \<and> tid \<noteq> [] \<and> wt_finalPath t = p \<and>
        wt_overwrite t = ov \<and> wt_expectedSize t = length data \<and>
        wt_expectedSha256 t = se_sha denv data \<and> wt_offset t = k \<and> wt_hash t = take k data \<and>
        node (guest_fs g) (wt_tempPath t) = Some (HFile (take k data) m) \<and>
        wt_tempPath t \<notin> {p, ''/''} \<and> wt_tempPath t \<notin> set (ancestors p)) \<and>
     k \<le> length data \<and> p \<noteq> ''/'' \<and> \<not> is_dir (guest_fs g) p \<and>
     (\<not> ov \<longrightarrow> node (guest_fs g) p = None \<and> \<not> obstructed (guest_fs g) p) \<and>
     sf_failWriteChunkOnceAtOffset (sg_files g) = None \<and>
     length data \<le> MAX_WIN98_TRANSFER_BYTES \<and> is_sha256_hex (se_sha denv data)"

lemma crc32_range: "crc32 b \<le> 4294967295"
proof -
  have "unat (crc32_word b) < 2 ^ 32" using unsigned_less [of "crc32_word b"] by simp
  then show ?thesis by (simp add: crc32_def)
qed

lemma lower_hex [simp]: "is_sha256_hex h \<Longrightarrow> to_lower h = h"
proof -
  have "is_lower_hex c \<Longrightarrow> lower_char c = c" for c
    by (auto simp: is_lower_hex_def lower_char_def Let_def)
  then have "list_all is_lower_hex h \<Longrightarrow> map lower_char h = h"
    by (induction h) auto
  then show "is_sha256_hex h \<Longrightarrow> to_lower h = h" by (simp add: is_sha256_hex_def to_lower_def)
qed

lemma requiredSha256_of_hex [simp]:
  "jsget r k = JStr h \<Longrightarrow> is_sha256_hex h \<Longrightarrow> requiredSha256 r k = Inr h"
proof -
  assume a: "jsget r k = JStr h" "is_sha256_hex h"
  then have "h \<noteq> []" by (auto simp: is_sha256_hex_def)
  with a show ?thesis by (simp add: requiredSha256_def)
qed

lemma strictBase64_encode [simp]:
  "jsget r k = JStr (base64_encode b) \<Longrightarrow> strictBase64 r k = Inr b"
  by (simp add: strictBase64_def)

abbreviation chunk_params :: "string \<Rightarrow> bytes \<Rightarrow> nat \<Rightarrow> params" where
  "chunk_params tid data k \<equiv>
     [(''transferId'', JStr tid), (''offset'', js_of_nat k),
      (''dataBase64'', JStr (base64_encode (chunk_at data k))),
      (''crc32'', js_of_nat (crc32 (chunk_at data k)))]"

lemma dispatch_write:
  "dispatch denv ''file_write_begin'' params g = on_files (fileWriteBegin (sim_env.truncate denv) params) g"
  "dispatch denv ''file_write_chunk'' params g = on_files (fileWriteChunk (sim_env.truncate denv) params) g"
  "dispatch denv ''file_write_commit'' params g = on_files (fileWriteCommit (sim_env.truncate denv) params) g"
  by (simp_all add: dispatch_def starts_with_def)

lemma sim_write_chunk:
  assumes o: "sim_opened denv data ov p g tid k" and k: "k < length data"
  shows "\<exists>g'. dispatch denv ''file_write_chunk'' (chunk_params tid data k) g =
      (Inr [(''nextOffset'', js_of_nat (k + length (chunk_at data k)))], g') \<and>
    sim_opened denv data ov p g' tid (k + length (chunk_at data k))"
proof -
  let ?c = "chunk_at data k" and ?e = "sim_env.truncate denv" and ?f = "sg_files g"
  obtain t m where t: "find_transfer tid ?f = Some t" "tid \<noteq> []" "wt_finalPath t = p"
      "wt_overwrite t = ov" "wt_expectedSize t = length data" "wt_expectedSha256 t = se_sha denv data"
      "wt_offset t = k" "wt_hash t = take k data"
      "node (guest_fs g) (wt_tempPath t) = Some (HFile (take k data) m)"
      "wt_tempPath t \<notin> {p, ''/''}" "wt_tempPath t \<notin> set (ancestors p)"
    using o unfolding sim_opened_def by (elim exE conjE) (rule that)
  have rest: "p \<noteq> ''/''" "\<not> is_dir (guest_fs g) p"
    "\<not> ov \<longrightarrow> node (guest_fs g) p = None \<and> \<not> obstructed (guest_fs g) p"
    "sf_failWriteChunkOnceAtOffset ?f = None" "length data \<le> MAX_WIN98_TRANSFER_BYTES"
    "is_sha256_hex (se_sha denv data)"
    using o by (simp_all add: sim_opened_def)
  have tw: "wt_id t = tid" using find_transferD [OF t(1)] by simp
  have size: "k \<le> MAX_WIN98_FILE_BYTES" using k rest(5) transfer_fits_file [of "length data"] by simp
  have cl: "k + length ?c \<le> length data" using k by simp
  have req: "requireWriteTransfer (chunk_params tid data k) ?f = (Inr t, ?f)"
    using t(1,2) by (simp add: requireWriteTransfer_Inr)
  have off: "requiredInteger (chunk_params tid data k) ''offset'' 0 MAX_WIN98_FILE_BYTES = Inr k"
    using size small_safe [OF size] by simp
  have crc: "requiredInteger (chunk_params tid data k) ''crc32'' 0 4294967295 = Inr (crc32 ?c)"
    using crc32_range [of ?c] by (simp add: max_safe_integer_def)
  have "strictBase64 (chunk_params tid data k) ''dataBase64'' = Inr ?c" by simp
  then have ck: "chunk_checks t (chunk_params tid data k) = Inr ?c"
    using crc cl t(5,7) unfolding chunk_checks_def by simp
  have run: "fileWriteChunk ?e (chunk_params tid data k) ?f =
      (Inr [(''nextOffset'', js_of_nat (k + length ?c))], accept_chunk ?e t ?c ?f)"
    unfolding fileWriteChunk_def using req off ck t(7) rest(4)
    by (simp add: bindS_def getS_def modifyS_def returnS_def del: length_take)
  let ?f' = "accept_chunk ?e t ?c ?f"
  let ?t = "t\<lparr> wt_hash := wt_hash t @ ?c, wt_offset := wt_offset t + length ?c,
      wt_prefixSha256 := se_sha ?e (wt_hash t @ ?c) \<rparr>"
  have fs': "sf_fs ?f' = fs_put (wt_tempPath t) (HFile (take (k + length ?c) data) m) (guest_fs g)"
  proof -
    have "length (take k data) = k" using k by simp
    then have "write_at (take k data) k ?c = take k data @ ?c"
      using write_at_end [of "take k data" ?c] by simp
    also have "\<dots> = take (k + length ?c) data" unfolding take_add by (simp add: min_def)
    finally show ?thesis
      using t(7,9) by (simp add: accept_chunk_def replace_transfer_def sim_write_def write_partial_def)
  qed
  have find': "find_transfer tid ?f' = Some ?t"
    unfolding accept_chunk_def
    by (rule find_replace) (use t(1) tw in \<open>simp_all add: find_transfer_def sim_write_same\<close>)
  have nd: "node (sf_fs ?f') q = node (guest_fs g) q" if "q \<noteq> wt_tempPath t" for q
    using that t(10) by (simp add: fs')
  have npt: "p \<noteq> wt_tempPath t" using t(10) by auto
  have ob: "obstructed (sf_fs ?f') p = obstructed (guest_fs g) p"
    unfolding obstructed_def list_ex_iff is_dir_def using nd t(11) by (metis (no_types, lifting))
  have "sim_opened denv data ov p (g\<lparr> sg_files := ?f' \<rparr>) tid (k + length ?c)"
    unfolding sim_opened_def
  proof (intro conjI)
    show "\<exists>t m. find_transfer tid (sg_files (g\<lparr> sg_files := ?f' \<rparr>)) = Some t \<and> tid \<noteq> [] \<and> wt_finalPath t = p \<and>
        wt_overwrite t = ov \<and> wt_expectedSize t = length data \<and>
        wt_expectedSha256 t = se_sha denv data \<and> wt_offset t = k + length ?c \<and>
        wt_hash t = take (k + length ?c) data \<and>
        node (guest_fs (g\<lparr> sg_files := ?f' \<rparr>)) (wt_tempPath t) = Some (HFile (take (k + length ?c) data) m) \<and>
        wt_tempPath t \<notin> {p, ''/''} \<and> wt_tempPath t \<notin> set (ancestors p)"
    proof (intro exI [of _ ?t] exI [of _ m] conjI)
      show "wt_hash ?t = take (k + length ?c) data"
        using t(8) unfolding take_add by (simp add: min_def)
    qed (use t find' fs' in simp_all)
    show "k + length ?c \<le> length data" by (rule cl)
    show "\<not> is_dir (guest_fs (g\<lparr> sg_files := ?f' \<rparr>)) p"
      using rest(2) npt nd [OF npt] by (simp add: is_dir_def)
    show "\<not> ov \<longrightarrow> node (guest_fs (g\<lparr> sg_files := ?f' \<rparr>)) p = None \<and> \<not> obstructed (guest_fs (g\<lparr> sg_files := ?f' \<rparr>)) p"
      using rest(3) nd [OF npt] ob by simp
    show "sf_failWriteChunkOnceAtOffset (sg_files (g\<lparr> sg_files := ?f' \<rparr>)) = None"
      using rest(4) by (simp add: accept_chunk_def replace_transfer_def sim_write_def write_partial_def split: option.splits hnode.splits)
  qed (use rest in simp_all)
  then show ?thesis using run by (simp add: dispatch_write on_files_def del: length_take)
qed

lemma sim_commit:
  assumes o: "sim_opened denv data ov p g tid (length data)"
  shows "\<exists>r g'. dispatch denv ''file_write_commit''
        [(''transferId'', JStr tid), (''sha256'', JStr (se_sha denv data))] g = (Inr r, g') \<and>
      file_bytes (guest_fs g') p = Some data"
proof -
  let ?e = "sim_env.truncate denv" and ?f = "sg_files g"
  let ?params = "[(''transferId'', JStr tid), (''sha256'', JStr (se_sha denv data))]"
  obtain t m where t: "find_transfer tid ?f = Some t" "tid \<noteq> []" "wt_finalPath t = p"
      "wt_overwrite t = ov" "wt_expectedSize t = length data" "wt_expectedSha256 t = se_sha denv data"
      "wt_offset t = length data" "wt_hash t = data"
      "node (guest_fs g) (wt_tempPath t) = Some (HFile data m)"
      "wt_tempPath t \<notin> {p, ''/''}"
    using o unfolding sim_opened_def take_all [OF order_refl] by (elim exE conjE) (rule that)
  have rest: "p \<noteq> ''/''" "\<not> is_dir (guest_fs g) p"
    "\<not> ov \<longrightarrow> node (guest_fs g) p = None \<and> \<not> obstructed (guest_fs g) p"
    "is_sha256_hex (se_sha denv data)"
    using o by (simp_all add: sim_opened_def)
  have req: "requireWriteTransfer ?params ?f = (Inr t, ?f)"
    using t(1,2) by (simp add: requireWriteTransfer_Inr)
  have sha: "requiredSha256 ?params ''sha256'' = Inr (se_sha denv data)" using rest(4) by simp
  have ck: "commit_checks ?e t ?params = Inr (se_sha denv data)"
    using sha t(5-8) by (simp add: commit_checks_def sim_env.truncate_def)
  have vac: "commit_vacant t (guest_fs g) = Inr ()"
    using rest(3) t(3,4) by (auto simp: commit_vacant_def lstat_def isMissing_def)
  let ?f' = "delete_transfer (wt_id t)
      (?f\<lparr> sf_fs := fs_put p (HFile data m) (fs_del (wt_tempPath t) (guest_fs g)) \<rparr>)"
  have ren: "sim_updfs (rename_file (wt_tempPath t) p) ?f =
      (Inr (), ?f\<lparr> sf_fs := fs_put p (HFile data m) (fs_del (wt_tempPath t) (guest_fs g)) \<rparr>)"
    using t(9) rest(2) by (simp add: sim_updfs_def rename_file_def)
  have "\<exists>r. fileWriteCommit ?e ?params ?f = (Inr r, ?f')"
    unfolding fileWriteCommit_def using req ck vac ren t(3)
    by (simp add: bindS_def liftS_def getS_def modifyS_def returnS_def)
  moreover have "file_bytes (sf_fs ?f') p = Some data"
    using rest(1) by (simp add: delete_transfer_def file_bytes_def)
  ultimately show ?thesis by (auto simp: dispatch_write on_files_def)
qed

subsection \<open>Opening a transfer\<close>

definition sim_ready ::
  "'z desk_env_scheme \<Rightarrow> string \<Rightarrow> bytes \<Rightarrow> bool \<Rightarrow> string \<Rightarrow> sim_guest \<Rightarrow> bool" where
  "sim_ready denv gp data ov p g \<longleftrightarrow>
     (let e = sim_env.truncate denv; f = sg_files g in
      gp \<noteq> [] \<and> length data \<le> MAX_WIN98_TRANSFER_BYTES \<and> is_sha256_hex (se_sha denv data) \<and>
      sim_resolve e gp = Inr p \<and> (\<exists>init n. clean (init @ [n]) \<and> p = path_of (init @ [n])) \<and>
      sim_inv e f \<and> sf_failWriteChunkOnceAtOffset f = None \<and>
      (\<exists>fs1. mkdir_p (posix_dirname p) (sf_fs f) = Inr fs1 \<and> check_destination p ov fs1 = Inr ()) \<and>
      \<not> is_dir (sf_fs f) (sim_temp_path e p (sim_transfer_id (sf_nextTransferId f))) \<and>
      (\<forall>c \<in> set (sf_writeTransfers f). matching p (length data) (se_sha denv data) ov c \<longrightarrow>
         verifyWritePartial e c f \<longrightarrow> wt_hash c = take (wt_offset c) data \<and>
           file_bytes (sf_fs f) (wt_tempPath c) = Some (wt_hash c)))"

lemma mkdir_parent_node:
  assumes c: "clean (init @ [n])" and m: "mkdir_p (posix_dirname (path_of (init @ [n]))) fs = Inr fs1"
  shows "a \<in> set (ancestors (path_of (init @ [n]))) \<Longrightarrow> node fs1 a = Some HDir"
    and "q \<notin> set (ancestors (path_of (init @ [n]))) \<Longrightarrow> node fs1 q = node fs q"
proof -
  have m': "mkdir_chain (ancestors (path_of (init @ [n]))) fs = Inr fs1"
    using m c unfolding dirname_path_of [OF c] mkdir_p_def by (simp only: path_segments_chain)
  have "mkdir_chain ps fs = Inr fs' \<Longrightarrow> a \<in> set ps \<Longrightarrow> node fs' a = Some HDir" for ps fs fs'
  proof (induction ps fs rule: mkdir_chain.induct)
    case (2 x ps fs)
    show ?case
    proof (cases "node fs x")
      case None
      then have x: "x \<noteq> ''/''" by (auto simp: node_def)
      show ?thesis
        using 2 None x mkdir_chain_node [of ps "fs_put x HDir fs" fs' a] by (cases "a = x") auto
    next
      case (Some k)
      then show ?thesis
        using 2 mkdir_chain_node [of ps fs fs' a] by (cases k; cases "a = x") auto
    qed
  qed simp
  from this [OF m'] show "a \<in> set (ancestors (path_of (init @ [n]))) \<Longrightarrow> node fs1 a = Some HDir" .
  show "q \<notin> set (ancestors (path_of (init @ [n]))) \<Longrightarrow> node fs1 q = node fs q"
    using mkdir_chain_node [OF m'] by simp
qed

lemma destination_checked:
  assumes "check_destination p ov fs1 = Inr ()" "\<forall>a \<in> set (ancestors p). node fs1 a = Some HDir"
    and same: "\<forall>q \<in> insert p (set (ancestors p)). node fs2 q = node fs1 q"
  shows "\<not> is_dir fs2 p" "\<not> ov \<longrightarrow> node fs2 p = None \<and> \<not> obstructed fs2 p"
proof -
  have "\<not> is_dir fs1 p" "\<not> ov \<longrightarrow> node fs1 p = None"
    using assms(1)
    by (auto simp: check_destination_def is_dir_def lstat_def sim_fail_def split: option.splits hnode.splits if_splits)
  moreover have "\<not> obstructed fs2 p"
    using assms(2) same by (auto simp: obstructed_def list_ex_iff is_dir_def)
  ultimately show "\<not> is_dir fs2 p" "\<not> ov \<longrightarrow> node fs2 p = None \<and> \<not> obstructed fs2 p"
    using same by (simp_all add: is_dir_def)
qed

lemma begin_new_opens:
  fixes p :: string and f :: sim_files
  defines "tid \<equiv> sim_transfer_id (sf_nextTransferId f)"
  assumes c: "clean (init @ [n])" and p: "p = path_of (init @ [n])"
    and tmp: "\<not> is_dir (sf_fs f) (sim_temp_path env p tid)" and par: "is_dir (sf_fs f) (path_of init)"
    and fresh: "find_transfer tid f = None"
  shows "\<exists>f' t. begin_new env p sz sha ov f =
      (Inr [(''transferId'', JStr tid), (''resumeOffset'', js_of_nat 0)], f') \<and>
    find_transfer tid f' = Some t \<and> wt_finalPath t = p \<and> wt_tempPath t = sim_temp_path env p tid \<and>
    wt_overwrite t = ov \<and> wt_expectedSize t = sz \<and> wt_expectedSha256 t = sha \<and> wt_offset t = 0 \<and>
    wt_hash t = [] \<and> node (sf_fs f') (sim_temp_path env p tid) = Some (HFile [] 0) \<and>
    (\<forall>q. q \<noteq> sim_temp_path env p tid \<longrightarrow> node (sf_fs f') q = node (sf_fs f) q) \<and>
    sf_failWriteChunkOnceAtOffset f' = sf_failWriteChunkOnceAtOffset f"
proof -
  let ?T = "sim_temp_path env p tid"
  have sl: "slash \<notin> set tid" unfolding tid_def by (rule sim_transfer_id_shape(2))
  note tf = sim_temp_path_facts [OF c p sl]
  let ?t = "\<lparr> wt_id = tid, wt_finalPath = p, wt_tempPath = ?T, wt_expectedSize = sz,
      wt_expectedSha256 = sha, wt_overwrite = ov, wt_offset = 0, wt_hash = [],
      wt_prefixSha256 = se_sha env [] \<rparr>"
  let ?f' = "f\<lparr> sf_nextTransferId := sf_nextTransferId f + 1,
      sf_fs := fs_put ?T (HFile [] 0) (fs_del ?T (sf_fs f)),
      sf_writeTransfers := sf_writeTransfers f @ [?t] \<rparr>"
  have "node (fs_del ?T (sf_fs f)) ?T = None" "is_dir (fs_del ?T (sf_fs f)) (posix_dirname ?T)"
    using tf par by (simp_all add: is_dir_def)
  then have "begin_new env p sz sha ov f =
      (Inr [(''transferId'', JStr tid), (''resumeOffset'', js_of_nat 0)], ?f')"
    unfolding begin_new_def Let_def tid_def [symmetric] using tmp
    by (simp add: bindS_def modifyS_def sim_updfs_def rm_force_def create_new_def returnS_def)
  moreover have "find_transfer tid ?f' = Some ?t"
    using fresh by (simp add: find_transfer_def find_snoc)
  moreover have "node (sf_fs ?f') ?T = Some (HFile [] 0)" using tf(2) by simp
  moreover have "\<forall>q. q \<noteq> ?T \<longrightarrow> node (sf_fs ?f') q = node (sf_fs f) q" using tf(2) by simp
  ultimately show ?thesis by (intro exI [of _ ?f'] exI [of _ ?t]) simp
qed

lemma sim_begin:
  assumes ready: "sim_ready denv gp data ov p g"
  shows "\<exists>r g' tid k. dispatch denv ''file_write_begin''
        [(''path'', JStr gp), (''size'', js_of_nat (length data)), (''sha256'', JStr (se_sha denv data)),
         (''overwrite'', JBool ov)] g = (Inr r, g') \<and>
      stringField r ''transferId'' = Inr tid \<and> numberField r ''resumeOffset'' = Inr k \<and>
      k \<le> length data \<and> sim_opened denv data ov p g' tid k"
proof -
  let ?e = "sim_env.truncate denv" and ?f = "sg_files g"
  let ?sha = "se_sha denv data" and ?T = "sim_temp_path (sim_env.truncate denv) p"
  let ?params = "[(''path'', JStr gp), (''size'', js_of_nat (length data)), (''sha256'', JStr ?sha),
      (''overwrite'', JBool ov)]"
  have basic: "gp \<noteq> []" "length data \<le> MAX_WIN98_TRANSFER_BYTES" "is_sha256_hex ?sha"
      "sim_resolve ?e gp = Inr p" "sim_inv ?e ?f" "sf_failWriteChunkOnceAtOffset ?f = None"
      "\<not> is_dir (sf_fs ?f) (?T (sim_transfer_id (sf_nextTransferId ?f)))"
      "\<forall>c \<in> set (sf_writeTransfers ?f). matching p (length data) ?sha ov c \<longrightarrow>
         verifyWritePartial ?e c ?f \<longrightarrow> wt_hash c = take (wt_offset c) data \<and>
           file_bytes (sf_fs ?f) (wt_tempPath c) = Some (wt_hash c)"
    using ready by (simp_all add: sim_ready_def Let_def)
  obtain init n where c: "clean (init @ [n])" "p = path_of (init @ [n])"
    using ready unfolding sim_ready_def Let_def by blast
  obtain fs1 where fs1: "mkdir_p (posix_dirname p) (sf_fs ?f) = Inr fs1" "check_destination p ov fs1 = Inr ()"
    using ready unfolding sim_ready_def Let_def by blast
  note dirs = mkdir_parent_node [OF c(1) fs1(1) [unfolded c(2)], folded c(2)]
  let ?f1 = "?f\<lparr> sf_fs := fs1 \<rparr>" and ?cs = "sf_writeTransfers ?f"
  obtain found f2 where res: "resume_candidates ?e p (length data) ?sha ov ?cs ?f1 = (found, f2)"
    by fastforce
  have ids: "\<exists>m < sf_nextTransferId ?f. i = sim_transfer_id m" if "i \<in> wt_id ` set ?cs" for i
    using basic(5) that by (auto simp: sim_inv_def transfer_ok_def)
  have sl: "slash \<notin> set i" if "i \<in> wt_id ` set ?cs" for i
    using ids [OF that] sim_transfer_id_shape(2) by auto
  note tf = sim_temp_path_facts [OF c sl]
  have dist: "distinct (map wt_id ?cs)" using basic(5) by (simp add: sim_inv_def)
  have spec: "resume_kept ?T ?cs ?f1 f2 \<and>
    (\<forall>tid k. found = Some (tid, k) \<longrightarrow> resume_hit ?e p (length data) ?sha ov ?cs ?f1 f2 tid k)"
  proof (rule resume_spec [OF res dist])
    show "\<forall>c \<in> set ?cs. find_transfer (wt_id c) ?f1 = Some c"
      using find_distinct [of ?f1] dist by simp
    show "\<forall>c \<in> set ?cs. wt_finalPath c = p \<longrightarrow> wt_tempPath c = ?T (wt_id c)"
      using basic(5) by (auto simp: sim_inv_def transfer_ok_def)
    show "inj_on ?T (wt_id ` set ?cs)"
    proof (rule inj_onI)
      fix i j
      assume ij: "i \<in> wt_id ` set ?cs" "j \<in> wt_id ` set ?cs" "?T i = ?T j"
      then show "i = j" using tf(7) [OF ij(1) sl [OF ij(2)], of ?e] by simp
    qed
    show "\<forall>c \<in> set ?cs. ?T (wt_id c) \<noteq> ''/''" using tf(2) by blast
  qed
  have kept: "node (sf_fs f2) q = node fs1 q" if "q \<in> insert p (set (ancestors p))" for q
  proof -
    have "q \<noteq> ?T i" if "i \<in> wt_id ` set ?cs" for i
      using \<open>q \<in> _\<close> tf(1,5) [OF that, of ?e] by auto
    then have "q \<notin> ?T ` wt_id ` set ?cs" by blast
    then show ?thesis using spec by (simp add: resume_kept_def)
  qed
  have same: "sf_nextTransferId f2 = sf_nextTransferId ?f" "sf_failWriteChunkOnceAtOffset f2 = None"
    using spec basic(6) by (simp_all add: resume_kept_def)
  have final: "\<not> is_dir fs p" "\<not> ov \<longrightarrow> node fs p = None \<and> \<not> obstructed fs p"
    if "\<forall>q \<in> insert p (set (ancestors p)). node fs q = node fs1 q" for fs
    by (rule destination_checked [OF fs1(2) _ that], use dirs(1) in blast)+
  have req: "requiredString ?params ''path'' = Inr gp"
      "requiredInteger ?params ''size'' 0 MAX_WIN98_FILE_BYTES = Inr (length data)"
      "requiredSha256 ?params ''sha256'' = Inr ?sha"
    using basic(1-3) transfer_fits_file [OF basic(2)] small_safe [OF transfer_fits_file [OF basic(2)]]
    by simp_all
  have run: "fileWriteBegin ?e ?params ?f =
      (case found of
         Some (tid, offset) \<Rightarrow>
           returnS [(''transferId'', JStr tid), (''resumeOffset'', js_of_nat offset)]
       | None \<Rightarrow> begin_new ?e p (length data) ?sha ov) f2"
    unfolding fileWriteBegin_def using req basic(4) fs1 res
    by (simp add: bindS_def liftS_def getS_def sim_updfs_def Let_def)
  have fields: "stringField [(''transferId'', JStr tid), (''resumeOffset'', js_of_nat k)] ''transferId'' = Inr tid"
      "k \<le> length data \<Longrightarrow>
         numberField [(''transferId'', JStr tid), (''resumeOffset'', js_of_nat k)] ''resumeOffset'' = Inr k"
    if "tid \<noteq> []" for tid k
    using that small_safe [of k] transfer_fits_file [OF basic(2)] by (simp_all add: stringField_def)
  show ?thesis
  proof (cases found)
    case None
    let ?tid = "sim_transfer_id (sf_nextTransferId f2)"
    have new: "?tid \<notin> wt_id ` set ?cs" using ids same(1) by force
    have slt: "slash \<notin> set ?tid" by (rule sim_transfer_id_shape(2))
    note tn = sim_temp_path_facts [OF c slt]
    have "?T ?tid \<noteq> ?T i" if "i \<in> wt_id ` set ?cs" for i
      using tn(7) [OF sl [OF that], of ?e] new that by auto
    then have "?T ?tid \<notin> ?T ` wt_id ` set ?cs" by blast
    then have "node (sf_fs f2) (?T ?tid) = node fs1 (?T ?tid)" using spec by (simp add: resume_kept_def)
    also have "\<dots> = node (sf_fs ?f) (?T ?tid)" using dirs(2) tn(5) by blast
    finally have a: "\<not> is_dir (sf_fs f2) (?T ?tid)" using basic(7) same(1) by (simp add: is_dir_def)
    have "path_of init \<in> set (ancestors p)" unfolding c(2) path_segments_chain [OF c(1)] by simp
    then have b: "is_dir (sf_fs f2) (path_of init)" using kept dirs(1) by (simp add: is_dir_def)
    have "find_transfer ?tid f2 = find_transfer ?tid ?f1" using spec new unfolding resume_kept_def by blast
    also have "\<dots> = None"
      unfolding find_transfer_def find_None_iff using new
      by (simp add: image_iff) (metis (no_types))
    finally have d: "find_transfer ?tid f2 = None" .
    obtain f' t where f': "begin_new ?e p (length data) ?sha ov f2 =
        (Inr [(''transferId'', JStr ?tid), (''resumeOffset'', js_of_nat 0)], f')"
      "find_transfer ?tid f' = Some t" "wt_finalPath t = p" "wt_tempPath t = ?T ?tid"
      "wt_overwrite t = ov" "wt_expectedSize t = length data" "wt_expectedSha256 t = ?sha" "wt_offset t = 0"
      "wt_hash t = []" "node (sf_fs f') (?T ?tid) = Some (HFile [] 0)"
      "\<forall>q. q \<noteq> ?T ?tid \<longrightarrow> node (sf_fs f') q = node (sf_fs f2) q"
      "sf_failWriteChunkOnceAtOffset f' = sf_failWriteChunkOnceAtOffset f2"
      using begin_new_opens [OF c a b d, of "length data" ?sha ov] by (elim exE conjE) (rule that)
    have "\<forall>q \<in> insert p (set (ancestors p)). node (sf_fs f') q = node fs1 q"
    proof
      fix q
      assume q: "q \<in> insert p (set (ancestors p))"
      then have "q \<noteq> ?T ?tid" using tn(1,5) [of ?e] by auto
      then show "node (sf_fs f') q = node fs1 q" using f'(11) kept [OF q] by simp
    qed
    note fin = final [OF this]
    have "sim_opened denv data ov p (g\<lparr> sg_files := f' \<rparr>) ?tid 0"
      unfolding sim_opened_def
      using f'(2-10,12) fin tn(1,2,5) [of ?e] tn(3) same(2) basic(2,3) sim_transfer_id_shape(1) by simp
    moreover have "dispatch denv ''file_write_begin'' ?params g =
        (Inr [(''transferId'', JStr ?tid), (''resumeOffset'', js_of_nat 0)], g\<lparr> sg_files := f' \<rparr>)"
      using run None f'(1) by (simp add: dispatch_write on_files_def)
    ultimately show ?thesis using fields [OF sim_transfer_id_shape(1)] by blast
  next
    case (Some ik)
    obtain tid k where ik: "ik = (tid, k)" by fastforce
    obtain t where t: "t \<in> set ?cs" "tid = wt_id t" "k = wt_offset t" "matching p (length data) ?sha ov t"
        "find_transfer tid f2 = Some t" "node (sf_fs f2) (wt_tempPath t) = node fs1 (wt_tempPath t)"
        "verifyWritePartial ?e t ?f1"
      using spec Some ik by (auto simp: resume_hit_def)
    have ok: "transfer_ok ?e (sf_nextTransferId ?f) t" using basic(5) t(1) by (simp add: sim_inv_def)
    have m: "wt_finalPath t = p" "wt_expectedSize t = length data" "wt_expectedSha256 t = ?sha"
      "wt_overwrite t = ov" using t(4) by (simp_all add: matching_def)
    have tmp: "wt_tempPath t = ?T tid" using ok m(1) t(2) by (simp add: transfer_ok_def)
    have tin: "tid \<in> wt_id ` set ?cs" using t(1,2) by simp
    have tne: "tid \<noteq> []" using ids [OF tin] sim_transfer_id_shape(1) by auto
    have n1: "node fs1 (wt_tempPath t) = node (sf_fs ?f) (wt_tempPath t)"
      using dirs(2) tf(5) [OF tin] unfolding tmp by blast
    then have "verifyWritePartial ?e t ?f" using t(7) verify_node [of ?f1 t ?f ?e] by simp
    then have h: "wt_hash t = take k data" "file_bytes (sf_fs ?f) (wt_tempPath t) = Some (take k data)"
      using basic(8) t(1,3,4) by simp_all
    then obtain mt where "node (sf_fs f2) (wt_tempPath t) = Some (HFile (take k data) mt)"
      using t(6) n1 by (auto simp: file_bytes_def split: option.splits hnode.splits)
    moreover have kd: "k \<le> length data" using ok m(2) t(3) by (simp add: transfer_ok_def)
    moreover have "\<forall>q \<in> insert p (set (ancestors p)). node (sf_fs f2) q = node fs1 q" using kept by blast
    note fin = final [OF this]
    ultimately have "sim_opened denv data ov p (g\<lparr> sg_files := f2 \<rparr>) tid k"
      unfolding sim_opened_def
      using t(3,5) m tmp tf(1,2,5) [OF tin, of ?e] tf(3) [OF tin] tne h(1) fin same(2) basic(2,3)
      by simp
    moreover have "dispatch denv ''file_write_begin'' ?params g =
        (Inr [(''transferId'', JStr tid), (''resumeOffset'', js_of_nat k)], g\<lparr> sg_files := f2 \<rparr>)"
      using run Some ik by (simp add: dispatch_write on_files_def returnS_def)
    ultimately show ?thesis using fields [OF tne] kd by blast
  qed
qed

subsection \<open>The interface, provided by the simulated guest\<close>

definition sim_willing ::
  "'z desk_env_scheme \<Rightarrow> string \<Rightarrow> bytes \<Rightarrow> bool \<Rightarrow> string \<Rightarrow> sim_guest \<Rightarrow> bool" where
  "sim_willing denv gp data ov p g \<longleftrightarrow>
     (if win32_dirname gp = gp then sim_ready denv gp data ov p g
      else case dispatch denv ''fs_mkdir''
             [(''path'', JStr (win32_dirname gp)), (''recursive'', JBool True)] g of
             (Inl _, _) \<Rightarrow> False
           | (Inr _, g') \<Rightarrow> sim_ready denv gp data ov p g')"

interpretation sim_writer: guest_writer "sim_xenv denv timeout parse stringify cwd" sid gp data ov
  "sim_willing denv gp data ov p" "sim_ready denv gp data ov p" "sim_opened denv data ov p"
  "\<lambda>g. file_bytes (guest_fs g) p = Some data"
  for denv :: "'z desk_env_scheme" and timeout parse stringify cwd sid gp data ov p
proof (unfold_locales, goal_cases)
  case (1 s)
  let ?params = "[(''path'', JStr (win32_dirname gp)), (''recursive'', JBool True)]"
  obtain r g where d: "dispatch denv ''fs_mkdir'' ?params (tc_guest s) = (Inr r, g)"
    and g: "sim_ready denv gp data ov p g"
    using 1 unfolding sim_willing_def by (auto split: prod.splits sum.splits)
  show ?case using sim_guestOk [OF d, of timeout parse stringify cwd sid] g by blast
next
  case (2 g)
  then show ?case by (simp add: sim_willing_def)
next
  case (3 s)
  from sim_begin [OF 3] obtain r g tid k where
    d: "dispatch denv ''file_write_begin''
        [(''path'', JStr gp), (''size'', js_of_nat (length data)), (''sha256'', JStr (se_sha denv data)),
         (''overwrite'', JBool ov)] (tc_guest s) = (Inr r, g)"
    and o: "stringField r ''transferId'' = Inr tid" "numberField r ''resumeOffset'' = Inr k"
      "k \<le> length data" "sim_opened denv data ov p g tid k"
    by (elim exE conjE) (rule that)
  have sha: "x_sha (sim_xenv denv timeout parse stringify cwd) data = se_sha denv data"
    by (simp add: sim_xenv_def)
  show ?case unfolding sha
    using sim_guestOk [OF d, of timeout parse stringify cwd sid] o by blast
next
  case (4 s tid k)
  from sim_write_chunk [OF 4] obtain g where
    d: "dispatch denv ''file_write_chunk'' (chunk_params tid data k) (tc_guest s) =
      (Inr [(''nextOffset'', js_of_nat (k + length (chunk_at data k)))], g)"
    and o: "sim_opened denv data ov p g tid (k + length (chunk_at data k))" by blast
  have "k + length (chunk_at data k) \<le> length data" "length data \<le> MAX_WIN98_FILE_BYTES"
    using 4 transfer_fits_file [of "length data"] by (simp_all add: sim_opened_def)
  then have "numberField [(''nextOffset'', js_of_nat (k + length (chunk_at data k)))] ''nextOffset'' =
      Inr (k + length (chunk_at data k))"
    using small_safe [of "k + length (chunk_at data k)"] by (simp del: length_take)
  then show ?case using sim_guestOk [OF d, of timeout parse stringify cwd sid] o by blast
next
  case (5 s tid)
  from sim_commit [OF 5] obtain r g where
    d: "dispatch denv ''file_write_commit''
        [(''transferId'', JStr tid), (''sha256'', JStr (se_sha denv data))] (tc_guest s) = (Inr r, g)"
    and o: "file_bytes (guest_fs g) p = Some data" by blast
  have sha: "x_sha (sim_xenv denv timeout parse stringify cwd) data = se_sha denv data"
    by (simp add: sim_xenv_def)
  show ?case unfolding sha
    using sim_guestOk [OF d, of timeout parse stringify cwd sid] o by blast
qed

text \<open>
  C5. Pushing a regular host file of at most 300 MiB to a simulated guest that
  accepts the destination ends without an error, and the guest then holds exactly the host's bytes
  there. An earlier attempt may have been interrupted at any chunk: the transfer resumes at the
  checkpoint, if its digest still fits, and the result is the same.
\<close>

theorem sim_push_delivers:
  assumes "sim_willing denv gp data ov p (tc_guest s)"
    and "node (tc_fs s) path = Some (HFile data t)" "length data \<le> MAX_WIN98_TRANSFER_BYTES"
    and "\<not> cancelled opid s"
  shows "\<exists>chunks sm' s'. pushOneFile (sim_xenv denv timeout parse stringify cwd) sid opid path gp ov upd sm s =
        (Inr (\<lparr> tr_bytes = length data, tr_chunks = chunks, tr_sha256 = se_sha denv data \<rparr>, sm'), s') \<and>
      file_bytes (guest_fs (tc_guest s')) p = Some data \<and> tc_fs s' = tc_fs s"
  using sim_writer.pushOneFile_delivers [OF assms] by (simp add: sim_xenv_def)

text \<open>A guest that holds two of the three bytes of an interrupted push.\<close>

definition demo_interrupted :: sim_guest where
  "demo_interrupted = (new_sim_guest [])\<lparr> sg_files :=
     \<lparr> sf_fs = [(''/g'', HDir), (sim_temp_path (sim_env.truncate demo_denv) ''/g/F'' (sim_transfer_id 1), HFile [1, 2] 0)],
       sf_writeTransfers =
         [\<lparr> wt_id = sim_transfer_id 1, wt_finalPath = ''/g/F'', wt_tempPath = sim_temp_path (sim_env.truncate demo_denv) ''/g/F'' (sim_transfer_id 1), wt_expectedSize = 3,
            wt_expectedSha256 = demo_sha [1, 2, 3], wt_overwrite = True, wt_offset = 2,
            wt_hash = [1, 2], wt_prefixSha256 = demo_sha [1, 2] \<rparr>],
       sf_nextTransferId = 2, sf_failWriteChunkOnceAtOffset = None \<rparr> \<rparr>"

definition demo_push_host :: "sim_guest coordinator" where
  "demo_push_host = \<lparr> tc_guest = demo_interrupted, tc_fs = [(''/h'', HFile [1, 2, 3] 9)],
     tc_active = [], tc_destinations = [], tc_retained = [], tc_events = [] \<rparr>"

lemma demo_mkdir:
  "dispatch demo_denv ''fs_mkdir'' [(''path'', JStr ''C:/''), (''recursive'', JBool True)] demo_interrupted =
     (Inr [(''created'', JBool True)], demo_interrupted)"
proof -
  have r: "sim_resolve (sim_env.truncate demo_denv) ''C:/'' = Inr ''/g''" by code_simp
  have "mkdir_p ''/g'' (sf_fs (sg_files demo_interrupted)) = Inr (sf_fs (sg_files demo_interrupted))"
    by code_simp
  then have "handleFilesystem (sim_env.truncate demo_denv) ''fs_mkdir''
      [(''path'', JStr ''C:/''), (''recursive'', JBool True)] (sg_files demo_interrupted) =
     (Inr [(''created'', JBool True)], sg_files demo_interrupted)"
    using r by (simp add: handleFilesystem_def coalesce_def bindS_def liftS_def sim_updfs_def returnS_def)
  then show ?thesis by (simp add: dispatch_def starts_with_def on_files_def)
qed

lemma demo_willing: "sim_willing demo_denv ''C:/F'' [1, 2, 3] True ''/g/F'' demo_interrupted"
proof -
  let ?e = "sim_env.truncate demo_denv" and ?f = "sg_files demo_interrupted"
  have dir: "win32_dirname ''C:/F'' = ''C:/''" by code_simp
  have path: "clean ([''g''] @ [''F''])" "''/g/F'' = path_of ([''g''] @ [''F''])" by code_simp+
  have res: "sim_resolve ?e ''C:/F'' = Inr ''/g/F''" by code_simp
  have hex: "is_sha256_hex (se_sha demo_denv [1, 2, 3])" by code_simp
  have mk: "case mkdir_p (posix_dirname ''/g/F'') (sf_fs ?f) of Inl _ \<Rightarrow> False
      | Inr fs1 \<Rightarrow> check_destination ''/g/F'' True fs1 = Inr ()" by code_simp
  have "demo_sha [1, 2, 3] = se_sha demo_denv [1, 2, 3]" "demo_sha [1, 2] = se_sha ?e [1, 2]"
    by (simp_all add: demo_denv_def sim_env.truncate_def)
  then have inv: "sim_inv ?e ?f"
    using hex by (auto simp: sim_inv_def transfer_ok_def demo_interrupted_def MAX_WIN98_FILE_BYTES_def
      intro: exI [of _ 1])
  have tmp: "\<not> is_dir (sf_fs ?f) (sim_temp_path ?e ''/g/F'' (sim_transfer_id (sf_nextTransferId ?f)))"
    by code_simp
  have "file_bytes (sf_fs ?f) (sim_temp_path ?e ''/g/F'' (sim_transfer_id 1)) = Some [1, 2]" by code_simp
  then have part: "\<forall>c \<in> set (sf_writeTransfers ?f). wt_hash c = take (wt_offset c) [1, 2, 3] \<and>
      file_bytes (sf_fs ?f) (wt_tempPath c) = Some (wt_hash c)"
    by (simp add: demo_interrupted_def)
  have "sf_failWriteChunkOnceAtOffset ?f = None" by (simp add: demo_interrupted_def)
  moreover have "\<exists>fs1. mkdir_p (posix_dirname ''/g/F'') (sf_fs ?f) = Inr fs1 \<and>
      check_destination ''/g/F'' True fs1 = Inr ()" using mk by (auto split: sum.splits)
  moreover have "length [1 :: 8 word, 2, 3] \<le> MAX_WIN98_TRANSFER_BYTES"
    by (simp add: MAX_WIN98_TRANSFER_BYTES_def)
  moreover have "\<exists>init n. clean (init @ [n]) \<and> ''/g/F'' = path_of (init @ [n])"
    using path by (intro exI conjI)
  ultimately have "sim_ready demo_denv ''C:/F'' [1, 2, 3] True ''/g/F'' demo_interrupted"
    unfolding sim_ready_def Let_def using res hex inv tmp part by simp
  then show ?thesis unfolding sim_willing_def dir demo_mkdir by simp
qed

theorem sim_push_delivers_witness:
  "file_bytes (guest_fs (tc_guest (snd (pushOneFile demo_sim_env ''s'' ''op'' ''/h'' ''C:/F'' True
     (\<lambda>sm _ _. sm) (emptyProgress [] [] []) demo_push_host)))) ''/g/F'' = Some [1, 2, 3]"
proof -
  have "sim_willing demo_denv ''C:/F'' [1, 2, 3] True ''/g/F'' (tc_guest demo_push_host)"
    using demo_willing by (simp add: demo_push_host_def)
  moreover have "node (tc_fs demo_push_host) ''/h'' = Some (HFile [1, 2, 3] 9)"
    by (simp add: demo_push_host_def node_def)
  moreover have "length [1 :: 8 word, 2, 3] \<le> MAX_WIN98_TRANSFER_BYTES"
    by (simp add: MAX_WIN98_TRANSFER_BYTES_def)
  moreover have "\<not> cancelled ''op'' demo_push_host" by (simp add: demo_push_host_def cancelled_def)
  ultimately show ?thesis
    using sim_push_delivers [of demo_denv "''C:/F''" "[1, 2, 3]" True "''/g/F''" demo_push_host
        "''/h''" 9 "''op''" 1000 "\<lambda>_. None" "\<lambda>_. []" "''/''" "''s''" "\<lambda>sm _ _. sm" "emptyProgress [] [] []"]
    unfolding demo_sim_env_def [symmetric] by auto
qed

end
