(* ===== verification/Messages.thy ===== *)
theory Messages
  imports Protocol Transfers Js_Number
begin

text \<open>
  The messages of the broker (end of \<open>src/host/broker.ts\<close>): the guards that decide which JSON
  values are accepted as hello, request, response, capabilities or stream descriptor, the
  capability test of a method, the codes and remediations of an error, and the time limits of a
  guest request, computed in the arithmetic of JavaScript numbers.
\<close>

subsection \<open>Guards\<close>

definition member :: "js \<Rightarrow> string \<Rightarrow> js" where
  "member v k = (case v of JObj r \<Rightarrow> jsget r k | _ \<Rightarrow> JUndef)"

definition is_kind :: "js \<Rightarrow> string \<Rightarrow> bool" where
  "is_kind v k \<longleftrightarrow> member v ''kind'' = JStr k"

definition isBrokerHello :: "js \<Rightarrow> bool" where
  "isBrokerHello v \<longleftrightarrow>
     is_record v \<and> is_kind v ''broker_hello'' \<and>
     (case member v ''sessionId'' of JStr s \<Rightarrow> 8 \<le> length s | _ \<Rightarrow> False) \<and>
     (case member v ''sessionLabel'' of JStr s \<Rightarrow> 0 < length s | _ \<Rightarrow> False)"

definition isBrokerRequest :: "js \<Rightarrow> bool" where
  "isBrokerRequest v \<longleftrightarrow>
     is_record v \<and> is_kind v ''broker_request'' \<and> is_string (member v ''id'') \<and>
     is_string (member v ''sessionId'') \<and> is_string (member v ''sessionLabel'') \<and>
     is_string (member v ''method'') \<and> is_record (member v ''params'')"

definition isGuestResponse :: "js \<Rightarrow> bool" where
  "isGuestResponse v \<longleftrightarrow>
     is_record v \<and> is_kind v ''response'' \<and> is_string (member v ''requestId'') \<and>
     is_boolean (member v ''ok'') \<and> is_string (member v ''code'') \<and> is_string (member v ''message'')"

definition isCapabilities :: "js \<Rightarrow> bool" where
  "isCapabilities v \<longleftrightarrow>
     is_record v \<and>
     list_all (\<lambda>k. is_string (member v k)) [''guestId'', ''guestBuildId'', ''osName'', ''osVersion''] \<and>
     member v ''protocolVersion'' = js_of_int PROTOCOL_VERSION \<and>
     list_all (\<lambda>k. is_number (member v k))
       [''ansiCodePage'', ''oemCodePage'', ''screenWidth'', ''screenHeight'', ''colorDepth'', ''maxPath'',
        ''maxFileBytes''] \<and>
     list_all (\<lambda>k. is_boolean (member v k)) [''supportsLongFileNames'', ''supportsMouseWheel''] \<and>
     (case member v ''commands'' of JArr cs \<Rightarrow> list_all is_string cs | _ \<Rightarrow> False)"

definition isBinaryDescriptor :: "js \<Rightarrow> bool" where
  "isBinaryDescriptor v \<longleftrightarrow>
     is_record v \<and> js_integer (member v ''streamId'') \<noteq> None \<and>
     (member v ''mimeType'' = JUndef \<or> is_string (member v ''mimeType'')) \<and>
     (member v ''totalBytes'' = JUndef \<or> js_integer (member v ''totalBytes'') \<noteq> None) \<and>
     (member v ''sha256'' = JUndef \<or> is_string (member v ''sha256''))"

definition string_member :: "js \<Rightarrow> string \<Rightarrow> string" where
  "string_member v k = (case member v k of JStr s \<Rightarrow> s | _ \<Rightarrow> [])"

text \<open>What a response that passed \<open>isGuestResponse\<close> says.\<close>

definition response_of :: "js \<Rightarrow> guest_response" where
  "response_of v =
     \<lparr> gr_ok = (member v ''ok'' = JBool True), gr_code = string_member v ''code'',
       gr_message = string_member v ''message'', gr_data = member v ''data'' \<rparr>"

definition commands_of :: "js \<Rightarrow> string list" where
  "commands_of caps =
     (case member caps ''commands'' of
        JArr cs \<Rightarrow> List.map_filter (\<lambda>c. case c of JStr s \<Rightarrow> Some s | _ \<Rightarrow> None) cs
      | _ \<Rightarrow> [])"

definition capability_group :: "string \<Rightarrow> string" where
  "capability_group meth =
     (if starts_with meth ''mouse_'' then ''mouse''
      else if starts_with meth ''keyboard_'' then ''keyboard''
      else if starts_with meth ''clipboard_'' then ''clipboard''
      else if starts_with meth ''window_'' then ''windows''
      else if starts_with meth ''shell_'' then ''shell''
      else if starts_with meth ''process_'' then ''processes''
      else if starts_with meth ''fs_'' \<or> starts_with meth ''file_'' \<or> starts_with meth ''directory_''
      then ''filesystem''
      else if starts_with meth ''system_'' then ''system''
      else meth)"

definition capabilitySupports :: "string list \<Rightarrow> string \<Rightarrow> bool" where
  "capabilitySupports commands meth \<longleftrightarrow>
     List.member commands meth \<or> List.member commands (capability_group meth) \<or>
     (meth = ''input_batch'' \<and> List.member commands ''mouse'' \<and> List.member commands ''keyboard'')"

definition remediationForCode :: "string \<Rightarrow> string option" where
  "remediationForCode code =
     (if code = ''CHARACTER_NOT_REPRESENTABLE''
      then Some ''Use clipboard_set followed by Ctrl+V, or type text supported by the guest code page.''
      else if code = ''NEEDS_ATTENTION''
      then Some ''Inspect the attached screenshot and continue with mouse or keyboard tools.''
      else None)"

definition UNLOCK_REMINDER :: string where
  "UNLOCK_REMINDER =
     ''VM remains locked by this session; call vm_unlock when finished.''"

definition addUnlockReminder :: "js \<Rightarrow> js" where
  "addUnlockReminder data =
     (case data of
        JObj r \<Rightarrow> JObj (jsput ''unlockReminder'' (JStr UNLOCK_REMINDER) r)
      | _ \<Rightarrow> JObj [(''value'', data), (''unlockReminder'', JStr UNLOCK_REMINDER)])"

subsection \<open>Arithmetic on numbers\<close>

fun num_add :: "jsnum \<Rightarrow> jsnum \<Rightarrow> jsnum" where
  "num_add (Fin a) (Fin b) = to_double (a + b)"
| "num_add NaN _ = NaN"
| "num_add _ NaN = NaN"
| "num_add PInf NInf = NaN"
| "num_add NInf PInf = NaN"
| "num_add PInf _ = PInf"
| "num_add _ PInf = PInf"
| "num_add NInf _ = NInf"
| "num_add _ NInf = NInf"

definition inf_of :: "bool \<Rightarrow> jsnum" where
  "inf_of positive = (if positive then PInf else NInf)"

fun num_mul :: "jsnum \<Rightarrow> jsnum \<Rightarrow> jsnum" where
  "num_mul (Fin a) (Fin b) = to_double (a * b)"
| "num_mul NaN _ = NaN"
| "num_mul _ NaN = NaN"
| "num_mul (Fin a) PInf = (if a = 0 then NaN else inf_of (a > 0))"
| "num_mul (Fin a) NInf = (if a = 0 then NaN else inf_of (a < 0))"
| "num_mul PInf (Fin b) = (if b = 0 then NaN else inf_of (b > 0))"
| "num_mul NInf (Fin b) = (if b = 0 then NaN else inf_of (b < 0))"
| "num_mul PInf PInf = PInf"
| "num_mul NInf NInf = PInf"
| "num_mul PInf NInf = NInf"
| "num_mul NInf PInf = NInf"

fun num_le :: "jsnum \<Rightarrow> jsnum \<Rightarrow> bool" where
  "num_le (Fin a) (Fin b) = (a \<le> b)"
| "num_le NaN _ = False"
| "num_le _ NaN = False"
| "num_le NInf _ = True"
| "num_le _ PInf = True"
| "num_le _ _ = False"

text \<open>\<open>Math.max\<close> and \<open>Math.min\<close>: NaN if either is; \<open>Math.floor\<close>.\<close>

definition num_max :: "jsnum \<Rightarrow> jsnum \<Rightarrow> jsnum" where
  "num_max a b = (if a = NaN \<or> b = NaN then NaN else if num_le a b then b else a)"

definition num_min :: "jsnum \<Rightarrow> jsnum \<Rightarrow> jsnum" where
  "num_min a b = (if a = NaN \<or> b = NaN then NaN else if num_le a b then a else b)"

fun num_floor :: "jsnum \<Rightarrow> jsnum" where
  "num_floor (Fin q) = Fin (of_int \<lfloor>q\<rfloor>)"
| "num_floor n = n"

subsection \<open>Time limits\<close>

definition finiteNonnegative :: "js \<Rightarrow> jsnum" where
  "finiteNonnegative v = (case v of JNum (Fin q) \<Rightarrow> num_max (Fin 0) (Fin q) | _ \<Rightarrow> Fin 0)"

definition boundedNumber :: "js \<Rightarrow> jsnum \<Rightarrow> jsnum \<Rightarrow> jsnum \<Rightarrow> jsnum" where
  "boundedNumber v fallback lo hi =
     (case v of JNum (Fin q) \<Rightarrow> num_max lo (num_min hi (Fin q)) | _ \<Rightarrow> fallback)"

definition number_or :: "js \<Rightarrow> jsnum \<Rightarrow> jsnum" where
  "number_or v d = (if is_number v then finiteNonnegative v else d)"

definition text_of :: "js \<Rightarrow> string" where
  "text_of v = (case v of JStr s \<Rightarrow> s | _ \<Rightarrow> [])"

definition num_nat :: "nat \<Rightarrow> jsnum" where
  "num_nat n = Fin (of_nat n)"

definition clicks_ms :: "jsnum \<Rightarrow> jsnum \<Rightarrow> jsnum" where
  "clicks_ms clicks interval = num_mul (num_max (Fin 0) (num_add clicks (Fin (- 1)))) interval"

definition action_ms :: "js \<Rightarrow> jsnum" where
  "action_ms v =
     (if \<not> is_record v \<or> \<not> is_string (member v ''type'') then Fin 0
      else
        let type = string_member v ''type'' in
        if type = ''delay'' then finiteNonnegative (member v ''milliseconds'')
        else if type = ''mouse_move'' \<or> type = ''mouse_drag''
        then number_or (member v ''duration_ms'') (if type = ''mouse_drag'' then Fin 500 else Fin 0)
        else if type = ''mouse_click''
        then clicks_ms (number_or (member v ''click_count'') (Fin 1))
               (number_or (member v ''interval_ms'') (Fin 100))
        else if type = ''keyboard_type''
        then num_mul (num_nat (length (text_of (member v ''text''))))
               (number_or (member v ''interval_ms'') (Fin 10))
        else Fin 0)"

definition estimateGuestOperationMs :: "string \<Rightarrow> params \<Rightarrow> jsnum" where
  "estimateGuestOperationMs meth params =
     (if meth = ''mouse_move'' \<or> meth = ''mouse_drag''
      then finiteNonnegative (jsget params ''duration_ms'')
      else if meth = ''mouse_click'' then
        (let c = finiteNonnegative (jsget params ''click_count'');
             clicks = (if c = Fin 0 then Fin 1 else c)
         in clicks_ms clicks (finiteNonnegative (jsget params ''interval_ms'')))
      else if meth = ''keyboard_type'' then
        num_mul (num_nat (length (text_of (jsget params ''text''))))
          (number_or (jsget params ''interval_ms'') (Fin 10))
      else if meth \<noteq> ''input_batch'' then Fin 0
      else
        case jsget params ''actions'' of
          JArr acts \<Rightarrow> foldl (\<lambda>t a. num_add t (action_ms a)) (Fin 0) acts
        | _ \<Rightarrow> Fin 0)"

definition requestTimeout :: "string \<Rightarrow> params \<Rightarrow> jsnum \<Rightarrow> jsnum" where
  "requestTimeout meth params defaultTimeout =
     (let requested = (case jsget params ''timeout_ms'' of JNum n \<Rightarrow> n | _ \<Rightarrow> Fin 0);
          longPoll = (if meth = ''shell_read''
                      then (case jsget params ''wait_ms'' of JNum n \<Rightarrow> n | _ \<Rightarrow> Fin 0) else Fin 0);
          estimated = estimateGuestOperationMs meth params
      in num_max defaultTimeout
           (num_min (Fin 3600000)
             (num_floor (num_add (num_max (num_max requested longPoll) estimated) (Fin 5000)))))"

end
