(* ===== verification/Guest_Link.thy ===== *)
theory Guest_Link
  imports Messages Incoming_Streams
begin

text \<open>
  The broker's end of the guest connection: \<open>GuestConnection\<close> of \<open>src/host/broker.ts\<close>. Each method,
  socket event and timer callback is a function of the state that returns the new state and its
  effects in order: bytes handed to the socket, the destruction of the socket, promises settled,
  the callbacks \<open>onState\<close> and \<open>onClose\<close>. Promises are numbers. A frame that was decoded waits in
  \<open>gl_frames\<close>, the promise chain \<open>frameChain\<close>, until \<open>run_frame\<close> handles it. JSON text and the
  epoch counter of the broker are arguments.
\<close>

subsection \<open>State\<close>

record connection_snapshot =
  cs_state :: string
  cs_epoch :: int
  cs_connectedAt :: "int option"
  cs_lastSeenAt :: "int option"
  cs_guestBuildId :: "string option"
  cs_remoteAddress :: "string option"
  cs_offlineReason :: "string option"

record pending_request =
  pq_id :: string
  pq_method :: string
  pq_promise :: nat
  pq_deadline :: int

record queued_request =
  qr_sessionId :: string
  qr_method :: string
  qr_params :: params
  qr_timeout :: int
  qr_promise :: nat

record guest_link =
  gl_ready :: bool
  gl_closed :: bool
  gl_writable :: bool
  gl_lastSeenAt :: int
  gl_decoder :: bytes
  gl_shaken :: bool
  gl_txSequence :: int
  gl_rxSequence :: int
  gl_nextStreamId :: int
  gl_pending :: "pending_request list"
  gl_advisory :: "queued_request list"
  gl_advisoryBusy :: "nat option"
  gl_frames :: "decoded_frame list"
  gl_streams :: registry
  gl_handshakeTimer :: "int option"
  gl_epoch :: int
  gl_capabilities :: js
  gl_remoteAddress :: "string option"

datatype link_effect =
    LkWrite bytes
  | LkDestroy
  | LkResolve nat guest_response
  | LkReject nat string
  | LkState connection_snapshot js
  | LkWake "nat list"
  | LkClosed

record link_env =
  le_parse :: "bytes \<Rightarrow> js option"
  le_stringify :: "js \<Rightarrow> bytes"

type_synonym link_result = "guest_link \<times> link_effect list"

text \<open>The constructor followed by \<open>start\<close>.\<close>

definition link_start :: "int \<Rightarrow> int \<Rightarrow> nat \<Rightarrow> string option \<Rightarrow> guest_link" where
  "link_start now connectTimeout maxArtifactBytes remote =
     \<lparr> gl_ready = False, gl_closed = False, gl_writable = True, gl_lastSeenAt = now, gl_decoder = [],
       gl_shaken = False, gl_txSequence = 1, gl_rxSequence = 1, gl_nextStreamId = 1, gl_pending = [],
       gl_advisory = [], gl_advisoryBusy = None, gl_frames = [],
       gl_streams = new_registry maxArtifactBytes DEFAULT_MAX_UNCLAIMED_STREAMS,
       gl_handshakeTimer = Some (now + connectTimeout), gl_epoch = 0, gl_capabilities = JUndef,
       gl_remoteAddress = remote \<rparr>"

definition hasPendingRequests :: "guest_link \<Rightarrow> bool" where
  "hasPendingRequests l \<longleftrightarrow> gl_pending l \<noteq> []"

subsection \<open>Sending\<close>

definition link_write :: "bytes \<Rightarrow> guest_link \<Rightarrow> (string + link_effect list)" where
  "link_write buffer l =
     (if gl_closed l \<or> \<not> gl_writable l then Inl ''GUEST_SOCKET_CLOSED'' else Inr [LkWrite buffer])"

text \<open>The sequence number is taken before the frame is encoded and written.\<close>

definition sendFrame ::
  "frame_type \<Rightarrow> int \<Rightarrow> bytes \<Rightarrow> guest_link \<Rightarrow> (string + link_effect list) \<times> guest_link" where
  "sendFrame t streamId payload l =
     (bindR (encodeFrame (frame_code t) 0 streamId (gl_txSequence l) payload) (\<lambda>b. link_write b l),
      l\<lparr> gl_txSequence := gl_txSequence l + 1 \<rparr>)"

definition link_destroy :: "guest_link \<Rightarrow> link_result" where
  "link_destroy l = (l\<lparr> gl_writable := False \<rparr>, [LkDestroy])"

definition link_fail :: "guest_link \<Rightarrow> link_result" where
  "link_fail l = (if gl_closed l then (l, []) else link_destroy l)"

definition request_json :: "string \<Rightarrow> string \<Rightarrow> string \<Rightarrow> params \<Rightarrow> js" where
  "request_json requestId sessionId meth params =
     JObj [(''kind'', JStr ''request''), (''requestId'', JStr requestId), (''sessionId'', JStr sessionId),
       (''method'', JStr meth), (''params'', JObj params)]"

definition requestNow ::
  "link_env \<Rightarrow> int \<Rightarrow> string \<Rightarrow> string \<Rightarrow> string \<Rightarrow> params \<Rightarrow> int \<Rightarrow> nat \<Rightarrow> guest_link \<Rightarrow> link_result" where
  "requestNow env now fresh sessionId meth params timeoutMs promise l =
     (if \<not> gl_ready l \<or> gl_closed l then (l, [LkReject promise ''GUEST_NOT_CONNECTED''])
      else
        let entry = \<lparr> pq_id = fresh, pq_method = meth, pq_promise = promise,
                      pq_deadline = now + timeoutMs \<rparr>;
            l1 = l\<lparr> gl_pending := filter (\<lambda>p. pq_id p \<noteq> fresh) (gl_pending l) @ [entry],
                    gl_nextStreamId := gl_nextStreamId l + 1 \<rparr>
        in case sendFrame Request (gl_nextStreamId l)
                  (le_stringify env (request_json fresh sessionId meth params)) l1 of
             (Inr effects, l2) \<Rightarrow> (l2, effects)
           | (Inl e, l2) \<Rightarrow>
               (l2\<lparr> gl_pending := filter (\<lambda>p. pq_id p \<noteq> fresh) (gl_pending l2) \<rparr>, [LkReject promise e]))"

text \<open>
  \<open>request\<close>. Without locking, requests other than the two that clean up wait for their turn in
  \<open>advisoryRequestChain\<close>; \<open>advisory_next\<close> starts the first one when none is running.
\<close>

definition link_request ::
  "link_env \<Rightarrow> bool \<Rightarrow> int \<Rightarrow> string \<Rightarrow> string \<Rightarrow> string \<Rightarrow> params \<Rightarrow> int \<Rightarrow> nat \<Rightarrow> guest_link \<Rightarrow> link_result" where
  "link_request env lockingEnabled now fresh sessionId meth params timeoutMs promise l =
     (if \<not> lockingEnabled \<and> meth \<noteq> ''session_abort'' \<and> meth \<noteq> ''sanitize''
      then (l\<lparr> gl_advisory := gl_advisory l @
                 [\<lparr> qr_sessionId = sessionId, qr_method = meth, qr_params = params,
                    qr_timeout = timeoutMs, qr_promise = promise \<rparr>] \<rparr>, [])
      else requestNow env now fresh sessionId meth params timeoutMs promise l)"

definition settled :: "link_effect list \<Rightarrow> nat list" where
  "settled effects =
     List.map_filter (\<lambda>e. case e of LkResolve p _ \<Rightarrow> Some p | LkReject p _ \<Rightarrow> Some p | _ \<Rightarrow> None) effects"

text \<open>A settled promise lets the advisory chain go on.\<close>

definition advisory_done :: "link_effect list \<Rightarrow> guest_link \<Rightarrow> guest_link" where
  "advisory_done effects l =
     (case gl_advisoryBusy l of
        Some p \<Rightarrow> if p \<in> set (settled effects) then l\<lparr> gl_advisoryBusy := None \<rparr> else l
      | None \<Rightarrow> l)"

definition advisory_next :: "link_env \<Rightarrow> int \<Rightarrow> string \<Rightarrow> guest_link \<Rightarrow> link_result" where
  "advisory_next env now fresh l =
     (case (gl_advisoryBusy l, gl_advisory l) of
        (None, q # qs) \<Rightarrow>
          (let (l', effects) = requestNow env now fresh (qr_sessionId q) (qr_method q) (qr_params q)
                 (qr_timeout q) (qr_promise q)
                 (l\<lparr> gl_advisory := qs, gl_advisoryBusy := Some (qr_promise q) \<rparr>)
           in (advisory_done effects l', effects))
      | _ \<Rightarrow> (l, []))"

text \<open>The timer of a request.\<close>

definition request_timeout :: "string \<Rightarrow> guest_link \<Rightarrow> link_result" where
  "request_timeout requestId l =
     (case find (\<lambda>p. pq_id p = requestId) (gl_pending l) of
        None \<Rightarrow> (l, [])
      | Some p \<Rightarrow>
          let effects = [LkReject (pq_promise p) (''GUEST_REQUEST_TIMEOUT:'' @ pq_method p)] in
          (advisory_done effects (l\<lparr> gl_pending := filter (\<lambda>p. pq_id p \<noteq> requestId) (gl_pending l) \<rparr>),
           effects))"

definition sendPing :: "guest_link \<Rightarrow> (string + link_effect list) \<times> guest_link" where
  "sendPing l = (if gl_ready l \<and> \<not> gl_closed l then sendFrame Ping 0 [] l else (Inr [], l))"

subsection \<open>Receiving\<close>

text \<open>The \<open>data\<close> event of the socket: decoded frames join the frame chain.\<close>

definition link_data :: "int \<Rightarrow> bytes \<Rightarrow> guest_link \<Rightarrow> link_result" where
  "link_data now chunk l =
     (let l = l\<lparr> gl_lastSeenAt := now \<rparr> in
      case decoder_push (gl_decoder l) chunk of
        (Inl e, rest) \<Rightarrow> link_fail (l\<lparr> gl_decoder := rest \<rparr>)
      | (Inr frames, rest) \<Rightarrow> (l\<lparr> gl_decoder := rest, gl_frames := gl_frames l @ frames \<rparr>, []))"

definition handleHello ::
  "link_env \<Rightarrow> int \<Rightarrow> int \<Rightarrow> decoded_frame \<Rightarrow> guest_link \<Rightarrow> (string + link_effect list) \<times> guest_link" where
  "handleHello env now nextEpoch f l =
     (if fh_type (df_header f) \<noteq> frame_code Hello then (Inl ''GUEST_HELLO_REQUIRED'', l)
      else case le_parse env (df_payload f) of
        None \<Rightarrow> (Inl ''SyntaxError'', l)
      | Some hello \<Rightarrow>
          if hello = JNull then (Inl ''TypeError'', l)
          else if \<not> is_kind hello ''guest_hello'' \<or> \<not> isCapabilities (member hello ''capabilities'')
          then (Inl ''GUEST_HELLO_INVALID'', l)
          else
            let capabilities = member hello ''capabilities'';
                l1 = l\<lparr> gl_capabilities := capabilities, gl_epoch := nextEpoch, gl_shaken := True,
                        gl_ready := True, gl_txSequence := 1, gl_rxSequence := 1,
                        gl_handshakeTimer := None \<rparr>
            in (bindR (encodeFrame (frame_code frame_type.Ready) 0 0 0
                        (le_stringify env (JObj [(''kind'', JStr ''ready''), (''epoch'', js_of_int nextEpoch)])))
                 (\<lambda>b. bindR (link_write b l1) (\<lambda>w.
                   Inr (w @ [LkState
                     \<lparr> cs_state = ''sanitizing'', cs_epoch = nextEpoch, cs_connectedAt = Some now,
                       cs_lastSeenAt = Some now,
                       cs_guestBuildId = Some (string_member capabilities ''guestBuildId''),
                       cs_remoteAddress = gl_remoteAddress l, cs_offlineReason = None \<rparr>
                     capabilities]))),
                l1))"

definition settle_response :: "js \<Rightarrow> guest_link \<Rightarrow> link_result" where
  "settle_response response l =
     (case find (\<lambda>p. pq_id p = string_member response ''requestId'') (gl_pending l) of
        None \<Rightarrow> (l, [])
      | Some p \<Rightarrow>
          (l\<lparr> gl_pending := filter (\<lambda>q. pq_id q \<noteq> pq_id p) (gl_pending l) \<rparr>,
           [LkResolve (pq_promise p) (response_of response)]))"

definition DATA_FLAG_FINAL :: int where "DATA_FLAG_FINAL = 1"

text \<open>\<open>(flags & DATA_FLAG_FINAL) !== 0\<close>: the lowest bit.\<close>

definition flag_final :: "int \<Rightarrow> bool" where
  "flag_final flags \<longleftrightarrow> flags mod 2 = DATA_FLAG_FINAL"

definition link_acceptData ::
  "int \<Rightarrow> int \<Rightarrow> bytes \<Rightarrow> guest_link \<Rightarrow> (string + link_effect list) \<times> guest_link" where
  "link_acceptData streamId flags payload l =
     (let (r, streams) = accept streamId (flag_final flags) payload (gl_streams l) in
      (map_sum (\<lambda>e. e) (\<lambda>ws. [LkWake ws]) r, l\<lparr> gl_streams := streams \<rparr>))"

text \<open>A frame after the handshake.\<close>

definition handleReadyFrame ::
  "link_env \<Rightarrow> int \<Rightarrow> decoded_frame \<Rightarrow> guest_link \<Rightarrow> (string + link_effect list) \<times> guest_link" where
  "handleReadyFrame env now f l =
     (let h = df_header f in
      if fh_sequence h \<noteq> gl_rxSequence l
      then (Inl (''FRAME_SEQUENCE_INVALID:'' @ show_int (fh_sequence h) @ '':'' @ show_int (gl_rxSequence l)), l)
      else
        let l = l\<lparr> gl_rxSequence := gl_rxSequence l + 1, gl_lastSeenAt := now \<rparr>; t = fh_type h in
        if t = frame_code Response then
          (case le_parse env (df_payload f) of
             None \<Rightarrow> (Inl ''SyntaxError'', l)
           | Some response \<Rightarrow>
               if \<not> isGuestResponse response then (Inl ''GUEST_RESPONSE_INVALID'', l)
               else (let (l, effects) = settle_response response l in (Inr effects, l)))
        else if t = frame_code Data then link_acceptData (fh_streamId h) (fh_flags h) (df_payload f) l
        else if t = frame_code Ping then sendFrame Pong (fh_streamId h) (df_payload f) l
        else if t = frame_code Pong \<or> t = frame_code Event \<or> t = frame_code ErrorFrame then (Inr [], l)
        else (Inl (''FRAME_TYPE_UNEXPECTED:'' @ show_int t), l))"

definition handleFrame ::
  "link_env \<Rightarrow> int \<Rightarrow> int \<Rightarrow> decoded_frame \<Rightarrow> guest_link \<Rightarrow> (string + link_effect list) \<times> guest_link" where
  "handleFrame env now nextEpoch f l =
     (if \<not> gl_shaken l then handleHello env now nextEpoch f l else handleReadyFrame env now f l)"

text \<open>One link of the frame chain; a failure destroys the socket and the chain goes on.\<close>

definition run_frame :: "link_env \<Rightarrow> int \<Rightarrow> int \<Rightarrow> guest_link \<Rightarrow> link_result" where
  "run_frame env now nextEpoch l =
     (case gl_frames l of
        [] \<Rightarrow> (l, [])
      | f # fs \<Rightarrow>
          (case handleFrame env now nextEpoch f (l\<lparr> gl_frames := fs \<rparr>) of
             (Inl _, l') \<Rightarrow> link_fail l'
           | (Inr effects, l') \<Rightarrow> (advisory_done effects l', effects)))"

definition handshake_timeout :: "guest_link \<Rightarrow> link_result" where
  "handshake_timeout l = (if gl_handshakeTimer l = None then (l, []) else link_fail l)"

text \<open>\<open>closeInternal\<close>, the socket's \<open>close\<close> event.\<close>

definition closeInternal :: "guest_link \<Rightarrow> link_result" where
  "closeInternal l =
     (if gl_closed l then (l, [])
      else
        let rejected = map (\<lambda>p. LkReject (pq_promise p) (''GUEST_DISCONNECTED:'' @ pq_method p)) (gl_pending l);
            (ws, streams) = close_registry ''GUEST_DISCONNECTED'' (gl_streams l)
        in (advisory_done rejected
              (l\<lparr> gl_closed := True, gl_writable := False, gl_handshakeTimer := None, gl_pending := [],
                  gl_streams := streams \<rparr>),
            rejected @ [LkWake ws, LkClosed]))"

end
