(* ===== verification/Link_Props.thy ===== *)
theory Link_Props
  imports Guest_Link Sim_Guest "HOL-Library.Multiset"
begin

text \<open>
  What the guest connection promises: every request handed to it is settled exactly once, the
  advisory queue never stalls, and its frames are in step with the simulated guest.
\<close>

subsection \<open>Runs of a connection\<close>

text \<open>
  A run records the promises handed out and all effects so far. Request identifiers are fresh
  UUIDs; a destroyed socket delivers no more data.
\<close>

inductive link_run :: "link_env \<Rightarrow> guest_link \<Rightarrow> nat list \<Rightarrow> link_effect list \<Rightarrow> bool" for env where
  Start: "link_run env (link_start now connectTimeout maxBytes remote) [] []"
| Requested: "link_run env l issued tr \<Longrightarrow> promise \<notin> set issued \<Longrightarrow> fresh \<notin> set (map pq_id (gl_pending l)) \<Longrightarrow>
    link_request env locking now fresh sid meth params timeout promise l = (l', eff) \<Longrightarrow>
    link_run env l' (issued @ [promise]) (tr @ eff)"
| Advanced: "link_run env l issued tr \<Longrightarrow> fresh \<notin> set (map pq_id (gl_pending l)) \<Longrightarrow>
    advisory_next env now fresh l = (l', eff) \<Longrightarrow> link_run env l' issued (tr @ eff)"
| TimedOut: "link_run env l issued tr \<Longrightarrow> request_timeout rid l = (l', eff) \<Longrightarrow> link_run env l' issued (tr @ eff)"
| Pinged: "link_run env l issued tr \<Longrightarrow> sendPing l = (r, l') \<Longrightarrow>
    link_run env l' issued (tr @ (case r of Inr eff \<Rightarrow> eff | Inl _ \<Rightarrow> []))"
| Received: "link_run env l issued tr \<Longrightarrow> gl_writable l \<Longrightarrow> link_data now chunk l = (l', eff) \<Longrightarrow>
    link_run env l' issued (tr @ eff)"
| Framed: "link_run env l issued tr \<Longrightarrow> run_frame env now epoch l = (l', eff) \<Longrightarrow> link_run env l' issued (tr @ eff)"
| Unshaken: "link_run env l issued tr \<Longrightarrow> handshake_timeout l = (l', eff) \<Longrightarrow> link_run env l' issued (tr @ eff)"
| Destroyed: "link_run env l issued tr \<Longrightarrow> link_destroy l = (l', eff) \<Longrightarrow> link_run env l' issued (tr @ eff)"
| Closed: "link_run env l issued tr \<Longrightarrow> closeInternal l = (l', eff) \<Longrightarrow> link_run env l' issued (tr @ eff)"

text \<open>The promises a connection still owes.\<close>

definition owed :: "guest_link \<Rightarrow> nat multiset" where
  "owed l = mset (map pq_promise (gl_pending l)) + mset (map qr_promise (gl_advisory l))"

definition busy_ok :: "guest_link \<Rightarrow> bool" where
  "busy_ok l \<longleftrightarrow> (\<forall>p. gl_advisoryBusy l = Some p \<longrightarrow> p \<in> pq_promise ` set (gl_pending l)) \<and>
     distinct (map pq_id (gl_pending l)) \<and> (gl_closed l \<longrightarrow> gl_pending l = [])"

definition balanced :: "guest_link \<Rightarrow> link_effect list \<Rightarrow> guest_link \<Rightarrow> bool" where
  "balanced l eff l' \<longleftrightarrow> owed l = owed l' + mset (settled eff) \<and>
     (busy_ok l \<longrightarrow> busy_ok l')"

lemma settled_simps [simp]:
  "settled [] = []"
  "settled (LkResolve p r # es) = p # settled es"
  "settled (LkReject p e # es) = p # settled es"
  "settled (LkWrite b # es) = settled es" "settled (LkDestroy # es) = settled es"
  "settled (LkState c v # es) = settled es" "settled (LkWake w # es) = settled es"
  "settled (LkClosed # es) = settled es"
  by (simp_all add: settled_def List.map_filter_simps)

lemma settled_append [simp]: "settled (xs @ ys) = settled xs @ settled ys"
  by (simp add: settled_def List.map_filter_def)

lemma settled_rejects [simp]: "settled (map (\<lambda>p. LkReject (pq_promise p) (h p)) ps) = map pq_promise ps"
  by (induction ps) simp_all

lemma balanced_same: "gl_pending l' = gl_pending l \<Longrightarrow> gl_advisory l' = gl_advisory l \<Longrightarrow>
    gl_advisoryBusy l' = gl_advisoryBusy l \<Longrightarrow> gl_closed l' = gl_closed l \<Longrightarrow> settled eff = [] \<Longrightarrow> balanced l eff l'"
  by (simp add: balanced_def owed_def busy_ok_def)

lemma sendFrame_same:
  assumes "sendFrame t i b l = (r, l')"
  shows "gl_pending l' = gl_pending l" "gl_advisory l' = gl_advisory l"
    "gl_advisoryBusy l' = gl_advisoryBusy l" "gl_closed l' = gl_closed l" "r = Inr eff \<Longrightarrow> settled eff = []"
  using assms by (auto simp: sendFrame_def link_write_def bindR_eq_Inr split: if_splits)

lemma find_removes:
  "distinct (map f xs) \<Longrightarrow> find (\<lambda>x. f x = k) xs = Some p \<Longrightarrow>
     mset xs = add_mset p (mset (filter (\<lambda>x. f x \<noteq> f p) xs)) \<and> f p = k"
proof (induction xs)
  case (Cons x xs)
  show ?case
  proof (cases "f x = k")
    case True
    then have "p = x" using Cons.prems by simp
    moreover have "\<forall>y \<in> set xs. f y \<noteq> f x" using Cons.prems(1) by simp (metis imageI)
    then have "filter (\<lambda>y. f y \<noteq> f x) xs = xs" by (simp add: filter_id_conv)
    ultimately show ?thesis using True by simp
  next
    case False
    then show ?thesis using Cons by auto
  qed
qed simp

lemma advisory_done_same [simp]:
  "gl_pending (advisory_done eff l) = gl_pending l" "gl_advisory (advisory_done eff l) = gl_advisory l"
  "gl_closed (advisory_done eff l) = gl_closed l" "gl_ready (advisory_done eff l) = gl_ready l"
  by (simp_all add: advisory_done_def split: option.splits)

lemma advisory_done_busy:
  "gl_advisoryBusy (advisory_done eff l) =
     (if \<exists>p. gl_advisoryBusy l = Some p \<and> p \<in> set (settled eff) then None else gl_advisoryBusy l)"
  by (auto simp: advisory_done_def split: option.splits)

lemma map_sum_Inr: "map_sum f g x = Inr y \<longleftrightarrow> (\<exists>z. x = Inr z \<and> y = g z)"
  by (cases x) auto

text \<open>Removing one pending request and settling its promise.\<close>

lemma balanced_remove:
  assumes f: "find (\<lambda>p. pq_id p = k) (gl_pending l) = Some p" and d: "distinct (map pq_id (gl_pending l))"
    and l': "gl_pending l' = filter (\<lambda>q. pq_id q \<noteq> pq_id p) (gl_pending l)" "gl_advisory l' = gl_advisory l"
      "gl_closed l' = gl_closed l" and e: "settled eff = [pq_promise p]"
      and b: "gl_advisoryBusy l' = (if gl_advisoryBusy l = Some (pq_promise p) then None else gl_advisoryBusy l)"
  shows "balanced l eff l'"
proof -
  have m: "mset (gl_pending l) = add_mset p (mset (gl_pending l'))"
    by (rule conjunct1 [OF find_removes [OF d f], folded l'(1)])
  then have o: "owed l = owed l' + mset (settled eff)" using e l'(2) by (simp add: owed_def)
  have s: "set (gl_pending l) = insert p (set (gl_pending l'))"
    using m by (metis set_mset_add_mset_insert set_mset_mset)
  have "busy_ok l'" if ok: "busy_ok l"
    unfolding busy_ok_def
  proof (intro conjI allI impI)
    fix x
    assume "gl_advisoryBusy l' = Some x"
    then have x: "gl_advisoryBusy l = Some x" "x \<noteq> pq_promise p" using b by (auto split: if_splits)
    then have "x \<in> pq_promise ` set (gl_pending l)" using ok by (simp add: busy_ok_def)
    then show "x \<in> pq_promise ` set (gl_pending l')" using s x(2) by simp
  next
    show "distinct (map pq_id (gl_pending l'))" unfolding l'(1) using d by (rule distinct_map_filter)
    show "gl_pending l' = []" if "gl_closed l'" using that ok l' by (simp add: busy_ok_def)
  qed
  with o show ?thesis by (simp add: balanced_def)
qed

lemma requestNow_balanced:
  assumes r: "requestNow env now fresh sid meth params timeout promise l = (l', eff)"
    and n: "fresh \<notin> set (map pq_id (gl_pending l))"
  shows "owed l' + mset (settled eff) = add_mset promise (owed l)"
    and "gl_advisory l' = gl_advisory l" "gl_advisoryBusy l' = gl_advisoryBusy l" "gl_closed l' = gl_closed l"
    and "gl_pending l' = gl_pending l \<and> promise \<in> set (settled eff) \<or>
         (\<exists>p. gl_pending l' = gl_pending l @ [p] \<and> pq_promise p = promise \<and> pq_id p = fresh \<and>
           settled eff = [] \<and> \<not> gl_closed l)"
proof -
  have old: "filter (\<lambda>p. pq_id p \<noteq> fresh) (gl_pending l) = gl_pending l"
    using n by (auto simp: filter_id_conv)
  consider "\<not> gl_ready l \<or> gl_closed l" | "gl_ready l" "\<not> gl_closed l" by blast
  then have "(gl_pending l' = gl_pending l \<and> settled eff = [promise] \<or>
      (\<exists>p. gl_pending l' = gl_pending l @ [p] \<and> pq_promise p = promise \<and> pq_id p = fresh \<and>
        settled eff = [] \<and> \<not> gl_closed l)) \<and>
      gl_advisory l' = gl_advisory l \<and> gl_advisoryBusy l' = gl_advisoryBusy l \<and> gl_closed l' = gl_closed l"
  proof cases
    case 1
    then show ?thesis using r by (auto simp: requestNow_def)
  next
    case 2
    let ?p = "\<lparr> pq_id = fresh, pq_method = meth, pq_promise = promise, pq_deadline = now + timeout \<rparr>"
    let ?l1 = "l\<lparr> gl_pending := gl_pending l @ [?p], gl_nextStreamId := gl_nextStreamId l + 1 \<rparr>"
    obtain s l2 where s: "sendFrame Request (gl_nextStreamId l)
        (le_stringify env (request_json fresh sid meth params)) ?l1 = (s, l2)" by fastforce
    note same = sendFrame_same [OF s]
    show ?thesis
    proof (cases s)
      case (Inl e)
      then have "l' = l2\<lparr> gl_pending := filter (\<lambda>p. pq_id p \<noteq> fresh) (gl_pending l2) \<rparr>" "eff = [LkReject promise e]"
        using r 2 s old by (simp_all add: requestNow_def)
      then show ?thesis using same(1-4) old by simp
    next
      case (Inr es)
      then have "l' = l2" "eff = es" using r 2 s old by (simp_all add: requestNow_def)
      then show ?thesis using same(1-4) same(5) [OF Inr] 2(2) by (intro conjI disjI2 exI [of _ ?p]) simp_all
    qed
  qed
  then show "owed l' + mset (settled eff) = add_mset promise (owed l)"
    and "gl_advisory l' = gl_advisory l" "gl_advisoryBusy l' = gl_advisoryBusy l" "gl_closed l' = gl_closed l"
    and "gl_pending l' = gl_pending l \<and> promise \<in> set (settled eff) \<or>
         (\<exists>p. gl_pending l' = gl_pending l @ [p] \<and> pq_promise p = promise \<and> pq_id p = fresh \<and>
           settled eff = [] \<and> \<not> gl_closed l)"
    by (auto simp: owed_def)
qed

lemma link_request_balanced:
  assumes r: "link_request env locking now fresh sid meth params timeout promise l = (l', eff)"
    and n: "fresh \<notin> set (map pq_id (gl_pending l))" and b: "busy_ok l"
  shows "owed l' + mset (settled eff) = add_mset promise (owed l)" "busy_ok l'"
proof -
  consider "\<not> locking \<and> meth \<noteq> ''session_abort'' \<and> meth \<noteq> ''sanitize''"
    | "requestNow env now fresh sid meth params timeout promise l = (l', eff)"
    using r by (auto simp: link_request_def split: if_splits)
  then have "owed l' + mset (settled eff) = add_mset promise (owed l) \<and> busy_ok l'"
  proof cases
    case 1
    then show ?thesis using r b by (auto simp: link_request_def owed_def busy_ok_def)
  next
    case 2
    note q = requestNow_balanced [OF 2 n]
    have "busy_ok l'" using q(3-5) b n by (auto simp: busy_ok_def)
    with q(1) show ?thesis by simp
  qed
  then show "owed l' + mset (settled eff) = add_mset promise (owed l)" "busy_ok l'" by simp_all
qed

lemma advisory_next_balanced:
  assumes r: "advisory_next env now fresh l = (l', eff)"
    and n: "fresh \<notin> set (map pq_id (gl_pending l))"
  shows "balanced l eff l'"
proof (cases "gl_advisoryBusy l")
  case (Some p)
  then show ?thesis using r by (auto simp: advisory_next_def intro!: balanced_same)
next
  case None
  note idle = this
  show ?thesis
  proof (cases "gl_advisory l")
    case Nil
    then show ?thesis using r idle by (auto simp: advisory_next_def intro!: balanced_same)
  next
    case (Cons q qs)
    let ?l = "l\<lparr> gl_advisory := qs, gl_advisoryBusy := Some (qr_promise q) \<rparr>"
    obtain l1 where l1: "requestNow env now fresh (qr_sessionId q) (qr_method q) (qr_params q)
        (qr_timeout q) (qr_promise q) ?l = (l1, eff)" and l': "l' = advisory_done eff l1"
      using r Cons idle by (auto simp: advisory_next_def split: prod.splits)
    have n': "fresh \<notin> set (map pq_id (gl_pending ?l))" using n by simp
    note q = requestNow_balanced [OF l1 n']
    have o: "owed l = owed l' + mset (settled eff)"
      using q(1) Cons l' by (simp add: owed_def)
    have "busy_ok l'" if "busy_ok l"
      using that q(3-5) n unfolding l' by (auto simp: busy_ok_def advisory_done_busy)
    with o show ?thesis by (simp add: balanced_def)
  qed
qed

lemma request_timeout_balanced:
  assumes "request_timeout rid l = (l', eff)" "busy_ok l"
  shows "balanced l eff l'"
proof (cases "find (\<lambda>p. pq_id p = rid) (gl_pending l)")
  case None
  then show ?thesis using assms by (auto simp: request_timeout_def intro!: balanced_same)
next
  case (Some p)
  have k: "pq_id p = rid" using find_SomeD [OF Some] by simp
  have d: "distinct (map pq_id (gl_pending l))" using assms(2) by (simp add: busy_ok_def)
  show ?thesis
    using assms(1) Some k by (intro balanced_remove [OF Some d]) (auto simp: request_timeout_def advisory_done_busy Let_def)
qed

lemma handleFrame_balanced:
  assumes h: "handleFrame env now epoch f l = (r, l')" and b: "busy_ok l"
  shows "case r of Inl _ \<Rightarrow> balanced l [] l' | Inr eff \<Rightarrow> balanced l eff (advisory_done eff l')"
proof (cases "gl_shaken l")
  case False
  then have "handleHello env now epoch f l = (r, l')" using h by (simp add: handleFrame_def)
  then have same: "gl_pending l' = gl_pending l" "gl_advisory l' = gl_advisory l"
      "gl_advisoryBusy l' = gl_advisoryBusy l" "gl_closed l' = gl_closed l"
    and none: "\<And>eff. r = Inr eff \<Longrightarrow> settled eff = []"
    by (auto simp: handleHello_def Let_def link_write_def bindR_eq_Inr split: if_splits option.splits)
  show ?thesis
  proof (cases r)
    case (Inr eff)
    have "advisory_done eff l' = l'"
      using none [OF Inr] by (simp add: advisory_done_def split: option.splits)
    then show ?thesis using Inr none [OF Inr] same by (simp add: balanced_same)
  qed (use same in \<open>simp add: balanced_same\<close>)
next
  case True
  then have h': "handleReadyFrame env now f l = (r, l')" using h by (simp add: handleFrame_def)
  let ?l = "l\<lparr> gl_rxSequence := gl_rxSequence l + 1, gl_lastSeenAt := now \<rparr>"
  have d: "distinct (map pq_id (gl_pending ?l))" using b by (simp add: busy_ok_def)
  have quiet: ?thesis
    if "gl_pending l' = gl_pending l" "gl_advisory l' = gl_advisory l"
      "gl_advisoryBusy l' = gl_advisoryBusy l" "gl_closed l' = gl_closed l"
      "\<And>eff. r = Inr eff \<Longrightarrow> settled eff = []"
  proof (cases r)
    case (Inr eff)
    have "advisory_done eff l' = l'"
      using that(5) [OF Inr] by (simp add: advisory_done_def split: option.splits)
    then show ?thesis using Inr that by (simp add: balanced_same)
  qed (use that in \<open>simp add: balanced_same\<close>)
  show ?thesis
  proof (cases "fh_sequence (df_header f) = gl_rxSequence l \<and> fh_type (df_header f) = frame_code Response")
    case False
    show ?thesis
    proof (rule quiet)
    qed (use h' False in \<open>auto simp: map_sum_Inr handleReadyFrame_def Let_def link_acceptData_def dest: sendFrame_same
      split: if_splits prod.splits sum.splits\<close>)
  next
    case resp: True
    show ?thesis
    proof (cases "le_parse env (df_payload f)")
      case None
      then show ?thesis using h' resp by (intro quiet) (auto simp: handleReadyFrame_def Let_def)
    next
      case (Some v)
      show ?thesis
      proof (cases "isGuestResponse v")
        case False
        then show ?thesis using h' resp Some by (intro quiet) (auto simp: handleReadyFrame_def Let_def)
      next
        case True
        then have run: "r = Inr (snd (settle_response v ?l))" "l' = fst (settle_response v ?l)"
          using h' resp Some by (auto simp: handleReadyFrame_def Let_def split: prod.splits)
        show ?thesis
        proof (cases "find (\<lambda>p. pq_id p = string_member v ''requestId'') (gl_pending ?l)")
          case None
          then show ?thesis using run by (intro quiet) (auto simp: settle_response_def)
        next
          case (Some p)
          then have "balanced ?l (snd (settle_response v ?l))
              (advisory_done (snd (settle_response v ?l)) (fst (settle_response v ?l)))"
            using run by (intro balanced_remove [OF Some d]) (auto simp: settle_response_def advisory_done_busy)
          then show ?thesis using run by (simp add: balanced_def owed_def busy_ok_def)
        qed
      qed
    qed
  qed
qed

lemma link_fail_balanced: "link_fail l = (l', eff) \<Longrightarrow> balanced l eff l'"
  by (auto simp: link_fail_def link_destroy_def intro!: balanced_same split: if_splits)

lemma run_frame_balanced:
  assumes r: "run_frame env now epoch l = (l', eff)" and b: "busy_ok l"
  shows "balanced l eff l'"
proof (cases "gl_frames l")
  case Nil
  then show ?thesis using r by (auto simp: run_frame_def intro!: balanced_same)
next
  case (Cons f fs)
  let ?l = "l\<lparr> gl_frames := fs \<rparr>"
  have same: "balanced ?l e x = balanced l e x" for e x by (simp add: balanced_def owed_def busy_ok_def)
  have b': "busy_ok ?l" using b by (simp add: busy_ok_def)
  obtain q l1 where h: "handleFrame env now epoch f ?l = (q, l1)" by fastforce
  note hb = handleFrame_balanced [OF h b']
  show ?thesis
  proof (cases q)
    case (Inl e)
    then have "link_fail l1 = (l', eff)" using r Cons h by (simp add: run_frame_def)
    then have "balanced l1 eff l'" by (rule link_fail_balanced)
    then have "balanced ?l eff l'" using hb Inl by (simp add: balanced_def)
    then show ?thesis using same by simp
  next
    case (Inr es)
    then have "l' = advisory_done es l1" "eff = es" using r Cons h by (auto simp: run_frame_def)
    then show ?thesis using hb Inr same by simp
  qed
qed

lemma closeInternal_balanced: "closeInternal l = (l', eff) \<Longrightarrow> busy_ok l \<Longrightarrow> balanced l eff l'"
  by (auto simp: closeInternal_def balanced_def owed_def busy_ok_def advisory_done_busy Let_def
      intro!: balanced_same split: if_splits prod.splits)

lemma balanced_step:
  assumes "distinct issued \<and> mset issued = mset (settled tr) + owed l \<and> busy_ok l" "balanced l eff l'"
  shows "distinct issued \<and> mset issued = mset (settled (tr @ eff)) + owed l' \<and> busy_ok l'"
  using assms by (simp add: balanced_def)

lemma link_run_balanced:
  assumes "link_run env l issued tr"
  shows "distinct issued \<and> mset issued = mset (settled tr) + owed l \<and> busy_ok l"
  using assms
proof induction
  case (Start now connectTimeout maxBytes remote)
  show ?case by (simp add: owed_def busy_ok_def link_start_def)
next
  case (Requested l issued tr promise fresh locking now sid meth params timeout l' eff)
  have b: "busy_ok l" using Requested.IH by simp
  note q = link_request_balanced [OF Requested.hyps(4,3) b]
  have "mset (issued @ [promise]) = mset (settled (tr @ eff)) + owed l'"
  proof -
    have "mset (issued @ [promise]) = mset (settled tr) + add_mset promise (owed l)"
      using Requested.IH by simp
    also have "\<dots> = mset (settled tr) + (owed l' + mset (settled eff))" using q(1) by simp
    finally show ?thesis by simp
  qed
  then show ?case using Requested.IH Requested.hyps(2) q(2) by simp
next
  case (Pinged l issued tr r l')
  have "balanced l (case r of Inr eff \<Rightarrow> eff | Inl _ \<Rightarrow> []) l'"
    using Pinged.hyps(2) sendFrame_same [of Ping 0 "[]" l r l']
    by (auto simp: sendPing_def intro!: balanced_same split: if_splits sum.splits)
  with Pinged.IH show ?case by (rule balanced_step)
next
  case (Received l issued tr now chunk l' eff)
  have "balanced l eff l'"
    using Received.hyps(3)
    by (auto simp: link_data_def Let_def link_fail_def link_destroy_def intro!: balanced_same
      split: if_splits prod.splits sum.splits)
  with Received.IH show ?case by (rule balanced_step)
next
  case (Advanced l issued tr fresh now l' eff)
  show ?case by (rule balanced_step [OF Advanced.IH advisory_next_balanced [OF Advanced.hyps(3,2)]])
next
  case (TimedOut l issued tr rid l' eff)
  then show ?case using balanced_step [OF TimedOut.IH request_timeout_balanced] by blast
next
  case (Framed l issued tr now epoch l' eff)
  then show ?case using balanced_step [OF Framed.IH run_frame_balanced] by blast
next
  case (Unshaken l issued tr l' eff)
  have "balanced l eff l'"
    using Unshaken.hyps(2) link_fail_balanced [of l l' eff]
    by (auto simp: handshake_timeout_def intro!: balanced_same split: if_splits)
  with Unshaken.IH show ?case by (rule balanced_step)
next
  case (Destroyed l issued tr l' eff)
  have "balanced l eff l'"
    using Destroyed.hyps(2) by (auto simp: link_destroy_def intro!: balanced_same)
  with Destroyed.IH show ?case by (rule balanced_step)
next
  case (Closed l issued tr l' eff)
  then show ?case using balanced_step [OF Closed.IH closeInternal_balanced] by blast
qed

text \<open>
  C8. Whatever the guest sends and however the connection ends, every request handed to
  it is settled at most once, and a request not yet settled is still pending or queued; after the
  connection closed nothing is pending. A busy advisory queue always waits for a pending request,
  whose timer will settle it, so the queue cannot stall.
\<close>

theorem requests_settled_once:
  assumes "link_run env l issued tr"
  shows "distinct (settled tr) \<and> mset issued = mset (settled tr) + owed l \<and>
    (gl_closed l \<longrightarrow> gl_pending l = []) \<and>
    (\<forall>p. gl_advisoryBusy l = Some p \<longrightarrow> p \<in> pq_promise ` set (gl_pending l))"
proof -
  note b = link_run_balanced [OF assms]
  then have "mset issued = mset (settled tr @ map pq_promise (gl_pending l) @ map qr_promise (gl_advisory l))"
    by (simp add: owed_def)
  from mset_eq_imp_distinct_iff [OF this] have "distinct issued \<longrightarrow> distinct (settled tr)" by simp
  with b show ?thesis by (simp add: busy_ok_def)
qed

theorem requests_settled_once_witness:
  "\<exists>env l tr. link_run env l [7] tr \<and> distinct (settled tr) \<and> mset [7] = mset (settled tr) + owed l \<and>
     gl_closed l \<and> gl_pending l = []"
proof -
  let ?env = "\<lparr> le_parse = (\<lambda>_. None), le_stringify = (\<lambda>_. []) \<rparr>"
  let ?l0 = "link_start 0 5000 1000 None"
  obtain l1 e1 where r: "link_request ?env True 0 ''a'' ''s'' ''fs_list'' [] 9 7 ?l0 = (l1, e1)" by fastforce
  obtain l2 e2 where c: "closeInternal l1 = (l2, e2)" by fastforce
  have "link_run ?env l1 ([] @ [7]) ([] @ e1)"
    by (rule link_run.Requested [OF link_run.Start _ _ r]) (simp_all add: link_start_def)
  then have run: "link_run ?env l2 [7] (e1 @ e2)" using link_run.Closed c by fastforce
  moreover have "gl_closed l2" using c by (auto simp: closeInternal_def Let_def split: if_splits prod.splits)
  ultimately show ?thesis using requests_settled_once [OF run] by blast
qed

end
