(* ===== verification/Link_Sim.thy ===== *)
theory Link_Sim
  imports Link_Props Sim_Transfers
begin

text \<open>
  The two ends of the guest connection together: the frames of \<open>GuestConnection\<close> reach the
  simulated guest in step, however TCP cuts them, its responses settle the right promises, and a
  request too large for a frame puts the two out of step.
\<close>

subsection \<open>The simulated guest's side of a byte stream\<close>

fun sim_receive :: "bytes list \<Rightarrow> sim_link \<Rightarrow> sim_action list \<times> string option \<times> sim_link" where
  "sim_receive [] l = ([], None, l)"
| "sim_receive (c # cs) l =
     (case sim_onData c l of
        (acts, Some e, l') \<Rightarrow> (acts, Some e, l')
      | (acts, None, l') \<Rightarrow> (let (more, e, l'') = sim_receive cs l' in (acts @ more, e, l'')))"

lemma sim_frames_decoder:
  "sim_frames fs (l\<lparr> sl_decoder := d \<rparr>) =
     (fst (sim_frames fs l), fst (snd (sim_frames fs l)), (snd (snd (sim_frames fs l)))\<lparr> sl_decoder := d \<rparr>)"
proof (induction fs arbitrary: l)
  case (Cons f fs)
  have "sim_frame f (l\<lparr> sl_decoder := d \<rparr>) =
      (fst (sim_frame f l), (snd (sim_frame f l))\<lparr> sl_decoder := d \<rparr>)"
    by (auto simp: sim_frame_def handleHandshakeFrame_def Let_def)
  then show ?case using Cons.IH by (auto split: prod.splits sum.splits)
qed simp

lemma sim_frames_split:
  "sim_frames (fs @ gs) l = (acts, None, l') \<Longrightarrow>
     \<exists>a1 l1 a2. sim_frames fs l = (a1, None, l1) \<and> sim_frames gs l1 = (a2, None, l') \<and> acts = a1 @ a2"
proof (induction fs arbitrary: l acts)
  case (Cons f fs)
  obtain x l1 where f: "sim_frame f l = (Inr x, l1)"
    using Cons.prems by (auto split: prod.splits sum.splits)
  obtain more where m: "sim_frames (fs @ gs) l1 = (more, None, l')" "acts = x @ more"
    using Cons.prems f by (auto split: prod.splits)
  from Cons.IH [OF m(1)] obtain a1 l2 a2 where
    "sim_frames fs l1 = (a1, None, l2)" "sim_frames gs l2 = (a2, None, l')" "more = a1 @ a2" by blast
  then show ?case using f m(2) by simp
qed simp

lemma sim_receive_frames:
  assumes "push_all (sl_decoder l) chunks = (Inr fs, rest)" and "sim_frames fs l = (acts, None, l')"
  shows "sim_receive chunks l = (acts, None, l'\<lparr> sl_decoder := rest \<rparr>)"
  using assms
proof (induction chunks arbitrary: l fs acts l')
  case Nil
  then show ?case by auto
next
  case (Cons c cs)
  obtain fs1 p where p: "decoder_push (sl_decoder l) c = (Inr fs1, p)"
    using Cons.prems(1) by (auto split: prod.splits sum.splits)
  then obtain fs2 where q: "push_all p cs = (Inr fs2, rest)" "fs = fs1 @ fs2"
    using Cons.prems(1) by (auto split: prod.splits sum.splits)
  from sim_frames_split [OF Cons.prems(2) [unfolded q(2)]] obtain a1 l1 a2 where
    f: "sim_frames fs1 l = (a1, None, l1)" "sim_frames fs2 l1 = (a2, None, l')" "acts = a1 @ a2" by blast
  have on: "sim_onData c l = (a1, None, l1\<lparr> sl_decoder := p \<rparr>)"
    using p f(1) by (simp add: sim_onData_def sim_frames_decoder)
  have "push_all (sl_decoder (l1\<lparr> sl_decoder := p \<rparr>)) cs = (Inr fs2, rest)" using q(1) by simp
  moreover have "sim_frames fs2 (l1\<lparr> sl_decoder := p \<rparr>) = (a2, None, l'\<lparr> sl_decoder := p \<rparr>)"
    using f(2) by (simp add: sim_frames_decoder)
  ultimately have "sim_receive cs (l1\<lparr> sl_decoder := p \<rparr>) = (a2, None, l'\<lparr> sl_decoder := p \<rparr>\<lparr> sl_decoder := rest \<rparr>)"
    by (rule Cons.IH)
  then show ?case using on f(3) by simp
qed

subsection \<open>Requests and pings arrive in step\<close>

datatype outgoing =
    OutRequest (or_id: string) (or_session: string) (or_method: string) (or_params: params) int nat
  | OutPing

definition written :: "link_effect list \<Rightarrow> bytes" where
  "written eff = concat (List.map_filter (\<lambda>e. case e of LkWrite b \<Rightarrow> Some b | _ \<Rightarrow> None) eff)"

fun send_call :: "link_env \<Rightarrow> int \<Rightarrow> outgoing \<Rightarrow> guest_link \<Rightarrow> bytes \<times> guest_link" where
  "send_call env now (OutRequest rid sid meth params timeout promise) l =
     (let (l', eff) = requestNow env now rid sid meth params timeout promise l in (written eff, l'))"
| "send_call env now OutPing l =
     (case sendPing l of (Inl _, l') \<Rightarrow> ([], l') | (Inr eff, l') \<Rightarrow> (written eff, l'))"

fun send_calls :: "link_env \<Rightarrow> int \<Rightarrow> outgoing list \<Rightarrow> guest_link \<Rightarrow> bytes \<times> guest_link" where
  "send_calls env now [] l = ([], l)"
| "send_calls env now (c # cs) l =
     (let (b, l') = send_call env now c l; (bs, l'') = send_calls env now cs l' in (b @ bs, l''))"

fun call_payload :: "link_env \<Rightarrow> outgoing \<Rightarrow> bytes" where
  "call_payload env (OutRequest rid sid meth params timeout promise) =
     le_stringify env (request_json rid sid meth params)"
| "call_payload env OutPing = []"

fun call_action :: "link_env \<Rightarrow> outgoing \<Rightarrow> sim_action" where
  "call_action env OutPing = SimPong []"
| "call_action env c = SimRequest (call_payload env c)"

definition fits_frame :: "bytes \<Rightarrow> bool" where
  "fits_frame payload \<longleftrightarrow> int (length payload) \<le> MAX_CONTROL_PAYLOAD"

lemma encodeFrame_fits:
  assumes "fits_frame payload" "0 \<le> seq" "seq < 2 ^ 64" "t \<in> {Request, Response, Ping, frame_type.Ready}"
  shows "\<exists>b. encodeFrame (frame_code t) 0 sid seq payload = Inr b"
  using assms
  by (auto simp: encodeFrame_def encodeHeader_def validatePayloadLength_def fits_frame_def Let_def
      writeUInt16LE_def writeUInt32LE_def writeBigUInt64LE_def to_uint32_def protocol_consts)

definition open_link :: "guest_link \<Rightarrow> bool" where
  "open_link l \<longleftrightarrow> gl_ready l \<and> \<not> gl_closed l \<and> gl_writable l"

definition after_request :: "int \<Rightarrow> string \<Rightarrow> string \<Rightarrow> int \<Rightarrow> nat \<Rightarrow> guest_link \<Rightarrow> guest_link" where
  "after_request now rid meth timeout promise l =
     l\<lparr> gl_pending := filter (\<lambda>p. pq_id p \<noteq> rid) (gl_pending l) @
          [\<lparr> pq_id = rid, pq_method = meth, pq_promise = promise, pq_deadline = now + timeout \<rparr>],
        gl_nextStreamId := gl_nextStreamId l + 1, gl_txSequence := gl_txSequence l + 1 \<rparr>"

lemma requestNow_open:
  assumes o: "open_link l" and fit: "fits_frame (le_stringify env (request_json rid sid meth params))"
    and s: "0 \<le> gl_txSequence l" "gl_txSequence l < 2 ^ 64"
  shows "\<exists>b. encodeFrame (frame_code Request) 0 (gl_nextStreamId l) (gl_txSequence l)
        (le_stringify env (request_json rid sid meth params)) = Inr b \<and>
      requestNow env now rid sid meth params timeout promise l =
        (after_request now rid meth timeout promise l, [LkWrite b])"
proof -
  obtain b where b: "encodeFrame (frame_code Request) 0 (gl_nextStreamId l) (gl_txSequence l)
        (le_stringify env (request_json rid sid meth params)) = Inr b"
    using encodeFrame_fits [OF fit s, of Request "gl_nextStreamId l"] by auto
  then show ?thesis
    using o by (simp add: requestNow_def open_link_def sendFrame_def link_write_def Let_def after_request_def)
qed

lemma send_call_frame:
  assumes o: "open_link l" and fit: "fits_frame (call_payload env c)"
    and s: "0 \<le> gl_txSequence l" "gl_txSequence l < 2 ^ 64"
  shows "\<exists>t i b l'. send_call env now c l = (b, l') \<and>
      send_frame (frame_code t, 0, i, gl_txSequence l, call_payload env c) = Inr b \<and>
      (c = OutPing \<and> t = Ping \<or> c \<noteq> OutPing \<and> t = Request) \<and>
      open_link l' \<and> gl_txSequence l' = gl_txSequence l + 1 \<and>
      gl_frames l' = gl_frames l \<and> gl_decoder l' = gl_decoder l \<and> gl_rxSequence l' = gl_rxSequence l \<and>
      gl_shaken l' = gl_shaken l"
proof (cases c)
  case OutPing
  obtain b where "encodeFrame (frame_code Ping) 0 0 (gl_txSequence l) [] = Inr b"
    using encodeFrame_fits [of "[]" "gl_txSequence l" Ping 0] s by (auto simp: fits_frame_def protocol_consts)
  then show ?thesis
    using OutPing o
    by (intro exI [of _ Ping] exI [of _ 0] exI [of _ b] exI [of _ "l\<lparr> gl_txSequence := gl_txSequence l + 1 \<rparr>"])
      (simp add: open_link_def sendPing_def sendFrame_def link_write_def written_def send_frame_def
        List.map_filter_simps)
next
  case (OutRequest rid sid meth params timeout promise)
  let ?i = "gl_nextStreamId l" and ?pl = "call_payload env c"
  have fit': "fits_frame (le_stringify env (request_json rid sid meth params))" using fit OutRequest by simp
  obtain b where b: "encodeFrame (frame_code Request) 0 ?i (gl_txSequence l) ?pl = Inr b"
      "requestNow env now rid sid meth params timeout promise l =
        (after_request now rid meth timeout promise l, [LkWrite b])"
    using requestNow_open [OF o fit' s, where now = now and timeout = timeout and promise = promise] OutRequest
    by auto
  then show ?thesis
    using o OutRequest unfolding after_request_def
    by (intro exI [of _ Request] exI [of _ ?i] exI [of _ b] exI [of _ "after_request now rid meth timeout promise l"])
      (simp add: open_link_def written_def send_frame_def List.map_filter_simps after_request_def)
qed

lemma send_calls_frames:
  assumes "open_link l" "\<forall>c \<in> set calls. fits_frame (call_payload env c)"
    and "0 \<le> gl_txSequence l" "gl_txSequence l + int (length calls) \<le> 2 ^ 64"
    and "sl_ready sl" "sl_hostSequence sl = gl_txSequence l"
  shows "\<exists>fs b l'. send_calls env now calls l = (b, l') \<and> send_all fs = Inr b \<and>
      sim_frames (map received fs) sl =
        (map (call_action env) calls, None, sl\<lparr> sl_hostSequence := gl_txSequence l + int (length calls) \<rparr>) \<and>
      open_link l' \<and> gl_txSequence l' = gl_txSequence l + int (length calls)"
  using assms
proof (induction calls arbitrary: l sl)
  case Nil
  then show ?case by (intro exI [of _ "[]"]) auto
next
  case (Cons c cs)
  obtain t i b l1 where c: "send_call env now c l = (b, l1)"
      "send_frame (frame_code t, 0, i, gl_txSequence l, call_payload env c) = Inr b"
      "c = OutPing \<and> t = Ping \<or> c \<noteq> OutPing \<and> t = Request"
      "open_link l1" "gl_txSequence l1 = gl_txSequence l + 1"
    using send_call_frame [of l env c now] Cons.prems by auto
  let ?sl = "sl\<lparr> sl_hostSequence := gl_txSequence l1 \<rparr>"
  obtain fs bs l2 where r: "send_calls env now cs l1 = (bs, l2)" "send_all fs = Inr bs"
      "sim_frames (map received fs) ?sl =
        (map (call_action env) cs, None, ?sl\<lparr> sl_hostSequence := gl_txSequence l1 + int (length cs) \<rparr>)"
      "open_link l2" "gl_txSequence l2 = gl_txSequence l1 + int (length cs)"
    using Cons.IH [of l1 ?sl] c(4,5) Cons.prems by auto
  let ?f = "(frame_code t, 0, i, gl_txSequence l, call_payload env c)"
  have "sim_frame (received ?f) sl = (Inr [call_action env c], ?sl)"
    using c(3,5) Cons.prems(5,6)
    by (cases c) (auto simp: sim_frame_def received_def Let_def)
  then have "sim_frames (map received (?f # fs)) sl =
      (map (call_action env) (c # cs), None,
       sl\<lparr> sl_hostSequence := gl_txSequence l + int (length (c # cs)) \<rparr>)"
    using r(3) c(5) by (simp add: algebra_simps)
  moreover have "send_all (?f # fs) = Inr (b @ bs)" using c(2) r(2) by simp
  ultimately show ?case
    using c(1,5) r by (intro exI [of _ "?f # fs"] exI [of _ "b @ bs"] exI [of _ l2]) simp
qed

lemma push_all_sent:
  assumes "send_all fs = Inr bs" "concat chunks = bs" "chunks \<noteq> []"
  shows "push_all [] chunks = (Inr (map received fs), [])"
  using decode_loop_sent [OF assms(1), of "[]"] assms(2,3)
  by (cases chunks) (simp_all add: push_all_concat decoder_push_def del: push_all.simps)

lemma requests_reach:
  assumes "open_link l" "\<forall>c \<in> set calls. fits_frame (call_payload env c)"
    and "0 \<le> gl_txSequence l" "gl_txSequence l + int (length calls) \<le> 2 ^ 64"
    and "sl_ready sl" "sl_hostSequence sl = gl_txSequence l" "sl_decoder sl = []"
    and "concat chunks = fst (send_calls env now calls l)" "chunks \<noteq> []"
  shows "\<exists>sl'. sim_receive chunks sl = (map (call_action env) calls, None, sl') \<and>
      sl_ready sl' \<and> sl_decoder sl' = [] \<and> sl_guestSequence sl' = sl_guestSequence sl \<and>
      sl_hostSequence sl' = gl_txSequence (snd (send_calls env now calls l))"
proof -
  obtain fs b l' where s: "send_calls env now calls l = (b, l')" "send_all fs = Inr b"
      "sim_frames (map received fs) sl =
        (map (call_action env) calls, None, sl\<lparr> sl_hostSequence := gl_txSequence l + int (length calls) \<rparr>)"
      "gl_txSequence l' = gl_txSequence l + int (length calls)"
    using send_calls_frames [OF assms(1-6)] by blast
  have "push_all [] chunks = (Inr (map received fs), [])"
    using push_all_sent [OF s(2)] assms(8,9) s(1) by simp
  then show ?thesis
    using sim_receive_frames [of sl chunks "map received fs" "[]"] s assms(5,7,9) by simp
qed

text \<open>
  Requests and heartbeats written by the broker's connection reach the
  simulated guest as exactly those requests and pings, in order and without a protocol error,
  however TCP cuts the stream, and the two ends stay in step. Each payload must fit a frame.
\<close>

theorem requests_reach_guest:
  assumes "open_link l" "\<forall>c \<in> set calls. fits_frame (call_payload env c)"
    and "0 \<le> gl_txSequence l" "gl_txSequence l + int (length calls) \<le> 2 ^ 64"
    and "sl_ready sl" "sl_hostSequence sl = gl_txSequence l" "sl_decoder sl = []"
    and "concat chunks = fst (send_calls env now calls l)" "chunks \<noteq> []"
  shows "\<exists>sl'. sim_receive chunks sl = (map (call_action env) calls, None, sl') \<and>
      sl_ready sl' \<and> sl_decoder sl' = [] \<and> sl_guestSequence sl' = sl_guestSequence sl \<and>
      sl_hostSequence sl' = gl_txSequence (snd (send_calls env now calls l))"
  by (rule requests_reach [OF assms])

definition demo_link_env :: link_env where
  "demo_link_env = \<lparr> le_parse = (\<lambda>b. if b = [1] then Some (JObj []) else None), le_stringify = (\<lambda>_. [1]) \<rparr>"

definition demo_link :: guest_link where
  "demo_link = (link_start 0 5000 1000 None)\<lparr> gl_ready := True, gl_shaken := True \<rparr>"

definition demo_sync :: sim_link where
  "demo_sync = new_link\<lparr> sl_ready := True \<rparr>"

theorem requests_reach_guest_witness:
  "fst (sim_receive [fst (send_calls demo_link_env 0 [OutRequest ''a'' ''s'' ''fs_list'' [] 9 7, OutPing] demo_link)]
     demo_sync) = [SimRequest [1], SimPong []]"
proof -
  have "open_link demo_link" "sl_ready demo_sync" "sl_decoder demo_sync = []"
    "sl_hostSequence demo_sync = gl_txSequence demo_link" "gl_txSequence demo_link = 1"
    by (simp_all add: open_link_def demo_link_def link_start_def demo_sync_def new_link_def)
  then show ?thesis
    using requests_reach_guest [of demo_link "[OutRequest ''a'' ''s'' ''fs_list'' [] 9 7, OutPing]" demo_link_env
        demo_sync "[fst (send_calls demo_link_env 0 [OutRequest ''a'' ''s'' ''fs_list'' [] 9 7, OutPing] demo_link)]" 0]
    by (auto simp: fits_frame_def protocol_consts demo_link_env_def)
qed

subsection \<open>A request that does not fit a frame\<close>

text \<open>
  C39. A request whose JSON exceeds the frame limit is rejected, but it has
  used up a sequence number: the next request, however small, is written with a number the guest
  does not expect, and the guest reports a sequence error instead of executing it.
\<close>

theorem oversized_request_breaks_link:
  assumes "open_link l" "0 \<le> gl_txSequence l" "gl_txSequence l + 1 < 2 ^ 64"
    and "\<not> fits_frame (call_payload env (OutRequest rid sid meth params timeout promise))"
    and "fits_frame (call_payload env c)"
    and "sl_ready sl" "sl_decoder sl = []" "sl_hostSequence sl = gl_txSequence l"
  shows "\<exists>e l' b l''. requestNow env now rid sid meth params timeout promise l = (l', [LkReject promise e]) \<and>
      send_call env now c l' = (b, l'') \<and> b \<noteq> [] \<and>
      sim_receive [b] sl = ([], Some ''SIMULATOR_FRAME_SEQUENCE_INVALID'', sl)"
proof -
  let ?pl = "call_payload env (OutRequest rid sid meth params timeout promise)"
  obtain e where e: "encodeFrame (frame_code Request) 0 (gl_nextStreamId l) (gl_txSequence l) ?pl = Inl e"
    using assms(4) by (simp add: encodeFrame_def encodeHeader_def validatePayloadLength_def fits_frame_def Let_def)
  let ?p = "\<lparr> pq_id = rid, pq_method = meth, pq_promise = promise, pq_deadline = now + timeout \<rparr>"
  define l' where "l' = l\<lparr> gl_pending := filter (\<lambda>p. pq_id p \<noteq> rid)
      (filter (\<lambda>p. pq_id p \<noteq> rid) (gl_pending l) @ [?p]),
      gl_nextStreamId := gl_nextStreamId l + 1, gl_txSequence := gl_txSequence l + 1 \<rparr>"
  have r: "requestNow env now rid sid meth params timeout promise l = (l', [LkReject promise e])"
    using e assms(1) by (simp add: requestNow_def open_link_def sendFrame_def Let_def l'_def)
  have l': "open_link l'" "gl_txSequence l' = gl_txSequence l + 1" "0 \<le> gl_txSequence l'" "gl_txSequence l' < 2 ^ 64"
    using assms(1-3) by (simp_all add: l'_def open_link_def)
  obtain t i b l'' where c: "send_call env now c l' = (b, l'')"
      "send_frame (frame_code t, 0, i, gl_txSequence l', call_payload env c) = Inr b"
    using send_call_frame [OF l'(1) assms(5) l'(3,4), of now] by blast
  let ?f = "(frame_code t, 0, i, gl_txSequence l', call_payload env c)"
  have n: "next_frame b = Some (Inr (received ?f, []))"
    using next_frame_sent [OF c(2), of "[]"] by simp
  then have "decoder_push [] b = (Inr [received ?f], [])"
    by (simp add: decoder_push_def decode_loop.simps [of b] decode_loop.simps [of "[]"] next_frame_def [of "[]"]
        FRAME_HEADER_BYTES_def)
  moreover have "sim_frame (received ?f) sl = (Inl ''SIMULATOR_FRAME_SEQUENCE_INVALID'', sl)"
    using assms(6,8) l'(2) by (simp add: sim_frame_def received_def)
  moreover have same: "sl\<lparr> sl_decoder := [] \<rparr> = sl" using assms(7) by simp
  ultimately have "sim_receive [b] sl = ([], Some ''SIMULATOR_FRAME_SEQUENCE_INVALID'', sl)"
    using assms(7) unfolding sim_receive.simps sim_onData_def same by (simp add: same)
  moreover have "b \<noteq> []" using n by (auto simp: next_frame_def FRAME_HEADER_BYTES_def)
  ultimately show ?thesis using r c(1) by blast
qed

theorem oversized_request_breaks_link_witness:
  "\<exists>env b. \<not> fits_frame (call_payload env (OutRequest ''a'' ''s'' ''clipboard_set'' [] 9 7)) \<and> b \<noteq> [] \<and>
     sim_receive [b] demo_sync = ([], Some ''SIMULATOR_FRAME_SEQUENCE_INVALID'', demo_sync)"
proof -
  let ?env = "\<lparr> le_parse = (\<lambda>_. None),
      le_stringify = (\<lambda>v. if v = request_json ''a'' ''s'' ''clipboard_set'' [] then replicate 1048577 0 else [1]) \<rparr>"
  have big: "\<not> fits_frame (call_payload ?env (OutRequest ''a'' ''s'' ''clipboard_set'' [] 9 7))"
    by (simp add: fits_frame_def protocol_consts)
  have small: "fits_frame (call_payload ?env OutPing)" by (simp add: fits_frame_def protocol_consts)
  have h: "open_link demo_link" "sl_ready demo_sync" "sl_decoder demo_sync = []"
    "sl_hostSequence demo_sync = gl_txSequence demo_link" "gl_txSequence demo_link = 1"
    by (simp_all add: open_link_def demo_link_def link_start_def demo_sync_def new_link_def)
  have "0 \<le> gl_txSequence demo_link" "gl_txSequence demo_link + 1 < 2 ^ 64" using h(5) by simp_all
  from oversized_request_breaks_link [OF h(1) this big small h(2-4), of 0] big show ?thesis by blast
qed

subsection \<open>Responses\<close>

definition sim_response_json :: "string \<Rightarrow> guest_response \<Rightarrow> js" where
  "sim_response_json requestId r =
     JObj ([(''kind'', JStr ''response''), (''requestId'', JStr requestId), (''ok'', JBool (gr_ok r)),
        (''code'', JStr (gr_code r)), (''message'', JStr (gr_message r))] @
       (if gr_data r = JUndef then [] else [(''data'', gr_data r)]))"

text \<open>
  A request frame at the simulated guest: the frame that answers it. Values that are not request
  records are not considered.
\<close>

definition sim_respond ::
  "link_env \<Rightarrow> 'z desk_env_scheme \<Rightarrow> bytes \<Rightarrow> sim_guest \<Rightarrow> sim_link \<Rightarrow> (string + bytes) \<times> sim_guest \<times> sim_link" where
  "sim_respond env denv payload g l =
     (case le_parse env payload of
        None \<Rightarrow> (Inl ''SyntaxError'', g, l)
      | Some request \<Rightarrow>
          let (response, g') = handleRequest denv (string_member request ''method'')
                 (case member request ''params'' of JObj r \<Rightarrow> r | _ \<Rightarrow> []) g;
              (b, l') = sendSigned (frame_code Response)
                 (le_stringify env (sim_response_json (string_member request ''requestId'') response)) l
          in (b, g', l'))"

fun link_receive :: "int \<Rightarrow> bytes list \<Rightarrow> guest_link \<Rightarrow> link_result" where
  "link_receive now [] l = (l, [])"
| "link_receive now (c # cs) l =
     (let (l', eff) = link_data now c l; (l'', eff') = link_receive now cs l' in (l'', eff @ eff'))"

lemma link_receive_frames:
  assumes "push_all (gl_decoder l) chunks = (Inr fs, rest)"
  shows "\<exists>t. link_receive now chunks l =
    (l\<lparr> gl_decoder := rest, gl_frames := gl_frames l @ fs, gl_lastSeenAt := t \<rparr>, [])"
  using assms
proof (induction chunks arbitrary: l fs)
  case Nil
  then show ?case by (intro exI [of _ "gl_lastSeenAt l"]) auto
next
  case (Cons c cs)
  obtain fs1 p where p: "decoder_push (gl_decoder l) c = (Inr fs1, p)"
    using Cons.prems by (auto split: prod.splits sum.splits)
  then obtain fs2 where q: "push_all p cs = (Inr fs2, rest)" "fs = fs1 @ fs2"
    using Cons.prems by (auto split: prod.splits sum.splits)
  let ?l1 = "l\<lparr> gl_lastSeenAt := now, gl_decoder := p, gl_frames := gl_frames l @ fs1 \<rparr>"
  have 1: "link_data now c l = (?l1, [])" using p by (simp add: link_data_def)
  have "push_all (gl_decoder ?l1) cs = (Inr fs2, rest)" using q(1) by simp
  from Cons.IH [OF this] obtain t where
    "link_receive now cs ?l1 = (?l1\<lparr> gl_decoder := rest, gl_frames := gl_frames ?l1 @ fs2, gl_lastSeenAt := t \<rparr>, [])"
    by blast
  then show ?case using 1 q(2) by (intro exI [of _ t]) simp
qed

lemma response_of_sim [simp]: "response_of (sim_response_json rid r) = r"
  "isGuestResponse (sim_response_json rid r)" "string_member (sim_response_json rid r) ''requestId'' = rid"
  by (cases r; auto simp: response_of_def sim_response_json_def member_def string_member_def isGuestResponse_def
      is_kind_def)+

lemma answer_settles:
  assumes o: "open_link l" "gl_shaken l" "gl_frames l = []" "gl_decoder l = []"
    and fresh: "rid \<notin> pq_id ` set (gl_pending l)"
    and parse: "le_parse env pl = Some (sim_response_json rid response)"
    and enc: "encodeFrame (frame_code Response) 0 0 (gl_rxSequence l) pl = Inr (concat down)" "down \<noteq> []"
    and seq: "0 \<le> gl_rxSequence l" "gl_rxSequence l < 2 ^ 64"
  shows "\<exists>l1 l2. link_receive now2 down (after_request now rid meth timeout promise l) = (l1, []) \<and>
    run_frame env now3 epoch l1 = (l2, [LkResolve promise response]) \<and>
    gl_pending l2 = gl_pending l \<and> open_link l2 \<and> gl_txSequence l2 = gl_txSequence l + 1 \<and>
    gl_rxSequence l2 = gl_rxSequence l + 1"
proof -
  let ?l1 = "after_request now rid meth timeout promise l"
  let ?f = "received (frame_code Response, 0, 0, gl_rxSequence l, pl)"
  have "send_all [(frame_code Response, 0, 0, gl_rxSequence l, pl)] = Inr (concat down)"
    using enc(1) by (simp add: send_frame_def)
  from push_all_sent [OF this refl enc(2)] have "push_all (gl_decoder ?l1) down = (Inr [?f], [])"
    using o(4) by (simp add: after_request_def)
  from link_receive_frames [OF this] obtain t where
    rcv: "link_receive now2 down ?l1 = (?l1\<lparr> gl_decoder := [], gl_frames := [?f], gl_lastSeenAt := t \<rparr>, [])"
    using o(3) by (auto simp: after_request_def)
  let ?l2 = "?l1\<lparr> gl_decoder := [], gl_frames := [?f], gl_lastSeenAt := t \<rparr>"
  let ?p = "\<lparr> pq_id = rid, pq_method = meth, pq_promise = promise, pq_deadline = now + timeout \<rparr>"
  let ?l3 = "l\<lparr> gl_nextStreamId := gl_nextStreamId l + 1, gl_txSequence := gl_txSequence l + 1,
      gl_decoder := [], gl_frames := [], gl_lastSeenAt := now3, gl_rxSequence := gl_rxSequence l + 1 \<rparr>"
  have old: "filter (\<lambda>p. pq_id p \<noteq> rid) (gl_pending l) = gl_pending l"
    using fresh by (auto simp: filter_id_conv)
  have "find (\<lambda>p. pq_id p = rid) (gl_pending l @ [?p]) = Some ?p"
    using fresh by (intro find_skip) auto
  then have "handleFrame env now3 epoch ?f (?l2\<lparr> gl_frames := [] \<rparr>) = (Inr [LkResolve promise response], ?l3)"
    using o(2) parse old
    by (simp add: handleFrame_def handleReadyFrame_def after_request_def received_def settle_response_def Let_def)
  then have "run_frame env now3 epoch ?l2 =
      (advisory_done [LkResolve promise response] ?l3, [LkResolve promise response])"
    by (simp add: run_frame_def)
  moreover have "open_link (advisory_done [LkResolve promise response] ?l3)"
    "gl_txSequence (advisory_done [LkResolve promise response] ?l3) = gl_txSequence l + 1"
    "gl_pending (advisory_done [LkResolve promise response] ?l3) = gl_pending l"
    "gl_rxSequence (advisory_done [LkResolve promise response] ?l3) = gl_rxSequence l + 1"
    using o(1)
    by (simp_all add: advisory_done_def open_link_def after_request_def split: option.splits)
  ultimately show ?thesis using rcv by blast
qed

text \<open>
  C7. The whole round: the request the broker's connection writes is executed by the
  simulated guest, and its answer, in whatever chunks it arrives, settles the promise of exactly
  this request with the guest's response; other pending requests are untouched and both ends
  remain in step. \<open>JSON.parse\<close> must read back the two messages, and both must fit a frame.
\<close>

theorem request_answered:
  fixes denv :: "'z desk_env_scheme"
  assumes o: "open_link l" "gl_shaken l" "gl_frames l = []" "gl_decoder l = []"
    and seq: "0 \<le> gl_txSequence l" "gl_txSequence l + 1 \<le> 2 ^ 64"
      "0 \<le> sl_guestSequence sl" "sl_guestSequence sl < 2 ^ 64"
    and sync: "sl_ready sl" "sl_decoder sl = []" "sl_hostSequence sl = gl_txSequence l"
      "sl_guestSequence sl = gl_rxSequence l"
    and fresh: "rid \<notin> pq_id ` set (gl_pending l)"
    and resp: "handleRequest denv meth params g = (response, g')"
    and json: "\<forall>v \<in> {request_json rid sid meth params, sim_response_json rid response}.
        le_parse env (le_stringify env v) = Some v \<and> fits_frame (le_stringify env v)"
    and up: "concat up = fst (send_calls env now [OutRequest rid sid meth params timeout promise] l)" "up \<noteq> []"
    and down: "sim_respond env denv (le_stringify env (request_json rid sid meth params)) g
        (snd (snd (sim_receive up sl))) = (Inr b, g2, sl2)" "concat down = b" "down \<noteq> []"
  shows "fst (sim_receive up sl) = [SimRequest (le_stringify env (request_json rid sid meth params))] \<and>
    g2 = g' \<and>
    (\<exists>l1 l2. link_receive now2 down (snd (send_calls env now [OutRequest rid sid meth params timeout promise] l)) = (l1, []) \<and>
       run_frame env now3 epoch l1 = (l2, [LkResolve promise response]) \<and>
       gl_pending l2 = gl_pending l \<and> open_link l2 \<and>
       sl_hostSequence sl2 = gl_txSequence l2 \<and> sl_guestSequence sl2 = gl_rxSequence l2)"
proof -
  let ?c = "OutRequest rid sid meth params timeout promise"
  let ?req = "request_json rid sid meth params" and ?res = "sim_response_json rid response"
  let ?pl = "le_stringify env ?req" and ?pl2 = "le_stringify env ?res"
  have fits: "fits_frame ?pl" "fits_frame ?pl2" and parse: "le_parse env ?pl = Some ?req" "le_parse env ?pl2 = Some ?res"
    using json by simp_all
  have s: "gl_txSequence l < 2 ^ 64" using seq(2) by simp
  let ?l1 = "after_request now rid meth timeout promise l"
  obtain b0 where "requestNow env now rid sid meth params timeout promise l = (?l1, [LkWrite b0])"
    using requestNow_open [OF o(1) fits(1) seq(1) s] by blast
  then have l1: "snd (send_calls env now [?c] l) = ?l1" by simp
  have len: "gl_txSequence l + int (length [?c]) \<le> 2 ^ 64" using seq(2) by simp
  obtain sl' where sl': "sim_receive up sl = ([SimRequest ?pl], None, sl')" "sl_ready sl'"
      "sl_guestSequence sl' = sl_guestSequence sl" "sl_hostSequence sl' = gl_txSequence ?l1"
    using requests_reach [OF o(1) _ seq(1) len sync(1,3,2) up] fits(1) l1 by auto
  have req: "string_member ?req ''method'' = meth" "string_member ?req ''requestId'' = rid"
      "member ?req ''params'' = JObj params"
    by (simp_all add: request_json_def string_member_def member_def)
  let ?sl2 = "sl'\<lparr> sl_guestSequence := sl_guestSequence sl + 1 \<rparr>"
  have d: "encodeFrame (frame_code Response) 0 0 (sl_guestSequence sl) ?pl2 = Inr b" "g2 = g'" "sl2 = ?sl2"
    using down(1) sl' parse(1) resp req by (simp_all add: sim_respond_def sendSigned_def)
  have enc: "encodeFrame (frame_code Response) 0 0 (gl_rxSequence l) ?pl2 = Inr (concat down)"
      and rx: "0 \<le> gl_rxSequence l" "gl_rxSequence l < 2 ^ 64"
    using d(1) down(2) sync(4) seq(3,4) by simp_all
  from answer_settles [OF o fresh parse(2) enc down(3) rx] show ?thesis
    unfolding l1 using sl'(1,4) d(2,3) sync(4) by (fastforce simp: after_request_def)
qed

theorem request_answered_witness:
  "\<exists>env up l1 l2. fst (sim_receive up demo_sync) = [SimRequest [1]] \<and> run_frame env 0 1 l1 =
     (l2, [LkResolve 7 (fst (handleRequest demo_denv ''clipboard_get'' [] (new_sim_guest [])))])"
proof -
  let ?r = "handleRequest demo_denv ''clipboard_get'' [] (new_sim_guest [])"
  let ?req = "request_json ''a'' ''s'' ''clipboard_get'' []" and ?res = "sim_response_json ''a'' (fst ?r)"
  have ne: "?res \<noteq> ?req" by (simp add: request_json_def sim_response_json_def)
  define env where "env = \<lparr> le_parse = (\<lambda>b. if b = [1] then Some ?req else if b = [2] then Some ?res else None),
      le_stringify = (\<lambda>v. if v = ?req then [1] else [2]) \<rparr>"
  have json: "\<forall>v \<in> {?req, ?res}. le_parse env (le_stringify env v) = Some v \<and> fits_frame (le_stringify env v)"
    using ne by (simp add: env_def fits_frame_def protocol_consts)
  have str: "le_stringify env ?req = [1]" by (simp add: env_def)
  have o: "open_link demo_link" "gl_shaken demo_link" "gl_frames demo_link = []" "gl_decoder demo_link = []"
      "gl_txSequence demo_link = 1" "gl_rxSequence demo_link = 1" "''a'' \<notin> pq_id ` set (gl_pending demo_link)"
      "sl_ready demo_sync" "sl_decoder demo_sync = []" "sl_hostSequence demo_sync = gl_txSequence demo_link"
      "sl_guestSequence demo_sync = gl_rxSequence demo_link"
    by (simp_all add: open_link_def demo_link_def link_start_def demo_sync_def new_link_def)
  have tx: "0 \<le> gl_txSequence demo_link" "gl_txSequence demo_link + 1 \<le> 2 ^ 64" using o(5) by simp_all
  have rx: "0 \<le> sl_guestSequence demo_sync" "sl_guestSequence demo_sync < 2 ^ 64" using o(6,11) by simp_all
  let ?up = "[fst (send_calls env 0 [OutRequest ''a'' ''s'' ''clipboard_get'' [] 9 7] demo_link)]"
  have up: "concat ?up = fst (send_calls env 0 [OutRequest ''a'' ''s'' ''clipboard_get'' [] 9 7] demo_link)" "?up \<noteq> []"
    by simp_all
  have len: "gl_txSequence demo_link + int (length [OutRequest ''a'' ''s'' ''clipboard_get'' [] 9 7]) \<le> 2 ^ 64"
    using o(5) by simp
  have fit: "\<forall>c \<in> set [OutRequest ''a'' ''s'' ''clipboard_get'' [] 9 7]. fits_frame (call_payload env c)"
    using json by simp
  obtain sl' where sl': "snd (snd (sim_receive ?up demo_sync)) = sl'" "sl_ready sl'" "sl_guestSequence sl' = 1"
    using requests_reach [OF o(1) fit tx(1) len o(8,10,9) up] o(6,11) by auto
  obtain b where "encodeFrame (frame_code Response) 0 0 1 (le_stringify env ?res) = Inr b"
    using encodeFrame_fits [of "le_stringify env ?res" 1 Response 0] json by auto
  then have "sim_respond env demo_denv (le_stringify env ?req) (new_sim_guest []) (snd (snd (sim_receive ?up demo_sync))) =
      (Inr b, snd ?r, sl'\<lparr> sl_guestSequence := 1 + 1 \<rparr>)"
    using sl' json
    by (cases ?r) (simp add: sim_respond_def sendSigned_def request_json_def string_member_def member_def
      split del: if_split)
  from request_answered [OF o(1-4) tx rx o(8-11,7) prod.collapse [symmetric] json up this, of "[b]" 0 0 1]
  obtain l1 l2 where "fst (sim_receive ?up demo_sync) = [SimRequest (le_stringify env ?req)]"
      "run_frame env 0 1 l1 = (l2, [LkResolve 7 (fst ?r)])"
    by (auto simp del: sim_receive.simps send_calls.simps)
  then show ?thesis unfolding str by blast
qed

end
