(* ===== verification/Broker_State.thy ===== *)
theory Broker_State
  imports Guest_Link Lease
begin

text \<open>
  The broker (\<open>src/host/broker.ts\<close>), first part: its state, the lease events it reacts to, the
  guest connection and the cleanup chain. An \<open>await\<close> ends a step: what continues is kept as data
  (\<open>b_waiting\<close>, \<open>b_parked\<close>, \<open>b_running\<close>), a settled promise waits in \<open>b_settled\<close> or \<open>b_granted\<close>, the
  microtasks, which a run may interleave in any way, and every socket event, timer or external completion is a function of its own. UUIDs come from the
  stream \<open>be_uuid\<close>; the outcome of \<open>TransferCoordinator\<close> and of the QEMU manager is an argument of
  the event that reports it. Log records are not kept.
\<close>

subsection \<open>State\<close>

record tool_result =
  br_ok :: bool
  br_code :: string
  br_message :: string
  br_connection :: connection_snapshot
  br_lease :: lease_snapshot
  br_retryable :: bool
  br_remediation :: "string option"
  br_data :: "js option"

record adapter_session =
  ad_id :: string
  ad_label :: string
  ad_connectedAt :: int
  ad_alive :: bool
  ad_greeted :: bool
  ad_disconnectedAt :: "int option"
  ad_cleanupTimer :: "int option"

record exec_call =
  ex_id :: string
  ex_session :: string
  ex_label :: string
  ex_method :: string
  ex_params :: params

datatype cleanup_reply = NoReply | ChainOnly | ParallelReply exec_call | ExplicitReply exec_call

record cleanup_job =
  cj_session :: string
  cj_reason :: string
  cj_force :: bool
  cj_release :: bool
  cj_reply :: cleanup_reply

datatype cleanup_phase =
    Idle
  | AbortingParallel
  | ClosingParallel nat "(string \<times> params) list"
  | Aborting
  | Sanitizing nat

datatype continuation =
    InitialSanitize nat connection_snapshot
  | CleanupClose
  | CleanupAbort nat
  | GuestCall exec_call

datatype session_task =
    RequestTask exec_call
  | CleanupTask string bool bool

record broker_env =
  be_link :: link_env
  be_uuid :: "nat \<Rightarrow> string"
  be_requestTimeoutMs :: jsnum
  be_heartbeatTimeoutMs :: int
  be_guestConnectTimeoutMs :: int
  be_maxArtifactBytes :: nat

record broker =
  b_lease :: lease_manager
  b_lockingEnabled :: bool
  b_upstream :: "(string \<times> int) option"
  b_links :: "nat \<Rightarrow> guest_link"
  b_nextLink :: nat
  b_guest :: "nat option"
  b_bridge :: "int option"
  b_connectionEpoch :: int
  b_connection :: connection_snapshot
  b_capabilities :: "js option"
  b_objects :: "nat \<Rightarrow> adapter_session"
  b_nextObject :: nat
  b_adapters :: "(string \<times> nat) list"
  b_revoked :: "string list"
  b_chains :: "string \<Rightarrow> bool \<times> session_task list"
  b_resources :: "(string \<times> string list) list"
  b_selectedVms :: "(string \<times> string) list"
  b_cleanups :: "cleanup_job list"
  b_running :: cleanup_phase
  b_waiting :: "(nat \<times> continuation) list"
  b_settled :: "(nat \<times> (string + guest_response)) list"
  b_parked :: "(nat \<times> exec_call) list"
  b_granted :: "(nat \<times> acquire_result) list"
  b_polls :: "(exec_call \<times> int) list"
  b_external :: "exec_call list"
  b_nextPromise :: nat
  b_nextUuid :: nat

datatype broker_effect =
    ToGuest nat link_effect
  | ToAdapter nat string tool_result
  | AdapterReady nat connection_snapshot
  | AdapterClosing nat string
  | AdapterDestroyed nat
  | BridgeDestroyed
  | GuestRefused
  | RunExternal exec_call
  | AbortTransfers string

type_synonym 'a bop = "broker \<Rightarrow> 'a \<times> broker \<times> broker_effect list"
type_synonym bstep = "broker \<Rightarrow> broker \<times> broker_effect list"

definition idle_step :: bstep where
  "idle_step s = (s, [])"

definition then_step :: "bstep \<Rightarrow> bstep \<Rightarrow> bstep" where
  "then_step f g s = (let (s1, e1) = f s; (s2, e2) = g s1 in (s2, e1 @ e2))"

definition put_step :: "(broker \<Rightarrow> broker) \<Rightarrow> bstep" where
  "put_step f s = (f s, [])"

definition offline_snapshot :: "int \<Rightarrow> connection_snapshot" where
  "offline_snapshot epoch =
     \<lparr> cs_state = ''offline'', cs_epoch = epoch, cs_connectedAt = None, cs_lastSeenAt = None,
       cs_guestBuildId = None, cs_remoteAddress = None, cs_offlineReason = None \<rparr>"

text \<open>A broker after \<open>start\<close>.\<close>

definition new_broker :: "int \<Rightarrow> int \<Rightarrow> bool \<Rightarrow> (string \<times> int) option \<Rightarrow> broker" where
  "new_broker leaseTtlMs waitTicketTtlMs lockingEnabled upstream =
     \<lparr> b_lease = new_lease_manager leaseTtlMs waitTicketTtlMs, b_lockingEnabled = lockingEnabled,
       b_upstream = upstream, b_links = (\<lambda>_. link_start 0 0 0 None), b_nextLink = 0, b_guest = None,
       b_bridge = None, b_connectionEpoch = 0, b_connection = offline_snapshot 0, b_capabilities = None,
       b_objects = (\<lambda>_. \<lparr> ad_id = [], ad_label = [], ad_connectedAt = 0, ad_alive = False,
         ad_greeted = False, ad_disconnectedAt = None, ad_cleanupTimer = None \<rparr>),
       b_nextObject = 0, b_adapters = [], b_revoked = [], b_chains = (\<lambda>_. (False, [])),
       b_resources = [], b_selectedVms = [], b_cleanups = [], b_running = Idle, b_waiting = [],
       b_settled = [], b_parked = [], b_granted = [], b_polls = [], b_external = [], b_nextPromise = 0, b_nextUuid = 0 \<rparr>"

subsection \<open>The lease\<close>

definition enqueueCleanup :: "cleanup_job \<Rightarrow> broker \<Rightarrow> broker" where
  "enqueueCleanup job s = s\<lparr> b_cleanups := b_cleanups s @ [job] \<rparr>"

text \<open>
  The events of the lease manager: an expired lease is cleaned up, a settled \<open>vm_wait\<close> promise
  becomes a microtask.
\<close>

definition lease_event :: "lease_event \<Rightarrow> broker \<Rightarrow> broker" where
  "lease_event e s =
     (case e of
        EvExpired ow \<Rightarrow> enqueueCleanup \<lparr> cj_session = lo_sessionId ow, cj_reason = ''lease_expired'',
          cj_force = True, cj_release = False, cj_reply = NoReply \<rparr> s
      | EvResolved p r \<Rightarrow> s\<lparr> b_granted := b_granted s @ [(p, r)] \<rparr>
      | _ \<Rightarrow> s)"

definition with_lease :: "lease_result \<Rightarrow> broker \<Rightarrow> broker" where
  "with_lease r s = fold lease_event (snd r) (s\<lparr> b_lease := fst r \<rparr>)"

definition setBlocked_b :: "int \<Rightarrow> bool \<Rightarrow> broker \<Rightarrow> broker" where
  "setBlocked_b now b s = with_lease (setBlocked now b (b_lease s)) s"

definition touch_b :: "int \<Rightarrow> string \<Rightarrow> broker \<Rightarrow> broker" where
  "touch_b now sid s =
     (if b_lockingEnabled s then s\<lparr> b_lease := snd (touch now sid (b_lease s)) \<rparr> else s)"

definition draw_uuid :: "broker_env \<Rightarrow> broker \<Rightarrow> string \<times> broker" where
  "draw_uuid env s = (be_uuid env (b_nextUuid s), s\<lparr> b_nextUuid := b_nextUuid s + 1 \<rparr>)"

definition owner_session :: "broker \<Rightarrow> string option" where
  "owner_session s = map_option lo_sessionId (lm_owner (b_lease s))"

subsection \<open>Resources\<close>

definition resources_of :: "string \<Rightarrow> broker \<Rightarrow> string list" where
  "resources_of sid s = (case map_of (b_resources s) sid of None \<Rightarrow> [] | Some rs \<Rightarrow> rs)"

definition put_resources :: "string \<Rightarrow> string list \<Rightarrow> broker \<Rightarrow> broker" where
  "put_resources sid rs s =
     s\<lparr> b_resources := (if rs = [] then [] else [(sid, rs)]) @ filter (\<lambda>e. fst e \<noteq> sid) (b_resources s) \<rparr>"

definition addResource :: "string \<Rightarrow> string \<Rightarrow> broker \<Rightarrow> broker" where
  "addResource sid resource s =
     (let rs = resources_of sid s in
      put_resources sid (if resource \<in> set rs then rs else rs @ [resource]) s)"

definition removeResource :: "string \<Rightarrow> string \<Rightarrow> broker \<Rightarrow> broker" where
  "removeResource sid resource s =
     (if map_of (b_resources s) sid = None then s
      else put_resources sid (filter (\<lambda>r. r \<noteq> resource) (resources_of sid s)) s)"

definition string_of :: "js \<Rightarrow> string option" where
  "string_of v = (case v of JStr s \<Rightarrow> Some s | _ \<Rightarrow> None)"

definition nullish_or :: "js \<Rightarrow> js \<Rightarrow> js" where
  "nullish_or a b = (if a = JUndef \<or> a = JNull then b else a)"

text \<open>The resource a response opens, and the one a request closes.\<close>

definition opened_resource :: "string \<Rightarrow> js \<Rightarrow> string option" where
  "opened_resource meth data =
     (if (meth = ''shell_start'' \<or> meth = ''shell_exec'') \<and> is_record data \<and>
         (meth = ''shell_start'' \<or> member data ''running'' = JBool True)
      then map_option (\<lambda>i. ''terminal:'' @ i)
             (string_of (nullish_or (member data ''sessionId'') (member data ''session_id'')))
      else if meth = ''file_write_begin'' \<and> is_record data
      then map_option (\<lambda>i. ''guest-transfer:'' @ i) (string_of (member data ''transferId''))
      else None)"

definition closed_resource :: "string \<Rightarrow> params \<Rightarrow> string option" where
  "closed_resource meth params =
     (if meth = ''shell_close''
      then map_option (\<lambda>i. ''terminal:'' @ i)
             (string_of (nullish_or (jsget params ''session_id'') (jsget params ''sessionId'')))
      else if meth = ''file_write_commit'' \<or> meth = ''file_write_abort''
      then map_option (\<lambda>i. ''guest-transfer:'' @ i) (string_of (jsget params ''transferId''))
      else None)"

definition trackResources :: "string \<Rightarrow> string \<Rightarrow> params \<Rightarrow> guest_response \<Rightarrow> broker \<Rightarrow> broker" where
  "trackResources sid meth params response s =
     (if \<not> gr_ok response \<and> gr_code response \<noteq> ''NEEDS_ATTENTION'' then s
      else
        let rs = resources_of sid s;
            rs = (case opened_resource meth (gr_data response) of
                    Some r \<Rightarrow> if r \<in> set rs then rs else rs @ [r] | None \<Rightarrow> rs);
            rs = (case closed_resource meth params of Some r \<Rightarrow> filter (\<lambda>x. x \<noteq> r) rs | None \<Rightarrow> rs)
        in put_resources sid rs s)"

subsection \<open>Talking to the guest\<close>

text \<open>Effects of the current connection: callbacks run at once, settled promises are queued.\<close>

definition settle_guest :: "nat \<Rightarrow> (string + guest_response) \<Rightarrow> broker \<Rightarrow> broker" where
  "settle_guest p r s = s\<lparr> b_settled := b_settled s @ [(p, r)] \<rparr>"

definition plain_effect :: "nat \<Rightarrow> link_effect \<Rightarrow> bstep" where
  "plain_effect ref e s =
     (case e of
        LkResolve p r \<Rightarrow> (settle_guest p (Inr r) s, [])
      | LkReject p m \<Rightarrow> (settle_guest p (Inl m) s, [])
      | LkState _ _ \<Rightarrow> (s, [])
      | LkClosed \<Rightarrow> (s, [])
      | _ \<Rightarrow> (s, [ToGuest ref e]))"

text \<open>\<open>guest.request\<close> with the continuation that awaits it.\<close>

definition guest_request ::
  "broker_env \<Rightarrow> int \<Rightarrow> nat \<Rightarrow> string \<Rightarrow> string \<Rightarrow> params \<Rightarrow> int \<Rightarrow> continuation \<Rightarrow> bstep" where
  "guest_request env now ref sid meth params timeout k s =
     (let p = b_nextPromise s;
          (fresh, s) = draw_uuid env (s\<lparr> b_nextPromise := p + 1, b_waiting := (p, k) # b_waiting s \<rparr>);
          (l, effects) = link_request (be_link env) (b_lockingEnabled s) now fresh sid meth params timeout p
                           (b_links s ref)
      in foldr (\<lambda>e. then_step (plain_effect ref e)) effects idle_step (s\<lparr> b_links := (b_links s)(ref := l) \<rparr>))"

definition guest_ready :: "broker \<Rightarrow> nat option" where
  "guest_ready s =
     (case b_guest s of
        Some ref \<Rightarrow> if gl_ready (b_links s ref) \<and> \<not> gl_closed (b_links s ref) then Some ref else None
      | None \<Rightarrow> None)"

definition destroy_guest :: "nat \<Rightarrow> bstep" where
  "destroy_guest ref s =
     (let (l, effects) = link_destroy (b_links s ref)
      in (s\<lparr> b_links := (b_links s)(ref := l) \<rparr>, map (ToGuest ref) effects))"

definition guestStateChanged :: "broker_env \<Rightarrow> int \<Rightarrow> nat \<Rightarrow> connection_snapshot \<Rightarrow> js \<Rightarrow> bstep" where
  "guestStateChanged env now ref snap capabilities s =
     (if b_guest s \<noteq> Some ref then (s, [])
      else
        let s = s\<lparr> b_connection := snap, b_capabilities := Some capabilities \<rparr> in
        if cs_state snap = ''sanitizing''
        then guest_request env now ref ''broker'' ''session_abort''
               [(''reason'', JStr ''connection_start'')] 10000 (InitialSanitize ref snap)
               (setBlocked_b now True s)
        else (s, []))"

definition guestClosed :: "nat \<Rightarrow> bstep" where
  "guestClosed ref s =
     (if b_guest s \<noteq> Some ref then (s, [])
      else
        (s\<lparr> b_guest := None, b_capabilities := None,
            b_connection := (b_connection s)\<lparr> cs_state := ''offline'', cs_epoch := b_connectionEpoch s,
              cs_lastSeenAt := Some (gl_lastSeenAt (b_links s ref)),
              cs_offlineReason := Some ''guest_connection_closed'' \<rparr> \<rparr>, []))"

definition link_effect_step :: "broker_env \<Rightarrow> int \<Rightarrow> nat \<Rightarrow> link_effect \<Rightarrow> bstep" where
  "link_effect_step env now ref e =
     (case e of
        LkState snap capabilities \<Rightarrow> guestStateChanged env now ref snap capabilities
      | LkClosed \<Rightarrow> guestClosed ref
      | _ \<Rightarrow> plain_effect ref e)"

definition link_step :: "broker_env \<Rightarrow> int \<Rightarrow> nat \<Rightarrow> (guest_link \<Rightarrow> link_result) \<Rightarrow> bstep" where
  "link_step env now ref f s =
     (let (l, effects) = f (b_links s ref)
      in foldr (\<lambda>e. then_step (link_effect_step env now ref e)) effects idle_step
           (s\<lparr> b_links := (b_links s)(ref := l) \<rparr>))"

subsection \<open>Events of the guest's socket\<close>

text \<open>A new guest; with an upstream broker configured it is bridged, which is not modelled further.\<close>

definition acceptGuest :: "broker_env \<Rightarrow> int \<Rightarrow> string option \<Rightarrow> bstep" where
  "acceptGuest env now remote s =
     (if (case b_guest s of Some ref \<Rightarrow> \<not> gl_closed (b_links s ref) | None \<Rightarrow> False) \<or> b_bridge s \<noteq> None
      then (s, [GuestRefused])
      else case b_upstream s of
        Some _ \<Rightarrow>
          (let epoch = b_connectionEpoch s + 1
           in (s\<lparr> b_connectionEpoch := epoch, b_bridge := Some epoch,
                  b_connection := (offline_snapshot epoch)\<lparr> cs_state := ''connecting'',
                    cs_connectedAt := Some now, cs_remoteAddress := remote \<rparr> \<rparr>, []))
      | None \<Rightarrow>
          (let ref = b_nextLink s
           in (s\<lparr> b_nextLink := ref + 1, b_guest := Some ref,
                  b_links := (b_links s)(ref := link_start now (be_guestConnectTimeoutMs env)
                    (be_maxArtifactBytes env) remote),
                  b_connection := (offline_snapshot (b_connectionEpoch s))\<lparr> cs_state := ''connecting'',
                    cs_connectedAt := Some now, cs_remoteAddress := remote \<rparr> \<rparr>, [])))"

text \<open>A frame; the handshake draws the next epoch.\<close>

definition guest_frame :: "broker_env \<Rightarrow> int \<Rightarrow> nat \<Rightarrow> bstep" where
  "guest_frame env now ref s =
     (let shaken = gl_shaken (b_links s ref); epoch = b_connectionEpoch s + 1;
          (l, effects) = run_frame (be_link env) now epoch (b_links s ref);
          s = (if \<not> shaken \<and> gl_shaken l then s\<lparr> b_connectionEpoch := epoch \<rparr> else s)
      in link_step env now ref (\<lambda>_. (l, effects)) s)"

definition checkGuestHeartbeat :: "broker_env \<Rightarrow> int \<Rightarrow> bstep" where
  "checkGuestHeartbeat env now s =
     (case b_guest s of
        None \<Rightarrow> (s, [])
      | Some ref \<Rightarrow>
          let l = b_links s ref in
          if gl_closed l then (s, [])
          else if now - gl_lastSeenAt l > be_heartbeatTimeoutMs env \<and> \<not> hasPendingRequests l
          then destroy_guest ref s
          else if gl_ready l then
            (case sendPing l of
               (Inl _, l') \<Rightarrow> (s\<lparr> b_links := (b_links s)(ref := l') \<rparr>, [])
             | (Inr effects, l') \<Rightarrow> (s\<lparr> b_links := (b_links s)(ref := l') \<rparr>, map (ToGuest ref) effects))
          else (s, []))"

subsection \<open>Cleanup\<close>

definition closing_requests :: "string list \<Rightarrow> (string \<times> params) list" where
  "closing_requests resources =
     concat (map (\<lambda>r.
       if starts_with r ''terminal:'' then
         (let i = [(''session_id'', JStr (drop (length ''terminal:'') r))]
          in [(''shell_terminate'', i), (''shell_close'', i)])
       else if starts_with r ''guest-transfer:''
       then [(''file_write_abort'', [(''transferId'', JStr (drop (length ''guest-transfer:'') r))])]
       else []) resources)"

definition delete_resources :: "string \<Rightarrow> broker \<Rightarrow> broker" where
  "delete_resources sid s = put_resources sid [] s"

text \<open>
  The operation at the head of the cleanup chain starts: it aborts the session's transfers. The
  mode of locking is read at this moment.
\<close>

definition cleanup_start :: "int \<Rightarrow> bstep" where
  "cleanup_start now s =
     (case (b_running s, b_cleanups s) of
        (Idle, job # _) \<Rightarrow>
          if b_lockingEnabled s
          then ((setBlocked_b now True s)\<lparr> b_running := Aborting \<rparr>, [AbortTransfers (cj_session job)])
          else (s\<lparr> b_running := AbortingParallel \<rparr>, [AbortTransfers (cj_session job)])
      | _ \<Rightarrow> (s, []))"

text \<open>The head of the chain is done; what it answers is added by the callers of \<open>cleanup_finished\<close>.\<close>

definition cleanup_pop :: "broker \<Rightarrow> broker" where
  "cleanup_pop s = s\<lparr> b_cleanups := tl (b_cleanups s), b_running := Idle \<rparr>"

text \<open>With locking: release the owner, and unblock the lease when the guest is sanitized.\<close>

definition cleanup_end :: "int \<Rightarrow> bool \<Rightarrow> cleanup_job \<Rightarrow> broker \<Rightarrow> broker" where
  "cleanup_end now sanitized job s =
     (let s = (if cj_release job
               then with_lease (snd (release now (cj_session job) (b_lease s))) s else s);
          s = (if sanitized then setBlocked_b now False s else s)
      in cleanup_pop s)"

text \<open>\<open>closeSessionResources\<close>: one request after the other, whatever their outcome.\<close>

definition close_next :: "broker_env \<Rightarrow> int \<Rightarrow> bstep" where
  "close_next env now s =
     (case (b_running s, b_cleanups s) of
        (ClosingParallel ref ((meth, params) # rest), job # _) \<Rightarrow>
          guest_request env now ref (cj_session job) meth params 10000 CleanupClose
            (s\<lparr> b_running := ClosingParallel ref rest \<rparr>)
      | _ \<Rightarrow> (s, []))"

text \<open>
  The continuation after \<open>transfers.abortSession\<close>. The result tells whether the operation ended,
  and how.
\<close>

definition cleanup_aborted :: "broker_env \<Rightarrow> int \<Rightarrow> bool \<Rightarrow> bool option bop" where
  "cleanup_aborted env now ok s =
     (case (b_running s, b_cleanups s) of
        (AbortingParallel, job # _) \<Rightarrow>
          if \<not> ok then (Some False, cleanup_pop (delete_resources (cj_session job) s), [])
          else
            (case guest_ready s of
               None \<Rightarrow> (Some True, cleanup_pop (delete_resources (cj_session job) s), [])
             | Some ref \<Rightarrow>
                 let reqs = closing_requests (resources_of (cj_session job) s) in
                 if reqs = [] then (Some True, cleanup_pop (delete_resources (cj_session job) s), [])
                 else (let (s, e) = close_next env now (s\<lparr> b_running := ClosingParallel ref reqs \<rparr>)
                       in (None, s, e)))
      | (Aborting, job # _) \<Rightarrow>
          let (s, e) = (if ok then (s, []) else case b_guest s of
                          Some ref \<Rightarrow> destroy_guest ref s | None \<Rightarrow> (s, []));
              s = delete_resources (cj_session job) s
          in (case (if ok then guest_ready s else None) of
                None \<Rightarrow> (Some False, cleanup_end now False job s, e)
              | Some ref \<Rightarrow>
                  let (s', e') = guest_request env now ref (cj_session job) ''session_abort''
                        [(''reason'', JStr (cj_reason job)), (''force'', JBool (cj_force job))] 10000
                        (CleanupAbort ref)
                        (s\<lparr> b_connection := (b_connection s)\<lparr> cs_state := ''sanitizing'' \<rparr>,
                            b_running := Sanitizing ref \<rparr>)
                  in (None, s', e @ e'))
      | _ \<Rightarrow> (None, s, []))"

text \<open>After a request of \<open>closeSessionResources\<close>.\<close>

definition cleanup_closed :: "broker_env \<Rightarrow> int \<Rightarrow> bool option bop" where
  "cleanup_closed env now s =
     (case (b_running s, b_cleanups s) of
        (ClosingParallel ref [], job # _) \<Rightarrow>
          (Some True, cleanup_pop (delete_resources (cj_session job) s), [])
      | (ClosingParallel ref (r # rs), _) \<Rightarrow>
          (let (s, e) = close_next env now s in (None, s, e))
      | _ \<Rightarrow> (None, s, []))"

text \<open>After the guest answered, or failed to answer, \<open>session_abort\<close>.\<close>

definition cleanup_answered ::
  "int \<Rightarrow> nat \<Rightarrow> (string + guest_response) \<Rightarrow> bool option bop" where
  "cleanup_answered now ref r s =
     (case (b_running s, b_cleanups s) of
        (Sanitizing _, job # _) \<Rightarrow>
          (case r of
             Inr response \<Rightarrow>
               if \<not> gr_ok response
               then (let (s, e) = destroy_guest ref s in (Some False, cleanup_end now False job s, e))
               else if b_guest s = Some ref \<and> \<not> gl_closed (b_links s ref)
               then (Some True, cleanup_end now True job
                       (s\<lparr> b_connection := (b_connection s)\<lparr> cs_state := ''online'',
                             cs_lastSeenAt := Some now \<rparr> \<rparr>), [])
               else (Some False, cleanup_end now False job s, [])
           | Inl _ \<Rightarrow> (let (s, e) = destroy_guest ref s in (Some False, cleanup_end now False job s, e)))
      | _ \<Rightarrow> (None, s, []))"

text \<open>The answer to \<open>session_abort\<close> of a new connection.\<close>

definition initial_sanitized ::
  "int \<Rightarrow> nat \<Rightarrow> connection_snapshot \<Rightarrow> (string + guest_response) \<Rightarrow> bstep" where
  "initial_sanitized now ref snap r s =
     (case r of
        Inr response \<Rightarrow>
          if \<not> gr_ok response then destroy_guest ref s
          else if b_guest s \<noteq> Some ref \<or> gl_closed (b_links s ref) then (s, [])
          else (setBlocked_b now False
                  (s\<lparr> b_connection := snap\<lparr> cs_state := ''online'', cs_lastSeenAt := Some now \<rparr> \<rparr>), [])
      | Inl _ \<Rightarrow> destroy_guest ref s)"

end
