(* ===== verification/Broker_Exec.thy ===== *)
theory Broker_Exec
  imports Broker_State
begin

text \<open>
  The broker, second part: the tools it executes itself, the requests it forwards to the guest,
  the adapter sessions and their request chains, and the microtasks that resume what was awaited.
\<close>

subsection \<open>Results\<close>

definition result_b ::
  "int \<Rightarrow> string \<Rightarrow> bool \<Rightarrow> string \<Rightarrow> string \<Rightarrow> bool \<Rightarrow> string option \<Rightarrow> js option \<Rightarrow> tool_result bop" where
  "result_b now sid ok code message retryable remediation data s =
     (let (snap, r) = snapshot now sid (b_lease s)
      in (\<lparr> br_ok = ok, br_code = code, br_message = message, br_connection = b_connection s,
            br_lease = snap, br_retryable = retryable, br_remediation = remediation, br_data = data \<rparr>,
          with_lease r s, []))"

text \<open>
  A response goes to the socket that holds the session now; then the session's chain is free.
\<close>

definition respond :: "exec_call \<Rightarrow> tool_result \<Rightarrow> bstep" where
  "respond x r s =
     (let s = s\<lparr> b_chains := (b_chains s)(ex_session x := (False, snd (b_chains s (ex_session x)))) \<rparr> in
      case map_of (b_adapters s) (ex_session x) of
        Some obj \<Rightarrow> if ad_greeted (b_objects s obj) \<and> ad_alive (b_objects s obj)
                   then (s, [ToAdapter obj (ex_id x) r]) else (s, [])
      | None \<Rightarrow> (s, []))"

definition reply ::
  "int \<Rightarrow> exec_call \<Rightarrow> bool \<Rightarrow> string \<Rightarrow> string \<Rightarrow> bool \<Rightarrow> string option \<Rightarrow> js option \<Rightarrow> bstep" where
  "reply now x ok code message retryable remediation data s =
     (let (r, s, e) = result_b now (ex_session x) ok code message retryable remediation data s;
          (s, e') = respond x r s
      in (s, e @ e'))"

definition ticket_json :: "wait_ticket \<Rightarrow> js" where
  "ticket_json t = JObj [(''id'', JStr (wt_id t)), (''sessionId'', JStr (wt_sessionId t)),
     (''createdAt'', js_of_int (wt_createdAt t)), (''expiresAt'', js_of_int (wt_expiresAt t))]"

definition busy_data :: "acquire_result \<Rightarrow> js" where
  "busy_data a = JObj
     [(''waitTicket'', case ar_ticket a of Some t \<Rightarrow> ticket_json t | None \<Rightarrow> JUndef),
      (''queuePosition'', case ar_queuePosition a of Some n \<Rightarrow> js_of_nat n | None \<Rightarrow> JUndef),
      (''retryAfterMs'', js_of_nat 1000)]"

definition operationReminder :: "broker \<Rightarrow> string" where
  "operationReminder s =
     (if b_lockingEnabled s then UNLOCK_REMINDER
      else ''Exclusive locking is disabled; concurrent mouse and keyboard actions can collide.'')"

definition acquire_b :: "broker_env \<Rightarrow> int \<Rightarrow> exec_call \<Rightarrow> acquire_result bop" where
  "acquire_b env now x s =
     (let (fresh, s) = draw_uuid env s;
          (a, r) = acquire now fresh (ex_session x) (ex_label x) True (b_lease s)
      in (a, with_lease r s, []))"

subsection \<open>Tools of the broker itself\<close>

definition lock_reply :: "int \<Rightarrow> string \<Rightarrow> string \<Rightarrow> exec_call \<Rightarrow> acquire_result \<Rightarrow> bstep" where
  "lock_reply now busyMessage hint x a =
     (if ar_acquired a
      then reply now x True ''OK'' (''VM lease acquired. '' @ UNLOCK_REMINDER) False None None
      else reply now x False ''VM_BUSY'' busyMessage True (Some hint) (Some (busy_data a)))"

definition exec_lock :: "broker_env \<Rightarrow> int \<Rightarrow> exec_call \<Rightarrow> bstep" where
  "exec_lock env now x s =
     (if \<not> b_lockingEnabled s
      then reply now x True ''LOCKING_DISABLED''
             ''Exclusive locking is disabled; this session may operate concurrently with other agents.''
             False None None s
      else
        let (a, s, e) = acquire_b env now x s;
            (s, e') = lock_reply now ''Another agent owns the Windows 98 VM.''
                        ''Call vm_wait with this wait ticket.'' x a s
        in (s, e @ e'))"

text \<open>\<open>Math.floor(seconds * 1_000)\<close> of the bounded \<open>wait_seconds\<close>.\<close>

definition wait_ms :: "params \<Rightarrow> int" where
  "wait_ms params =
     (case num_floor (num_mul (boundedNumber (jsget params ''wait_seconds'') (Fin 10) (Fin 0) (Fin 600))
              (Fin 1000)) of
        Fin q \<Rightarrow> \<lfloor>q\<rfloor> | _ \<Rightarrow> 0)"

definition wait_reply :: "int \<Rightarrow> exec_call \<Rightarrow> acquire_result \<Rightarrow> bstep" where
  "wait_reply now x a =
     lock_reply now ''The wait period ended before the VM became available.''
       ''Call vm_wait again with the same ticket.'' x a"

definition exec_wait :: "broker_env \<Rightarrow> int \<Rightarrow> exec_call \<Rightarrow> bstep" where
  "exec_wait env now x s =
     (if \<not> b_lockingEnabled s
      then reply now x True ''LOCKING_DISABLED''
             ''Exclusive locking is disabled; no lease wait is needed.'' False None None s
      else
        let p = b_nextPromise s;
            (fresh, s) = draw_uuid env (s\<lparr> b_nextPromise := p + 1 \<rparr>);
            (out, r) = wait now fresh p (ex_session x) (ex_label x) (wait_ms (ex_params x))
                         (string_of (jsget (ex_params x) ''ticket_id'')) (b_lease s);
            s = with_lease r s
        in case out of
             Settled a \<Rightarrow> wait_reply now x a s
           | Pending p \<Rightarrow> (s\<lparr> b_parked := (p, x) # b_parked s \<rparr>, []))"

definition resource_list :: "string list \<Rightarrow> js" where
  "resource_list rs = JObj [(''resources'', JArr (map JStr rs))]"

definition exec_unlock :: "int \<Rightarrow> exec_call \<Rightarrow> bstep" where
  "exec_unlock now x s =
     (let force = (jsget (ex_params x) ''force'' = JBool True);
          rs = resources_of (ex_session x) s;
          hint = Some ''Close the listed resources, or call vm_unlock with force=true.'' in
      if \<not> b_lockingEnabled s then
        (if \<not> force \<and> rs \<noteq> []
         then reply now x False ''RESOURCES_ACTIVE''
                ''Close this session's terminal or transfer resources before finishing.'' False hint
                (Some (resource_list rs)) s
         else (enqueueCleanup \<lparr> cj_session = ex_session x, cj_reason = ''explicit_unlock_parallel'',
                 cj_force = force, cj_release = False, cj_reply = ParallelReply x \<rparr> s, []))
      else if owner_session s \<noteq> Some (ex_session x)
      then reply now x True ''NOT_LOCKED'' ''This session does not own the VM lease.'' False None None
             (with_lease (snd (disconnect (ex_session x) (b_lease s))) s)
      else if \<not> force \<and> rs \<noteq> []
      then reply now x False ''RESOURCES_ACTIVE''
             ''The VM cannot be unlocked while terminal or transfer resources remain active.'' False hint
             (Some (resource_list rs)) s
      else (enqueueCleanup \<lparr> cj_session = ex_session x, cj_reason = ''explicit_unlock'',
              cj_force = force, cj_release = True, cj_reply = ExplicitReply x \<rparr> s, []))"

text \<open>What a finished cleanup answers.\<close>

definition cleanup_reply_step :: "int \<Rightarrow> cleanup_job \<Rightarrow> bool \<Rightarrow> bstep" where
  "cleanup_reply_step now job sanitized =
     (case cj_reply job of
        NoReply \<Rightarrow> idle_step
      | ChainOnly \<Rightarrow> put_step (\<lambda>s. s\<lparr> b_chains := (b_chains s)
          (cj_session job := (False, snd (b_chains s (cj_session job)))) \<rparr>)
      | ParallelReply x \<Rightarrow>
          reply now x True ''LOCKING_DISABLED''
            ''This session's resources were released. Exclusive locking remains disabled.'' False None None
      | ExplicitReply x \<Rightarrow>
          if sanitized
          then reply now x True ''OK'' ''VM lease released and guest input state sanitized.'' False None None
          else reply now x False ''CLEANUP_PENDING_RECONNECT''
                 ''The local lease was released, but guest cleanup was not acknowledged. New owners remain blocked.''
                 True (Some ''Restart or reconnect WIN98CTL.EXE. The broker will sanitize the guest before allowing another owner.'')
                 None)"

definition cleanup_finished :: "int \<Rightarrow> bool option bop \<Rightarrow> bstep" where
  "cleanup_finished now m s =
     (case b_cleanups s of
        [] \<Rightarrow> (s, [])
      | job # _ \<Rightarrow>
          let (ended, s, e) = m s in
          case ended of
            None \<Rightarrow> (s, e)
          | Some sanitized \<Rightarrow> (let (s, e') = cleanup_reply_step now job sanitized s in (s, e @ e')))"

definition proxy_target :: "params \<Rightarrow> (string \<times> int) option" where
  "proxy_target params =
     (let host = trim (text_of (jsget params ''host'')) in
      case js_integer (jsget params ''port'') of
        Some port \<Rightarrow> if host = [] \<or> port < 1 \<or> port > 65535 then None else Some (host, port)
      | None \<Rightarrow> None)"

definition upstream_json :: "(string \<times> int) option \<Rightarrow> js" where
  "upstream_json u =
     (case u of Some (h, p) \<Rightarrow> JObj [(''host'', JStr h), (''port'', js_of_int p)] | None \<Rightarrow> JUndef)"

definition exec_set_upstream :: "int \<Rightarrow> exec_call \<Rightarrow> bstep" where
  "exec_set_upstream now x s =
     (let enabled = (jsget (ex_params x) ''enabled'' = JBool True);
          target = (if enabled then proxy_target (ex_params x) else None) in
      if enabled \<and> target = None
      then reply now x False ''INVALID_ARGUMENT'' ''A proxy host and port between 1 and 65535 are required.''
             False None None s
      else if b_upstream s = target
      then reply now x True ''OK'' ''The requested proxy configuration is already active.'' False None
             (Some (JObj [(''upstream'', upstream_json target), (''reconnecting'', JBool False)])) s
      else if owner_session s \<noteq> None
      then reply now x False ''VM_BUSY'' ''Close active VM work before changing the proxy destination.'' True
             (Some ''Call vm_unlock after closing terminals and transfers.'') None s
      else
        let guest = b_guest s; bridged = (b_bridge s \<noteq> None); epoch = b_connectionEpoch s + 1;
            s = s\<lparr> b_upstream := target, b_guest := None, b_bridge := None, b_capabilities := None,
                   b_connectionEpoch := epoch, b_connection := offline_snapshot epoch \<rparr>;
            (s, e) = (case guest of Some ref \<Rightarrow> destroy_guest ref s | None \<Rightarrow> (s, []));
            e = e @ (if bridged then [BridgeDestroyed] else []);
            (s, e') = reply now x True ''OK''
                (if enabled then ''Proxy destination applied. The guest will reconnect through the remote broker.''
                 else ''Proxy disabled. The guest will reconnect directly to this broker.'') False None
                (Some (JObj [(''upstream'', upstream_json target), (''reconnecting'', JBool True)])) s
        in (s, e @ e'))"

definition exec_set_locking :: "int \<Rightarrow> exec_call \<Rightarrow> bstep" where
  "exec_set_locking now x s =
     (case jsget (ex_params x) ''enabled'' of
        JBool enabled \<Rightarrow>
          let data = Some (JObj [(''lockingEnabled'', JBool enabled)]) in
          if enabled = b_lockingEnabled s
          then reply now x True ''OK''
                 (if enabled then ''Exclusive locking is already enabled.''
                  else ''Exclusive locking is already disabled.'') False None data s
          else if owner_session s \<noteq> None
          then reply now x False ''VM_BUSY''
                 ''Disconnect or unlock the current lease owner before changing exclusive locking.'' True
                 (Some ''Use the Agents panel to disconnect the owner, then apply the change again.'') None s
          else if enabled \<and> b_resources s \<noteq> []
          then reply now x False ''RESOURCES_ACTIVE''
                 ''Close active terminals and transfers before re-enabling exclusive locking.'' False None None s
          else reply now x True ''OK''
                 (if enabled then ''Exclusive locking enabled. VM work will again use one lease owner.''
                  else ''Exclusive locking disabled. Agents may issue concurrent requests; mouse and keyboard actions can collide.'')
                 False None data ((with_lease (clearWaiters (b_lease s)) s)\<lparr> b_lockingEnabled := enabled \<rparr>)
      | _ \<Rightarrow> reply now x False ''INVALID_ARGUMENT'' ''enabled must be true or false.'' False None None s)"

subsection \<open>Adapter sessions that end\<close>

definition finalizeAdapterDisconnect :: "nat \<Rightarrow> string \<Rightarrow> broker \<Rightarrow> broker" where
  "finalizeAdapterDisconnect obj reason s =
     (let a = b_objects s obj; sid = ad_id a in
      if map_of (b_adapters s) sid \<noteq> Some obj then s
      else
        let s = s\<lparr> b_objects := (b_objects s)(obj := a\<lparr> ad_cleanupTimer := None \<rparr>),
                   b_adapters := filter (\<lambda>e. fst e \<noteq> sid) (b_adapters s),
                   b_selectedVms := filter (\<lambda>e. fst e \<noteq> sid) (b_selectedVms s) \<rparr>;
            (relation, r) = disconnect sid (b_lease s);
            s = with_lease r s;
            add = (\<lambda>t. s\<lparr> b_chains := (b_chains s)
                      (sid := (fst (b_chains s sid), snd (b_chains s sid) @ [t])) \<rparr>)
        in if relation = RelOwner then add (CleanupTask reason True True)
           else if \<not> b_lockingEnabled s then add (CleanupTask (reason @ ''_parallel'') True False)
           else s)"

definition exec_disconnect_session :: "int \<Rightarrow> exec_call \<Rightarrow> bstep" where
  "exec_disconnect_session now x s =
     (let target = (case jsget (ex_params x) ''session_id'' of
                      JStr t \<Rightarrow> t | _ \<Rightarrow> text_of (jsget (ex_params x) ''sessionId'')) in
      if target = []
      then reply now x False ''INVALID_ARGUMENT'' ''session_id is required.'' False None None s
      else if target = ex_session x
      then reply now x False ''CANNOT_DISCONNECT_SELF''
             ''Close this admin app or MCP process to disconnect its own session.'' False None None s
      else case map_of (b_adapters s) target of
        None \<Rightarrow> reply now x False ''SESSION_NOT_FOUND''
                 ''The requested agent session is no longer connected.'' False None None s
      | Some obj \<Rightarrow>
          let s = finalizeAdapterDisconnect obj ''adapter_disconnect_requested''
                    (s\<lparr> b_revoked := (if target \<in> set (b_revoked s) then b_revoked s else target # b_revoked s) \<rparr>);
              e = (if ad_alive (b_objects s obj) then [AdapterClosing obj target] else []);
              (s, e') = reply now x True ''OK''
                ''Disconnect requested. If that agent owned the exclusive lease, cleanup and release are now running.''
                False None
                (Some (JObj [(''targetSessionId'', JStr target),
                  (''cleanupPending'', JBool (b_lockingEnabled s \<and> owner_session s = Some target))])) s
          in (s, e @ e'))"

definition session_json :: "string \<Rightarrow> broker \<Rightarrow> string \<times> nat \<Rightarrow> js" where
  "session_json caller s e =
     (let (sid, obj) = e; a = b_objects s obj in
      JObj ([(''sessionId'', JStr (ad_id a)), (''label'', JStr (ad_label a)),
         (''connectedAt'', js_of_int (ad_connectedAt a)),
         (''connected'', JBool (ad_disconnectedAt a = None \<and> ad_alive a))] @
        (case ad_disconnectedAt a of Some t \<Rightarrow> [(''disconnectedAt'', js_of_int t)] | None \<Rightarrow> []) @
        [(''current'', JBool (ad_id a = caller)), (''holdsLease'', JBool (owner_session s = Some (ad_id a)))] @
        (case map_of (b_selectedVms s) (ad_id a) of Some v \<Rightarrow> [(''selectedQemuVmId'', JStr v)] | None \<Rightarrow> []) @
        [(''resources'', JArr (map JStr (resources_of (ad_id a) s)))]))"

text \<open>
  \<open>vm_status\<close>, \<open>host_network_info\<close> and \<open>broker_sessions\<close> report; the data of the first two is not
  modelled.
\<close>

definition NON_LOCKING_METHODS :: "string list" where
  "NON_LOCKING_METHODS = [''vm_status'', ''vm_capabilities'', ''vm_lock'', ''vm_wait'', ''vm_unlock'',
     ''host_network_info'', ''broker_set_upstream'', ''broker_sessions'', ''broker_disconnect_session'',
     ''broker_set_locking'']"

definition executeLocal :: "broker_env \<Rightarrow> int \<Rightarrow> exec_call \<Rightarrow> bstep" where
  "executeLocal env now x s =
     (let meth = ex_method x in
      if meth = ''vm_status'' then reply now x True ''OK'' ''Broker status.'' False None (Some JUndef) s
      else if meth = ''host_network_info''
      then reply now x True ''OK'' ''Host IPv4 addresses.'' False None (Some JUndef) s
      else if meth = ''broker_set_upstream'' then exec_set_upstream now x s
      else if meth = ''broker_sessions''
      then reply now x True ''OK'' ''Connected broker adapter sessions.'' False None
             (Some (JObj [(''lockingEnabled'', JBool (b_lockingEnabled s)),
                (''sessions'', JArr (map (session_json (ex_session x) s) (b_adapters s)))])) s
      else if meth = ''broker_disconnect_session'' then exec_disconnect_session now x s
      else if meth = ''broker_set_locking'' then exec_set_locking now x s
      else if meth = ''vm_capabilities'' then
        (case b_capabilities s of
           None \<Rightarrow> reply now x False ''VM_OFFLINE'' ''No guest capabilities are currently available.'' True None None s
         | Some c \<Rightarrow> reply now x True ''OK'' ''Guest capabilities.'' False None (Some c) s)
      else if meth = ''vm_lock'' then exec_lock env now x s
      else if meth = ''vm_wait'' then exec_wait env now x s
      else exec_unlock now x s)"

subsection \<open>Requests for the guest\<close>

definition SAFE_RETRY_METHODS :: "string list" where
  "SAFE_RETRY_METHODS = [''screen_capture'', ''mouse_position'', ''clipboard_get'', ''window_list'',
     ''window_capture'', ''process_list'', ''process_wait'', ''fs_stat'', ''fs_list'', ''system_info'',
     ''agent_diagnostics'']"

definition NON_LEASE_GUEST_METHODS :: "string list" where
  "NON_LEASE_GUEST_METHODS = [''agent_diagnostics'']"

definition isKnownGuestOffline :: "broker \<Rightarrow> bool" where
  "isKnownGuestOffline s \<longleftrightarrow> cs_state (b_connection s) = ''offline'' \<and> cs_lastSeenAt (b_connection s) \<noteq> None"

definition guest_online :: "broker \<Rightarrow> bool" where
  "guest_online s \<longleftrightarrow> cs_state (b_connection s) = ''online'' \<and> guest_ready s \<noteq> None"

definition vmOfflineResponse :: "int \<Rightarrow> exec_call \<Rightarrow> bstep" where
  "vmOfflineResponse now x s =
     reply now x False ''VM_OFFLINE'' ''Windows is currently offline and cannot receive guest commands.'' True
       (Some ''Start or resume WIN98CTL.EXE. The MCP tools remain available and will work again after the guest reconnects.'')
       (Some (JObj [(''lastSeenAt'', case cs_lastSeenAt (b_connection s) of Some t \<Rightarrow> js_of_int t | None \<Rightarrow> JUndef),
          (''offlineReason'', JStr (case cs_offlineReason (b_connection s) of
             Some m \<Rightarrow> m | None \<Rightarrow> ''guest_connection_closed''))])) s"

text \<open>A call that failed: the code reported, and what the caller is told.\<close>

definition exec_failed :: "int \<Rightarrow> exec_call \<Rightarrow> string \<Rightarrow> bstep" where
  "exec_failed now x message s =
     (let s = touch_b now (ex_session x) s; meth = ex_method x;
          retryable = List.member SAFE_RETRY_METHODS meth; transfer = List.member TRANSFER_METHODS meth in
      reply now x False
        (if transfer then if starts_with meth ''directory_'' then ''PARTIAL_TRANSFER'' else error_code message
         else if retryable then error_code message else ''OUTCOME_UNKNOWN'')
        (message @ '' '' @ operationReminder s) retryable
        (Some (if transfer then ''Correct the reported path or transfer error and retry. Directory transfers merge, so already committed files remain.''
               else if retryable then ''Retry after checking vm_status.''
               else ''Inspect the VM with screen_capture before repeating this operation.'')) None s)"

definition timeout_ms_of :: "jsnum \<Rightarrow> int" where
  "timeout_ms_of n = (case n of Fin q \<Rightarrow> \<lfloor>q\<rfloor> | _ \<Rightarrow> 1)"

text \<open>The call is sent to the guest, or handed to the transfer coordinator.\<close>

definition exec_send :: "broker_env \<Rightarrow> int \<Rightarrow> exec_call \<Rightarrow> bstep" where
  "exec_send env now x s =
     (if List.member TRANSFER_METHODS (ex_method x)
      then (s\<lparr> b_external := b_external s @ [x] \<rparr>, [RunExternal x])
      else case b_guest s of
        None \<Rightarrow> exec_failed now x ''GUEST_NOT_CONNECTED'' s
      | Some ref \<Rightarrow>
          guest_request env now ref (ex_session x) (ex_method x) (ex_params x)
            (timeout_ms_of (requestTimeout (ex_method x) (ex_params x) (be_requestTimeoutMs env)))
            (GuestCall x) s)"

text \<open>The part of \<open>execute\<close> after \<open>waitForGuest\<close>: capability, lease, then the call.\<close>

definition exec_leased :: "broker_env \<Rightarrow> int \<Rightarrow> exec_call \<Rightarrow> bstep" where
  "exec_leased env now x s =
     (if b_lockingEnabled s \<and> \<not> List.member NON_LEASE_GUEST_METHODS (ex_method x)
      then
        let (a, s, e) = acquire_b env now x s;
            (s, e') = (if ar_acquired a then exec_send env now x (touch_b now (ex_session x) s)
              else reply now x False ''VM_BUSY'' ''Another agent owns the Windows 98 VM.'' True
                (Some ''Call vm_wait with the returned ticket, or retry after the current lease expires.'')
                (Some (busy_data a)) s)
        in (s, e @ e')
      else exec_send env now x s)"

definition exec_connected :: "broker_env \<Rightarrow> int \<Rightarrow> exec_call \<Rightarrow> bstep" where
  "exec_connected env now x s =
     (let meth = ex_method x in
      if (case b_capabilities s of Some c \<Rightarrow> \<not> capabilitySupports (commands_of c) meth | None \<Rightarrow> False) \<and>
         \<not> starts_with meth ''file_'' \<and> \<not> starts_with meth ''directory_''
      then reply now x False ''METHOD_UNSUPPORTED''
             (''The connected guest does not advertise support for '' @ meth @ ''.'') False None None s
      else exec_leased env now x s)"

text \<open>One look of the polling loop \<open>waitForGuest\<close>.\<close>

definition guest_poll :: "broker_env \<Rightarrow> int \<Rightarrow> exec_call \<times> int \<Rightarrow> bstep" where
  "guest_poll env now p s =
     (let (x, deadline) = p; rest = s\<lparr> b_polls := remove1 p (b_polls s) \<rparr> in
      if p \<notin> set (b_polls s) then (s, [])
      else if now \<ge> deadline then
        (let sanitizing = (cs_state (b_connection s) = ''sanitizing'') in
         reply now x False (if sanitizing then ''VM_SANITIZING'' else ''GUEST_CONNECT_TIMEOUT'')
           (if sanitizing then ''The guest is connected but cleanup is still in progress.''
            else ''Windows 98 did not connect to the host listener within 5 seconds.'') True
           (Some ''Start WIN98CTL.EXE and verify the host IP and port in WIN98CTL.INI.'') None rest)
      else if guest_online s then exec_connected env now x rest
      else (s, []))"

definition exec_guest :: "broker_env \<Rightarrow> int \<Rightarrow> exec_call \<Rightarrow> bstep" where
  "exec_guest env now x s =
     (if isKnownGuestOffline s then
        (if ex_method x = ''agent_diagnostics''
         then reply now x True ''OK'' ''Broker diagnostics; the Windows guest is currently offline.'' False None
                (Some (JObj [(''guestOnline'', JBool False), (''guestDiagnosticsAvailable'', JBool False)])) s
         else vmOfflineResponse now x s)
      else if guest_online s then exec_connected env now x s
      else (s\<lparr> b_polls := b_polls s @ [(x, now + be_guestConnectTimeoutMs env)] \<rparr>, []))"

text \<open>\<open>execute\<close>; what the QEMU manager answers comes back as an external result.\<close>

definition execute :: "broker_env \<Rightarrow> int \<Rightarrow> exec_call \<Rightarrow> bstep" where
  "execute env now x s =
     (if (case map_of (b_adapters s) (ex_session x) of
            Some obj \<Rightarrow> ad_label (b_objects s obj) \<noteq> ex_label x | None \<Rightarrow> False)
      then reply now x False ''SESSION_LABEL_MISMATCH''
             ''The adapter session label does not match the connected session.'' False None None s
      else if List.member NON_LOCKING_METHODS (ex_method x) then executeLocal env now x s
      else if ex_method x = ''qemu_vm_unselect''
      then reply now x True ''OK'' ''Cleared this session's managed QEMU VM selection.'' False None None
             (s\<lparr> b_selectedVms := filter (\<lambda>e. fst e \<noteq> ex_session x) (b_selectedVms s) \<rparr>)
      else if starts_with (ex_method x) ''qemu_''
      then (s\<lparr> b_external := b_external s @ [x] \<rparr>, [RunExternal x])
      else exec_guest env now x s)"

text \<open>An image in a response is fetched and stored outside of this model.\<close>

definition carries_image :: "guest_response \<Rightarrow> bool" where
  "carries_image r \<longleftrightarrow>
     (let d = gr_data r in is_record d \<and>
        (is_string (member d ''imageBase64'') \<or>
         isBinaryDescriptor (member d ''binary'') \<and>
         member (member d ''binary'') ''mimeType'' \<in> {JStr ''image/png'', JStr ''image/bmp'', JStr ''image/x-ms-bmp''}))"

definition exec_processed :: "int \<Rightarrow> exec_call \<Rightarrow> guest_response \<Rightarrow> bstep" where
  "exec_processed now x response s =
     (let s = trackResources (ex_session x) (ex_method x) (ex_params x) response s in
      reply now x (gr_ok response) (gr_code response)
        (gr_message response @ '' '' @ operationReminder s)
        (\<not> gr_ok response \<and> List.member SAFE_RETRY_METHODS (ex_method x))
        (if gr_ok response then None else remediationForCode (gr_code response))
        (if b_lockingEnabled s then Some (addUnlockReminder (gr_data response))
         else if gr_data response = JUndef then None else Some (gr_data response)) s)"

definition exec_answered :: "int \<Rightarrow> exec_call \<Rightarrow> (string + guest_response) \<Rightarrow> bstep" where
  "exec_answered now x r s =
     (case r of
        Inl message \<Rightarrow> exec_failed now x message s
      | Inr response \<Rightarrow>
          let s = touch_b now (ex_session x) s in
          if b_guest s \<noteq> None \<and> carries_image response
          then (s\<lparr> b_external := b_external s @ [x] \<rparr>, [RunExternal x])
          else exec_processed now x response s)"

text \<open>
  What comes back from outside: the progress of a transfer, a processed response, the answer of
  the QEMU manager, or the message of an error.
\<close>

datatype external_result =
    TransferDone js
  | ImageStored guest_response
  | QemuAnswer bool string string "js option"
  | ExternalFailed string

definition external_done :: "int \<Rightarrow> exec_call \<Rightarrow> external_result \<Rightarrow> bstep" where
  "external_done now x r s =
     (if x \<notin> set (b_external s) then (s, [])
      else
        let s = s\<lparr> b_external := remove1 x (b_external s) \<rparr> in
        case r of
          TransferDone progress \<Rightarrow>
            (let s = touch_b now (ex_session x) s in
             reply now x True ''OK'' (ex_method x @ '' completed. '' @ operationReminder s) False None
               (Some (if b_lockingEnabled s then addUnlockReminder progress else progress)) s)
        | ImageStored response \<Rightarrow> exec_processed now x response s
        | QemuAnswer ok code message data \<Rightarrow>
            if ex_method x = ''qemu_vm_select'' then
              (let vm = text_of (jsget (ex_params x) ''vm_id'') in
               if \<not> ok then reply now x False code message False None None s
               else reply now x True ''OK''
                      (''Selected managed QEMU VM '' @ vm @ '' for this session's QEMU panel. Normal in-guest tools use the guest's outbound TCP broker connection.'')
                      False None
                      (Some (JObj [(''vm_id'', JStr vm),
                         (''vm'', case data of Some d \<Rightarrow> member d ''vm'' | None \<Rightarrow> JUndef),
                         (''guestRouting'', JStr ''tcp'')]))
                      (s\<lparr> b_selectedVms := filter (\<lambda>e. fst e \<noteq> ex_session x) (b_selectedVms s) @ [(ex_session x, vm)] \<rparr>))
            else reply now x ok code message False (if ok then None else remediationForCode code) data s
        | ExternalFailed message \<Rightarrow> exec_failed now x message s)"

subsection \<open>Adapters\<close>

definition acceptAdapter :: "int \<Rightarrow> string \<Rightarrow> bstep" where
  "acceptAdapter now provisional s =
     (let obj = b_nextObject s in
      (s\<lparr> b_nextObject := obj + 1,
          b_objects := (b_objects s)(obj := \<lparr> ad_id = provisional, ad_label = ''unidentified adapter'',
            ad_connectedAt = now, ad_alive = True, ad_greeted = False,
            ad_disconnectedAt = None, ad_cleanupTimer = None \<rparr>) \<rparr>, []))"

definition destroy_adapter :: "nat \<Rightarrow> bstep" where
  "destroy_adapter obj s =
     (s\<lparr> b_objects := (b_objects s)(obj := (b_objects s obj)\<lparr> ad_alive := False \<rparr>) \<rparr>, [AdapterDestroyed obj])"

text \<open>The first line: the hello that names the session.\<close>

definition adapter_hello :: "nat \<Rightarrow> string \<Rightarrow> string \<Rightarrow> (string + unit) bop" where
  "adapter_hello obj sid label s =
     (let a = b_objects s obj; previous = map_of (b_adapters s) sid in
      if sid \<in> set (b_revoked s)
      then (Inr (), s, if ad_alive a then [AdapterClosing obj sid] else [])
      else if (case previous of Some p \<Rightarrow> ad_label (b_objects s p) \<noteq> take 128 label | None \<Rightarrow> False)
      then (Inl ''SESSION_LABEL_MISMATCH'', s, [])
      else
        let (s, e) = (case previous of
              None \<Rightarrow> (s, [])
            | Some p \<Rightarrow>
                let q = (b_objects s p)\<lparr> ad_cleanupTimer := None \<rparr> in
                if ad_alive q
                then (s\<lparr> b_objects := (b_objects s)(p := q\<lparr> ad_alive := False \<rparr>) \<rparr>, [AdapterDestroyed p])
                else (s\<lparr> b_objects := (b_objects s)(p := q) \<rparr>, []));
            s = s\<lparr> b_objects := (b_objects s)(obj := (b_objects s obj)
                     \<lparr> ad_id := sid, ad_label := take 128 label, ad_greeted := True \<rparr>),
                   b_adapters := filter (\<lambda>e. fst e \<noteq> sid) (b_adapters s) @ [(sid, obj)] \<rparr>
        in (Inr (), s, e @ [AdapterReady obj (b_connection s)]))"

text \<open>A later line: a request joins the chain of its session.\<close>

definition adapter_request :: "nat \<Rightarrow> js \<Rightarrow> (string + unit) bop" where
  "adapter_request obj message s =
     (let a = b_objects s obj; sid = ad_id a in
      if \<not> isBrokerRequest message then (Inl ''BROKER_REQUEST_INVALID'', s, [])
      else if member message ''sessionId'' \<noteq> JStr sid \<or> member message ''sessionLabel'' \<noteq> JStr (ad_label a)
      then (Inl ''SESSION_IDENTITY_MISMATCH'', s, [])
      else if map_of (b_adapters s) sid \<noteq> Some obj then (Inr (), s, [])
      else
        let x = \<lparr> ex_id = string_member message ''id'', ex_session = sid, ex_label = ad_label a,
                  ex_method = string_member message ''method'',
                  ex_params = (case member message ''params'' of JObj r \<Rightarrow> r | _ \<Rightarrow> []) \<rparr>
        in (Inr (), s\<lparr> b_chains := (b_chains s)
               (sid := (fst (b_chains s sid), snd (b_chains s sid) @ [RequestTask x])) \<rparr>, []))"

definition handleAdapterLine :: "nat \<Rightarrow> js option \<Rightarrow> bstep" where
  "handleAdapterLine obj parsed s =
     (let (r, s, e) =
        (case parsed of
           None \<Rightarrow> (Inl ''SyntaxError'', s, [])
         | Some message \<Rightarrow>
             if ad_greeted (b_objects s obj) then adapter_request obj message s
             else if \<not> isBrokerHello message then (Inl ''BROKER_HELLO_REQUIRED'', s, [])
             else adapter_hello obj (string_member message ''sessionId'') (string_member message ''sessionLabel'') s)
      in case r of
           Inr _ \<Rightarrow> (s, e)
         | Inl _ \<Rightarrow> (let (s, e') = destroy_adapter obj s in (s, e @ e')))"

definition ADAPTER_RESUME_GRACE_MS :: int where "ADAPTER_RESUME_GRACE_MS = 30000"

text \<open>The \<open>close\<close> event of an adapter's socket, and the timer it starts.\<close>

definition adapterClosed :: "int \<Rightarrow> nat \<Rightarrow> bstep" where
  "adapterClosed now obj s =
     (let a = (b_objects s obj)\<lparr> ad_alive := False \<rparr>; s = s\<lparr> b_objects := (b_objects s)(obj := a) \<rparr> in
      if \<not> ad_greeted a \<or> map_of (b_adapters s) (ad_id a) \<noteq> Some obj \<or> ad_disconnectedAt a \<noteq> None then (s, [])
      else (s\<lparr> b_objects := (b_objects s)(obj := a\<lparr> ad_disconnectedAt := Some now,
                ad_cleanupTimer := Some (now + ADAPTER_RESUME_GRACE_MS) \<rparr>) \<rparr>, []))"

definition grace_expired :: "nat \<Rightarrow> bstep" where
  "grace_expired obj s =
     (let a = b_objects s obj in
      if ad_cleanupTimer a = None \<or> map_of (b_adapters s) (ad_id a) \<noteq> Some obj \<or> ad_disconnectedAt a = None
      then (s, [])
      else (finalizeAdapterDisconnect obj ''adapter_disconnect_grace_expired'' s, []))"

text \<open>The next task of a session's chain.\<close>

definition chain_run :: "broker_env \<Rightarrow> int \<Rightarrow> string \<Rightarrow> bstep" where
  "chain_run env now sid s =
     (case b_chains s sid of
        (False, t # ts) \<Rightarrow>
          (let s = s\<lparr> b_chains := (b_chains s)(sid := (True, ts)) \<rparr> in
           case t of
             RequestTask x \<Rightarrow> execute env now x s
           | CleanupTask reason force rel \<Rightarrow>
               (enqueueCleanup \<lparr> cj_session = sid, cj_reason = reason, cj_force = force,
                  cj_release = rel, cj_reply = ChainOnly \<rparr> s, []))
      | _ \<Rightarrow> (s, []))"

subsection \<open>Microtasks and timers\<close>

definition continue ::
  "broker_env \<Rightarrow> int \<Rightarrow> continuation \<Rightarrow> (string + guest_response) \<Rightarrow> bstep" where
  "continue env now k v =
     (case k of
        InitialSanitize ref snap \<Rightarrow> initial_sanitized now ref snap v
      | CleanupClose \<Rightarrow> cleanup_finished now (cleanup_closed env now)
      | CleanupAbort ref \<Rightarrow> cleanup_finished now (cleanup_answered now ref v)
      | GuestCall x \<Rightarrow> exec_answered now x v)"

text \<open>The first settled promise resumes what awaits it: a guest request, or a \<open>vm_wait\<close>.\<close>

definition run_settled :: "broker_env \<Rightarrow> int \<Rightarrow> bstep" where
  "run_settled env now s =
     (case b_settled s of
        [] \<Rightarrow> (s, [])
      | (p, v) # rest \<Rightarrow>
          let s = s\<lparr> b_settled := rest \<rparr> in
          case map_of (b_waiting s) p of
            None \<Rightarrow> (s, [])
          | Some k \<Rightarrow> continue env now k v (s\<lparr> b_waiting := filter (\<lambda>e. fst e \<noteq> p) (b_waiting s) \<rparr>))"

definition run_granted :: "int \<Rightarrow> bstep" where
  "run_granted now s =
     (case b_granted s of
        [] \<Rightarrow> (s, [])
      | (p, a) # rest \<Rightarrow>
          let s = s\<lparr> b_granted := rest \<rparr> in
          case map_of (b_parked s) p of
            None \<Rightarrow> (s, [])
          | Some x \<Rightarrow> wait_reply now x a (s\<lparr> b_parked := filter (\<lambda>e. fst e \<noteq> p) (b_parked s) \<rparr>))"

definition transfers_aborted :: "broker_env \<Rightarrow> int \<Rightarrow> bool \<Rightarrow> bstep" where
  "transfers_aborted env now ok = cleanup_finished now (cleanup_aborted env now ok)"

text \<open>The timers of the lease, and the renewal of a long call.\<close>

definition lease_timer :: "int \<Rightarrow> bstep" where
  "lease_timer now s = (with_lease (expireIfDue now (b_lease s)) s, [])"

definition ticket_timer :: "string \<Rightarrow> bstep" where
  "ticket_timer i s = (with_lease (expireTicket i (b_lease s)) s, [])"

definition wait_timer :: "nat \<Rightarrow> bstep" where
  "wait_timer p s = (with_lease (wait_timeout p (b_lease s)) s, [])"

definition renewal_timer :: "int \<Rightarrow> string \<Rightarrow> bstep" where
  "renewal_timer now sid s = (touch_b now sid s, [])"

text \<open>The upstream bridge reports its state, or that it closed.\<close>

definition bridge_state :: "connection_snapshot \<Rightarrow> bstep" where
  "bridge_state snap s =
     (if b_bridge s = Some (cs_epoch snap) then (s\<lparr> b_connection := snap \<rparr>, []) else (s, []))"

definition bridge_closed :: "int \<Rightarrow> bstep" where
  "bridge_closed epoch s =
     (if b_bridge s = Some epoch then (s\<lparr> b_bridge := None, b_connection := offline_snapshot epoch \<rparr>, [])
      else (s, []))"

subsection \<open>Events\<close>

datatype broker_event =
    AdapterAccepted string
  | AdapterLine nat "js option"
  | AdapterSocketClosed nat
  | GraceExpired nat
  | ChainTurn string
  | SettledTurn
  | GrantedTurn
  | Polled exec_call int
  | GuestAccepted "string option"
  | GuestBytes nat bytes
  | GuestFrame nat
  | GuestSocketClosed nat
  | HandshakeTimer nat
  | GuestRequestTimer nat string
  | AdvisoryTurn nat
  | HeartbeatTimer
  | CleanupTurn
  | TransfersAborted bool
  | ExternalDone exec_call external_result
  | LeaseTimer
  | TicketTimer string
  | WaitTimer nat
  | RenewalTimer string
  | BridgeState connection_snapshot
  | BridgeClosed int

fun broker_step :: "broker_env \<Rightarrow> int \<Rightarrow> broker_event \<Rightarrow> bstep" where
  "broker_step env now (AdapterAccepted i) s = acceptAdapter now i s"
| "broker_step env now (AdapterLine obj v) s =
     (if obj < b_nextObject s then handleAdapterLine obj v s else (s, []))"
| "broker_step env now (AdapterSocketClosed obj) s =
     (if obj < b_nextObject s then adapterClosed now obj s else (s, []))"
| "broker_step env now (GraceExpired obj) s = grace_expired obj s"
| "broker_step env now (ChainTurn sid) s = chain_run env now sid s"
| "broker_step env now SettledTurn s = run_settled env now s"
| "broker_step env now GrantedTurn s = run_granted now s"
| "broker_step env now (Polled x d) s = guest_poll env now (x, d) s"
| "broker_step env now (GuestAccepted remote) s = acceptGuest env now remote s"
| "broker_step env now (GuestBytes ref b) s =
     (if ref < b_nextLink s then link_step env now ref (link_data now b) s else (s, []))"
| "broker_step env now (GuestFrame ref) s =
     (if ref < b_nextLink s then guest_frame env now ref s else (s, []))"
| "broker_step env now (GuestSocketClosed ref) s =
     (if ref < b_nextLink s then link_step env now ref closeInternal s else (s, []))"
| "broker_step env now (HandshakeTimer ref) s =
     (if ref < b_nextLink s then link_step env now ref handshake_timeout s else (s, []))"
| "broker_step env now (GuestRequestTimer ref rid) s =
     (if ref < b_nextLink s then link_step env now ref (request_timeout rid) s else (s, []))"
| "broker_step env now (AdvisoryTurn ref) s =
     (if ref < b_nextLink s
      then (let (fresh, s) = draw_uuid env s in link_step env now ref (advisory_next (be_link env) now fresh) s)
      else (s, []))"
| "broker_step env now HeartbeatTimer s = checkGuestHeartbeat env now s"
| "broker_step env now CleanupTurn s = cleanup_start now s"
| "broker_step env now (TransfersAborted ok) s = transfers_aborted env now ok s"
| "broker_step env now (ExternalDone x r) s = external_done now x r s"
| "broker_step env now LeaseTimer s = lease_timer now s"
| "broker_step env now (TicketTimer i) s = ticket_timer i s"
| "broker_step env now (WaitTimer p) s = wait_timer p s"
| "broker_step env now (RenewalTimer sid) s = renewal_timer now sid s"
| "broker_step env now (BridgeState snap) s = bridge_state snap s"
| "broker_step env now (BridgeClosed epoch) s = bridge_closed epoch s"

text \<open>Any events at any times; an event of a socket that was never accepted changes nothing.\<close>

inductive broker_reachable :: "broker_env \<Rightarrow> broker \<Rightarrow> bool" for env where
  Start: "broker_reachable env (new_broker ttl ticketTtl locking upstream)"
| Step: "broker_reachable env s \<Longrightarrow> broker_reachable env (fst (broker_step env now ev s))"

end
