(* ===== verification/Broker_Props.thy ===== *)
theory Broker_Props
  imports Broker_Exec Lease_Props "HOL-Library.Multiset"
begin

text \<open>
  What the broker guarantees: the calls of a session are served one at a time and each of them is
  answered once, whatever happens in between.
\<close>

subsection \<open>Calls in flight\<close>

text \<open>The session a continuation, a cleanup or a parked call owes an answer.\<close>

definition debt_k :: "continuation \<Rightarrow> string multiset" where
  "debt_k k = (case k of GuestCall x \<Rightarrow> {#ex_session x#} | _ \<Rightarrow> {#})"

definition debt_job :: "cleanup_job \<Rightarrow> string multiset" where
  "debt_job j =
     (case cj_reply j of NoReply \<Rightarrow> {#} | ChainOnly \<Rightarrow> {#cj_session j#}
      | ParallelReply x \<Rightarrow> {#ex_session x#} | ExplicitReply x \<Rightarrow> {#ex_session x#})"

definition in_flight :: "broker \<Rightarrow> string multiset" where
  "in_flight s =
     mset (map (ex_session \<circ> fst) (b_polls s)) + mset (map ex_session (b_external s)) +
     sum_list (map (debt_k \<circ> snd) (b_waiting s)) + mset (map (ex_session \<circ> snd) (b_parked s)) +
     sum_list (map debt_job (b_cleanups s))"

definition keys_ok :: "nat \<Rightarrow> (nat \<times> 'a) list \<Rightarrow> bool" where
  "keys_ok n xs \<longleftrightarrow> distinct (map fst xs) \<and> (\<forall>k \<in> fst ` set xs. k < n)"

text \<open>The broker owes every busy session exactly one answer, those of \<open>m\<close> included.\<close>

definition owing :: "string multiset \<Rightarrow> broker \<Rightarrow> bool" where
  "owing m s \<longleftrightarrow>
     (\<forall>sid. count (in_flight s + m) sid = (if fst (b_chains s sid) then 1 else 0)) \<and>
     keys_ok (b_nextPromise s) (b_waiting s) \<and> keys_ok (b_nextPromise s) (b_parked s) \<and>
     (\<forall>sid x. RequestTask x \<in> set (snd (b_chains s sid)) \<longrightarrow> ex_session x = sid)"

lemma owing_cong:
  "in_flight s' + m' = in_flight s + m \<Longrightarrow> b_chains s' = b_chains s \<Longrightarrow> b_waiting s' = b_waiting s \<Longrightarrow>
   b_parked s' = b_parked s \<Longrightarrow> b_nextPromise s' = b_nextPromise s \<Longrightarrow> owing m' s' = owing m s"
  by (simp add: owing_def)

lemma keys_ok_Cons: "keys_ok n xs \<Longrightarrow> keys_ok (Suc n) ((n, x) # xs)"
  by (auto simp: keys_ok_def less_Suc_eq)

lemma keys_ok_weaken: "keys_ok n xs \<Longrightarrow> keys_ok (Suc n) xs"
  by (auto simp: keys_ok_def less_Suc_eq)

lemma keys_ok_filter: "keys_ok n xs \<Longrightarrow> keys_ok n (filter P xs)"
  by (auto simp: keys_ok_def distinct_map_filter)

lemma sum_list_remove_key:
  fixes f :: "'b \<Rightarrow> string multiset"
  assumes "distinct (map fst xs)" "map_of xs p = Some k"
  shows "sum_list (map (f \<circ> snd) xs) = f k + sum_list (map (f \<circ> snd) (filter (\<lambda>e. fst e \<noteq> p) xs))"
  using assms
proof (induction xs)
  case (Cons e xs)
  show ?case
  proof (cases "fst e = p")
    case True
    with Cons.prems have "\<forall>e' \<in> set xs. fst e' \<noteq> p" by (metis distinct.simps(2) image_eqI list.simps(9) set_map)
    then have "filter (\<lambda>e. fst e \<noteq> p) xs = xs" by (simp add: filter_id_conv)
    with True Cons.prems(2) show ?thesis by (cases e) simp
  next
    case False
    with Cons show ?thesis by (cases e) (simp add: add.left_commute)
  qed
qed simp

lemma in_flight_upd [simp]:
  "in_flight (s\<lparr> b_lease := a1 \<rparr>) = in_flight s"
  "in_flight (s\<lparr> b_lockingEnabled := a2 \<rparr>) = in_flight s"
  "in_flight (s\<lparr> b_upstream := a3 \<rparr>) = in_flight s"
  "in_flight (s\<lparr> b_links := a4 \<rparr>) = in_flight s"
  "in_flight (s\<lparr> b_nextLink := a5 \<rparr>) = in_flight s"
  "in_flight (s\<lparr> b_guest := a6 \<rparr>) = in_flight s"
  "in_flight (s\<lparr> b_bridge := a7 \<rparr>) = in_flight s"
  "in_flight (s\<lparr> b_connectionEpoch := a8 \<rparr>) = in_flight s"
  "in_flight (s\<lparr> b_connection := a9 \<rparr>) = in_flight s"
  "in_flight (s\<lparr> b_capabilities := a10 \<rparr>) = in_flight s"
  "in_flight (s\<lparr> b_objects := a11 \<rparr>) = in_flight s"
  "in_flight (s\<lparr> b_nextObject := a12 \<rparr>) = in_flight s"
  "in_flight (s\<lparr> b_adapters := a13 \<rparr>) = in_flight s"
  "in_flight (s\<lparr> b_revoked := a14 \<rparr>) = in_flight s"
  "in_flight (s\<lparr> b_chains := a15 \<rparr>) = in_flight s"
  "in_flight (s\<lparr> b_resources := a16 \<rparr>) = in_flight s"
  "in_flight (s\<lparr> b_selectedVms := a17 \<rparr>) = in_flight s"
  "in_flight (s\<lparr> b_running := a18 \<rparr>) = in_flight s"
  "in_flight (s\<lparr> b_settled := a19 \<rparr>) = in_flight s"
  "in_flight (s\<lparr> b_granted := a20 \<rparr>) = in_flight s"
  "in_flight (s\<lparr> b_nextPromise := a21 \<rparr>) = in_flight s"
  "in_flight (s\<lparr> b_nextUuid := a22 \<rparr>) = in_flight s"
  by (simp_all add: in_flight_def)

lemma owing_upd [simp]:
  "owing m (s\<lparr> b_lease := a1 \<rparr>) = owing m s"
  "owing m (s\<lparr> b_lockingEnabled := a2 \<rparr>) = owing m s"
  "owing m (s\<lparr> b_upstream := a3 \<rparr>) = owing m s"
  "owing m (s\<lparr> b_links := a4 \<rparr>) = owing m s"
  "owing m (s\<lparr> b_nextLink := a5 \<rparr>) = owing m s"
  "owing m (s\<lparr> b_guest := a6 \<rparr>) = owing m s"
  "owing m (s\<lparr> b_bridge := a7 \<rparr>) = owing m s"
  "owing m (s\<lparr> b_connectionEpoch := a8 \<rparr>) = owing m s"
  "owing m (s\<lparr> b_connection := a9 \<rparr>) = owing m s"
  "owing m (s\<lparr> b_capabilities := a10 \<rparr>) = owing m s"
  "owing m (s\<lparr> b_objects := a11 \<rparr>) = owing m s"
  "owing m (s\<lparr> b_nextObject := a12 \<rparr>) = owing m s"
  "owing m (s\<lparr> b_adapters := a13 \<rparr>) = owing m s"
  "owing m (s\<lparr> b_revoked := a14 \<rparr>) = owing m s"
  "owing m (s\<lparr> b_resources := a16 \<rparr>) = owing m s"
  "owing m (s\<lparr> b_selectedVms := a17 \<rparr>) = owing m s"
  "owing m (s\<lparr> b_running := a18 \<rparr>) = owing m s"
  "owing m (s\<lparr> b_settled := a19 \<rparr>) = owing m s"
  "owing m (s\<lparr> b_granted := a20 \<rparr>) = owing m s"
  "owing m (s\<lparr> b_nextUuid := a22 \<rparr>) = owing m s"
  by (simp_all add: owing_def)

lemma owing_polls [simp]:
  "owing m (s\<lparr> b_polls := b_polls s @ [(x, d)] \<rparr>) = owing (m + {#ex_session x#}) s"
  by (rule owing_cong) (simp_all add: in_flight_def)

lemma owing_external [simp]:
  "owing m (s\<lparr> b_external := b_external s @ [x] \<rparr>) = owing (m + {#ex_session x#}) s"
  by (rule owing_cong) (simp_all add: in_flight_def)

lemma owing_moved:
  "in_flight s = in_flight s' + d \<Longrightarrow> b_chains s' = b_chains s \<Longrightarrow> keys_ok (b_nextPromise s') (b_waiting s') \<Longrightarrow>
   keys_ok (b_nextPromise s') (b_parked s') \<Longrightarrow> owing m s \<Longrightarrow> owing (m + d) s'"
  by (simp add: owing_def ac_simps)

lemma mset_map_remove1: "x \<in> set xs \<Longrightarrow> mset (map f xs) = mset (map f (remove1 x xs)) + {#f x#}"
  by (induction xs) auto

lemma owing_poll_taken:
  assumes "p \<in> set (b_polls s)" "owing m s"
  shows "owing (m + {#ex_session (fst p)#}) (s\<lparr> b_polls := remove1 p (b_polls s) \<rparr>)"
proof (rule owing_moved [OF _ _ _ _ assms(2)])
  show "in_flight s = in_flight (s\<lparr> b_polls := remove1 p (b_polls s) \<rparr>) + {#ex_session (fst p)#}"
    using mset_map_remove1 [OF assms(1), of "ex_session \<circ> fst"] by (simp add: in_flight_def)
qed (use assms(2) in \<open>simp_all add: owing_def\<close>)

lemma owing_external_taken:
  assumes "x \<in> set (b_external s)" "owing m s"
  shows "owing (m + {#ex_session x#}) (s\<lparr> b_external := remove1 x (b_external s) \<rparr>)"
proof (rule owing_moved [OF _ _ _ _ assms(2)])
  show "in_flight s = in_flight (s\<lparr> b_external := remove1 x (b_external s) \<rparr>) + {#ex_session x#}"
    using mset_map_remove1 [OF assms(1), of ex_session] by (simp add: in_flight_def)
qed (use assms(2) in \<open>simp_all add: owing_def\<close>)

lemma owing_cleanup [simp]:
  "owing m (enqueueCleanup job s) = owing (m + debt_job job) s"
  unfolding enqueueCleanup_def by (rule owing_cong) (simp_all add: in_flight_def ac_simps)

lemma owing_pop:
  assumes "b_cleanups s = job # js" "owing m s"
  shows "owing (m + debt_job job) (cleanup_pop s)"
  by (rule owing_moved [OF _ _ _ _ assms(2)])
    (use assms in \<open>simp_all add: cleanup_pop_def in_flight_def owing_def ac_simps\<close>)

lemma owing_waiting:
  "owing (m + debt_k k) s \<Longrightarrow>
   owing m (s\<lparr> b_nextPromise := Suc (b_nextPromise s), b_waiting := (b_nextPromise s, k) # b_waiting s \<rparr>)"
  by (simp add: owing_def in_flight_def keys_ok_Cons keys_ok_weaken ac_simps)

lemma owing_parked:
  "owing (m + {#ex_session x#}) s \<Longrightarrow> p < b_nextPromise s \<Longrightarrow> p \<notin> fst ` set (b_parked s) \<Longrightarrow>
   owing m (s\<lparr> b_parked := (p, x) # b_parked s \<rparr>)"
  by (simp add: owing_def in_flight_def keys_ok_def ac_simps)

lemma owing_keys:
  "owing m s \<Longrightarrow> distinct (map fst (b_waiting s))" "owing m s \<Longrightarrow> distinct (map fst (b_parked s))"
  "owing m s \<Longrightarrow> keys_ok (b_nextPromise s) (b_waiting s)" "owing m s \<Longrightarrow> keys_ok (b_nextPromise s) (b_parked s)"
  by (simp_all add: owing_def keys_ok_def)

lemma owing_waited:
  assumes "map_of (b_waiting s) p = Some k" "owing m s"
  shows "owing (m + debt_k k) (s\<lparr> b_waiting := filter (\<lambda>e. fst e \<noteq> p) (b_waiting s) \<rparr>)"
  by (rule owing_moved [OF _ _ _ _ assms(2)])
    (simp_all add: in_flight_def keys_ok_filter owing_keys [OF assms(2)]
      sum_list_remove_key [where f = debt_k, OF owing_keys(1) [OF assms(2)] assms(1)] ac_simps)

lemma owing_unparked:
  assumes "map_of (b_parked s) p = Some x" "owing m s"
  shows "owing (m + {#ex_session x#}) (s\<lparr> b_parked := filter (\<lambda>e. fst e \<noteq> p) (b_parked s) \<rparr>)"
proof -
  have m: "mset (map (ex_session \<circ> snd) xs) = sum_list (map ((\<lambda>x. {#ex_session x#}) \<circ> snd) xs)"
    for xs :: "(nat \<times> exec_call) list"
    by (induction xs) simp_all
  show ?thesis
    by (rule owing_moved [OF _ _ _ _ assms(2)])
      (simp_all add: in_flight_def m keys_ok_filter owing_keys [OF assms(2)]
        sum_list_remove_key [where f = "\<lambda>x. {#ex_session x#}", OF owing_keys(2) [OF assms(2)] assms(1)]
        del: mset_map)
qed

lemma owing_nextPromise:
  "owing m s \<Longrightarrow> owing m (s\<lparr> b_nextPromise := Suc (b_nextPromise s) \<rparr>)"
  by (simp add: owing_def keys_ok_weaken)

subsection \<open>Steps that answer nobody\<close>

lemma owing_lease_event [simp]: "owing m (lease_event e s) = owing m s"
  by (simp add: lease_event_def debt_job_def split: lease_event.split)

lemma owing_lease_events [simp]: "owing m (fold lease_event ev s) = owing m s"
  by (induction ev arbitrary: s) simp_all

lemma owing_with_lease [simp]: "owing m (with_lease r s) = owing m s"
  by (simp add: with_lease_def)

lemma owing_setBlocked [simp]: "owing m (setBlocked_b now b s) = owing m s"
  by (simp add: setBlocked_b_def)

lemma owing_touch [simp]: "owing m (touch_b now sid s) = owing m s"
  by (simp add: touch_b_def)

lemma owing_draw [simp]: "owing m (snd (draw_uuid env s)) = owing m s"
  by (simp add: draw_uuid_def)

lemma owing_put_resources [simp]: "owing m (put_resources sid rs s) = owing m s"
  by (simp add: put_resources_def)

lemma owing_delete_resources [simp]: "owing m (delete_resources sid s) = owing m s"
  by (simp add: delete_resources_def)

lemma owing_trackResources [simp]: "owing m (trackResources sid meth params r s) = owing m s"
  by (simp add: trackResources_def Let_def)

lemma owing_settle_guest [simp]: "owing m (settle_guest p r s) = owing m s"
  by (simp add: settle_guest_def)

lemma owing_plain_effect [simp]: "owing m (fst (plain_effect ref e s)) = owing m s"
  by (simp add: plain_effect_def split: link_effect.split)

lemma owing_then: "(\<And>s. owing m (fst (f s)) = owing m s) \<Longrightarrow> owing m (fst (then_step f g s)) = owing m (fst (g (fst (f s))))"
  by (simp add: then_step_def split: prod.split)

lemma owing_effects:
  assumes "\<And>e s. owing m s \<Longrightarrow> owing m (fst (f e s))"
  shows "owing m s \<Longrightarrow> owing m (fst (foldr (\<lambda>e. then_step (f e)) es idle_step s))"
proof (induction es arbitrary: s)
  case (Cons e es)
  have "owing m (fst (f e s))" by (rule assms) (rule Cons.prems)
  then show ?case using Cons.IH by (simp add: then_step_def split: prod.split) (metis fst_conv)
qed (simp add: idle_step_def)

lemma owing_guest_request:
  assumes "owing (m + debt_k k) s"
  shows "owing m (fst (guest_request env now ref sid meth params timeout k s))"
  unfolding guest_request_def Let_def
  by (auto split: prod.split simp: draw_uuid_def intro!: owing_effects)
    (use owing_waiting [OF assms] in simp)

lemma owing_destroy_guest [simp]: "owing m (fst (destroy_guest ref s)) = owing m s"
  by (simp add: destroy_guest_def split: prod.split)

lemma owing_guestStateChanged: "owing m s \<Longrightarrow> owing m (fst (guestStateChanged env now ref snap c s))"
  by (auto simp: guestStateChanged_def Let_def debt_k_def intro!: owing_guest_request)

lemma owing_guestClosed [simp]: "owing m (fst (guestClosed ref s)) = owing m s"
  by (simp add: guestClosed_def)

lemma owing_link_effect_step: "owing m s \<Longrightarrow> owing m (fst (link_effect_step env now ref e s))"
  by (simp add: link_effect_step_def owing_guestStateChanged split: link_effect.split)

lemma owing_link_step: "owing m s \<Longrightarrow> owing m (fst (link_step env now ref f s))"
  unfolding link_step_def
  by (auto split: prod.split intro!: owing_effects owing_link_effect_step)

lemma owing_acceptGuest: "owing m s \<Longrightarrow> owing m (fst (acceptGuest env now remote s))"
  by (simp add: acceptGuest_def Let_def split: option.split)

lemma owing_guest_frame: "owing m s \<Longrightarrow> owing m (fst (guest_frame env now ref s))"
  unfolding guest_frame_def Let_def
  by (auto split: prod.split intro!: owing_link_step)

lemma owing_heartbeat: "owing m s \<Longrightarrow> owing m (fst (checkGuestHeartbeat env now s))"
  by (auto simp: checkGuestHeartbeat_def Let_def split: option.split prod.split sum.split)

lemma owing_result_b [simp]: "owing m (fst (snd (result_b now sid ok code msg retry rem data s))) = owing m s"
  by (simp add: result_b_def split: prod.split)

lemma owing_acquire_b [simp]: "owing m (fst (snd (acquire_b env now x s))) = owing m s"
  by (simp add: acquire_b_def draw_uuid_def split: prod.split)

lemma owing_add_task:
  "owing m s \<Longrightarrow> (\<And>x. t = RequestTask x \<Longrightarrow> ex_session x = sid) \<Longrightarrow>
   owing m (s\<lparr> b_chains := (b_chains s)(sid := (fst (b_chains s sid), snd (b_chains s sid) @ [t])) \<rparr>)"
  by (auto simp: owing_def)

lemma owing_finalize: "owing m s \<Longrightarrow> owing m (finalizeAdapterDisconnect obj reason s)"
  unfolding finalizeAdapterDisconnect_def Let_def
  by (auto split: prod.split intro!: owing_add_task)

subsection \<open>Steps that answer one call\<close>

lemma owing_free:
  assumes "owing (m + {#sid#}) s"
  shows "owing m (s\<lparr> b_chains := (b_chains s)(sid := (False, snd (b_chains s sid))) \<rparr>)"
proof -
  have c: "count (in_flight s + (m + {#sid#})) i = (if fst (b_chains s i) then 1 else 0)" for i
    using assms by (simp add: owing_def)
  have "count (in_flight s + m) i = (if i \<noteq> sid \<and> fst (b_chains s i) then 1 else 0)" for i
    using c [of i] by (auto split: if_splits)
  with assms show ?thesis by (auto simp: owing_def)
qed

lemma owing_respond: "owing (m + {#ex_session x#}) s \<Longrightarrow> owing m (fst (respond x r s))"
  by (drule owing_free) (simp add: respond_def Let_def split: option.split)

lemma owing_reply: "owing (m + {#ex_session x#}) s \<Longrightarrow> owing m (fst (reply now x ok code msg retry rem data s))"
proof -
  assume a: "owing (m + {#ex_session x#}) s"
  obtain r s1 e where r: "result_b now (ex_session x) ok code msg retry rem data s = (r, s1, e)"
    by (cases "result_b now (ex_session x) ok code msg retry rem data s") auto
  with a have "owing (m + {#ex_session x#}) s1"
    using owing_result_b [of "m + {#ex_session x#}" now "ex_session x" ok code msg retry rem data s] by simp
  from owing_respond [OF this] show ?thesis using r by (simp add: reply_def split: prod.split) (metis fst_conv)
qed

abbreviation owes :: "string multiset \<Rightarrow> exec_call \<Rightarrow> broker \<Rightarrow> bool" where
  "owes m x s \<equiv> owing (add_mset (ex_session x) m) s"

lemma owing_reply': "owes m x s \<Longrightarrow> owing m (fst (reply now x ok code msg retry rem data s))"
  using owing_reply [of m x] by simp

lemma owing_lock_reply: "owes m x s \<Longrightarrow> owing m (fst (lock_reply now busy hint x a s))"
  by (simp add: lock_reply_def owing_reply')

lemma owing_exec_lock: "owes m x s \<Longrightarrow> owing m (fst (exec_lock env now x s))"
  by (simp add: exec_lock_def Let_def owing_reply' owing_lock_reply case_prod_unfold)

lemma lease_events_keep:
  "b_parked (fold lease_event ev t) = b_parked t" "b_nextPromise (fold lease_event ev t) = b_nextPromise t"
  "b_chains (fold lease_event ev t) = b_chains t"
  by (induction ev arbitrary: t) (simp_all add: lease_event_def enqueueCleanup_def split: lease_event.split)

lemma with_lease_keep [simp]:
  "b_parked (with_lease r s) = b_parked s" "b_nextPromise (with_lease r s) = b_nextPromise s"
  "b_chains (with_lease r s) = b_chains s"
  by (simp_all add: with_lease_def lease_events_keep)

lemma wait_pending: "fst (wait now fresh p sid label ms t l) = Pending q \<Longrightarrow> q = p"
  by (auto simp: wait_def Let_def split: prod.splits if_splits option.splits)

lemma owing_exec_wait:
  assumes "owes m x s"
  shows "owing m (fst (exec_wait env now x s))"
proof (cases "b_lockingEnabled s")
  case False
  then show ?thesis using assms by (simp add: exec_wait_def owing_reply')
next
  case True
  let ?p = "b_nextPromise s"
  let ?s1 = "snd (draw_uuid env (s\<lparr> b_nextPromise := Suc ?p \<rparr>))"
  let ?w = "wait now (fst (draw_uuid env (s\<lparr> b_nextPromise := Suc ?p \<rparr>))) ?p (ex_session x) (ex_label x)
      (wait_ms (ex_params x)) (string_of (jsget (ex_params x) ''ticket_id'')) (b_lease ?s1)"
  let ?s2 = "with_lease (snd ?w) ?s1"
  have 1: "owes m x ?s2" using owing_nextPromise [OF assms] by simp
  have p: "b_parked ?s2 = b_parked s" "b_nextPromise ?s2 = Suc ?p" by (simp_all add: draw_uuid_def)
  have fresh: "?p \<notin> fst ` set (b_parked ?s2)" using owing_keys(4) [OF assms] p by (auto simp: keys_ok_def)
  have run: "exec_wait env now x s =
      (case fst ?w of Settled a \<Rightarrow> wait_reply now x a ?s2
       | Pending q \<Rightarrow> (?s2\<lparr> b_parked := (q, x) # b_parked ?s2 \<rparr>, []))"
    using True by (simp add: exec_wait_def Let_def case_prod_unfold)
  have "owing m (?s2\<lparr> b_parked := (?p, x) # b_parked ?s2 \<rparr>)"
    using owing_parked [of m x ?s2 ?p] 1 p(2) fresh by simp
  then show ?thesis
    unfolding run using 1 by (auto simp: wait_reply_def owing_lock_reply dest: wait_pending split: wait_outcome.split)
qed

lemma owing_exec_unlock: "owes m x s \<Longrightarrow> owing m (fst (exec_unlock now x s))"
  by (simp add: exec_unlock_def Let_def owing_reply' debt_job_def)

lemma owing_exec_set_upstream: "owes m x s \<Longrightarrow> owing m (fst (exec_set_upstream now x s))"
  by (cases "b_guest s") (simp_all add: exec_set_upstream_def Let_def owing_reply' case_prod_unfold)

lemma owing_exec_set_locking: "owes m x s \<Longrightarrow> owing m (fst (exec_set_locking now x s))"
  by (simp add: exec_set_locking_def Let_def owing_reply' split: js.split)

lemma owing_exec_disconnect: "owes m x s \<Longrightarrow> owing m (fst (exec_disconnect_session now x s))"
  unfolding exec_disconnect_session_def Let_def
  by (auto simp: owing_reply' owing_finalize case_prod_unfold split: option.split)

lemma owing_executeLocal: "owes m x s \<Longrightarrow> owing m (fst (executeLocal env now x s))"
  unfolding executeLocal_def Let_def
  by (auto simp: owing_reply' owing_exec_lock owing_exec_wait owing_exec_unlock owing_exec_set_upstream
      owing_exec_set_locking owing_exec_disconnect split: option.split)

lemma owing_vmOffline: "owes m x s \<Longrightarrow> owing m (fst (vmOfflineResponse now x s))"
  by (simp add: vmOfflineResponse_def owing_reply')

lemma owing_exec_failed: "owes m x s \<Longrightarrow> owing m (fst (exec_failed now x msg s))"
  by (simp add: exec_failed_def Let_def owing_reply')

lemma owing_exec_send: "owes m x s \<Longrightarrow> owing m (fst (exec_send env now x s))"
  by (auto simp: exec_send_def debt_k_def owing_exec_failed intro!: owing_guest_request split: option.split)

lemma owing_exec_leased: "owes m x s \<Longrightarrow> owing m (fst (exec_leased env now x s))"
  by (simp add: exec_leased_def Let_def owing_exec_send owing_reply' case_prod_unfold)

lemma owing_exec_connected: "owes m x s \<Longrightarrow> owing m (fst (exec_connected env now x s))"
  by (simp add: exec_connected_def Let_def owing_exec_leased owing_reply')

lemma owing_guest_poll: "owing m s \<Longrightarrow> owing m (fst (guest_poll env now (x, d) s))"
  using owing_poll_taken [of "(x, d)" s m]
  by (simp add: guest_poll_def Let_def owing_reply' owing_exec_connected)

lemma owing_exec_guest: "owes m x s \<Longrightarrow> owing m (fst (exec_guest env now x s))"
  by (simp add: exec_guest_def owing_reply' owing_vmOffline owing_exec_connected)

lemma owing_execute: "owes m x s \<Longrightarrow> owing m (fst (execute env now x s))"
  by (simp add: execute_def owing_reply' owing_executeLocal owing_exec_guest)

lemma owing_exec_processed: "owes m x s \<Longrightarrow> owing m (fst (exec_processed now x r s))"
  by (simp add: exec_processed_def Let_def owing_reply')

lemma owing_exec_answered: "owes m x s \<Longrightarrow> owing m (fst (exec_answered now x r s))"
  by (simp add: exec_answered_def Let_def owing_exec_failed owing_exec_processed split: sum.split)

lemma owing_external_done: "owing m s \<Longrightarrow> owing m (fst (external_done now x r s))"
  using owing_external_taken [of x s m]
  by (simp add: external_done_def Let_def owing_reply' owing_exec_processed owing_exec_failed
      split: external_result.split)

subsection \<open>The cleanup chain\<close>

lemma owing_cleanup_start: "owing m s \<Longrightarrow> owing m (fst (cleanup_start now s))"
  by (simp add: cleanup_start_def split: cleanup_phase.split list.split)

lemma cleanups_extend:
  "\<exists>js. b_cleanups (fold lease_event ev s) = b_cleanups s @ js"
proof (induction ev arbitrary: s)
  case (Cons e ev)
  obtain js where "b_cleanups (fold lease_event ev (lease_event e s)) = b_cleanups (lease_event e s) @ js"
    using Cons.IH by blast
  moreover obtain ks where "b_cleanups (lease_event e s) = b_cleanups s @ ks"
    by (cases e) (simp_all add: lease_event_def enqueueCleanup_def)
  ultimately show ?case by simp
qed simp

lemma with_lease_head: "b_cleanups s = job # js \<Longrightarrow> \<exists>js'. b_cleanups (with_lease r s) = job # js'"
  using cleanups_extend [of "snd r" "s\<lparr> b_lease := fst r \<rparr>"] by (auto simp: with_lease_def)

lemma setBlocked_head: "b_cleanups s = job # js \<Longrightarrow> \<exists>js'. b_cleanups (setBlocked_b now b s) = job # js'"
  by (simp add: setBlocked_b_def with_lease_head)

lemma owing_cleanup_end:
  assumes "b_cleanups s = job # js" "owing m s"
  shows "owing (m + debt_job job) (cleanup_end now sanitized job s)"
proof -
  let ?s1 = "if cj_release job then with_lease (snd (release now (cj_session job) (b_lease s))) s else s"
  let ?s2 = "if sanitized then setBlocked_b now False ?s1 else ?s1"
  obtain js1 where 1: "b_cleanups ?s1 = job # js1" using with_lease_head [OF assms(1)] assms(1) by (metis (full_types))
  then obtain js2 where "b_cleanups ?s2 = job # js2" using setBlocked_head [OF 1] by (metis (full_types))
  moreover have "owing m ?s2" using assms(2) by simp
  ultimately have "owing (m + debt_job job) (cleanup_pop ?s2)" by (rule owing_pop)
  then show ?thesis by (simp add: cleanup_end_def Let_def)
qed

text \<open>A continuation of the chain that ends the head job owes what the job owes.\<close>

definition chain_ok :: "cleanup_job \<Rightarrow> bool option bop \<Rightarrow> bool" where
  "chain_ok job f \<longleftrightarrow> (\<forall>s m js. b_cleanups s = job # js \<longrightarrow> owing m s \<longrightarrow>
     owing (case fst (f s) of None \<Rightarrow> m | Some _ \<Rightarrow> m + debt_job job) (fst (snd (f s))))"

lemma put_resources_cleanups [simp]: "b_cleanups (put_resources sid rs s) = b_cleanups s"
  by (simp add: put_resources_def)

lemma delete_resources_cleanups [simp]: "b_cleanups (delete_resources sid s) = b_cleanups s"
  by (simp add: delete_resources_def)

lemma destroy_guest_cleanups [simp]: "b_cleanups (fst (destroy_guest ref s)) = b_cleanups s"
  by (simp add: destroy_guest_def split: prod.split)

lemma owing_close_next: "owing m s \<Longrightarrow> owing m (fst (close_next env now s))"
  by (auto simp: close_next_def debt_k_def intro!: owing_guest_request split: cleanup_phase.split list.split)

lemma chain_ok_aborted: "chain_ok job (cleanup_aborted env now ok)"
  unfolding chain_ok_def
proof (intro allI impI)
  fix s m js assume q: "b_cleanups s = job # js" and o: "owing m s"
  let ?d = "delete_resources (cj_session job) s"
  have pop: "owing (m + debt_job job) (cleanup_pop ?d)" using q o by (intro owing_pop) simp_all
  have ended: "owing (m + debt_job job) (cleanup_end now False job (delete_resources (cj_session job) t))"
    if "b_cleanups t = job # js" "owing m t" for t
    using that by (intro owing_cleanup_end) simp_all
  show "owing (case fst (cleanup_aborted env now ok s) of None \<Rightarrow> m | Some _ \<Rightarrow> m + debt_job job)
      (fst (snd (cleanup_aborted env now ok s)))"
    using pop q o
    by (auto simp: cleanup_aborted_def Let_def case_prod_unfold debt_k_def
        intro!: owing_close_next owing_guest_request ended
        split: cleanup_phase.split option.split)
qed

lemma chain_ok_closed: "chain_ok job (cleanup_closed env now)"
  unfolding chain_ok_def
proof (intro allI impI)
  fix s m js assume q: "b_cleanups s = job # js" and o: "owing m s"
  have "owing (m + debt_job job) (cleanup_pop (delete_resources (cj_session job) s))"
    using q o by (intro owing_pop) simp_all
  then show "owing (case fst (cleanup_closed env now s) of None \<Rightarrow> m | Some _ \<Rightarrow> m + debt_job job)
      (fst (snd (cleanup_closed env now s)))"
    using q o
    by (auto simp: cleanup_closed_def case_prod_unfold intro!: owing_close_next split: cleanup_phase.split list.split)
qed

lemma chain_ok_answered: "chain_ok job (cleanup_answered now ref r)"
  unfolding chain_ok_def
proof (intro allI impI)
  fix s m js assume q: "b_cleanups s = job # js" and o: "owing m s"
  have 1: "owing (m + debt_job job) (cleanup_end now False job (fst (destroy_guest ref s)))"
    using q o by (intro owing_cleanup_end) simp_all
  have 2: "owing (m + debt_job job) (cleanup_end now False job s)"
    using q o by (intro owing_cleanup_end) simp_all
  have 3: "owing (m + debt_job job) (cleanup_end now True job
      (s\<lparr> b_connection := (b_connection s)\<lparr> cs_state := ''online'', cs_lastSeenAt := Some now \<rparr> \<rparr>))"
    using q o by (intro owing_cleanup_end) simp_all
  show "owing (case fst (cleanup_answered now ref r s) of None \<Rightarrow> m | Some _ \<Rightarrow> m + debt_job job)
      (fst (snd (cleanup_answered now ref r s)))"
    using 1 2 3 q o
    by (auto simp: cleanup_answered_def case_prod_unfold Let_def split: cleanup_phase.split sum.split)
qed

lemma owing_cleanup_reply:
  "owing (m + debt_job job) s \<Longrightarrow> owing m (fst (cleanup_reply_step now job sanitized s))"
  using owing_free [of m "cj_session job" s]
  by (auto simp: cleanup_reply_step_def debt_job_def idle_step_def put_step_def owing_reply' split: cleanup_reply.splits)

lemma owing_cleanup_finished:
  assumes "\<And>job. chain_ok job f" "owing m s"
  shows "owing m (fst (cleanup_finished now f s))"
proof (cases "b_cleanups s")
  case Nil
  then show ?thesis using assms(2) by (simp add: cleanup_finished_def)
next
  case (Cons job js)
  then have "owing (case fst (f s) of None \<Rightarrow> m | Some _ \<Rightarrow> m + debt_job job) (fst (snd (f s)))"
    using assms(1) [of job] assms(2) by (simp add: chain_ok_def)
  then show ?thesis
    using Cons by (auto simp: cleanup_finished_def case_prod_unfold Let_def intro: owing_cleanup_reply split: option.splits)
qed

lemma owing_initial_sanitized: "owing m s \<Longrightarrow> owing m (fst (initial_sanitized now ref snap r s))"
  by (simp add: initial_sanitized_def split: sum.split)

subsection \<open>Adapters and microtasks\<close>

lemma owing_destroy_adapter [simp]: "owing m (fst (destroy_adapter obj s)) = owing m s"
  by (simp add: destroy_adapter_def)

lemma owing_adapter_hello [simp]: "owing m (fst (snd (adapter_hello obj sid label s))) = owing m s"
  by (simp add: adapter_hello_def Let_def case_prod_unfold split: option.split)

lemma owing_adapter_request: "owing m s \<Longrightarrow> owing m (fst (snd (adapter_request obj v s)))"
  by (auto simp: adapter_request_def Let_def intro!: owing_add_task)

lemma owing_adapter_line: "owing m s \<Longrightarrow> owing m (fst (handleAdapterLine obj v s))"
  by (auto simp: handleAdapterLine_def Let_def case_prod_unfold owing_adapter_request split: option.split sum.split)

lemma owing_busy:
  assumes "b_chains s sid = (False, t # ts)" "owing {#} s"
  shows "owing {#sid#} (s\<lparr> b_chains := (b_chains s)(sid := (True, ts)) \<rparr>)"
  using assms by (auto simp: owing_def)

lemma owing_chain_run:
  assumes "owing {#} s" shows "owing {#} (fst (chain_run env now sid s))"
proof (cases "\<exists>t ts. b_chains s sid = (False, t # ts)")
  case False
  then show ?thesis using assms by (auto simp: chain_run_def split: prod.split bool.split list.split)
next
  case True
  then obtain t ts where c: "b_chains s sid = (False, t # ts)" by blast
  let ?s = "s\<lparr> b_chains := (b_chains s)(sid := (True, ts)) \<rparr>"
  have b: "owing {#sid#} ?s" by (rule owing_busy [OF c assms])
  show ?thesis
  proof (cases t)
    case (RequestTask x)
    then have "ex_session x = sid" using c assms by (auto simp: owing_def)
    with b have "owes {#} x ?s" by simp
    then show ?thesis using c RequestTask by (simp add: chain_run_def Let_def owing_execute)
  next
    case (CleanupTask reason force rel)
    then show ?thesis using b c by (simp add: chain_run_def Let_def debt_job_def)
  qed
qed

lemma owing_continue: "owing (m + debt_k k) s \<Longrightarrow> owing m (fst (continue env now k v s))"
  by (cases k) (auto simp: continue_def debt_k_def chain_ok_closed chain_ok_answered
      intro: owing_initial_sanitized owing_cleanup_finished owing_exec_answered)

lemma owing_run_settled: "owing m s \<Longrightarrow> owing m (fst (run_settled env now s))"
  using owing_waited [of "s\<lparr> b_settled := tl (b_settled s) \<rparr>" "fst (hd (b_settled s))" _ m]
  by (auto simp: run_settled_def Let_def split: list.split option.split intro: owing_continue)

lemma owing_run_granted: "owing m s \<Longrightarrow> owing m (fst (run_granted now s))"
  using owing_unparked [of "s\<lparr> b_granted := tl (b_granted s) \<rparr>" "fst (hd (b_granted s))" _ m]
  by (auto simp: run_granted_def Let_def wait_reply_def split: list.split option.split intro: owing_lock_reply)

lemma owing_step: "owing {#} s \<Longrightarrow> owing {#} (fst (broker_step env now ev s))"
  by (cases ev) (auto simp: acceptAdapter_def adapterClosed_def Let_def grace_expired_def lease_timer_def ticket_timer_def
      wait_timer_def renewal_timer_def bridge_state_def bridge_closed_def transfers_aborted_def case_prod_unfold
      chain_ok_aborted owing_finalize owing_adapter_line owing_chain_run owing_run_settled owing_run_granted
      owing_guest_poll owing_acceptGuest owing_link_step owing_guest_frame owing_heartbeat owing_cleanup_start
      owing_cleanup_finished owing_external_done)

lemma owing_new: "owing {#} (new_broker ttl tttl locking upstream)"
  by (simp add: new_broker_def owing_def in_flight_def keys_ok_def)

lemma owing_reachable: "broker_reachable env s \<Longrightarrow> owing {#} s"
  by (induction rule: broker_reachable.induct) (simp_all add: owing_new owing_step)

subsection \<open>The registry of sessions\<close>

definition registry :: "broker \<Rightarrow> (string \<times> nat) list \<times> (nat \<Rightarrow> adapter_session) \<times> string list \<times> nat" where
  "registry s = (b_adapters s, b_objects s, b_revoked s, b_nextObject s)"

lemma registry_upd [simp]:
  "registry (s\<lparr> b_lease := a1 \<rparr>) = registry s"
  "registry (s\<lparr> b_lockingEnabled := a2 \<rparr>) = registry s"
  "registry (s\<lparr> b_upstream := a3 \<rparr>) = registry s"
  "registry (s\<lparr> b_links := a4 \<rparr>) = registry s"
  "registry (s\<lparr> b_nextLink := a5 \<rparr>) = registry s"
  "registry (s\<lparr> b_guest := a6 \<rparr>) = registry s"
  "registry (s\<lparr> b_bridge := a7 \<rparr>) = registry s"
  "registry (s\<lparr> b_connectionEpoch := a8 \<rparr>) = registry s"
  "registry (s\<lparr> b_connection := a9 \<rparr>) = registry s"
  "registry (s\<lparr> b_capabilities := a10 \<rparr>) = registry s"
  "registry (s\<lparr> b_chains := a11 \<rparr>) = registry s"
  "registry (s\<lparr> b_resources := a12 \<rparr>) = registry s"
  "registry (s\<lparr> b_selectedVms := a13 \<rparr>) = registry s"
  "registry (s\<lparr> b_cleanups := a14 \<rparr>) = registry s"
  "registry (s\<lparr> b_running := a15 \<rparr>) = registry s"
  "registry (s\<lparr> b_waiting := a16 \<rparr>) = registry s"
  "registry (s\<lparr> b_settled := a17 \<rparr>) = registry s"
  "registry (s\<lparr> b_parked := a18 \<rparr>) = registry s"
  "registry (s\<lparr> b_granted := a19 \<rparr>) = registry s"
  "registry (s\<lparr> b_polls := a20 \<rparr>) = registry s"
  "registry (s\<lparr> b_external := a21 \<rparr>) = registry s"
  "registry (s\<lparr> b_nextPromise := a22 \<rparr>) = registry s"
  "registry (s\<lparr> b_nextUuid := a23 \<rparr>) = registry s"
  by (simp_all add: registry_def)

lemma registry_lease [simp]:
  "registry (lease_event e s) = registry s"
  "registry (enqueueCleanup job s) = registry s"
  by (simp_all add: lease_event_def enqueueCleanup_def split: lease_event.split)

lemma registry_lease_events [simp]: "registry (fold lease_event ev s) = registry s"
  by (induction ev arbitrary: s) simp_all

lemma registry_with_lease [simp]: "registry (with_lease r s) = registry s"
  by (simp add: with_lease_def)

lemma registry_helpers [simp]:
  "registry (setBlocked_b now b s) = registry s"
  "registry (touch_b now sid s) = registry s"
  "registry (snd (draw_uuid env s)) = registry s"
  "registry (put_resources sid rs s) = registry s"
  "registry (delete_resources sid s) = registry s"
  "registry (settle_guest p v s) = registry s"
  "registry (cleanup_pop s) = registry s"
  by (simp_all add: setBlocked_b_def touch_b_def draw_uuid_def put_resources_def delete_resources_def
      settle_guest_def cleanup_pop_def)

lemma registry_trackResources [simp]: "registry (trackResources sid meth params r s) = registry s"
  by (simp add: trackResources_def Let_def)

lemma registry_plain_effect [simp]: "registry (fst (plain_effect ref e s)) = registry s"
  by (simp add: plain_effect_def split: link_effect.split)

lemma registry_effects:
  assumes "\<And>e s. registry (fst (f e s)) = registry s"
  shows "registry (fst (foldr (\<lambda>e. then_step (f e)) es idle_step s)) = registry s"
proof (induction es arbitrary: s)
  case (Cons e es)
  then show ?case using assms by (simp add: then_step_def case_prod_unfold Let_def)
qed (simp add: idle_step_def)

lemma registry_guest_request [simp]: "registry (fst (guest_request env now ref sid meth params t k s)) = registry s"
  by (simp add: guest_request_def Let_def case_prod_unfold registry_effects)

lemma registry_destroy_guest [simp]: "registry (fst (destroy_guest ref s)) = registry s"
  by (simp add: destroy_guest_def case_prod_unfold Let_def)

lemma registry_link_effect_step [simp]: "registry (fst (link_effect_step env now ref e s)) = registry s"
  by (simp add: link_effect_step_def guestStateChanged_def guestClosed_def Let_def split: link_effect.split)

lemma registry_link_step [simp]: "registry (fst (link_step env now ref f s)) = registry s"
  by (simp add: link_step_def Let_def case_prod_unfold registry_effects)

lemma registry_guest_events [simp]:
  "registry (fst (acceptGuest env now remote s)) = registry s"
  "registry (fst (guest_frame env now ref s)) = registry s"
  "registry (fst (checkGuestHeartbeat env now s)) = registry s"
  by (auto simp: acceptGuest_def guest_frame_def checkGuestHeartbeat_def Let_def case_prod_unfold
      split: option.split sum.split)

lemma registry_cleanup [simp]:
  "registry (fst (cleanup_start now s)) = registry s"
  "registry (cleanup_end now b job s) = registry s"
  "registry (fst (close_next env now s)) = registry s"
  "registry (fst (initial_sanitized now ref snap r s)) = registry s"
  by (auto simp: cleanup_start_def cleanup_end_def close_next_def initial_sanitized_def Let_def
      split: cleanup_phase.split list.split sum.split)

lemma registry_cleanup_steps [simp]:
  "registry (fst (snd (cleanup_aborted env now ok s))) = registry s"
  "registry (fst (snd (cleanup_closed env now s))) = registry s"
  "registry (fst (snd (cleanup_answered now ref r s))) = registry s"
  by (auto simp: cleanup_aborted_def cleanup_closed_def cleanup_answered_def Let_def case_prod_unfold
      split: cleanup_phase.split list.split sum.split option.split)

lemma registry_results [simp]:
  "registry (fst (snd (result_b now sid ok code msg retry rem data s))) = registry s"
  "registry (fst (snd (acquire_b env now x s))) = registry s"
  by (simp_all add: result_b_def acquire_b_def case_prod_unfold Let_def)

lemma registry_respond [simp]: "registry (fst (respond x r s)) = registry s"
  by (simp add: respond_def Let_def split: option.split)

lemma registry_reply [simp]: "registry (fst (reply now x ok code msg retry rem data s)) = registry s"
  by (simp add: reply_def Let_def case_prod_unfold)

lemma registry_lock_reply [simp]: "registry (fst (lock_reply now busy hint x a s)) = registry s"
  by (simp add: lock_reply_def)

lemma registry_exec [simp]:
  "registry (fst (exec_lock env now x s)) = registry s"
  "registry (fst (exec_unlock now x s)) = registry s"
  "registry (fst (exec_set_locking now x s)) = registry s"
  by (simp_all add: exec_lock_def exec_unlock_def exec_set_locking_def Let_def case_prod_unfold split: js.split)

lemma registry_exec_wait [simp]: "registry (fst (exec_wait env now x s)) = registry s"
  by (simp add: exec_wait_def wait_reply_def Let_def case_prod_unfold split: wait_outcome.split)

lemma registry_exec_set_upstream [simp]: "registry (fst (exec_set_upstream now x s)) = registry s"
  by (cases "b_guest s") (simp_all add: exec_set_upstream_def Let_def case_prod_unfold)

lemma registry_exec_failed [simp]: "registry (fst (exec_failed now x msg s)) = registry s"
  by (simp add: exec_failed_def Let_def)

lemma registry_exec_send [simp]: "registry (fst (exec_send env now x s)) = registry s"
  by (simp add: exec_send_def split: option.split)

lemma registry_exec_leased [simp]: "registry (fst (exec_leased env now x s)) = registry s"
  by (simp add: exec_leased_def Let_def case_prod_unfold)

lemma registry_exec_connected [simp]: "registry (fst (exec_connected env now x s)) = registry s"
  by (simp add: exec_connected_def Let_def)

lemma registry_guest_poll [simp]: "registry (fst (guest_poll env now p s)) = registry s"
  by (simp add: guest_poll_def Let_def case_prod_unfold)

lemma registry_exec_guest [simp]: "registry (fst (exec_guest env now x s)) = registry s"
  by (simp add: exec_guest_def vmOfflineResponse_def)

lemma registry_answered [simp]:
  "registry (fst (exec_processed now x r s)) = registry s"
  "registry (fst (exec_answered now x v s)) = registry s"
  by (simp_all add: exec_answered_def exec_processed_def Let_def split: sum.split)

lemma registry_external_done [simp]: "registry (fst (external_done now x r s)) = registry s"
  by (simp add: external_done_def Let_def split: external_result.split)

lemma registry_cleanup_finished:
  assumes "\<And>s. registry (fst (snd (f s))) = registry s"
  shows "registry (fst (cleanup_finished now f s)) = registry s"
  using assms
  by (auto simp: cleanup_finished_def cleanup_reply_step_def idle_step_def put_step_def Let_def case_prod_unfold
      split: list.split option.split cleanup_reply.split)

lemma registry_continue [simp]: "registry (fst (continue env now k v s)) = registry s"
  by (simp add: continue_def registry_cleanup_finished split: continuation.split)

lemma registry_microtasks [simp]:
  "registry (fst (run_settled env now s)) = registry s"
  "registry (fst (run_granted now s)) = registry s"
  "registry (fst (transfers_aborted env now ok s)) = registry s"
  by (auto simp: run_settled_def run_granted_def transfers_aborted_def wait_reply_def Let_def
      registry_cleanup_finished split: list.split option.split)

text \<open>
  Registered sessions have a greeted adapter of their own under their identifier, with the label
  the first hello gave; a session an administrator disconnected is not registered.
\<close>

definition entry_ok :: "broker \<Rightarrow> string \<times> nat \<Rightarrow> bool" where
  "entry_ok s e \<longleftrightarrow>
     snd e < b_nextObject s \<and> ad_greeted (b_objects s (snd e)) \<and> ad_id (b_objects s (snd e)) = fst e \<and>
     ad_label (b_objects s (snd e)) \<noteq> [] \<and> length (ad_label (b_objects s (snd e))) \<le> 128 \<and>
     fst e \<notin> set (b_revoked s)"

definition registry_ok :: "broker \<Rightarrow> bool" where
  "registry_ok s \<longleftrightarrow> distinct (map fst (b_adapters s)) \<and> (\<forall>e \<in> set (b_adapters s). entry_ok s e)"

definition label_of :: "broker \<Rightarrow> string \<Rightarrow> string option" where
  "label_of s sid = map_option (\<lambda>obj. ad_label (b_objects s obj)) (map_of (b_adapters s) sid)"

lemma registry_cong:
  assumes "registry s' = registry s"
  shows "registry_ok s' = registry_ok s" "label_of s' = label_of s" "set (b_revoked s') = set (b_revoked s)"
  using assms by (simp_all add: registry_def registry_ok_def entry_ok_def label_of_def fun_eq_iff cong: ball_cong)

lemma map_of_filter_key:
  "map_of (filter (\<lambda>e. fst e \<noteq> k) xs) j = (if j = k then None else map_of xs j)"
  by (induction xs) auto

text \<open>What a step may do to the registry.\<close>

definition registry_step :: "broker \<Rightarrow> broker \<Rightarrow> bool" where
  "registry_step s s' \<longleftrightarrow> registry_ok s' \<and> set (b_revoked s) \<subseteq> set (b_revoked s') \<and>
     (\<forall>sid l l'. label_of s sid = Some l \<longrightarrow> label_of s' sid = Some l' \<longrightarrow> l' = l)"

lemma registry_step_same: "registry s' = registry s \<Longrightarrow> registry_ok s \<Longrightarrow> registry_step s s'"
  using registry_cong [of s' s] by (auto simp: registry_step_def)

lemma registry_step_trans_same: "registry_step s t \<Longrightarrow> registry u = registry t \<Longrightarrow> registry_step s u"
  using registry_cong [of u t] by (auto simp: registry_step_def)

lemma registry_unregister:
  assumes ok: "registry_ok s"
    and t: "registry t = (filter (\<lambda>e. fst e \<noteq> k) (b_adapters s),
      (b_objects s)(obj := (b_objects s obj)\<lparr> ad_cleanupTimer := c \<rparr>), rv, b_nextObject s)"
    and rv: "set (b_revoked s) \<subseteq> set rv" "set rv \<subseteq> insert k (set (b_revoked s))"
  shows "registry_step s t"
proof -
  have f: "b_adapters t = filter (\<lambda>e. fst e \<noteq> k) (b_adapters s)" "b_revoked t = rv" "b_nextObject t = b_nextObject s"
      "b_objects t = (b_objects s)(obj := (b_objects s obj)\<lparr> ad_cleanupTimer := c \<rparr>)"
    using t by (simp_all add: registry_def)
  have same: "ad_greeted (b_objects t o') = ad_greeted (b_objects s o')" "ad_id (b_objects t o') = ad_id (b_objects s o')"
      "ad_label (b_objects t o') = ad_label (b_objects s o')" for o'
    by (simp_all add: f)
  have "entry_ok t e" if "e \<in> set (b_adapters t)" for e
  proof -
    have "entry_ok s e" "fst e \<noteq> k" using that ok by (simp_all add: f registry_ok_def)
    then show ?thesis using rv(2) unfolding entry_ok_def same by (auto simp: f)
  qed
  moreover have "distinct (map fst (b_adapters t))" using ok by (simp add: f registry_ok_def distinct_map_filter)
  moreover have "label_of t j = (if j = k then None else label_of s j)" for j
    unfolding label_of_def same by (simp add: f map_of_filter_key)
  ultimately show ?thesis using rv(1) by (simp add: registry_step_def registry_ok_def f)
qed

lemma registry_finalize:
  assumes "registry_ok s"
  shows "registry_step s (finalizeAdapterDisconnect obj reason s)"
proof (cases "map_of (b_adapters s) (ad_id (b_objects s obj)) = Some obj")
  case True
  then have "registry (finalizeAdapterDisconnect obj reason s) =
      registry (s\<lparr> b_objects := (b_objects s)(obj := (b_objects s obj)\<lparr> ad_cleanupTimer := None \<rparr>),
        b_adapters := filter (\<lambda>e. fst e \<noteq> ad_id (b_objects s obj)) (b_adapters s),
        b_selectedVms := filter (\<lambda>e. fst e \<noteq> ad_id (b_objects s obj)) (b_selectedVms s) \<rparr>)"
    by (simp add: finalizeAdapterDisconnect_def Let_def case_prod_unfold del: map_of_eq_Some_iff)
  then show ?thesis
    by (intro registry_unregister [OF assms, where k = "ad_id (b_objects s obj)" and rv = "b_revoked s" and obj = obj and c = None])
      (auto simp: registry_def)
next
  case False
  then show ?thesis using assms by (simp add: finalizeAdapterDisconnect_def Let_def registry_step_same)
qed

lemma registry_revoke:
  assumes "registry_ok s" "map_of (b_adapters s) sid = Some obj"
  shows "registry_step s (finalizeAdapterDisconnect obj reason
           (s\<lparr> b_revoked := (if sid \<in> set (b_revoked s) then b_revoked s else sid # b_revoked s) \<rparr>))"
    (is "registry_step s (finalizeAdapterDisconnect obj reason ?s)")
proof -
  have "entry_ok s (sid, obj)" using assms(1) map_of_SomeD [OF assms(2)] by (simp add: registry_ok_def)
  then have i: "ad_id (b_objects s obj) = sid" by (simp add: entry_ok_def)
  have "registry (finalizeAdapterDisconnect obj reason ?s) =
      registry (?s\<lparr> b_objects := (b_objects s)(obj := (b_objects s obj)\<lparr> ad_cleanupTimer := None \<rparr>),
        b_adapters := filter (\<lambda>e. fst e \<noteq> sid) (b_adapters s),
        b_selectedVms := filter (\<lambda>e. fst e \<noteq> sid) (b_selectedVms s) \<rparr>)"
    using assms(2) i by (simp add: finalizeAdapterDisconnect_def Let_def case_prod_unfold del: map_of_eq_Some_iff)
  then show ?thesis
    by (intro registry_unregister [OF assms(1), where k = sid and rv = "b_revoked ?s" and obj = obj and c = None])
      (auto simp: registry_def)
qed

lemma registry_hello:
  assumes ok: "registry_ok s" and obj: "obj < b_nextObject s" "\<not> ad_greeted (b_objects s obj)" and l: "label \<noteq> []"
  shows "registry_step s (fst (snd (adapter_hello obj sid label s)))"
proof -
  let ?t = "fst (snd (adapter_hello obj sid label s))"
  have other: "snd e \<noteq> obj" if "e \<in> set (b_adapters s)" for e
    using ok obj(2) that by (auto simp: registry_ok_def entry_ok_def)
  consider (same) "registry ?t = registry s"
    | (added) q p where "sid \<notin> set (b_revoked s)" "b_revoked ?t = b_revoked s" "b_nextObject ?t = b_nextObject s"
        "label_of s sid = None \<or> label_of s sid = Some (take 128 label)"
        "b_adapters ?t = filter (\<lambda>e. fst e \<noteq> sid) (b_adapters s) @ [(sid, obj)]"
        "ad_greeted q = ad_greeted (b_objects s p)" "ad_id q = ad_id (b_objects s p)" "ad_label q = ad_label (b_objects s p)"
        "b_objects ?t = ((b_objects s)(p := q))(obj := (((b_objects s)(p := q)) obj)
           \<lparr> ad_id := sid, ad_label := take 128 label, ad_greeted := True \<rparr>)"
  proof (cases "map_of (b_adapters s) sid")
    case None
    then show ?thesis
      by (cases "sid \<in> set (b_revoked s)")
        (simp_all add: adapter_hello_def Let_def label_of_def same added [of "b_objects s obj" obj])
  next
    case (Some p)
    show ?thesis
    proof (cases "sid \<in> set (b_revoked s) \<or> ad_label (b_objects s p) \<noteq> take 128 label")
      case True
      then show ?thesis using Some by (intro same) (auto simp: adapter_hello_def Let_def)
    next
      case False
      then show ?thesis
        by (intro added [of "if ad_alive (b_objects s p) then (b_objects s p)\<lparr> ad_cleanupTimer := None, ad_alive := False \<rparr>
              else (b_objects s p)\<lparr> ad_cleanupTimer := None \<rparr>" p])
          (use Some in \<open>simp_all add: adapter_hello_def Let_def label_of_def\<close>)
    qed
  qed
  then show ?thesis
  proof cases
    case same
    then show ?thesis using ok by (rule registry_step_same)
  next
    case added
    have same: "ad_greeted (b_objects ?t o') = ad_greeted (b_objects s o')" "ad_id (b_objects ?t o') = ad_id (b_objects s o')"
        "ad_label (b_objects ?t o') = ad_label (b_objects s o')" if "o' \<noteq> obj" for o'
      using that added by simp_all
    have new: "ad_greeted (b_objects ?t obj)" "ad_id (b_objects ?t obj) = sid" "ad_label (b_objects ?t obj) = take 128 label"
      using added by simp_all
    have "entry_ok ?t e" if "e \<in> set (b_adapters ?t)" for e
    proof (cases "e = (sid, obj)")
      case True
      then show ?thesis using new added obj(1) l by (simp add: entry_ok_def)
    next
      case False
      then have "entry_ok s e" "snd e \<noteq> obj" using that ok added other by (auto simp: registry_ok_def)
      then show ?thesis using same [of "snd e"] added by (simp add: entry_ok_def)
    qed
    moreover have "distinct (map fst (b_adapters ?t))"
      using ok added by (auto simp: registry_ok_def distinct_map_filter)
    moreover have "l' = l" if "label_of s j = Some l" "label_of ?t j = Some l'" for j l l'
    proof (cases "j = sid")
      case True
      have "map_of (b_adapters ?t) sid = Some obj"
        using added(5) by (simp add: map_of_append map_of_filter_key map_add_def)
      then show ?thesis using True that added(4) new(3) by (simp add: label_of_def [of ?t])
    next
      case False
      then have m: "map_of (b_adapters ?t) j = map_of (b_adapters s) j"
        using added(5) by (simp add: map_add_def map_of_filter_key split: option.split)
      from that(1) obtain o' where o': "map_of (b_adapters s) j = Some o'" "l = ad_label (b_objects s o')"
        by (auto simp: label_of_def simp del: map_of_eq_Some_iff)
      then have "o' \<noteq> obj" using other map_of_SomeD by fastforce
      then show ?thesis using that(2) m o' same by (simp add: label_of_def)
    qed
    ultimately show ?thesis using added(2) by (auto simp: registry_step_def registry_ok_def)
  qed
qed

lemma registry_step_same_objects:
  assumes ok: "registry_ok s"
    and t: "b_adapters t = b_adapters s" "b_revoked t = b_revoked s" "b_nextObject s \<le> b_nextObject t"
    and o': "\<And>e. e \<in> set (b_adapters s) \<Longrightarrow> ad_greeted (b_objects t (snd e)) = ad_greeted (b_objects s (snd e)) \<and>
      ad_id (b_objects t (snd e)) = ad_id (b_objects s (snd e)) \<and> ad_label (b_objects t (snd e)) = ad_label (b_objects s (snd e))"
  shows "registry_step s t"
proof -
  have "label_of t j = label_of s j" for j
    using o' [OF map_of_SomeD] by (cases "map_of (b_adapters s) j") (simp_all add: label_of_def t)
  moreover have "entry_ok t e" if "e \<in> set (b_adapters s)" for e
  proof -
    have "entry_ok s e" using that ok by (simp add: registry_ok_def)
    then show ?thesis using o' [OF that] t by (simp add: entry_ok_def)
  qed
  ultimately show ?thesis using ok by (simp add: registry_step_def registry_ok_def t)
qed

lemma registry_disconnect:
  assumes "registry_ok s" shows "registry_step s (fst (exec_disconnect_session now x s))"
proof -
  let ?t = "case jsget (ex_params x) ''session_id'' of JStr t \<Rightarrow> t | _ \<Rightarrow> text_of (jsget (ex_params x) ''sessionId'')"
  have same: "registry_step s s" using assms by (intro registry_step_same) simp_all
  show ?thesis
  proof (cases "?t = [] \<or> ?t = ex_session x \<or> map_of (b_adapters s) ?t = None")
    case True
    then show ?thesis
      using registry_step_trans_same [OF same]
      by (auto simp: exec_disconnect_session_def Let_def simp del: map_of_eq_Some_iff split: option.split)
  next
    case False
    then obtain obj where obj: "map_of (b_adapters s) ?t = Some obj" by blast
    then show ?thesis
      using False registry_revoke [OF assms obj, of "''adapter_disconnect_requested''"]
      by (simp add: exec_disconnect_session_def Let_def case_prod_unfold registry_step_trans_same
          del: map_of_eq_Some_iff split del: if_split)
  qed
qed

lemma registry_executeLocal:
  assumes "registry_ok s" shows "registry_step s (fst (executeLocal env now x s))"
proof (cases "ex_method x = ''broker_disconnect_session''")
  case True
  then show ?thesis using registry_disconnect [OF assms] by (simp add: executeLocal_def)
next
  case False
  then have "registry (fst (executeLocal env now x s)) = registry s"
    by (simp add: executeLocal_def Let_def split: option.split)
  then show ?thesis using assms by (rule registry_step_same)
qed

lemma registry_execute:
  assumes "registry_ok s" shows "registry_step s (fst (execute env now x s))"
proof (cases "List.member NON_LOCKING_METHODS (ex_method x)")
  case True
  show ?thesis
  proof (cases "case map_of (b_adapters s) (ex_session x) of Some obj \<Rightarrow> ad_label (b_objects s obj) \<noteq> ex_label x | None \<Rightarrow> False")
    case True
    then show ?thesis using assms by (intro registry_step_same) (simp_all add: execute_def)
  next
    case no: False
    then have "execute env now x s = executeLocal env now x s"
      using True unfolding execute_def by (simp only: if_False if_True)
    then show ?thesis using registry_executeLocal [OF assms] by simp
  qed
next
  case False
  then have "registry (fst (execute env now x s)) = registry s" by (simp add: execute_def)
  then show ?thesis using assms by (rule registry_step_same)
qed

lemma registry_chain_run:
  assumes "registry_ok s" shows "registry_step s (fst (chain_run env now sid s))"
proof (cases "\<exists>x ts. b_chains s sid = (False, RequestTask x # ts)")
  case True
  then obtain x ts where c: "b_chains s sid = (False, RequestTask x # ts)" by blast
  let ?s = "s\<lparr> b_chains := (b_chains s)(sid := (True, ts)) \<rparr>"
  have "registry ?s = registry s" by simp
  moreover from this have "registry_ok ?s" using assms registry_cong(1) by metis
  from registry_execute [OF this] have "registry_step ?s (fst (execute env now x ?s))" .
  ultimately have "registry_step s (fst (execute env now x ?s))"
    using registry_cong [of ?s s] by (simp add: registry_step_def)
  then show ?thesis using c by (simp add: chain_run_def Let_def)
next
  case False
  then have "registry (fst (chain_run env now sid s)) = registry s"
    by (auto simp: chain_run_def Let_def split: prod.split bool.split list.split session_task.split)
  then show ?thesis using assms by (rule registry_step_same)
qed

lemma registry_destroy_adapter: "registry_ok s \<Longrightarrow> registry_step s (fst (destroy_adapter obj s))"
  by (rule registry_step_same_objects) (simp_all add: destroy_adapter_def)

lemma adapter_hello_refused: "fst (adapter_hello obj sid label s) = Inl m \<Longrightarrow> fst (snd (adapter_hello obj sid label s)) = s"
  by (auto simp: adapter_hello_def Let_def case_prod_unfold split: if_splits)

lemma registry_adapter_request [simp]: "registry (fst (snd (adapter_request obj v s))) = registry s"
  by (simp add: adapter_request_def Let_def)

lemma adapter_request_refused: "fst (adapter_request obj v s) = Inl m \<Longrightarrow> fst (snd (adapter_request obj v s)) = s"
  by (cases "isBrokerRequest v"; cases "member v ''sessionId'' \<noteq> JStr (ad_id (b_objects s obj)) \<or>
        member v ''sessionLabel'' \<noteq> JStr (ad_label (b_objects s obj))";
      cases "map_of (b_adapters s) (ad_id (b_objects s obj)) = Some obj")
    (simp_all add: adapter_request_def Let_def del: map_of_eq_Some_iff)

lemma hello_label: "isBrokerHello v \<Longrightarrow> string_member v ''sessionLabel'' \<noteq> []"
  unfolding isBrokerHello_def string_member_def by (cases "member v ''sessionLabel''") simp_all

lemma registry_adapter_line:
  assumes ok: "registry_ok s" and obj: "obj < b_nextObject s"
  shows "registry_step s (fst (handleAdapterLine obj v s))"
proof (cases v)
  case None
  then show ?thesis using registry_destroy_adapter [OF ok] by (simp add: handleAdapterLine_def case_prod_unfold Let_def)
next
  case (Some m)
  show ?thesis
  proof (cases "ad_greeted (b_objects s obj)")
    case True
    let ?r = "adapter_request obj m s"
    have "fst (handleAdapterLine obj v s) =
        (case fst ?r of Inr _ \<Rightarrow> fst (snd ?r) | Inl _ \<Rightarrow> fst (destroy_adapter obj s))"
      using Some True adapter_request_refused [of obj m s]
      by (auto simp: handleAdapterLine_def case_prod_unfold Let_def split: sum.split)
    then show ?thesis
      using registry_destroy_adapter [OF ok] registry_step_same [OF registry_adapter_request ok]
      by (simp split: sum.split)
  next
    case False
    let ?r = "adapter_hello obj (string_member m ''sessionId'') (string_member m ''sessionLabel'') s"
    have "fst (handleAdapterLine obj v s) =
        (if isBrokerHello m then (case fst ?r of Inr _ \<Rightarrow> fst (snd ?r) | Inl _ \<Rightarrow> fst (destroy_adapter obj s))
         else fst (destroy_adapter obj s))"
      using Some False adapter_hello_refused
      by (auto simp: handleAdapterLine_def case_prod_unfold Let_def split: sum.split)
    then show ?thesis
      using registry_destroy_adapter [OF ok] registry_hello [OF ok obj False hello_label]
      by (simp split: sum.split)
  qed
qed

lemma registry_broker_step:
  assumes ok: "registry_ok s" shows "registry_step s (fst (broker_step env now ev s))"
proof -
  have same: "registry_step s s" using ok by (rule registry_step_same [OF refl])
  have accepted: "registry_step s (fst (acceptAdapter now i s))" for i
    using ok by (intro registry_step_same_objects [OF ok]) (auto simp: acceptAdapter_def Let_def registry_ok_def entry_ok_def)
  have closed: "registry_step s (fst (adapterClosed now obj s))" for obj
    using ok by (intro registry_step_same_objects [OF ok]) (auto simp: adapterClosed_def Let_def)
  show ?thesis
    by (cases ev) (simp_all add: same accepted closed registry_adapter_line registry_chain_run registry_finalize
        registry_step_same ok grace_expired_def Let_def lease_timer_def ticket_timer_def wait_timer_def
        renewal_timer_def bridge_state_def bridge_closed_def case_prod_unfold)
qed

lemma registry_new: "registry_ok (new_broker ttl tttl locking upstream)"
  by (simp add: new_broker_def registry_ok_def)

lemma registry_reachable: "broker_reachable env s \<Longrightarrow> registry_ok s"
proof (induction rule: broker_reachable.induct)
  case (Step s now ev)
  then show ?case using registry_broker_step [of s] by (simp add: registry_step_def)
qed (rule registry_new)

end
