(* ===== verification/Broker_Guards.thy ===== *)
theory Broker_Guards
  imports Broker_Props
begin

text \<open>
  Which calls the broker hands to the guest, to the transfer coordinator or to the QEMU manager,
  and that under locking only the owner of the lease gets that far.
\<close>

subsection \<open>Calls handed over\<close>

definition handed :: "broker \<Rightarrow> exec_call list \<times> exec_call list" where
  "handed s = (b_external s,
     List.map_filter (\<lambda>e. case snd e of GuestCall x \<Rightarrow> Some x | _ \<Rightarrow> None) (b_waiting s))"

definition handed_calls :: "broker \<Rightarrow> exec_call set" where
  "handed_calls s = set (fst (handed s)) \<union> set (snd (handed s))"

definition not_call :: "continuation \<Rightarrow> bool" where
  "not_call k \<longleftrightarrow> (\<forall>x. k \<noteq> GuestCall x)"

lemma not_call_simps [simp]:
  "not_call (InitialSanitize ref snap)" "not_call CleanupClose" "not_call (CleanupAbort ref)"
  by (simp_all add: not_call_def)

lemma handed_upd [simp]:
  "handed (s\<lparr> b_lease := a1 \<rparr>) = handed s"
  "handed (s\<lparr> b_lockingEnabled := a2 \<rparr>) = handed s"
  "handed (s\<lparr> b_upstream := a3 \<rparr>) = handed s"
  "handed (s\<lparr> b_links := a4 \<rparr>) = handed s"
  "handed (s\<lparr> b_nextLink := a5 \<rparr>) = handed s"
  "handed (s\<lparr> b_guest := a6 \<rparr>) = handed s"
  "handed (s\<lparr> b_bridge := a7 \<rparr>) = handed s"
  "handed (s\<lparr> b_connectionEpoch := a8 \<rparr>) = handed s"
  "handed (s\<lparr> b_connection := a9 \<rparr>) = handed s"
  "handed (s\<lparr> b_capabilities := a10 \<rparr>) = handed s"
  "handed (s\<lparr> b_chains := a11 \<rparr>) = handed s"
  "handed (s\<lparr> b_resources := a12 \<rparr>) = handed s"
  "handed (s\<lparr> b_selectedVms := a13 \<rparr>) = handed s"
  "handed (s\<lparr> b_cleanups := a14 \<rparr>) = handed s"
  "handed (s\<lparr> b_running := a15 \<rparr>) = handed s"
  "handed (s\<lparr> b_settled := a17 \<rparr>) = handed s"
  "handed (s\<lparr> b_parked := a18 \<rparr>) = handed s"
  "handed (s\<lparr> b_granted := a19 \<rparr>) = handed s"
  "handed (s\<lparr> b_polls := a20 \<rparr>) = handed s"
  "handed (s\<lparr> b_nextPromise := a22 \<rparr>) = handed s"
  "handed (s\<lparr> b_nextUuid := a23 \<rparr>) = handed s"
  "handed (s\<lparr> b_objects := a24 \<rparr>) = handed s"
  "handed (s\<lparr> b_nextObject := a25 \<rparr>) = handed s"
  "handed (s\<lparr> b_adapters := a26 \<rparr>) = handed s"
  "handed (s\<lparr> b_revoked := a27 \<rparr>) = handed s"
  by (simp_all add: handed_def)

lemma handed_waiting [simp]: "not_call k \<Longrightarrow> handed (s\<lparr> b_waiting := (p, k) # b_waiting s \<rparr>) = handed s"
  by (simp add: handed_def not_call_def map_filter_simps split: continuation.split)

lemma handed_lease [simp]:
  "handed (lease_event e s) = handed s"
  "handed (enqueueCleanup job s) = handed s"
  by (simp_all add: lease_event_def enqueueCleanup_def split: lease_event.split)

lemma handed_lease_events [simp]: "handed (fold lease_event ev s) = handed s"
  by (induction ev arbitrary: s) simp_all

lemma handed_with_lease [simp]: "handed (with_lease r s) = handed s"
  by (simp add: with_lease_def)

lemma handed_helpers [simp]:
  "handed (setBlocked_b now b s) = handed s"
  "handed (touch_b now sid s) = handed s"
  "handed (snd (draw_uuid env s)) = handed s"
  "handed (put_resources sid rs s) = handed s"
  "handed (delete_resources sid s) = handed s"
  "handed (settle_guest p v s) = handed s"
  "handed (cleanup_pop s) = handed s"
  by (simp_all add: setBlocked_b_def touch_b_def draw_uuid_def put_resources_def delete_resources_def
      settle_guest_def cleanup_pop_def)

lemma handed_trackResources [simp]: "handed (trackResources sid meth params r s) = handed s"
  by (simp add: trackResources_def Let_def)

lemma handed_plain_effect [simp]: "handed (fst (plain_effect ref e s)) = handed s"
  by (simp add: plain_effect_def split: link_effect.split)

lemma handed_effects:
  assumes "\<And>e s. handed (fst (f e s)) = handed s"
  shows "handed (fst (foldr (\<lambda>e. then_step (f e)) es idle_step s)) = handed s"
proof (induction es arbitrary: s)
  case (Cons e es)
  then show ?case using assms by (simp add: then_step_def case_prod_unfold Let_def)
qed (simp add: idle_step_def)

lemma handed_guest_request:
  "handed (fst (guest_request env now ref sid meth params t k s)) =
     handed (s\<lparr> b_waiting := (b_nextPromise s, k) # b_waiting s \<rparr>)"
proof -
  have "handed (s\<lparr> b_nextPromise := n, b_waiting := w, b_nextUuid := u, b_links := l \<rparr>) = handed (s\<lparr> b_waiting := w \<rparr>)" for n w u l
    by (simp add: handed_def)
  then show ?thesis
    by (simp add: guest_request_def Let_def case_prod_unfold handed_effects draw_uuid_def)
qed

lemma handed_destroy_guest [simp]: "handed (fst (destroy_guest ref s)) = handed s"
  by (simp add: destroy_guest_def case_prod_unfold Let_def)

lemma handed_link_effect_step [simp]: "handed (fst (link_effect_step env now ref e s)) = handed s"
  by (auto simp: link_effect_step_def guestStateChanged_def guestClosed_def Let_def handed_guest_request
      split: link_effect.split)

lemma handed_link_step [simp]: "handed (fst (link_step env now ref f s)) = handed s"
  by (simp add: link_step_def Let_def case_prod_unfold handed_effects)

lemma handed_guest_events [simp]:
  "handed (fst (acceptGuest env now remote s)) = handed s"
  "handed (fst (guest_frame env now ref s)) = handed s"
  "handed (fst (checkGuestHeartbeat env now s)) = handed s"
  by (auto simp: acceptGuest_def guest_frame_def checkGuestHeartbeat_def Let_def case_prod_unfold
      split: option.split sum.split)

lemma handed_close_next [simp]: "handed (fst (close_next env now s)) = handed s"
proof -
  have "handed (s\<lparr> b_running := r, b_waiting := (p, CleanupClose) # b_waiting s \<rparr>) = handed s" for r p
    by (simp add: handed_def map_filter_simps)
  then show ?thesis
    by (simp add: close_next_def handed_guest_request split: cleanup_phase.split list.split)
qed

lemma handed_cleanup [simp]:
  "handed (fst (cleanup_start now s)) = handed s"
  "handed (cleanup_end now b job s) = handed s"
  "handed (fst (initial_sanitized now ref snap r s)) = handed s"
  by (auto simp: cleanup_start_def cleanup_end_def initial_sanitized_def Let_def
      split: cleanup_phase.split list.split sum.split)

lemma handed_abort_request:
  "not_call k \<Longrightarrow> handed (fst (guest_request env now ref sid meth params t k s)) = handed s"
  by (simp add: handed_guest_request)

lemma handed_cleanup_steps [simp]:
  "handed (fst (snd (cleanup_aborted env now ok s))) = handed s"
  "handed (fst (snd (cleanup_closed env now s))) = handed s"
  "handed (fst (snd (cleanup_answered now ref r s))) = handed s"
  by (auto simp: cleanup_aborted_def cleanup_closed_def cleanup_answered_def Let_def case_prod_unfold
      handed_abort_request split: cleanup_phase.split list.split sum.split option.split)

lemma handed_results [simp]:
  "handed (fst (snd (result_b now sid ok code msg retry rem data s))) = handed s"
  "handed (fst (snd (acquire_b env now x s))) = handed s"
  by (simp_all add: result_b_def acquire_b_def case_prod_unfold Let_def)

lemma handed_respond [simp]: "handed (fst (respond x r s)) = handed s"
  by (simp add: respond_def Let_def split: option.split)

lemma handed_reply [simp]: "handed (fst (reply now x ok code msg retry rem data s)) = handed s"
  by (simp add: reply_def Let_def case_prod_unfold)

lemma handed_lock_reply [simp]: "handed (fst (lock_reply now busy hint x a s)) = handed s"
  by (simp add: lock_reply_def)

lemma handed_finalize [simp]: "handed (finalizeAdapterDisconnect obj reason s) = handed s"
  by (simp add: finalizeAdapterDisconnect_def Let_def case_prod_unfold)

lemma handed_exec [simp]:
  "handed (fst (exec_lock env now x s)) = handed s"
  "handed (fst (exec_unlock now x s)) = handed s"
  "handed (fst (exec_set_locking now x s)) = handed s"
  by (simp_all add: exec_lock_def exec_unlock_def exec_set_locking_def Let_def case_prod_unfold split: js.split)

lemma handed_exec_wait [simp]: "handed (fst (exec_wait env now x s)) = handed s"
  by (simp add: exec_wait_def wait_reply_def Let_def case_prod_unfold split: wait_outcome.split)

lemma handed_exec_set_upstream [simp]: "handed (fst (exec_set_upstream now x s)) = handed s"
  by (cases "b_guest s") (simp_all add: exec_set_upstream_def Let_def case_prod_unfold)

lemma handed_exec_disconnect [simp]: "handed (fst (exec_disconnect_session now x s)) = handed s"
  by (auto simp: exec_disconnect_session_def Let_def case_prod_unfold split: option.split)

lemma handed_executeLocal [simp]: "handed (fst (executeLocal env now x s)) = handed s"
  by (simp add: executeLocal_def Let_def split: option.split)

lemma handed_exec_failed [simp]: "handed (fst (exec_failed now x msg s)) = handed s"
  by (simp add: exec_failed_def Let_def)

lemma handed_processed [simp]: "handed (fst (exec_processed now x r s)) = handed s"
  by (simp add: exec_processed_def Let_def)

lemma handed_cleanup_finished:
  assumes "\<And>s. handed (fst (snd (f s))) = handed s"
  shows "handed (fst (cleanup_finished now f s)) = handed s"
  using assms
  by (auto simp: cleanup_finished_def cleanup_reply_step_def idle_step_def put_step_def Let_def case_prod_unfold
      split: list.split option.split cleanup_reply.split)

lemma handed_adapters [simp]:
  "handed (fst (acceptAdapter now i s)) = handed s"
  "handed (fst (adapterClosed now obj s)) = handed s"
  "handed (fst (grace_expired obj s)) = handed s"
  "handed (fst (destroy_adapter obj s)) = handed s"
  "handed (fst (snd (adapter_request obj v s))) = handed s"
  by (simp_all add: acceptAdapter_def adapterClosed_def grace_expired_def destroy_adapter_def adapter_request_def Let_def)

lemma handed_adapter_hello [simp]: "handed (fst (snd (adapter_hello obj sid label s))) = handed s"
  by (simp add: adapter_hello_def Let_def case_prod_unfold split: option.split)

lemma handed_adapter_line [simp]: "handed (fst (handleAdapterLine obj v s)) = handed s"
  by (auto simp: handleAdapterLine_def Let_def case_prod_unfold split: option.split sum.split)

lemma handed_run_granted [simp]: "handed (fst (run_granted now s)) = handed s"
  by (simp add: run_granted_def wait_reply_def Let_def split: list.split option.split)

subsection \<open>Only the owner's calls are handed over\<close>

definition needs_lease :: "exec_call \<Rightarrow> bool" where
  "needs_lease x \<longleftrightarrow> \<not> starts_with (ex_method x) ''qemu_'' \<and> \<not> List.member NON_LEASE_GUEST_METHODS (ex_method x)"

text \<open>From \<open>s\<close> to \<open>t\<close> only calls allowed by the lease are added.\<close>

definition guarded :: "broker \<Rightarrow> broker \<Rightarrow> bool" where
  "guarded s t \<longleftrightarrow> (\<forall>x \<in> handed_calls t - handed_calls s.
     b_lockingEnabled s \<longrightarrow> needs_lease x \<longrightarrow> owner_session t = Some (ex_session x))"

lemma guarded_same: "handed t = handed s \<Longrightarrow> guarded s t"
  by (simp add: guarded_def handed_calls_def)

lemma guarded_shrink: "handed_calls t \<subseteq> handed_calls s \<Longrightarrow> guarded s t"
  by (auto simp: guarded_def)

lemma guarded_from: "handed s1 = handed s \<Longrightarrow> b_lockingEnabled s1 = b_lockingEnabled s \<Longrightarrow> guarded s1 t \<Longrightarrow> guarded s t"
  by (simp add: guarded_def handed_calls_def)

lemma lease_plain_effect [simp]: "b_lease (fst (plain_effect ref e s)) = b_lease s"
  by (simp add: plain_effect_def settle_guest_def split: link_effect.split)

lemma lease_guest_request [simp]: "b_lease (fst (guest_request env now ref sid meth params t k s)) = b_lease s"
proof -
  have "b_lease (fst (foldr (\<lambda>e. then_step (plain_effect ref e)) es idle_step u)) = b_lease u" for es u
    by (induction es arbitrary: u) (simp_all add: idle_step_def then_step_def case_prod_unfold Let_def)
  then show ?thesis by (simp add: guest_request_def Let_def case_prod_unfold draw_uuid_def)
qed

lemma exec_send_handed:
  "handed_calls (fst (exec_send env now x s)) \<subseteq> insert x (handed_calls s)"
  "handed (fst (exec_send env now x s)) = handed s \<or> b_lease (fst (exec_send env now x s)) = b_lease s"
  by (auto simp: exec_send_def handed_guest_request handed_calls_def split: option.split)
    (auto simp: handed_def map_filter_simps)

lemma guarded_exec_leased: "guarded s (fst (exec_leased env now x s))"
proof (cases "b_lockingEnabled s \<and> \<not> List.member NON_LEASE_GUEST_METHODS (ex_method x)")
  case False
  then have "exec_leased env now x s = exec_send env now x s" by (auto simp: exec_leased_def)
  then show ?thesis
    using exec_send_handed(1) [of env now x s] False by (auto simp: guarded_def needs_lease_def)
next
  case True
  let ?a = "acquire now (fst (draw_uuid env s)) (ex_session x) (ex_label x) True (b_lease (snd (draw_uuid env s)))"
  let ?s1 = "touch_b now (ex_session x) (with_lease (snd ?a) (snd (draw_uuid env s)))"
  have lease: "b_lease (fold lease_event ev u) = b_lease u" for ev u
    by (induction ev arbitrary: u) (simp_all add: lease_event_def enqueueCleanup_def split: lease_event.split)
  show ?thesis
  proof (cases "ar_acquired (fst ?a)")
    case no: False
    then show ?thesis
      using True by (intro guarded_same) (simp add: exec_leased_def Let_def case_prod_unfold acquire_b_def)
  next
    case yes: True
    have run: "fst (exec_leased env now x s) = fst (exec_send env now x ?s1)"
      using True yes by (simp add: exec_leased_def Let_def case_prod_unfold acquire_b_def)
    obtain r l' ev' where a: "?a = (r, l', ev')" by (cases ?a) auto
    have "owned_by l' (ex_session x)" using acquire_grants_iff [OF a] yes a by simp
    then have own: "owner_session ?s1 = Some (ex_session x)"
      using a by (auto simp: owner_session_def touch_b_def with_lease_def lease owned_by_def touch_def scheduleExpiration_def
          split: option.splits)
    have h: "handed ?s1 = handed s" by simp
    show ?thesis
      unfolding run guarded_def
    proof (intro ballI impI)
      fix y assume y: "y \<in> handed_calls (fst (exec_send env now x ?s1)) - handed_calls s"
      then have "handed (fst (exec_send env now x ?s1)) \<noteq> handed ?s1"
        by (auto simp: handed_calls_def)
      then have "b_lease (fst (exec_send env now x ?s1)) = b_lease ?s1" using exec_send_handed(2) by blast
      moreover have "y = x"
        using y exec_send_handed(1) [of env now x ?s1] h by (auto simp: handed_calls_def)
      ultimately show "owner_session (fst (exec_send env now x ?s1)) = Some (ex_session y)"
        using own by (simp add: owner_session_def)
    qed
  qed
qed

lemma guarded_exec_connected: "guarded s (fst (exec_connected env now x s))"
  by (simp add: exec_connected_def Let_def guarded_exec_leased guarded_same)

lemma guarded_guest_poll: "guarded s (fst (guest_poll env now p s))"
proof -
  let ?r = "s\<lparr> b_polls := remove1 p (b_polls s) \<rparr>"
  have "guarded s (fst (exec_connected env now (fst p) ?r))"
    by (rule guarded_from [OF _ _ guarded_exec_connected]) simp_all
  then show ?thesis by (cases p) (auto simp: guest_poll_def Let_def guarded_same)
qed

lemma guarded_exec_guest: "guarded s (fst (exec_guest env now x s))"
  by (simp add: exec_guest_def vmOfflineResponse_def guarded_exec_connected guarded_same)

lemma guarded_execute: "guarded s (fst (execute env now x s))"
proof -
  have "guarded s (s\<lparr> b_external := b_external s @ [x] \<rparr>)" if "starts_with (ex_method x) ''qemu_''"
    using that by (auto simp: guarded_def needs_lease_def handed_calls_def handed_def)
  then show ?thesis by (simp add: execute_def guarded_exec_guest guarded_same)
qed

lemma guarded_chain_run: "guarded s (fst (chain_run env now sid s))"
proof -
  have "guarded s (fst (execute env now x (s\<lparr> b_chains := c \<rparr>)))" for x c
    by (rule guarded_from [OF _ _ guarded_execute]) simp_all
  then show ?thesis
    by (auto simp: chain_run_def Let_def guarded_same split: prod.split bool.split list.split session_task.split)
qed

lemma handed_external: "handed_calls (s\<lparr> b_external := b_external s @ [x] \<rparr>) = insert x (handed_calls s)"
  by (auto simp: handed_calls_def handed_def)

lemma handed_answered: "handed_calls (fst (exec_answered now x v s)) \<subseteq> insert x (handed_calls s)"
proof -
  have t: "handed_calls (touch_b now (ex_session x) s) = handed_calls s" by (simp add: handed_calls_def)
  show ?thesis
    using handed_external [of "touch_b now (ex_session x) s" x]
    by (cases v) (auto simp: exec_answered_def Let_def t handed_calls_def)
qed

lemma guarded_run_settled: "guarded s (fst (run_settled env now s))"
proof (cases "b_settled s")
  case (Cons e rest)
  obtain p v where e: "e = (p, v)" by (cases e)
  let ?s = "s\<lparr> b_settled := rest, b_waiting := filter (\<lambda>e. fst e \<noteq> p) (b_waiting s) \<rparr>"
  have less: "handed_calls ?s \<subseteq> handed_calls s"
    by (auto simp: handed_calls_def handed_def map_filter_def)
  show ?thesis
  proof (cases "map_of (b_waiting s) p")
    case None
    then show ?thesis using Cons e by (intro guarded_same) (simp add: run_settled_def Let_def)
  next
    case (Some k)
    have "handed_calls (fst (continue env now k v ?s)) \<subseteq> handed_calls s"
    proof (cases k)
      case (GuestCall x)
      then have "x \<in> handed_calls s"
        using map_of_SomeD [OF Some] by (force simp: handed_calls_def handed_def map_filter_def)
      then show ?thesis using less handed_answered [of now x v ?s] GuestCall by (auto simp: continue_def)
    qed (use less in \<open>simp_all add: continue_def handed_cleanup_finished handed_calls_def\<close>)
    then show ?thesis using Cons e Some by (intro guarded_shrink) (simp add: run_settled_def Let_def)
  qed
qed (simp add: run_settled_def guarded_same)

lemma guarded_external_done: "guarded s (fst (external_done now x r s))"
proof (rule guarded_shrink)
  have "handed_calls (s\<lparr> b_external := remove1 x (b_external s) \<rparr>) \<subseteq> handed_calls s"
    using set_remove1_subset [of x "b_external s"] by (auto simp: handed_calls_def handed_def)
  then show "handed_calls (fst (external_done now x r s)) \<subseteq> handed_calls s"
    by (auto simp: external_done_def Let_def handed_calls_def split: external_result.split)
qed

lemma guarded_step: "guarded s (fst (broker_step env now ev s))"
  by (cases ev) (simp_all add: guarded_same guarded_chain_run guarded_guest_poll guarded_run_settled
      guarded_external_done handed_cleanup_finished transfers_aborted_def lease_timer_def ticket_timer_def
      wait_timer_def renewal_timer_def bridge_state_def bridge_closed_def case_prod_unfold Let_def)

subsection \<open>Example runs\<close>

text \<open>
  Two sessions, a guest that says hello and answers: the runs that show the hypotheses of the
  properties can hold.
\<close>

definition demo_hello :: js where
  "demo_hello = JObj [(''kind'', JStr ''guest_hello''), (''capabilities'', JObj
     [(''guestId'', JStr ''g''), (''guestBuildId'', JStr ''b''), (''protocolVersion'', js_of_int PROTOCOL_VERSION),
      (''osName'', JStr ''o''), (''osVersion'', JStr ''v''), (''ansiCodePage'', js_of_int 1252),
      (''oemCodePage'', js_of_int 437), (''screenWidth'', js_of_int 640), (''screenHeight'', js_of_int 480),
      (''colorDepth'', js_of_int 24), (''supportsLongFileNames'', JBool True), (''supportsMouseWheel'', JBool True),
      (''maxPath'', js_of_int 260), (''maxFileBytes'', js_of_int 1000), (''commands'', JArr [])])]"

definition demo_answer :: js where
  "demo_answer = JObj [(''kind'', JStr ''response''), (''requestId'', JStr ''uu''), (''ok'', JBool True),
     (''code'', JStr ''OK''), (''message'', JStr [])]"

text \<open>The answer to the first request of a broker that drew no other identifier.\<close>

definition demo_ok :: js where
  "demo_ok = JObj [(''kind'', JStr ''response''), (''requestId'', JStr []), (''ok'', JBool True),
     (''code'', JStr ''OK''), (''message'', JStr [])]"

definition demo_env :: broker_env where
  "demo_env =
     \<lparr> be_link = \<lparr> le_parse = (\<lambda>b. if b = [1] then Some demo_hello else if b = [2] then Some demo_answer
           else if b = [3] then Some demo_ok else None),
         le_stringify = (\<lambda>_. []) \<rparr>,
       be_uuid = (\<lambda>n. replicate n CHR ''u''),
       be_requestTimeoutMs = Fin 1000, be_heartbeatTimeoutMs = 1000, be_guestConnectTimeoutMs = 5000,
       be_maxArtifactBytes = 1000 \<rparr>"

definition session_hello :: "string \<Rightarrow> js" where
  "session_hello sid = JObj [(''kind'', JStr ''broker_hello''), (''sessionId'', JStr sid), (''sessionLabel'', JStr ''x'')]"

definition session_call :: "string \<Rightarrow> string \<Rightarrow> js" where
  "session_call sid meth = JObj [(''kind'', JStr ''broker_request''), (''id'', JStr ''r''),
     (''sessionId'', JStr sid), (''sessionLabel'', JStr ''x''), (''method'', JStr meth), (''params'', JObj [])]"

fun broker_run :: "broker_env \<Rightarrow> (int \<times> broker_event) list \<Rightarrow> broker \<Rightarrow> broker" where
  "broker_run env [] s = s"
| "broker_run env ((now, ev) # evs) s = broker_run env evs (fst (broker_step env now ev s))"

lemma broker_run_append: "broker_run env (xs @ ys) s = broker_run env ys (broker_run env xs s)"
  by (induction env xs s rule: broker_run.induct) simp_all

lemma broker_run_reachable: "broker_reachable env s \<Longrightarrow> broker_reachable env (broker_run env evs s)"
  by (induction env evs s rule: broker_run.induct) (simp_all add: broker_reachable.Step)

definition demo_start :: "(int \<times> broker_event) list" where
  "demo_start = [(0, AdapterAccepted ''p''), (0, AdapterLine 0 (Some (session_hello ''session-a''))),
     (0, AdapterAccepted ''p''), (0, AdapterLine 1 (Some (session_hello ''session-b''))),
     (0, AdapterLine 0 (Some (session_call ''session-a'' ''vm_lock''))), (0, ChainTurn ''session-a''),
     (0, AdapterLine 1 (Some (session_call ''session-b'' ''vm_wait''))), (0, ChainTurn ''session-b'')]"

lemma session_fields:
  "isBrokerHello (session_hello sid) \<longleftrightarrow> 8 \<le> length sid"
  "string_member (session_hello sid) ''sessionId'' = sid" "string_member (session_hello sid) ''sessionLabel'' = ''x''"
  "isBrokerRequest (session_call sid meth)" "\<not> isBrokerHello (session_call sid meth)"
  "member (session_call sid meth) ''sessionId'' = JStr sid" "member (session_call sid meth) ''sessionLabel'' = JStr ''x''"
  "string_member (session_call sid meth) ''id'' = ''r''" "string_member (session_call sid meth) ''method'' = meth"
  "member (session_call sid meth) ''params'' = JObj []"
  by (simp_all add: session_hello_def session_call_def isBrokerHello_def isBrokerRequest_def is_kind_def member_def
      string_member_def jsget_def)

lemma answer_fields:
  "isGuestResponse demo_answer" "string_member demo_answer ''requestId'' = ''uu''"
  "response_of demo_answer = \<lparr> gr_ok = True, gr_code = ''OK'', gr_message = [], gr_data = JUndef \<rparr>"
  "isGuestResponse demo_ok" "string_member demo_ok ''requestId'' = []"
  "response_of demo_ok = \<lparr> gr_ok = True, gr_code = ''OK'', gr_message = [], gr_data = JUndef \<rparr>"
  by (simp_all add: demo_answer_def demo_ok_def isGuestResponse_def string_member_def member_def jsget_def
      is_kind_def response_of_def)

definition demo_frame :: "frame_type \<Rightarrow> int \<Rightarrow> bytes \<Rightarrow> bytes" where
  "demo_frame t seq payload = (case encodeFrame (frame_code t) 0 0 seq payload of Inr b \<Rightarrow> b | Inl _ \<Rightarrow> [])"

lemma demo_frame_pushed:
  assumes "t \<in> {Hello, Response}" "0 \<le> seq" "seq < 10" "length payload < 10"
  shows "decoder_push [] (demo_frame t seq payload) = (Inr [received (frame_code t, 0, 0, seq, payload)], [])"
proof -
  obtain b where b: "encodeFrame (frame_code t) 0 0 seq payload = Inr b"
    using assms
    by (auto simp: encodeFrame_def encodeHeader_def validatePayloadLength_def Let_def
      writeUInt16LE_def writeUInt32LE_def writeBigUInt64LE_def to_uint32_def protocol_consts)
  then have "send_all [(frame_code t, 0, 0, seq, payload)] = Inr b" by (simp add: send_frame_def)
  from decode_loop_sent [OF this, of "[]"] show ?thesis by (simp add: demo_frame_def b decoder_push_def)
qed

definition demo_guest :: "(int \<times> broker_event) list" where
  "demo_guest = [(0, GuestAccepted None), (0, GuestBytes 0 (demo_frame Hello 0 [1])), (0, GuestFrame 0)]"

definition demo_rest :: "(int \<times> broker_event) list" where
  "demo_rest = [(100, LeaseTimer), (100, CleanupTurn),
     (100, GuestBytes 0 (demo_frame Response 1 [2])), (100, GuestFrame 0), (100, SettledTurn)]"

lemmas broker_eval =
  acceptAdapter_def new_broker_def handleAdapterLine_def session_fields adapter_hello_def Let_def
  adapter_request_def chain_run_def execute_def NON_LOCKING_METHODS_def executeLocal_def
  exec_lock_def acquire_b_def draw_uuid_def acquire_def new_lease_manager_def expireIfDue_def
  owned_by_def firstEligibleSession_def assignOwner_def scheduleExpiration_def lock_reply_def
  reply_def result_b_def snapshot_def respond_def with_lease_def lease_event_def demo_env_def
  exec_wait_def wait_def wait_in_queue_def enqueue_ticket_def granted_def queued_result_def
  queuePosition_def map_first_def string_of_def jsget_def

lemma demo_hello_ok:
  "demo_hello \<noteq> JNull" "is_kind demo_hello ''guest_hello''" "isCapabilities (member demo_hello ''capabilities'')"
  by (simp_all add: demo_hello_def is_kind_def member_def jsget_def isCapabilities_def js_of_int_def)

lemmas guest_eval =
  acceptGuest_def link_step_def link_data_def link_start_def demo_frame_pushed guest_frame_def
  run_frame_def handleFrame_def handleHello_def demo_hello_ok received_def encodeFrame_def
  encodeHeader_def validatePayloadLength_def writeUInt16LE_def writeUInt32LE_def
  writeBigUInt64LE_def to_uint32_def protocol_consts js_of_int_def link_write_def idle_step_def
  then_step_def link_effect_step_def plain_effect_def guestStateChanged_def setBlocked_b_def
  setBlocked_def guest_request_def link_request_def requestNow_def sendFrame_def advisory_done_def
  offline_snapshot_def DEFAULT_MAX_UNCLAIMED_STREAMS_def settled_def

lemmas answer_eval =
  lease_timer_def cleanup_start_def enqueueCleanup_def handleReadyFrame_def answer_fields
  settle_response_def run_settled_def continue_def initial_sanitized_def grantNext_def settle_def
  settle_guest_def transfers_aborted_def cleanup_finished_def cleanup_aborted_def guest_ready_def
  delete_resources_def put_resources_def owner_session_def

lemma one_debt:
  "(p, k) \<in> set ws \<Longrightarrow> i \<in># debt_k k \<Longrightarrow> 0 < count (sum_list (map (debt_k \<circ> snd) ws)) i"
  by (induction ws) auto

lemma two_debts:
  assumes "(p, k) \<in> set ws" "(q, k') \<in> set ws" "p \<noteq> q" "i \<in># debt_k k" "i \<in># debt_k k'"
  shows "2 \<le> count (sum_list (map (debt_k \<circ> snd) ws)) i"
  using assms(1,2)
proof (induction ws)
  case (Cons w ws)
  have c: "0 < count (debt_k k) i" "0 < count (debt_k k') i" using assms(4,5) by simp_all
  have sum: "count (sum_list (map (debt_k \<circ> snd) (w # ws))) i =
      count (debt_k (snd w)) i + count (sum_list (map (debt_k \<circ> snd) ws)) i" by simp
  consider "w = (p, k)" "(q, k') \<in> set ws" | "w = (q, k')" "(p, k) \<in> set ws"
    | "(p, k) \<in> set ws" "(q, k') \<in> set ws"
    using Cons.prems assms(3) by auto
  then show ?case
  proof cases
    case 1
    with c(1) one_debt [OF 1(2) assms(5)] have "0 < count (debt_k (snd w)) i" by simp
    with one_debt [OF 1(2) assms(5)] sum show ?thesis by linarith
  next
    case 2
    with c(2) have "0 < count (debt_k (snd w)) i" by simp
    with one_debt [OF 2(2) assms(4)] sum show ?thesis by linarith
  next
    case 3
    with Cons.IH show ?thesis by simp
  qed
qed simp

subsection \<open>The guarantees\<close>

text \<open>
  C2. The calls of a session are served one at a time: in every reachable state
  of the broker a session has exactly one call in flight (polling for the guest, at the guest, in
  a transfer or the QEMU manager, parked in \<open>vm_wait\<close> or waiting for a cleanup) when its chain is busy
  and none when it is idle, so at most one of its requests is ever at the guest.
\<close>

theorem session_calls_serialized:
  assumes "broker_reachable env s"
  shows "count (in_flight s) sid = (if fst (b_chains s sid) then 1 else 0) \<and>
    (\<forall>p x q y. (p, GuestCall x) \<in> set (b_waiting s) \<longrightarrow> (q, GuestCall y) \<in> set (b_waiting s) \<longrightarrow>
       ex_session x = ex_session y \<longrightarrow> p = q)"
proof -
  have o: "owing {#} s" by (rule owing_reachable [OF assms])
  then have c: "count (in_flight s) i = (if fst (b_chains s i) then 1 else 0)" for i by (simp add: owing_def)
  have "p = q" if w: "(p, GuestCall x) \<in> set (b_waiting s)" "(q, GuestCall y) \<in> set (b_waiting s)"
      and same: "ex_session x = ex_session y" for p x q y
  proof (rule ccontr)
    assume "p \<noteq> q"
    then have "count (sum_list (map (debt_k \<circ> snd) (b_waiting s))) (ex_session x) \<ge> 2"
      using w same by (intro two_debts) (auto simp: debt_k_def)
    moreover have "count (in_flight s) (ex_session x) \<le> 1" using c by simp
    ultimately show False by (simp add: in_flight_def)
  qed
  with c show ?thesis by blast
qed

theorem session_calls_serialized_witness:
  "\<exists>s. broker_reachable demo_env s \<and> fst (b_chains s ''session-a'') \<and> count (in_flight s) ''session-a'' = 1"
proof -
  let ?s = "broker_run demo_env [(0, AdapterAccepted ''p''), (0, AdapterLine 0 (Some (session_hello ''session-a''))),
     (0, AdapterLine 0 (Some (session_call ''session-a'' ''fs_list''))), (0, ChainTurn ''session-a'')]
     (new_broker 100 500 True None)"
  have r: "broker_reachable demo_env ?s" by (intro broker_run_reachable broker_reachable.Start)
  moreover have "fst (b_chains ?s ''session-a'')"
    by (simp add: broker_eval exec_guest_def isKnownGuestOffline_def guest_online_def offline_snapshot_def)
  moreover from this have "count (in_flight ?s) ''session-a'' = 1"
    using session_calls_serialized [OF r, of "''session-a''"] by (simp only: if_True)
  ultimately show ?thesis by blast
qed

text \<open>
  C18. Sessions keep their identity: in every reachable state the registered
  sessions are distinct, each has a greeted adapter that carries its identifier and a label of 1 to
  128 characters, and none was revoked; no event changes the label of a session or forgets a
  revocation.
\<close>

theorem session_registry_sound:
  assumes "broker_reachable env s"
  shows "distinct (map fst (b_adapters s)) \<and>
    (\<forall>(sid, obj) \<in> set (b_adapters s). obj < b_nextObject s \<and> ad_greeted (b_objects s obj) \<and>
       ad_id (b_objects s obj) = sid \<and> length (ad_label (b_objects s obj)) \<in> {1..128} \<and> sid \<notin> set (b_revoked s)) \<and>
    (\<forall>now ev. let s' = fst (broker_step env now ev s) in
       set (b_revoked s) \<subseteq> set (b_revoked s') \<and>
       (\<forall>sid l l'. label_of s sid = Some l \<longrightarrow> label_of s' sid = Some l' \<longrightarrow> l' = l))"
proof -
  have ok: "registry_ok s" by (rule registry_reachable [OF assms])
  have "registry_step s (fst (broker_step env now ev s))" for now ev by (rule registry_broker_step [OF ok])
  with ok show ?thesis
    by (auto simp: registry_ok_def entry_ok_def registry_step_def Let_def Suc_le_eq)
qed

theorem session_registry_sound_witness:
  "\<exists>s. broker_reachable demo_env s \<and> b_adapters s = [(''session-a'', 0)] \<and> ad_greeted (b_objects s 0)"
proof -
  let ?s = "broker_run demo_env [(0, AdapterAccepted ''p''), (0, AdapterLine 0 (Some (session_hello ''session-a'')))]
     (new_broker 100 500 True None)"
  have r: "broker_reachable demo_env ?s" by (intro broker_run_reachable broker_reachable.Start)
  have "b_adapters ?s = [(''session-a'', 0)]" by (simp add: broker_eval)
  then show ?thesis using session_registry_sound [OF r] r by auto
qed

text \<open>
  C3. With locking, work reaches the guest only for the owner of the lease: whatever
  the event, a call that it newly hands to the guest or to the transfer coordinator (calls for the
  QEMU manager and \<open>agent_diagnostics\<close> excepted) belongs to the session that owns the lease then.
\<close>

theorem guest_work_needs_lease:
  assumes "x \<in> handed_calls (fst (broker_step env now ev s))" "x \<notin> handed_calls s"
    and "b_lockingEnabled s" "needs_lease x"
  shows "owner_session (fst (broker_step env now ev s)) = Some (ex_session x)"
  using guarded_step [of s env now ev] assms by (auto simp: guarded_def)

theorem guest_work_needs_lease_witness:
  "\<exists>s x. broker_reachable demo_env s \<and> x \<notin> handed_calls s \<and>
     x \<in> handed_calls (fst (broker_step demo_env 0 (ChainTurn ''session-a'') s)) \<and>
     owner_session (fst (broker_step demo_env 0 (ChainTurn ''session-a'') s)) = Some ''session-a''"
proof -
  let ?s = "broker_run demo_env (demo_guest @ [(0, GuestBytes 0 (demo_frame Response 1 [3])), (0, GuestFrame 0),
     (0, SettledTurn), (0, AdapterAccepted ''p''), (0, AdapterLine 0 (Some (session_hello ''session-a''))),
     (0, AdapterLine 0 (Some (session_call ''session-a'' ''file_push'')))]) (new_broker 100 500 True None)"
  let ?x = "\<lparr> ex_id = ''r'', ex_session = ''session-a'', ex_label = ''x'', ex_method = ''file_push'', ex_params = [] \<rparr>"
  let ?t = "fst (broker_step demo_env 0 (ChainTurn ''session-a'') ?s)"
  have r: "broker_reachable demo_env ?s" by (intro broker_run_reachable broker_reachable.Start)
  have "handed ?s = ([], []) \<and> handed ?t = ([?x], []) \<and> b_lockingEnabled ?s"
    by (simp add: demo_guest_def broker_eval guest_eval answer_eval exec_guest_def isKnownGuestOffline_def
        guest_online_def exec_connected_def exec_leased_def exec_send_def NON_LEASE_GUEST_METHODS_def
        TRANSFER_METHODS_def touch_b_def touch_def handed_def map_filter_simps starts_with_def)
  then have h: "?x \<notin> handed_calls ?s" "?x \<in> handed_calls ?t" "b_lockingEnabled ?s"
    by (simp_all add: handed_calls_def)
  moreover have "needs_lease ?x" by (simp add: needs_lease_def NON_LEASE_GUEST_METHODS_def starts_with_def)
  ultimately have "owner_session ?t = Some ''session-a''"
    using guest_work_needs_lease [OF h(2,1,3)] by simp
  with r h show ?thesis by blast
qed

text \<open>
  C19. When the guest does not acknowledge a cleanup (an error response, a
  failed request or a lost connection), the lease stays blocked: its owner is released if the
  cleanup asked for it, nobody else gets it, and \<open>acquire\<close> refuses every other session.
\<close>

theorem unsanitized_lease_stays_blocked:
  assumes "b_running s = Sanitizing r0" "b_cleanups s = job # js" "lm_blocked (b_lease s)"
    and "case v of Inl _ \<Rightarrow> True
         | Inr response \<Rightarrow> \<not> gr_ok response \<or> b_guest s \<noteq> Some ref \<or> gl_closed (b_links s ref)"
    and "cleanup_answered now ref v s = (ended, s', e)"
  shows "ended = Some False \<and> lm_blocked (b_lease s') \<and>
    owner_session s' = (if cj_release job \<and> owner_session s = Some (cj_session job) then None else owner_session s) \<and>
    (\<forall>fresh sid label. owner_session s' \<noteq> Some sid \<longrightarrow>
       \<not> ar_acquired (fst (acquire now fresh sid label True (b_lease s'))))"
proof -
  obtain t where t: "ended = Some False" "s' = cleanup_end now False job t" "b_lease t = b_lease s"
    using assms(1,2,4,5)
    by (auto simp: cleanup_answered_def destroy_guest_def Let_def case_prod_unfold split: sum.splits if_splits)
  have lease: "b_lease (with_lease q u) = fst q" for q u
  proof -
    have "b_lease (fold lease_event ev w) = b_lease w" for ev w
      by (induction ev arbitrary: w) (simp_all add: lease_event_def enqueueCleanup_def split: lease_event.split)
    then show ?thesis by (simp add: with_lease_def)
  qed
  have l': "b_lease s' = (if cj_release job then fst (snd (release now (cj_session job) (b_lease s))) else b_lease s)"
    by (simp add: t cleanup_end_def Let_def cleanup_pop_def lease)
  have rel: "lm_blocked (b_lease s')"
      "lm_owner (b_lease s') = (if cj_release job \<and> owner_session s = Some (cj_session job) then None
        else lm_owner (b_lease s))"
    unfolding l' using assms(3)
    by (auto simp: release_def grantNext_def owner_session_def Let_def case_prod_unfold split: option.splits)
  have "\<not> ar_acquired (fst (acquire now fresh sid label True (b_lease s')))" if no: "owner_session s' \<noteq> Some sid" for fresh sid label
  proof -
    obtain a l2 ev where a: "acquire now fresh sid label True (b_lease s') = (a, l2, ev)"
      by (cases "acquire now fresh sid label True (b_lease s')") auto
    show ?thesis
      using acquire_grants_iff [OF a] rel(1) no a by (auto simp: owner_session_def split: option.splits)
  qed
  then show ?thesis using t(1) rel by (auto simp: owner_session_def)
qed

theorem unsanitized_lease_stays_blocked_witness:
  "\<exists>s job v. lm_owner (b_lease s) \<noteq> None \<and>
     lm_owner (b_lease (fst (snd (cleanup_answered 5 0 v s)))) = None \<and>
     lm_blocked (b_lease (fst (snd (cleanup_answered 5 0 v s)))) \<and> b_cleanups s = [job]"
proof -
  let ?ow = "\<lparr> lo_sessionId = ''a'', lo_label = ''x'', lo_acquiredAt = 0, lo_lastActivityAt = 0 \<rparr>"
  let ?job = "\<lparr> cj_session = ''a'', cj_reason = ''explicit_unlock'', cj_force = False, cj_release = True, cj_reply = NoReply \<rparr>"
  let ?s = "(new_broker 100 500 True None)\<lparr> b_running := Sanitizing 0, b_cleanups := [?job],
     b_lease := (new_lease_manager 100 500)\<lparr> lm_owner := Some ?ow, lm_blocked := True \<rparr> \<rparr>"
  let ?v = "Inl ''GUEST_DISCONNECTED:session_abort'' :: string + guest_response"
  obtain ended s' e where c: "cleanup_answered 5 0 ?v ?s = (ended, s', e)"
    by (cases "cleanup_answered 5 0 ?v ?s") auto
  have "lm_blocked (b_lease s')" "lm_owner (b_lease s') = None"
    using unsanitized_lease_stays_blocked [OF _ _ _ _ c, of 0 ?job "[]"] by (simp_all add: owner_session_def)
  then show ?thesis by (intro exI [of _ ?s] exI [of _ ?job] exI [of _ ?v]) (simp add: c)
qed


end
