(* ===== verification/Lease_Spec.thy ===== *)
theory Lease_Spec
  imports Lease_Props
begin

text \<open>
  What the lease promises, without clocks, tickets and timers: a lock with a queue. The lease
  manager refines it: the events of any run are those of a run of the lock.
\<close>

subsection \<open>The lock\<close>

record lock =
  lk_owner :: "string option"
  lk_queue :: "(string \<times> string) list"
  lk_blocked :: bool

datatype lock_event =
    LQueued string string
  | LGranted string
  | LReleased string
  | LExpired string

text \<open>
  Entries may leave the queue at any time (they lapse, or their session gives up). The lock is
  granted only when it is free and unblocked, to the session at the head of the queue or, when nobody
  waits, to whoever asks; an owner whose lease expires leaves it blocked.
\<close>

inductive lock_run :: "lock \<Rightarrow> lock_event list \<Rightarrow> lock \<Rightarrow> bool" where
  Done: "lock_run k [] k"
| Leave: "subseq q (lk_queue k) \<Longrightarrow> lock_run (k\<lparr> lk_queue := q \<rparr>) es k' \<Longrightarrow> lock_run k es k'"
| Block: "lock_run (k\<lparr> lk_blocked := b \<rparr>) es k' \<Longrightarrow> lock_run k es k'"
| Queue: "lock_run (k\<lparr> lk_queue := lk_queue k @ [(i, s)] \<rparr>) es k' \<Longrightarrow> lock_run k (LQueued i s # es) k'"
| Grant: "lk_owner k = None \<Longrightarrow> \<not> lk_blocked k \<Longrightarrow> lk_queue k = [] \<or> snd (hd (lk_queue k)) = s \<Longrightarrow>
    subseq q (tl (lk_queue k)) \<Longrightarrow> lock_run (k\<lparr> lk_owner := Some s, lk_queue := q \<rparr>) es k' \<Longrightarrow>
    lock_run k (LGranted s # es) k'"
| Release: "lk_owner k = Some s \<Longrightarrow> lock_run (k\<lparr> lk_owner := None \<rparr>) es k' \<Longrightarrow>
    lock_run k (LReleased s # es) k'"
| Expire: "lk_owner k = Some s \<Longrightarrow> lock_run (k\<lparr> lk_owner := None, lk_blocked := True \<rparr>) es k' \<Longrightarrow>
    lock_run k (LExpired s # es) k'"

lemma lock_run_append: "lock_run k es k1 \<Longrightarrow> lock_run k1 es' k2 \<Longrightarrow> lock_run k (es @ es') k2"
  by (induction rule: lock_run.induct) (auto intro: lock_run.intros)

text \<open>Mutual exclusion in the events: a grant only after the previous owner is gone.\<close>

fun exclusive :: "string option \<Rightarrow> lock_event list \<Rightarrow> bool" where
  "exclusive ow [] \<longleftrightarrow> True"
| "exclusive ow (LQueued i s # es) \<longleftrightarrow> exclusive ow es"
| "exclusive ow (LGranted s # es) \<longleftrightarrow> ow = None \<and> exclusive (Some s) es"
| "exclusive ow (LReleased s # es) \<longleftrightarrow> ow = Some s \<and> exclusive None es"
| "exclusive ow (LExpired s # es) \<longleftrightarrow> ow = Some s \<and> exclusive None es"

lemma lock_run_exclusive: "lock_run k es k' \<Longrightarrow> exclusive (lk_owner k) es"
  by (induction rule: lock_run.induct) simp_all

subsection \<open>Refinement of runs\<close>

text \<open>
  A machine whose every command is simulated by a run of its specification refines it as a whole.
\<close>

locale run_refinement =
  fixes exec :: "'c \<Rightarrow> 's \<Rightarrow> 's \<times> 'e list"
    and abs :: "'s \<Rightarrow> 'a"
    and obs :: "'e \<Rightarrow> 'o list"
    and spec :: "'a \<Rightarrow> 'o list \<Rightarrow> 'a \<Rightarrow> bool"
  assumes spec_refl: "spec a [] a"
    and spec_trans: "spec a os a1 \<Longrightarrow> spec a1 os1 a2 \<Longrightarrow> spec a (os @ os1) a2"
    and simulated: "exec c s = (s', es) \<Longrightarrow> spec (abs s) (concat (map obs es)) (abs s')"
begin

fun run where
  "run [] s = (s, [])"
| "run (c # cs) s = (let (s1, e1) = exec c s; (s2, e2) = run cs s1 in (s2, e1 @ e2))"

lemma run_simulated: "run cs s = (s', es) \<Longrightarrow> spec (abs s) (concat (map obs es)) (abs s')"
proof (induction cs arbitrary: s es)
  case (Cons c cs)
  obtain s1 e1 where 1: "exec c s = (s1, e1)" by fastforce
  obtain e2 where 2: "run cs s1 = (s', e2)" "es = e1 @ e2"
    using Cons.prems 1 by (auto split: prod.splits)
  show ?case
    using spec_trans [OF simulated [OF 1] Cons.IH [OF 2(1)]] by (simp add: 2(2))
qed (simp add: spec_refl)

end

subsection \<open>The lease manager as a lock\<close>

definition lock_of :: "lease_manager \<Rightarrow> lock" where
  "lock_of l =
     \<lparr> lk_owner = map_option lo_sessionId (lm_owner l),
       lk_queue = map (\<lambda>w. (w_id w, w_session w)) (lm_waiters l), lk_blocked = lm_blocked l \<rparr>"

fun observed :: "lease_event \<Rightarrow> lock_event list" where
  "observed (EvQueued t) = [LQueued (wt_id t) (wt_sessionId t)]"
| "observed (EvAcquired ow) = [LGranted (lo_sessionId ow)]"
| "observed (EvReleased ow) = [LReleased (lo_sessionId ow)]"
| "observed (EvExpired ow) = [LExpired (lo_sessionId ow)]"
| "observed (EvTicketExpired t) = []"
| "observed (EvResolved p r) = []"

definition lock_events :: "lease_event list \<Rightarrow> lock_event list" where
  "lock_events ev = concat (map observed ev)"

lemma lock_events_simps [simp]:
  "lock_events [] = []" "lock_events (e # ev) = observed e @ lock_events ev"
  "lock_events (ev @ ev') = lock_events ev @ lock_events ev'"
  by (simp_all add: lock_events_def)

definition simulates :: "lease_manager \<Rightarrow> lease_event list \<Rightarrow> lease_manager \<Rightarrow> bool" where
  "simulates l ev l' \<longleftrightarrow> lock_run (lock_of l) (lock_events ev) (lock_of l')"

lemma simulates_refl [simp]: "simulates l [] l"
  by (simp add: simulates_def lock_run.Done)

lemma simulates_trans: "simulates l e l1 \<Longrightarrow> simulates l1 e' l2 \<Longrightarrow> simulates l (e @ e') l2"
  by (auto simp: simulates_def intro: lock_run_append)

lemma lock_events_settle [simp]: "lock_events (settle w r) = []"
  by (simp add: settle_def split: option.split)

lemma lock_events_settle_all [simp]: "lock_events (concat (map (\<lambda>w. settle w r) ws)) = []"
  by (induction ws) simp_all

lemma lock_events_refuse [simp]: "lock_events (refuse_all ws) = []"
  by (simp add: refuse_all_def)

lemma simulates_leave:
  assumes "subseq (lm_waiters l') (lm_waiters l)" "lm_owner l' = lm_owner l" "lm_blocked l' = lm_blocked l"
    and "lock_events ev = []"
  shows "simulates l ev l'"
proof -
  have "lock_of l' = (lock_of l)\<lparr> lk_queue := lk_queue (lock_of l') \<rparr>"
    using assms(2,3) by (simp add: lock_of_def)
  moreover have "subseq (lk_queue (lock_of l')) (lk_queue (lock_of l))"
    using assms(1) by (simp add: lock_of_def subseq_map)
  ultimately show ?thesis
    unfolding simulates_def assms(4) by (metis lock_run.Done lock_run.Leave)
qed

lemma simulates_same: "lock_of l' = lock_of l \<Longrightarrow> lock_events ev = [] \<Longrightarrow> simulates l ev l'"
  by (simp add: simulates_def lock_run.Done)

lemma simulates_expire: "expireIfDue now l = (l', ev) \<Longrightarrow> simulates l ev l'"
  by (auto simp: expireIfDue_def simulates_def lock_of_def intro!: lock_run.Expire lock_run.Done split: option.splits if_splits)

lemma simulates_assign:
  assumes free: "lm_owner l = None" "\<not> lm_blocked l"
    and head: "lm_waiters l = [] \<or> w_session (hd (lm_waiters l)) = s"
    and rest: "subseq ws (tl (lm_waiters l))" and ev: "lock_events ev = []"
  shows "simulates l (snd (assignOwner now s label (l\<lparr> lm_waiters := ws \<rparr>)) @ ev)
           (fst (assignOwner now s label (l\<lparr> lm_waiters := ws \<rparr>)))"
proof -
  let ?q = "map (\<lambda>w. (w_id w, w_session w)) ws"
  let ?t = "fst (assignOwner now s label (l\<lparr> lm_waiters := ws \<rparr>))"
  have t: "lock_of ?t = (lock_of l)\<lparr> lk_owner := Some s, lk_queue := ?q \<rparr>"
    by (simp add: lock_of_def assignOwner_def scheduleExpiration_def Let_def)
  have "lk_owner (lock_of l) = None" "\<not> lk_blocked (lock_of l)" using free by (simp_all add: lock_of_def)
  moreover have "lk_queue (lock_of l) = [] \<or> snd (hd (lk_queue (lock_of l))) = s"
    using head by (cases "lm_waiters l") (simp_all add: lock_of_def)
  moreover have "subseq ?q (tl (lk_queue (lock_of l)))"
    using subseq_map [OF rest, of "\<lambda>w. (w_id w, w_session w)"] by (simp add: lock_of_def map_tl)
  moreover have "lock_run ((lock_of l)\<lparr> lk_owner := Some s, lk_queue := ?q \<rparr>) [] (lock_of ?t)"
    unfolding t by (rule lock_run.Done)
  ultimately have "lock_run (lock_of l) [LGranted s] (lock_of ?t)" by (rule lock_run.Grant)
  moreover have "lock_events (snd (assignOwner now s label (l\<lparr> lm_waiters := ws \<rparr>)) @ ev) = [LGranted s]"
    using ev by (simp add: assignOwner_def Let_def)
  ultimately show ?thesis by (simp only: simulates_def)
qed

lemma lock_of_touch [simp]: "lock_of (snd (touch now s l)) = lock_of l"
  by (simp add: lock_of_def touch_def scheduleExpiration_def split: option.split)

lemma simulates_grantNext:
  assumes "grantNext now l = (l', ev)"
  shows "simulates l ev l'"
  using grantNext_cases [OF assms]
proof (elim disjE conjE exE)
  fix w r
  let ?a = "assignOwner now (w_session w) (w_label w) (l\<lparr> lm_waiters := r \<rparr>)"
  assume w: "live now l = w # r" and free: "\<not> lm_blocked l" "lm_owner l = None" and l': "l' = fst ?a"
    and ev: "ev = refuse_all (takeWhile (lapsed now) (lm_waiters l)) @ snd ?a @ settle w granted"
  let ?m = "l\<lparr> lm_waiters := live now l \<rparr>"
  have "simulates l (refuse_all (takeWhile (lapsed now) (lm_waiters l))) ?m"
    by (rule simulates_leave) (simp_all add: subseq_live)
  moreover have "simulates ?m (snd ?a @ settle w granted) (fst ?a)"
    using simulates_assign [of ?m "w_session w" r "settle w granted" now "w_label w"] free w by simp
  ultimately show ?thesis unfolding l' ev by (rule simulates_trans)
qed (auto intro: simulates_leave simp: subseq_live)

lemma simulates_acquire:
  assumes "acquire now i s label enq l0 = (r, l', ev')"
  shows "simulates l0 ev' l'"
proof -
  obtain l ev where e: "expireIfDue now l0 = (l, ev)" by fastforce
  have exp: "simulates l0 ev l" by (rule simulates_expire [OF e])
  have prune: "simulates l (pruned_events now l) (pruned now l)"
    by (rule simulates_leave) (simp_all add: pruned_def pruned_events_def subseq_live)
  consider "owned_by l s" | "\<not> owned_by l s" "may_take now s l" | "\<not> owned_by l s" "\<not> may_take now s l"
    by blast
  then show ?thesis
  proof cases
    case 1
    then have r: "l' = snd (touch now s l)" "ev' = ev" using assms by (simp_all add: acquire_eq [OF e])
    have "simulates l [] l'" by (intro simulates_same) (simp_all add: r)
    from simulates_trans [OF exp this] show ?thesis by (simp add: r)
  next
    case 2
    let ?p = "pruned now l"
    let ?ws = "filter (\<lambda>w. w_session w \<noteq> s) (lm_waiters ?p)"
    let ?gone = "concat (map (\<lambda>w. settle w refused) (rev (filter (\<lambda>w. w_session w = s) (lm_waiters ?p))))"
    let ?a = "assignOwner now s label (?p\<lparr> lm_waiters := ?ws \<rparr>)"
    have run: "l' = fst ?a" "ev' = ev @ pruned_events now l @ ?gone @ snd ?a"
      using 2 assms by (auto simp: acquire_eq [OF e] removeWaitersForSession_def split_def Let_def)
    have free: "lm_owner ?p = None" "\<not> lm_blocked ?p" and
      head: "lm_waiters ?p = [] \<or> w_session (hd (lm_waiters ?p)) = s"
      using 2(2) by (auto simp: may_take_def pruned_def split: list.splits)
    have "subseq ?ws (tl (lm_waiters ?p))"
      using head by (cases "lm_waiters ?p") simp_all
    from simulates_assign [OF free head this, of "[]" now label] have "simulates ?p (snd ?a) (fst ?a)" by simp
    then have "simulates ?p (?gone @ snd ?a) (fst ?a)" by (simp add: simulates_def)
    from simulates_trans [OF exp simulates_trans [OF prune this]] show ?thesis by (simp add: run)
  next
    case 3
    obtain r2 l2 e2 where q: "wait_in_queue now i s label enq (pruned now l) = (r2, l2, e2)"
      by (metis prod_cases3)
    have l2: "l' = l2" "ev' = ev @ pruned_events now l @ e2"
      using 3 assms by (auto simp: acquire_eq [OF e] q)
    have "simulates (pruned now l) e2 l2"
      using q
      by (auto simp: wait_in_queue_def enqueue_ticket_def Let_def simulates_def lock_of_def
          intro!: lock_run.Queue lock_run.Done split: option.splits if_splits)
    from simulates_trans [OF exp simulates_trans [OF prune this]] show ?thesis by (simp add: l2)
  qed
qed

lemma simulates_exec:
  assumes run: "lease_exec now c l = (l', ev)"
  shows "simulates l ev l'"
proof (cases c)
  case (CAcquire i s label enq)
  obtain r where "acquire now i s label enq l = (r, l', ev)"
    using run CAcquire by (metis lease_exec.simps(1) snd_conv surj_pair)
  then show ?thesis by (rule simulates_acquire)
next
  case (CWait i p s label ms tid)
  obtain r where w: "wait now i p s label ms tid l = (r, l', ev)"
    using run CWait by (metis lease_exec.simps(2) snd_conv surj_pair)
  from w show ?thesis
  proof (cases rule: wait_cases)
    case (park a l2 xs y ys)
    then have "lock_of l' = lock_of l2" by (simp add: lock_of_def)
    then show ?thesis using simulates_acquire [OF park(1)] by (simp add: simulates_def)
  qed (rule simulates_acquire)
next
  case (CWaitTimeout p)
  then have t: "wait_timeout p l = (l', ev)" using run by simp
  then have "lock_events ev = []" by (auto simp: wait_timeout_def split: option.splits)
  with t show ?thesis
    by (cases rule: wait_timeout_cases) (auto intro: simulates_same simp: lock_of_def)
next
  case (CTouch s)
  then have "lock_of l' = lock_of l" "ev = []"
    using run by auto
  then show ?thesis by (simp add: simulates_same)
next
  case (CRelease s)
  let ?l = "l\<lparr> lm_owner := None, lm_expirationTimer := None \<rparr>"
  show ?thesis
  proof (cases "owned_by l s")
    case True
    then obtain ow where ow: "lm_owner l = Some ow" "lo_sessionId ow = s"
      by (auto simp: owned_by_def split: option.splits)
    obtain l2 e2 where g: "grantNext now ?l = (l2, e2)" by fastforce
    have r: "l' = l2" "ev = EvReleased ow # e2"
      using run CRelease ow g by (auto simp: release_def)
    have "simulates l [EvReleased ow] ?l"
      using ow by (auto simp: simulates_def lock_of_def intro!: lock_run.Release lock_run.Done)
    from simulates_trans [OF this simulates_grantNext [OF g]] show ?thesis by (simp add: r)
  next
    case False
    then have "snd (removeWaitersForSession s l) = (l', ev)"
      using run CRelease by (auto simp: release_def owned_by_def split: option.splits)
    then show ?thesis by (auto simp: removeWaitersForSession_def Let_def intro!: simulates_leave)
  qed
next
  case (CDisconnect s)
  then have "l' = l \<and> ev = [] \<or> snd (removeWaitersForSession s l) = (l', ev)"
    using run by (auto simp: disconnect_def split_def Let_def split: if_splits)
  then show ?thesis by (auto simp: removeWaitersForSession_def Let_def intro!: simulates_leave)
next
  case (CSetBlocked b)
  let ?l = "l\<lparr> lm_blocked := b \<rparr>"
  have block: "simulates l [] ?l"
    by (simp add: simulates_def lock_of_def) (rule lock_run.Block [where b = b], simp add: lock_run.Done)
  show ?thesis
  proof (cases b)
    case True
    then show ?thesis using run CSetBlocked block by (auto simp: setBlocked_def Let_def)
  next
    case False
    then have "grantNext now ?l = (l', ev)" using run CSetBlocked by (simp add: setBlocked_def Let_def)
    from simulates_trans [OF block simulates_grantNext [OF this]] show ?thesis by simp
  qed
next
  case CExpire
  then show ?thesis using run by (simp add: simulates_expire)
next
  case (CExpireTicket i)
  then have "expireTicket i l = (l', ev)" using run by simp
  then show ?thesis
  proof (cases rule: expireTicket_cases)
    case (some xs w ys)
    have "subseq (xs @ ys) (xs @ w # ys)" by (induction xs) auto
    then show ?thesis using some by (intro simulates_leave) simp_all
  qed simp
next
  case CClearWaiters
  then show ?thesis using run by (auto simp: clearWaiters_def intro!: simulates_leave)
next
  case (CSnapshot s)
  then have "expireIfDue now l = (l', ev)"
    using run by (auto simp: snapshot_def split_def Let_def prod_eq_iff split: option.splits)
  then show ?thesis by (rule simulates_expire)
qed

interpretation lease: run_refinement "\<lambda>(now, c). lease_exec now c" lock_of observed lock_run
proof unfold_locales
  fix c :: "int \<times> lease_cmd" and l l' ev
  assume "(case c of (now, c) \<Rightarrow> lease_exec now c) l = (l', ev)"
  then have "simulates l ev l'" by (cases c) (simp add: simulates_exec)
  then show "lock_run (lock_of l) (concat (map observed ev)) (lock_of l')"
    by (simp add: simulates_def lock_events_def)
qed (auto intro: lock_run.Done lock_run_append)


end
