(* ===== verification/Transfer_Cost.thy ===== *)
theory Transfer_Cost
  imports Transfer_Props
begin

text \<open>
  A pull ends whatever the guest answers: the number of requests it makes is bounded by the largest
  size of a transfer.
\<close>

subsection \<open>Counting requests\<close>

text \<open>\<open>m\<close> adds at most \<open>n\<close> to what \<open>cnt\<close> reads from the state, whether it fails or not.\<close>

definition costs :: "('s \<Rightarrow> nat) \<Rightarrow> nat \<Rightarrow> ('s, 'a) op \<Rightarrow> bool" where
  "costs cnt n m \<longleftrightarrow> (\<forall>s. cnt (snd (m s)) \<le> cnt s + n)"

named_theorems cost_rules

lemma costs_mono: "costs cnt n m \<Longrightarrow> n \<le> k \<Longrightarrow> costs cnt k m"
  by (force simp: costs_def intro: le_trans)

lemma costs_bind: "costs cnt a m \<Longrightarrow> (\<And>x. costs cnt b (f x)) \<Longrightarrow> costs cnt (a + b) (bindS m f)"
  unfolding costs_def
proof
  fix s assume m: "\<forall>s. cnt (snd (m s)) \<le> cnt s + a" and f: "\<And>x. \<forall>s. cnt (snd (f x s)) \<le> cnt s + b"
  show "cnt (snd (bindS m f s)) \<le> cnt s + (a + b)"
  proof (cases "m s")
    case (Pair r t)
    then have "cnt t \<le> cnt s + a" using m by (metis snd_conv)
    moreover have "cnt (snd (f x t)) \<le> cnt t + b" for x using f by blast
    ultimately have "cnt (snd (f x t)) \<le> cnt s + (a + b)" for x by (metis add.assoc add_le_mono1 le_trans)
    then show ?thesis using Pair \<open>cnt t \<le> cnt s + a\<close> by (cases r) (auto simp: bindS_def)
  qed
qed

lemma costs_bind0 [cost_rules]: "costs cnt 0 m \<Longrightarrow> (\<And>x. costs cnt b (f x)) \<Longrightarrow> costs cnt b (bindS m f)"
  using costs_bind [of cnt 0 m b f] by simp

lemma costs_bind1: "costs cnt n m \<Longrightarrow> (\<And>x. costs cnt 0 (f x)) \<Longrightarrow> costs cnt n (bindS m f)"
  using costs_bind [of cnt n m 0 f] by simp

lemma costs_case [cost_rules]: "(\<And>a b. costs cnt n (f a b)) \<Longrightarrow> costs cnt n (case p of (a, b) \<Rightarrow> f a b)"
  by (simp add: case_prod_unfold)

lemma costs_option [cost_rules]:
  "costs cnt n m \<Longrightarrow> (\<And>x. costs cnt n (f x)) \<Longrightarrow> costs cnt n (case v of None \<Rightarrow> m | Some x \<Rightarrow> f x)"
  by (simp split: option.split)

lemma costs_lift [cost_rules]: "costs cnt n (liftS r)" "costs cnt n (returnS x)" "costs cnt n (throwS e)"
  by (simp_all add: costs_def op_defs)

lemma costs_get [cost_rules]: "costs cnt n (getS f)"
  by (simp add: costs_def op_defs)

lemma costs_if [cost_rules]: "costs cnt n m \<Longrightarrow> costs cnt n m' \<Longrightarrow> costs cnt n (if b then m else m')"
  by simp

lemma costs_let [cost_rules]: "(\<And>x. costs cnt n (f x)) \<Longrightarrow> costs cnt n (let x = v in f x)"
  by simp

lemma costs_modify: "(\<And>s. cnt (f s) = cnt s) \<Longrightarrow> costs cnt n (modifyS f)"
  by (simp add: costs_def op_defs)

lemma costs_catch: "costs cnt n m \<Longrightarrow> (\<And>e s. cnt (h e s) = cnt s) \<Longrightarrow> costs cnt n (catchS m h)"
  by (auto simp: costs_def catchS_def split: prod.split sum.split) (metis snd_conv)+

lemma costs_finally: "costs cnt n m \<Longrightarrow> (\<And>s. cnt (f s) = cnt s) \<Longrightarrow> costs cnt n (finallyS m f)"
  by (simp add: costs_def finallyS_def case_prod_unfold Let_def)

text \<open>From here the count is a number the guest keeps.\<close>

abbreviation asked :: "('g \<Rightarrow> nat) \<Rightarrow> 'g coordinator \<Rightarrow> nat" where
  "asked k s \<equiv> k (tc_guest s)"

definition counts_requests :: "('g \<Rightarrow> nat) \<Rightarrow> 'g xenv \<Rightarrow> string \<Rightarrow> bool" where
  "counts_requests k env sid \<longleftrightarrow> (\<forall>meth params t. costs (asked k) 1 (x_req env sid meth params t))"

lemma costs_state [cost_rules]:
  "costs (asked k) n getfs" "costs (asked k) n (updfs f)" "costs (asked k) n (report sid p)"
  "costs (asked k) n (assertActive opid)"
  by (auto simp: costs_def getfs_def updfs_def report_def assertActive_def op_defs split: sum.split)

lemma asked_same [simp]:
  "asked k (rm_settled p s) = asked k s" "asked k (releaseHostPartial sid tmp meta s) = asked k s"
  "asked k (clear_host_paths opid s) = asked k s" "asked k (unlock_destination hp s) = asked k s"
  "asked k (note_host_partial sid opid tmp meta s) = asked k s" "asked k (pull_failed env sid hp e s) = asked k s"
  by (simp_all add: rm_settled_def releaseHostPartial_def clear_host_paths_def unlock_destination_def
      note_host_partial_def pull_failed_def update_transfer_def retainHostPartial_def Let_def split: sum.split)

lemma costs_guestOk: "counts_requests k env sid \<Longrightarrow> costs (asked k) 1 (guestOk env sid meth params)"
  unfolding guestOk_def counts_requests_def by (rule costs_bind1) (blast, intro cost_rules)

lemma costs_pull_report: "costs (asked k) n (pull_report sid upd m ps)"
  unfolding pull_report_def by (intro cost_rules)

lemma costs_store_chunk: "costs (asked k) n (store_chunk sid tmp upd m next data ps)"
  unfolding store_chunk_def by (intro cost_rules costs_pull_report)

lemma costs_pull_step:
  assumes "counts_requests k env sid"
  shows "costs (asked k) 1 (pull_step env sid opid gp tmp meta upd ps)"
  unfolding pull_step_def writePullMetadata_def
  by (rule costs_bind0, rule cost_rules, rule costs_bind1 [OF costs_guestOk [OF assms]])
    (intro cost_rules costs_pull_report costs_store_chunk)

lemma costs_pull_loop:
  assumes "counts_requests k env sid"
  shows "asked k (snd (pull_loop env sid opid gp tmp meta upd ps s)) \<le>
           asked k s + (MAX_WIN98_TRANSFER_BYTES + 2 - ps_offset ps) + 1"
  using assms
proof (induction env sid opid gp tmp meta upd ps s rule: pull_loop.induct)
  case (1 env sid opid gp tmp meta upd ps s)
  let ?p = "pull_step env sid opid gp tmp meta upd ps s"
  obtain r t where p: "?p = (r, t)" by fastforce
  have one: "asked k t \<le> asked k s + 1"
    using costs_pull_step [OF 1(2), of opid gp tmp meta upd ps] p by (metis costs_def snd_conv)
  show ?case
  proof (cases "\<exists>ps'. r = Inr (ps', None)")
    case True
    then obtain ps' where r: "r = Inr (ps', None)" by blast
    have run: "pull_loop env sid opid gp tmp meta upd ps s = pull_loop env sid opid gp tmp meta upd ps' t"
      using p r by (subst pull_loop.simps) simp
    have "ps_offset ps < ps_offset ps' \<and> ps_offset ps \<le> MAX_WIN98_TRANSFER_BYTES"
      using pull_step_progress p r by blast
    moreover have "asked k (snd (pull_loop env sid opid gp tmp meta upd ps' t)) \<le>
        asked k t + (MAX_WIN98_TRANSFER_BYTES + 2 - ps_offset ps') + 1"
      using 1(1) [OF p [symmetric] r refl refl] 1(2) by simp
    ultimately show ?thesis using one unfolding run by arith
  next
    case False
    then have "snd (pull_loop env sid opid gp tmp meta upd ps s) = t"
      using p by (subst pull_loop.simps) (auto split: sum.splits prod.splits option.splits)
    then show ?thesis using one by simp
  qed
qed

lemma costs_pull_body:
  assumes "counts_requests k env sid"
  shows "costs (asked k) (MAX_WIN98_TRANSFER_BYTES + 3) (pull_body env sid opid gp hp upd resumed summary)"
proof -
  have loop: "costs (asked k) (MAX_WIN98_TRANSFER_BYTES + 3) (pull_loop env sid opid gp tmp meta upd ps)" for tmp meta ps
    unfolding costs_def
  proof
    fix s
    show "asked k (snd (pull_loop env sid opid gp tmp meta upd ps s)) \<le> asked k s + (MAX_WIN98_TRANSFER_BYTES + 3)"
      using costs_pull_loop [OF assms, of opid gp tmp meta upd ps s] by simp
  qed
  show ?thesis
    unfolding pull_body_def Let_def
    by (rule costs_bind0, rule cost_rules, rule costs_bind0, rule cost_rules, rule costs_bind1 [OF loop])
      (intro cost_rules costs_modify, simp)
qed

lemma costs_open: "costs (asked k) n (openPullPartial env tmp meta gp)"
  unfolding openPullPartial_def by (intro cost_rules costs_modify) simp

lemma costs_prepare: "costs (asked k) n (prepareHostDestination hp ov)"
proof -
  have "costs (asked k) n (case lstat fs hp of Inl e \<Rightarrow> if isMissing e then returnS () else throwS e
       | Inr HLink \<Rightarrow> throwS ''HOST_SYMLINK_REJECTED'' | Inr HDir \<Rightarrow> throwS ''HOST_DESTINATION_IS_DIRECTORY''
       | Inr _ \<Rightarrow> if ov then returnS () else throwS ''HOST_DESTINATION_EXISTS'')" for fs
    by (simp add: cost_rules split: sum.split hnode.split)
  then show ?thesis unfolding prepareHostDestination_def by (intro cost_rules)
qed

text \<open>
  C21. A pull ends whatever the guest answers: from any state and for any guest,
  \<open>pullOneFile\<close> returns after at most three requests more than the largest transfer has bytes. The
  guest here is any that keeps a count of its requests.
\<close>

theorem pull_requests_bounded:
  assumes "counts_requests k env sid"
  shows "k (tc_guest (snd (pullOneFile env sid opid gp hp ov upd summary s))) \<le>
           k (tc_guest s) + (MAX_WIN98_TRANSFER_BYTES + 3)"
proof -
  have "costs (asked k) (MAX_WIN98_TRANSFER_BYTES + 3) (pull_reserved env sid opid gp hp upd summary)"
    unfolding pull_reserved_def
    by (intro cost_rules costs_modify costs_open costs_finally costs_catch costs_pull_body [OF assms]) simp_all
  then have "costs (asked k) (MAX_WIN98_TRANSFER_BYTES + 3) (pullOneFile env sid opid gp hp ov upd summary)"
    unfolding pullOneFile_def by (rule costs_bind0 [OF costs_prepare])
  then show ?thesis by (simp only: costs_def)
qed

text \<open>A guest that counts, and never says that the file ends.\<close>

definition endless_guest :: "nat requester" where
  "endless_guest sid meth params timeout s =
     (Inr \<lparr> gr_ok = True, gr_code = ''OK'', gr_message = [],
            gr_data = JObj [(''offset'', js_of_nat (tc_guest s)), (''nextOffset'', js_of_nat (tc_guest s + 1)),
              (''size'', js_of_nat 5), (''eof'', JBool False), (''dataBase64'', JStr ''QQ=='')] \<rparr>,
      s\<lparr> tc_guest := tc_guest s + 1 \<rparr>)"

theorem pull_requests_bounded_witness:
  "\<exists>env. counts_requests (\<lambda>n. n) env ''s'' \<and>
     tc_guest (snd (pullOneFile env ''s'' ''op'' ''C:/A'' (path_of [''a'']) False (\<lambda>sm _ _ _. Inr sm)
       (emptyProgress [] [] [])
       \<lparr> tc_guest = 0, tc_fs = [], tc_active = [], tc_destinations = [], tc_retained = [], tc_events = [] \<rparr>))
     \<le> MAX_WIN98_TRANSFER_BYTES + 3"
proof -
  let ?env = "\<lparr> x_req = endless_guest, x_timeout = 1000, x_sha = (\<lambda>_. []), x_parse = (\<lambda>_. None),
     x_stringify = (\<lambda>_. []), x_cwd = ''/'' \<rparr>"
  have c: "counts_requests (\<lambda>n. n) ?env ''s''"
    by (simp add: counts_requests_def costs_def endless_guest_def)
  show ?thesis using c pull_requests_bounded [OF c, of _ _ _ _ _ _ "\<lparr> tc_guest = 0, tc_fs = [], tc_active = [], tc_destinations = [], tc_retained = [], tc_events = [] \<rparr>"]
    by (intro exI [of _ ?env]) simp
qed

end
