(* ===== verification/Text_Lines.thy ===== *)
theory Text_Lines
  imports Protocol
begin

text \<open>
  How the bytes of a local socket become lines of text: the UTF-8 decoder of the runtime
  (\<open>Buffer.toString\<close>, which ends the character it is in, and \<open>setEncoding\<close>, which keeps it for the
  next chunk) and the cutting of the received text at newlines, as \<open>acceptAdapter\<close> of
  \<open>src/host/broker.ts\<close> does it. A text is the list of its code points.
\<close>

type_synonym ustring = "nat list"

subsection \<open>UTF-8\<close>

definition REPLACEMENT :: nat where "REPLACEMENT = 65533"

definition scalar :: "nat \<Rightarrow> bool" where
  "scalar c \<longleftrightarrow> c < 55296 \<or> 57344 \<le> c \<and> c < 1114112"

definition utf8_char :: "nat \<Rightarrow> bytes" where
  "utf8_char c = map of_nat
     (if c < 128 then [c]
      else if c < 2048 then [192 + c div 64, 128 + c mod 64]
      else if c < 65536 then [224 + c div 4096, 128 + c div 64 mod 64, 128 + c mod 64]
      else [240 + c div 262144, 128 + c div 4096 mod 64, 128 + c div 64 mod 64, 128 + c mod 64])"

definition utf8 :: "ustring \<Rightarrow> bytes" where
  "utf8 t = concat (map utf8_char t)"

definition utf8_length :: "nat \<Rightarrow> nat" where
  "utf8_length c = (if c < 128 then 1 else if c < 2048 then 2 else if c < 65536 then 3 else 4)"

text \<open>\<open>Buffer.byteLength(text, "utf8")\<close>.\<close>

definition byteLength :: "ustring \<Rightarrow> nat" where
  "byteLength t = sum_list (map utf8_length t)"

text \<open>
  The decoder's state: the bits read so far, how many bytes the character still needs, and the range
  the next one must be in.
\<close>

record utf8_state =
  us_bits :: nat
  us_need :: nat
  us_low :: nat
  us_high :: nat

definition between_characters :: utf8_state where
  "between_characters = \<lparr> us_bits = 0, us_need = 0, us_low = 128, us_high = 191 \<rparr>"

definition first_byte :: "nat \<Rightarrow> utf8_state \<times> ustring" where
  "first_byte b =
     (if b < 128 then (between_characters, [b])
      else if 194 \<le> b \<and> b \<le> 223 then (\<lparr> us_bits = b - 192, us_need = 1, us_low = 128, us_high = 191 \<rparr>, [])
      else if 224 \<le> b \<and> b \<le> 239
      then (\<lparr> us_bits = b - 224, us_need = 2, us_low = (if b = 224 then 160 else 128),
              us_high = (if b = 237 then 159 else 191) \<rparr>, [])
      else if 240 \<le> b \<and> b \<le> 244
      then (\<lparr> us_bits = b - 240, us_need = 3, us_low = (if b = 240 then 144 else 128),
              us_high = (if b = 244 then 143 else 191) \<rparr>, [])
      else (between_characters, [REPLACEMENT]))"

definition utf8_step :: "utf8_state \<Rightarrow> nat \<Rightarrow> utf8_state \<times> ustring" where
  "utf8_step u b =
     (if us_need u = 0 then first_byte b
      else if us_low u \<le> b \<and> b \<le> us_high u then
        let bits = us_bits u * 64 + (b - 128) in
        if us_need u = 1 then (between_characters, [bits])
        else (\<lparr> us_bits = bits, us_need = us_need u - 1, us_low = 128, us_high = 191 \<rparr>, [])
      else (case first_byte b of (v, t) \<Rightarrow> (v, REPLACEMENT # t)))"

fun utf8_run :: "utf8_state \<Rightarrow> bytes \<Rightarrow> utf8_state \<times> ustring" where
  "utf8_run u [] = (u, [])"
| "utf8_run u (b # bs) =
     (case utf8_step u (unat b) of (v, t) \<Rightarrow> (case utf8_run v bs of (w, r) \<Rightarrow> (w, t @ r)))"

definition toString :: "bytes \<Rightarrow> ustring" where
  "toString bs = (case utf8_run between_characters bs of
     (u, t) \<Rightarrow> if us_need u = 0 then t else t @ [REPLACEMENT])"

lemma utf8_run_append:
  "utf8_run u (a @ b) =
     (case utf8_run u a of (v, t) \<Rightarrow> (case utf8_run v b of (w, r) \<Rightarrow> (w, t @ r)))"
  by (induction a arbitrary: u) (simp_all add: case_prod_unfold)

lemma utf8_append [simp]: "utf8 (s @ t) = utf8 s @ utf8 t"
  by (simp add: utf8_def)

lemma utf8_Nil [simp]: "utf8 [] = []"
  by (simp add: utf8_def)

lemma byteLength_append [simp]: "byteLength (s @ t) = byteLength s + byteLength t"
  by (simp add: byteLength_def)

lemma byteLength_Nil [simp]: "byteLength [] = 0"
  by (simp add: byteLength_def)

lemma length_utf8: "length (utf8 t) = byteLength t"
  by (induction t) (simp_all add: utf8_def byteLength_def utf8_char_def utf8_length_def)

lemma unat_byte: "n < 256 \<Longrightarrow> unat (of_nat n :: byte) = n"
  by (simp add: unat_of_nat)

lemma between_need [simp]: "us_need between_characters = 0"
  by (simp add: between_characters_def)

lemma first_byte_lead:
  "2 \<le> x \<Longrightarrow> x < 32 \<Longrightarrow> first_byte (192 + x) = (\<lparr> us_bits = x, us_need = 1, us_low = 128, us_high = 191 \<rparr>, [])"
  "x < 16 \<Longrightarrow> first_byte (224 + x) =
     (\<lparr> us_bits = x, us_need = 2, us_low = (if x = 0 then 160 else 128), us_high = (if x = 13 then 159 else 191) \<rparr>, [])"
  "x < 5 \<Longrightarrow> first_byte (240 + x) =
     (\<lparr> us_bits = x, us_need = 3, us_low = (if x = 0 then 144 else 128), us_high = (if x = 4 then 143 else 191) \<rparr>, [])"
  by (simp_all add: first_byte_def)

lemma first_byte_ends:
  "first_byte 224 = (\<lparr> us_bits = 0, us_need = 2, us_low = 160, us_high = 191 \<rparr>, [])"
  "first_byte 237 = (\<lparr> us_bits = 13, us_need = 2, us_low = 128, us_high = 159 \<rparr>, [])"
  "first_byte 240 = (\<lparr> us_bits = 0, us_need = 3, us_low = 144, us_high = 191 \<rparr>, [])"
  "first_byte 244 = (\<lparr> us_bits = 4, us_need = 3, us_low = 128, us_high = 143 \<rparr>, [])"
  by (simp_all add: first_byte_def)

lemma utf8_step_more:
  assumes "lo \<le> 128 + y" "128 + y \<le> hi"
  shows "utf8_step \<lparr> us_bits = b, us_need = Suc 0, us_low = lo, us_high = hi \<rparr> (128 + y) =
           (between_characters, [b * 64 + y])"
    and "utf8_step \<lparr> us_bits = b, us_need = 2, us_low = lo, us_high = hi \<rparr> (128 + y) =
           (\<lparr> us_bits = b * 64 + y, us_need = 1, us_low = 128, us_high = 191 \<rparr>, [])"
    and "utf8_step \<lparr> us_bits = b, us_need = 3, us_low = lo, us_high = hi \<rparr> (128 + y) =
           (\<lparr> us_bits = b * 64 + y, us_need = 2, us_low = 128, us_high = 191 \<rparr>, [])"
  using assms by (simp_all add: utf8_step_def)

lemma utf8_step_lead: "utf8_step between_characters b = first_byte b"
  by (simp add: utf8_step_def)

lemma digits64: "c div 4096 = c div 64 div 64" "c div 262144 = c div 64 div 64 div 64" for c :: nat
  by (simp_all flip: div_mult2_eq)

lemma utf8_run_char:
  assumes "scalar c"
  shows "utf8_run between_characters (utf8_char c) = (between_characters, [c])"
proof -
  have bound: "c < 1114112" using assms by (auto simp: scalar_def)
  note steps = utf8_step_lead first_byte_lead utf8_step_more unat_byte
  consider "c < 128" | "128 \<le> c" "c < 2048" | "2048 \<le> c" "c < 65536" | "65536 \<le> c" "c < 1114112"
    using bound by linarith
  then show ?thesis
  proof cases
    case 1
    then show ?thesis by (simp add: utf8_char_def unat_byte utf8_step_lead first_byte_def)
  next
    case 2
    define y z where yz: "y = c div 64" "z = c mod 64"
    have c: "y * 64 + z = c" and r: "2 \<le> y" "y < 32" "z < 64" using 2 unfolding yz by simp_all
    have "utf8_char c = [of_nat (192 + y), of_nat (128 + z)]" using 2 by (simp add: utf8_char_def yz)
    then show ?thesis using r c by (simp add: steps del: of_nat_add)
  next
    case 3
    define x y z where xyz: "x = c div 4096" "y = c div 64 mod 64" "z = c mod 64"
    have c: "(x * 64 + y) * 64 + z = c" unfolding xyz by (simp add: digits64)
    have r: "x < 16" "y < 64" "z < 64" using 3 unfolding xyz by simp_all
    have lo: "x = 0 \<Longrightarrow> 32 \<le> y" using 3 c r(3) by auto
    have hi: "x = 13 \<Longrightarrow> y < 32" using assms 3 c r by (auto simp: scalar_def)
    have "utf8_char c = [of_nat (224 + x), of_nat (128 + y), of_nat (128 + z)]"
      using 3 by (simp add: utf8_char_def xyz)
    then show ?thesis using r c lo hi
      by (cases "x = 0"; cases "x = 13") (simp_all add: steps first_byte_ends del: of_nat_add)
  next
    case 4
    define w x y z where xyz: "w = c div 262144" "x = c div 4096 mod 64" "y = c div 64 mod 64" "z = c mod 64"
    have c: "((w * 64 + x) * 64 + y) * 64 + z = c" unfolding xyz by (simp add: digits64)
    have r: "w < 5" "x < 64" "y < 64" "z < 64" using 4 unfolding xyz by simp_all
    have lo: "w = 0 \<Longrightarrow> 16 \<le> x" using 4 c r by auto
    have hi: "w = 4 \<Longrightarrow> x < 16" using 4 c r by auto
    have "utf8_char c = [of_nat (240 + w), of_nat (128 + x), of_nat (128 + y), of_nat (128 + z)]"
      using 4 by (simp add: utf8_char_def xyz)
    then show ?thesis using r c lo hi
      by (cases "w = 0"; cases "w = 4") (simp_all add: steps first_byte_ends del: of_nat_add)
  qed
qed

lemma utf8_run_utf8:
  "list_all scalar t \<Longrightarrow> utf8_run between_characters (utf8 t) = (between_characters, t)"
proof (induction t)
  case (Cons c t)
  then show ?case by (simp add: utf8_def utf8_run_append utf8_run_char)
qed simp

lemma toString_utf8: "list_all scalar t \<Longrightarrow> toString (utf8 t) = t"
  by (simp add: toString_def utf8_run_utf8)

subsection \<open>Lines\<close>

definition newline :: nat where "newline = 10"

text \<open>\<open>text.split("\n")\<close>, and the characters that \<open>trim\<close> removes.\<close>

fun js_split :: "nat \<Rightarrow> ustring \<Rightarrow> ustring list" where
  "js_split c [] = [[]]"
| "js_split c (x # xs) =
     (if x = c then [] # js_split c xs
      else (case js_split c xs of [] \<Rightarrow> [[x]] | l # ls \<Rightarrow> (x # l) # ls))"

definition is_space :: "nat \<Rightarrow> bool" where
  "is_space c \<longleftrightarrow> 9 \<le> c \<and> c \<le> 13 \<or> c = 32 \<or> c = 160 \<or> c = 5760 \<or> 8192 \<le> c \<and> c \<le> 8202 \<or> c = 8232 \<or> c = 8233 \<or>
     c = 8239 \<or> c = 8287 \<or> c = 12288 \<or> c = 65279"

definition blank :: "ustring \<Rightarrow> bool" where
  "blank t \<longleftrightarrow> list_all is_space t"

lemma js_split_not_Nil [simp]: "js_split c t \<noteq> []"
  by (induction t) (auto split: list.split)

lemma js_split_append:
  "js_split c (s @ t) = butlast (js_split c s) @ (last (js_split c s) @ hd (js_split c t)) # tl (js_split c t)"
proof (induction s)
  case (Cons x s)
  then show ?case by (cases "js_split c s"; cases "js_split c t") auto
qed simp

lemma js_split_line: "c \<notin> set l \<Longrightarrow> js_split c l = [l]"
  by (induction l) auto

lemma last_no_newline: "c \<notin> set (last (js_split c t))"
  by (induction t) (auto split: list.split)

lemma js_split_lines:
  "\<forall>l \<in> set ls. c \<notin> set l \<Longrightarrow> js_split c (concat (map (\<lambda>l. l @ [c]) ls)) = ls @ [[]]"
proof (induction ls)
  case (Cons l ls)
  then show ?case by (simp add: js_split_append js_split_line)
qed simp

subsection \<open>The adapter's side of a local connection\<close>

definition LOCAL_MESSAGE_LIMIT :: nat where
  "LOCAL_MESSAGE_LIMIT = 2 * 1024 * 1024"

record line_reader =
  lr_buffer :: ustring
  lr_open :: bool

definition fresh_reader :: line_reader where
  "fresh_reader = \<lparr> lr_buffer = [], lr_open = True \<rparr>"

text \<open>
  The data handler of an adapter's socket: the lines it hands to \<open>handleAdapterLine\<close>. A socket that
  was destroyed delivers nothing any more.
\<close>

definition adapter_data :: "bytes \<Rightarrow> line_reader \<Rightarrow> line_reader \<times> ustring list" where
  "adapter_data chunk r =
     (if \<not> lr_open r then (r, [])
      else
        let buffer = lr_buffer r @ toString chunk in
        if byteLength buffer > LOCAL_MESSAGE_LIMIT then (r\<lparr> lr_buffer := buffer, lr_open := False \<rparr>, [])
        else
          let parts = js_split newline buffer in
          (r\<lparr> lr_buffer := last parts \<rparr>, filter (\<lambda>l. \<not> blank l) (butlast parts)))"

fun adapter_feed :: "bytes list \<Rightarrow> line_reader \<Rightarrow> line_reader \<times> ustring list" where
  "adapter_feed [] r = (r, [])"
| "adapter_feed (c # cs) r =
     (case adapter_data c r of (r1, ls) \<Rightarrow> (case adapter_feed cs r1 of (r2, ms) \<Rightarrow> (r2, ls @ ms)))"

text \<open>The text of an open line never exceeds what the rest of the stream makes of it.\<close>

lemma open_line_part:
  assumes "\<forall>l \<in> set (js_split newline (p @ q)). byteLength l \<le> n"
  shows "byteLength (last (js_split newline p)) \<le> n"
proof -
  have "last (js_split newline p) @ hd (js_split newline q) \<in> set (js_split newline (p @ q))"
    by (simp add: js_split_append)
  with assms show ?thesis by fastforce
qed

lemma adapter_feed_texts:
  assumes "list_all (list_all scalar) cs" "list_all (\<lambda>c. byteLength c \<le> m) cs"
    and "\<forall>l \<in> set (js_split newline (b @ concat cs)). byteLength l + m \<le> LOCAL_MESSAGE_LIMIT"
    and "newline \<notin> set b"
  shows "adapter_feed (map utf8 cs) \<lparr> lr_buffer = b, lr_open = True \<rparr> =
     (\<lparr> lr_buffer = last (js_split newline (b @ concat cs)), lr_open = True \<rparr>,
      filter (\<lambda>l. \<not> blank l) (butlast (js_split newline (b @ concat cs))))"
  using assms
proof (induction cs arbitrary: b)
  case Nil
  then show ?case by (simp add: js_split_line)
next
  case (Cons c cs)
  let ?p = "js_split newline (b @ c)" and ?t = "js_split newline (concat cs)"
  have all: "js_split newline (b @ c @ concat cs) = butlast ?p @ (last ?p @ hd ?t) # tl ?t"
    using js_split_append [of newline "b @ c" "concat cs"] by simp
  have "b @ hd (js_split newline (c @ concat cs)) \<in> set (js_split newline (b @ c @ concat cs))"
    using Cons.prems(4) by (simp add: js_split_append [of newline b] js_split_line)
  then have "byteLength b + m \<le> LOCAL_MESSAGE_LIMIT" using Cons.prems(3) by fastforce
  then have fits: "byteLength (b @ c) \<le> LOCAL_MESSAGE_LIMIT" using Cons.prems(2) by simp
  have last_p: "newline \<notin> set (last ?p)"
    by (rule last_no_newline)
  have step: "adapter_data (utf8 c) \<lparr> lr_buffer = b, lr_open = True \<rparr> =
     (\<lparr> lr_buffer = last ?p, lr_open = True \<rparr>, filter (\<lambda>l. \<not> blank l) (butlast ?p))"
    using fits Cons.prems(1) by (simp add: adapter_data_def toString_utf8 Let_def)
  have rest: "js_split newline (last ?p @ concat cs) = (last ?p @ hd ?t) # tl ?t"
    using last_p by (simp add: js_split_append js_split_line)
  have "adapter_feed (map utf8 cs) \<lparr> lr_buffer = last ?p, lr_open = True \<rparr> =
     (\<lparr> lr_buffer = last (js_split newline (last ?p @ concat cs)), lr_open = True \<rparr>,
      filter (\<lambda>l. \<not> blank l) (butlast (js_split newline (last ?p @ concat cs))))"
    using Cons.prems last_p by (intro Cons.IH) (auto simp: all rest)
  then show ?case by (simp add: step all rest butlast_append)
qed

text \<open>
  C32. When an adapter's messages arrive in chunks that end between
  characters, and no line is within one chunk of the size limit, the broker handles exactly the lines
  that are not blank, in order, and has no text left over.
\<close>

theorem adapter_lines_exact:
  assumes "concat cs = concat (map (\<lambda>l. l @ [newline]) ls)" and "\<forall>l \<in> set ls. newline \<notin> set l"
    and "list_all (list_all scalar) cs" and "list_all (\<lambda>c. byteLength c \<le> m) cs"
    and "list_all (\<lambda>l. byteLength l + m \<le> LOCAL_MESSAGE_LIMIT) ls" and "m \<le> LOCAL_MESSAGE_LIMIT"
  shows "adapter_feed (map utf8 cs) fresh_reader = (fresh_reader, filter (\<lambda>l. \<not> blank l) ls)"
proof -
  have "js_split newline (concat cs) = ls @ [[]]"
    unfolding assms(1) by (rule js_split_lines [OF assms(2)])
  then show ?thesis
    using adapter_feed_texts [OF assms(3,4), of "[]"] assms(5,6) by (simp add: fresh_reader_def list_all_iff)
qed

theorem adapter_lines_exact_witness:
  "adapter_feed (map utf8 [[123], [233, 125, 10, 13], [10, 123, 125, 10]]) fresh_reader =
     (fresh_reader, [[123, 233, 125], [123, 125]])"
proof -
  let ?cs = "[[123], [233, 125, 10, 13], [10, 123, 125, 10]]" and ?ls = "[[123, 233, 125], [13], [123, 125]]"
  have "adapter_feed (map utf8 ?cs) fresh_reader = (fresh_reader, filter (\<lambda>l. \<not> blank l) ?ls)"
    by (rule adapter_lines_exact [where m = 10])
      (simp_all add: newline_def scalar_def byteLength_def utf8_length_def LOCAL_MESSAGE_LIMIT_def)
  then show ?thesis by (simp add: blank_def is_space_def)
qed

text \<open>
  When the network cuts the two bytes of a character apart, the
  broker's line has two replacement characters in its place, because every chunk is decoded by itself.
\<close>

theorem split_character_corrupted:
  "toString [34, 0xC3, 0xA9, 34] = [34, 233, 34]
   \<and> adapter_feed [[34, 0xC3, 0xA9, 34, 10]] fresh_reader = (fresh_reader, [[34, 233, 34]])
   \<and> adapter_feed [[34, 0xC3], [0xA9, 34, 10]] fresh_reader =
       (fresh_reader, [[34, REPLACEMENT, REPLACEMENT, 34]])"
  by (simp add: fresh_reader_def adapter_data_def toString_def utf8_step_def between_characters_def
      first_byte_def REPLACEMENT_def byteLength_def utf8_length_def LOCAL_MESSAGE_LIMIT_def newline_def
      blank_def is_space_def)

end
