(* ===== verification/Mcp_Client.thy ===== *)
theory Mcp_Client
  imports Messages Text_Lines Config
begin

text \<open>
  The adapter's reconnecting client of the broker, \<open>BrokerClient\<close> of \<open>src/mcp/broker-client.ts\<close>. Calls
  and sockets are numbers. An event (a socket event, a timer, a call of \<open>request\<close> or \<open>close\<close>) runs to
  its end; the continuations that its settled promises start are jobs, and they run before the next
  event, in any order. What the client does to the outside is the list of outputs. JSON text and
  \<open>randomUUID\<close> are arguments.
\<close>

subsection \<open>Errors\<close>

record client_error =
  er_code :: string
  er_message :: string
  er_retryable :: bool

definition client_error :: "string \<Rightarrow> string \<Rightarrow> client_error" where
  "client_error code message = \<lparr> er_code = code, er_message = message, er_retryable = True \<rparr>"

definition final_error :: "string \<Rightarrow> string \<Rightarrow> client_error" where
  "final_error code message = \<lparr> er_code = code, er_message = message, er_retryable = False \<rparr>"

text \<open>Every error of the client is a \<open>BrokerClientError\<close>, so the test reads its flag.\<close>

definition isRecoverableBrokerError :: "client_error \<Rightarrow> bool" where
  "isRecoverableBrokerError e = er_retryable e"

subsection \<open>Options\<close>

record client_options =
  co_sessionId :: string
  co_sessionLabel :: string
  co_endpoint :: string
  co_connectTimeoutMs :: int
  co_requestTimeoutMs :: int
  co_maxLineBytes :: nat
  co_parse :: "ustring \<Rightarrow> js option"
  co_uuid :: "nat \<Rightarrow> string"

definition DEFAULT_REQUEST_TIMEOUT_MS :: int where "DEFAULT_REQUEST_TIMEOUT_MS = 120000"
definition DEFAULT_CONNECT_TIMEOUT_MS :: int where "DEFAULT_CONNECT_TIMEOUT_MS = 10000"
definition DEFAULT_MAX_LINE_BYTES :: nat where "DEFAULT_MAX_LINE_BYTES = 64 * 1024 * 1024"
definition RECONNECT_INITIAL_MS :: int where "RECONNECT_INITIAL_MS = 250"
definition RECONNECT_MAX_MS :: int where "RECONNECT_MAX_MS = 5000"

text \<open>What the constructor is given, and the process it runs in.\<close>

record given_options =
  gi_pipePath :: "string option"
  gi_host :: "string option"
  gi_port :: "int option"
  gi_sessionId :: "string option"
  gi_sessionLabel :: "string option"
  gi_connectTimeoutMs :: "int option"
  gi_requestTimeoutMs :: "int option"
  gi_maxLineBytes :: "nat option"

definition numberEnvironment :: "string option \<Rightarrow> int option" where
  "numberEnvironment value =
     (case value of
        None \<Rightarrow> None
      | Some t \<Rightarrow>
          (case js_num_integer t of
             Some parsed \<Rightarrow> if parsed \<ge> 1 \<and> parsed \<le> 65535 then Some parsed else None
           | None \<Rightarrow> None))"

definition defaultSessionLabel :: "host_env \<Rightarrow> int \<Rightarrow> string" where
  "defaultSessionLabel h pid =
     (let base = posix_basename (he_cwd h); workspace = (if base = [] then ''workspace'' else base)
      in ''codex:'' @ workspace @ '':'' @ show_int pid)"

definition coalesce :: "'a option \<Rightarrow> 'a option \<Rightarrow> 'a option" where
  "coalesce a b = (case a of Some x \<Rightarrow> Some x | None \<Rightarrow> b)"

definition or_else :: "'a option \<Rightarrow> 'a \<Rightarrow> 'a" where
  "or_else a d = (case a of Some x \<Rightarrow> x | None \<Rightarrow> d)"

definition broker_endpoint :: "string option \<Rightarrow> int option \<Rightarrow> string \<Rightarrow> string" where
  "broker_endpoint host port pipePath =
     (case host of
        Some h \<Rightarrow> if h \<noteq> [] then h @ '':'' @ (case port of Some p \<Rightarrow> show_int p | None \<Rightarrow> ''undefined'') else pipePath
      | None \<Rightarrow> pipePath)"

definition client_constructor ::
    "host_env \<Rightarrow> int \<Rightarrow> string \<Rightarrow> (ustring \<Rightarrow> js option) \<Rightarrow> (nat \<Rightarrow> string) \<Rightarrow> given_options \<Rightarrow> client_options" where
  "client_constructor h pid newId parse uuid g =
     (let env = he_env h;
          pipePath = or_else (coalesce (gi_pipePath g) (env ''WIN98_MCP_PIPE'')) (defaultPipePath h DEFAULT_PORT);
          host = coalesce (gi_host g) (env ''WIN98_MCP_BROKER_HOST'');
          configuredPort = coalesce (gi_port g) (numberEnvironment (env ''WIN98_MCP_BROKER_PORT''));
          port = (if host \<noteq> None \<and> host \<noteq> Some [] then coalesce configuredPort (Some 9899) else None)
      in \<lparr> co_sessionId = or_else (coalesce (gi_sessionId g) (env ''WIN98_MCP_SESSION_ID'')) newId,
           co_sessionLabel = take 128 (or_else (coalesce (gi_sessionLabel g)
             (env ''WIN98_MCP_SESSION_LABEL'')) (defaultSessionLabel h pid)),
           co_endpoint = broker_endpoint host port pipePath,
           co_connectTimeoutMs = or_else (gi_connectTimeoutMs g) DEFAULT_CONNECT_TIMEOUT_MS,
           co_requestTimeoutMs = or_else (gi_requestTimeoutMs g) DEFAULT_REQUEST_TIMEOUT_MS,
           co_maxLineBytes = or_else (gi_maxLineBytes g) DEFAULT_MAX_LINE_BYTES,
           co_parse = parse, co_uuid = uuid \<rparr>)"

subsection \<open>State\<close>

text \<open>
  A socket: whether it was destroyed, can be written, has emitted \<open>close\<close>; whether \<open>attachSocket\<close> ran
  on it; for its connection attempt, whether the promise is settled, whether the attempt's own error
  and close handlers are installed, and when the attempt times out; and the decoder \<open>setEncoding\<close>
  installed.
\<close>

record client_socket =
  so_destroyed :: bool
  so_writable :: bool
  so_closed :: bool
  so_attached :: bool
  so_settled :: bool
  so_watched :: bool
  so_deadline :: int
  so_decoder :: utf8_state

record pending_call =
  pc_id :: string
  pc_task :: nat
  pc_method :: string
  pc_timeout :: int
  pc_deadline :: int

text \<open>A call of \<open>requestWithRecovery\<close>: \<open>tk_wake\<close> is the end of the pause it is in.\<close>

record client_task =
  tk_method :: string
  tk_params :: params
  tk_timeout :: int
  tk_deadline :: int
  tk_attempts :: int
  tk_lastError :: "client_error option"
  tk_wake :: "int option"

datatype waiter = Caller nat | Reconnector

text \<open>
  Jobs: the start of a call whose predecessor in the request chain settled, the settling of a
  connection attempt, the continuation of whoever waited for a socket or for a response, and the rest
  of \<open>close\<close> after its cleanup request.
\<close>

datatype job =
    StartCall nat
  | Attempted nat "client_error + nat"
  | Connected waiter "client_error + nat"
  | Answered nat "client_error + js"
  | FinishClose

datatype client_output =
    Accepted nat
  | Opened nat
  | Written nat js
  | Destroyed nat
  | Ended nat
  | Settled nat "client_error + js"
  | Refused client_error
  | Progressed js

record mcp_client =
  mc_closed :: bool
  mc_socket :: "nat option"
  mc_opening :: "nat option"
  mc_connectPromise :: "nat option"
  mc_receiveBuffer :: ustring
  mc_pending :: "pending_call list"
  mc_reconnecting :: bool
  mc_retry :: "int option"
  mc_delay :: int
  mc_readyCallback :: "nat option"
  mc_hasSentRequest :: bool
  mc_chain :: "nat list"
  mc_cleanups :: "nat list"
  mc_tasks :: "nat \<Rightarrow> client_task"
  mc_nextTask :: nat
  mc_sockets :: "nat \<Rightarrow> client_socket"
  mc_nextSocket :: nat
  mc_nextId :: nat
  mc_waiters :: "(nat \<times> waiter) list"
  mc_jobs :: "job list"

type_synonym client_result = "mcp_client \<times> client_output list"
type_synonym client_op = "mcp_client \<Rightarrow> client_result"

definition no_socket :: client_socket where
  "no_socket = \<lparr> so_destroyed = True, so_writable = False, so_closed = True, so_attached = False,
     so_settled = True, so_watched = False, so_deadline = 0, so_decoder = between_characters \<rparr>"

definition no_task :: client_task where
  "no_task = \<lparr> tk_method = [], tk_params = [], tk_timeout = 0, tk_deadline = 0, tk_attempts = 0,
     tk_lastError = None, tk_wake = None \<rparr>"

definition new_client :: mcp_client where
  "new_client = \<lparr> mc_closed = False, mc_socket = None, mc_opening = None, mc_connectPromise = None,
     mc_receiveBuffer = [], mc_pending = [], mc_reconnecting = False, mc_retry = None,
     mc_delay = RECONNECT_INITIAL_MS, mc_readyCallback = None, mc_hasSentRequest = False, mc_chain = [],
     mc_cleanups = [], mc_tasks = (\<lambda>_. no_task), mc_nextTask = 0, mc_sockets = (\<lambda>_. no_socket),
     mc_nextSocket = 0, mc_nextId = 0, mc_waiters = [], mc_jobs = [] \<rparr>"

text \<open>Running one operation after another, collecting the outputs.\<close>

definition andThen :: "client_op \<Rightarrow> client_op \<Rightarrow> client_op" where
  "andThen f g s = (case f s of (t, es) \<Rightarrow> (case g t of (u, fs) \<Rightarrow> (u, es @ fs)))"

definition quietly :: "(mcp_client \<Rightarrow> mcp_client) \<Rightarrow> client_op" where
  "quietly f s = (f s, [])"

definition add_jobs :: "job list \<Rightarrow> mcp_client \<Rightarrow> mcp_client" where
  "add_jobs js s = s\<lparr> mc_jobs := mc_jobs s @ js \<rparr>"

definition set_socket :: "nat \<Rightarrow> (client_socket \<Rightarrow> client_socket) \<Rightarrow> mcp_client \<Rightarrow> mcp_client" where
  "set_socket n f s = s\<lparr> mc_sockets := (mc_sockets s)(n := f (mc_sockets s n)) \<rparr>"

definition set_task :: "nat \<Rightarrow> (client_task \<Rightarrow> client_task) \<Rightarrow> mcp_client \<Rightarrow> mcp_client" where
  "set_task t f s = s\<lparr> mc_tasks := (mc_tasks s)(t := f (mc_tasks s t)) \<rparr>"

definition destroy_socket :: "nat \<Rightarrow> client_op" where
  "destroy_socket n s =
     (set_socket n (\<lambda>x. x\<lparr> so_destroyed := True, so_writable := False \<rparr>) s, [Destroyed n])"

definition destroy_optional :: "nat option \<Rightarrow> client_op" where
  "destroy_optional m = (case m of None \<Rightarrow> (\<lambda>s. (s, [])) | Some n \<Rightarrow> destroy_socket n)"

subsection \<open>Connections\<close>

text \<open>
  \<open>openSocket\<close>: its promise is \<open>mc_connectPromise\<close>; the caller of \<open>ensureConnected\<close> waits for it, as
  does everyone who asks while it is pending.
\<close>

definition openSocket :: "client_options \<Rightarrow> int \<Rightarrow> client_op" where
  "openSocket opts now s =
     (let n = mc_nextSocket s in
      (s\<lparr> mc_nextSocket := n + 1, mc_opening := Some n,
          mc_sockets := (mc_sockets s)(n := \<lparr> so_destroyed = False, so_writable = True, so_closed = False,
            so_attached = False, so_settled = False, so_watched = True,
            so_deadline = now + co_connectTimeoutMs opts, so_decoder = between_characters \<rparr>) \<rparr>,
       [Opened n]))"

definition await_attempt :: "nat \<Rightarrow> waiter \<Rightarrow> mcp_client \<Rightarrow> mcp_client" where
  "await_attempt n w s = s\<lparr> mc_waiters := mc_waiters s @ [(n, w)] \<rparr>"

definition usable_socket :: "mcp_client \<Rightarrow> nat option" where
  "usable_socket s =
     (case mc_socket s of
        Some n \<Rightarrow> if \<not> so_destroyed (mc_sockets s n) \<and> so_writable (mc_sockets s n) then Some n else None
      | None \<Rightarrow> None)"

definition ensureConnected :: "client_options \<Rightarrow> waiter \<Rightarrow> int \<Rightarrow> client_op" where
  "ensureConnected opts w now s =
     (case usable_socket s of
        Some n \<Rightarrow> (add_jobs [Connected w (Inr n)] s, [])
      | None \<Rightarrow>
          (case mc_connectPromise s of
             Some n \<Rightarrow> (await_attempt n w s, [])
           | None \<Rightarrow>
               let n = mc_nextSocket s; (s, es) = openSocket opts now s
               in (await_attempt n w (s\<lparr> mc_connectPromise := Some n \<rparr>), es)))"

definition clearOpeningSocket :: "nat \<Rightarrow> mcp_client \<Rightarrow> mcp_client" where
  "clearOpeningSocket n s = (if mc_opening s = Some n then s\<lparr> mc_opening := None \<rparr> else s)"

text \<open>An attempt fails: by its timer, or through \<open>failConnect\<close>.\<close>

definition reject_attempt :: "nat \<Rightarrow> client_error \<Rightarrow> client_op" where
  "reject_attempt n e s =
     (if so_settled (mc_sockets s n) then (s, [])
      else
        let s = clearOpeningSocket n (set_socket n (\<lambda>x. x\<lparr> so_settled := True \<rparr>) s);
            (s, es) = destroy_socket n s
        in (add_jobs [Attempted n (Inl e)] s, es))"

definition connect_timeout :: "client_options \<Rightarrow> nat \<Rightarrow> client_op" where
  "connect_timeout opts n =
     reject_attempt n (client_error ''BROKER_CONNECT_TIMEOUT''
       (''Timed out connecting to broker '' @ co_endpoint opts @ ''.''))"

definition failConnect :: "client_options \<Rightarrow> nat \<Rightarrow> string \<Rightarrow> client_op" where
  "failConnect opts n message =
     reject_attempt n (client_error ''BROKER_UNAVAILABLE''
       (''Could not connect to broker '' @ co_endpoint opts @ '': '' @ message))"

definition hello_line :: "client_options \<Rightarrow> js" where
  "hello_line opts = JObj [(''kind'', JStr ''broker_hello''), (''sessionId'', JStr (co_sessionId opts)),
     (''sessionLabel'', JStr (co_sessionLabel opts))]"

text \<open>The socket's \<open>connect\<close> event, with \<open>attachSocket\<close>.\<close>

definition socket_connected :: "client_options \<Rightarrow> nat \<Rightarrow> client_op" where
  "socket_connected opts n s =
     (if so_settled (mc_sockets s n) \<or> mc_closed s then destroy_socket n (clearOpeningSocket n s)
      else
        let s = set_socket n (\<lambda>x. x\<lparr> so_attached := True \<rparr>) s;
            s = clearOpeningSocket n (s\<lparr> mc_receiveBuffer := [], mc_socket := Some n \<rparr>)
        in (s\<lparr> mc_readyCallback := Some n \<rparr>, [Written n (hello_line opts)]))"

definition hello_failed :: "client_options \<Rightarrow> nat \<Rightarrow> string \<Rightarrow> client_op" where
  "hello_failed opts n message =
     andThen (destroy_socket n)
       (failConnect opts n (''Could not initialize broker session: '' @ message))"

text \<open>\<open>readyCallback\<close> of the socket it belongs to.\<close>

definition broker_is_ready :: "nat \<Rightarrow> client_op" where
  "broker_is_ready n s =
     (if mc_readyCallback s = Some n \<and> \<not> so_settled (mc_sockets s n) \<and> \<not> mc_closed s then
        let s = set_socket n (\<lambda>x. x\<lparr> so_settled := True, so_watched := False \<rparr>) s
        in (add_jobs [Attempted n (Inr n)] (s\<lparr> mc_readyCallback := None \<rparr>), [])
      else (s, []))"

text \<open>\<open>rejectPending\<close>, and \<open>reconnectForever\<close> from the test of its loop on.\<close>

definition rejectPending :: "client_error \<Rightarrow> mcp_client \<Rightarrow> mcp_client" where
  "rejectPending e s =
     add_jobs (map (\<lambda>p. Answered (pc_task p) (Inl e)) (mc_pending s)) s\<lparr> mc_pending := [] \<rparr>"

definition reconnect_loop :: "client_options \<Rightarrow> int \<Rightarrow> client_op" where
  "reconnect_loop opts now s =
     (if \<not> mc_closed s \<and> mc_socket s = None then ensureConnected opts Reconnector now s
      else (s\<lparr> mc_reconnecting := False \<rparr>, []))"

definition reconnectForever :: "client_options \<Rightarrow> int \<Rightarrow> client_op" where
  "reconnectForever opts now s =
     (if mc_reconnecting s then (s, [])
      else reconnect_loop opts now (s\<lparr> mc_reconnecting := True, mc_delay := RECONNECT_INITIAL_MS \<rparr>))"

definition handleDisconnect :: "client_options \<Rightarrow> int \<Rightarrow> nat \<Rightarrow> client_error \<Rightarrow> client_op" where
  "handleDisconnect opts now n e s =
     (if mc_socket s \<noteq> Some n then (s, [])
      else
        let s = rejectPending e (s\<lparr> mc_socket := None, mc_receiveBuffer := [] \<rparr>) in
        if mc_closed s then (s, []) else reconnectForever opts now s)"

text \<open>
  The \<open>error\<close> and \<open>close\<close> events of a socket that is destroyed by then. The connection attempt's own
  handlers were installed first, and \<open>readyCallback\<close> removes them; \<open>once\<close> makes each run only once,
  and a second run would find the attempt settled.
\<close>

definition socket_error :: "client_options \<Rightarrow> int \<Rightarrow> nat \<Rightarrow> string \<Rightarrow> client_op" where
  "socket_error opts now n message =
     andThen (quietly (set_socket n (\<lambda>x. x\<lparr> so_destroyed := True, so_writable := False \<rparr>)))
       (andThen
         (\<lambda>s. if so_watched (mc_sockets s n) then failConnect opts n message s else (s, []))
         (\<lambda>s. if so_attached (mc_sockets s n)
              then handleDisconnect opts now n
                     (client_error ''BROKER_CONNECTION_ERROR'' (''Broker connection failed: '' @ message)) s
              else (s, [])))"

definition socket_closed :: "client_options \<Rightarrow> int \<Rightarrow> nat \<Rightarrow> client_op" where
  "socket_closed opts now n =
     andThen (quietly (set_socket n (\<lambda>x. x\<lparr> so_destroyed := True, so_writable := False, so_closed := True \<rparr>)))
       (andThen
         (\<lambda>s. if so_watched (mc_sockets s n)
              then failConnect opts n ''The broker closed the connection before confirming the session.'' s
              else (s, []))
         (\<lambda>s. if so_attached (mc_sockets s n)
              then handleDisconnect opts now n
                     (client_error ''BROKER_DISCONNECTED''
                       ''The broker disconnected before completing the request.'') s
              else (s, [])))"

definition closeFromBroker :: "client_error \<Rightarrow> client_op" where
  "closeFromBroker e s =
     (if mc_closed s then (s, [])
      else
        let opening = mc_opening s; socket = mc_socket s;
            s = s\<lparr> mc_closed := True, mc_connectPromise := None, mc_readyCallback := None, mc_opening := None \<rparr>
        in andThen (destroy_optional opening)
             (andThen (quietly (\<lambda>s. rejectPending e (s\<lparr> mc_socket := None \<rparr>))) (destroy_optional socket)) s)"

subsection \<open>Messages of the broker\<close>

definition of_session :: "string \<Rightarrow> js \<Rightarrow> string \<Rightarrow> bool" where
  "of_session kind v sessionId \<longleftrightarrow> is_kind v kind \<and> member v ''sessionId'' = JStr sessionId"

definition isBrokerReady :: "js \<Rightarrow> string \<Rightarrow> bool" where
  "isBrokerReady = of_session ''broker_ready''"

definition isBrokerSessionClosed :: "js \<Rightarrow> string \<Rightarrow> bool" where
  "isBrokerSessionClosed = of_session ''broker_session_closed''"

definition isBrokerProgress :: "js \<Rightarrow> string \<Rightarrow> bool" where
  "isBrokerProgress = of_session ''broker_progress''"

definition isBrokerResponse :: "js \<Rightarrow> bool" where
  "isBrokerResponse v \<longleftrightarrow>
     is_kind v ''broker_response'' \<and> is_string (member v ''id'') \<and>
     is_boolean (member (member v ''result'') ''ok'') \<and>
     is_string (member (member v ''result'') ''code'') \<and>
     is_string (member (member v ''result'') ''message'')"

text \<open>One line, and \<open>destroy\<close> called with an error: the error comes back as the socket's \<open>error\<close> event.\<close>

definition handleLine :: "client_options \<Rightarrow> nat \<Rightarrow> ustring \<Rightarrow> client_op" where
  "handleLine opts n line s =
     (if mc_socket s \<noteq> Some n then (s, [])
      else
        case co_parse opts line of
          None \<Rightarrow> destroy_socket n s
        | Some v \<Rightarrow>
            if isBrokerSessionClosed v (co_sessionId opts) then
              closeFromBroker (final_error ''BROKER_SESSION_DISCONNECTED''
                ''This MCP/CLI session was disconnected by a broker administrator.'') s
            else if isBrokerReady v (co_sessionId opts) then broker_is_ready n s
            else if isBrokerProgress v (co_sessionId opts) then (s, [Progressed (member v ''progress'')])
            else if \<not> isBrokerResponse v then destroy_socket n s
            else
              case find (\<lambda>p. JStr (pc_id p) = member v ''id'') (mc_pending s) of
                None \<Rightarrow> (s, [])
              | Some p \<Rightarrow>
                  (add_jobs [Answered (pc_task p) (Inr v)]
                     (s\<lparr> mc_pending := filter (\<lambda>q. pc_id q \<noteq> pc_id p) (mc_pending s) \<rparr>), []))"

subsection \<open>Received text\<close>

text \<open>
  The loop of \<open>handleData\<close>: its body cuts the line before the first newline off the text. The rest of
  the text does not depend on how the lines are handled.
\<close>

definition next_line :: "ustring \<Rightarrow> (ustring \<times> ustring) option" where
  "next_line t =
     (if newline \<in> set t
      then Some (takeWhile (\<lambda>c. c \<noteq> newline) t, drop 1 (dropWhile (\<lambda>c. c \<noteq> newline) t))
      else None)"

lemma next_line_shrinks: "next_line t = Some (l, r) \<Longrightarrow> length r < length t"
proof -
  assume "next_line t = Some (l, r)"
  then have "newline \<in> set t" and r: "r = drop 1 (dropWhile (\<lambda>c. c \<noteq> newline) t)"
    by (auto simp: next_line_def split: if_splits)
  then have "dropWhile (\<lambda>c. c \<noteq> newline) t \<noteq> []" by (auto simp: dropWhile_eq_Nil_conv)
  then show "length r < length t"
    using r length_dropWhile_le [of "\<lambda>c. c \<noteq> newline" t] by (cases "dropWhile (\<lambda>c. c \<noteq> newline) t") auto
qed

function line_loop :: "ustring \<Rightarrow> ustring list \<Rightarrow> ustring list \<times> ustring" where
  "line_loop t lines =
     (case next_line t of None \<Rightarrow> (lines, t) | Some (l, r) \<Rightarrow> line_loop r (lines @ [l]))"
  by pat_completeness auto
termination
  by (relation "measure (\<lambda>(t, _). length t)") (auto dest: next_line_shrinks)

declare line_loop.simps [simp del]

definition trimEnd :: "ustring \<Rightarrow> ustring" where
  "trimEnd t = rev (dropWhile is_space (rev t))"

fun handle_lines :: "client_options \<Rightarrow> nat \<Rightarrow> ustring list \<Rightarrow> client_op" where
  "handle_lines opts n [] s = (s, [])"
| "handle_lines opts n (l # ls) s =
     andThen (if trimEnd l = [] then quietly id else handleLine opts n (trimEnd l)) (handle_lines opts n ls) s"

text \<open>The text handed to \<open>handleData\<close> is what the socket's decoder makes of the bytes that arrived.\<close>

definition handleData :: "client_options \<Rightarrow> nat \<Rightarrow> ustring \<Rightarrow> client_op" where
  "handleData opts n piece s =
     (if mc_socket s \<noteq> Some n then (s, [])
      else
        let buffer = mc_receiveBuffer s @ piece in
        if byteLength buffer > co_maxLineBytes opts
        then destroy_socket n (s\<lparr> mc_receiveBuffer := buffer \<rparr>)
        else
          case line_loop buffer [] of (lines, r) \<Rightarrow> handle_lines opts n lines (s\<lparr> mc_receiveBuffer := r \<rparr>))"

definition socket_data :: "client_options \<Rightarrow> nat \<Rightarrow> bytes \<Rightarrow> client_op" where
  "socket_data opts n bs s =
     (case utf8_run (so_decoder (mc_sockets s n)) bs of
        (u, piece) \<Rightarrow> handleData opts n piece (set_socket n (\<lambda>x. x\<lparr> so_decoder := u \<rparr>) s))"

text \<open>
  The broker closes its half: the decoder gives up on an unfinished character, and a socket that may
  not stay half open can no longer be written.
\<close>

definition socket_end :: "client_options \<Rightarrow> nat \<Rightarrow> client_op" where
  "socket_end opts n s =
     andThen (if us_need (so_decoder (mc_sockets s n)) = 0 then quietly id else handleData opts n [REPLACEMENT])
       (quietly (set_socket n (\<lambda>x. x\<lparr> so_writable := False, so_decoder := between_characters \<rparr>))) s"

subsection \<open>Calls\<close>

definition request_line :: "client_options \<Rightarrow> string \<Rightarrow> client_task \<Rightarrow> js" where
  "request_line opts uuid k = JObj [(''kind'', JStr ''broker_request''), (''id'', JStr uuid),
     (''sessionId'', JStr (co_sessionId opts)), (''sessionLabel'', JStr (co_sessionLabel opts)),
     (''method'', JStr (tk_method k)), (''params'', JObj (tk_params k))]"

text \<open>A call settles; the next one of the request chain may start, or \<open>close\<close> goes on.\<close>

definition settle_call :: "nat \<Rightarrow> client_error + js \<Rightarrow> client_op" where
  "settle_call t r s =
     (case mc_chain s of
        h # rest \<Rightarrow>
          if h = t
          then (add_jobs (case rest of [] \<Rightarrow> [] | u # _ \<Rightarrow> [StartCall u]) (s\<lparr> mc_chain := rest \<rparr>), [Settled t r])
          else (add_jobs [FinishClose] (s\<lparr> mc_cleanups := remove1 t (mc_cleanups s) \<rparr>), [Settled t r])
      | [] \<Rightarrow> (add_jobs [FinishClose] (s\<lparr> mc_cleanups := remove1 t (mc_cleanups s) \<rparr>), [Settled t r]))"

text \<open>The loop of \<open>requestWithRecovery\<close> from its test on.\<close>

definition recovery_loop :: "client_options \<Rightarrow> nat \<Rightarrow> int \<Rightarrow> client_op" where
  "recovery_loop opts t now s =
     (let k = mc_tasks s t in
      if \<not> mc_closed s \<and> now < tk_deadline k
      then ensureConnected opts (Caller t) now
             (set_task t (\<lambda>k. k\<lparr> tk_wake := None, tk_attempts := tk_attempts k + 1 \<rparr>) s)
      else settle_call t (Inl (client_error ''BROKER_RECONNECTING''
             (''Broker recovery did not complete while replaying '' @ tk_method k @ '': '' @
              (case tk_lastError k of None \<Rightarrow> ''connection unavailable'' | Some e \<Rightarrow> er_message e))))
             (set_task t (\<lambda>k. k\<lparr> tk_wake := None \<rparr>) s))"

definition start_task :: "client_options \<Rightarrow> nat \<Rightarrow> int \<Rightarrow> client_op" where
  "start_task opts t now s =
     recovery_loop opts t now (set_task t (\<lambda>k. k\<lparr> tk_deadline := now + tk_timeout k \<rparr>) s)"

text \<open>\<open>sendOnce\<close>. The response is awaited whatever becomes of the write.\<close>

definition sendOnce :: "client_options \<Rightarrow> nat \<Rightarrow> nat \<Rightarrow> int \<Rightarrow> client_op" where
  "sendOnce opts n t now s =
     (let k = mc_tasks s t; uuid = co_uuid opts (mc_nextId s); timeout = max 1 (tk_deadline k - now) in
      (s\<lparr> mc_nextId := mc_nextId s + 1, mc_hasSentRequest := True,
          mc_pending := mc_pending s @
            [\<lparr> pc_id = uuid, pc_task = t, pc_method = tk_method k, pc_timeout = timeout,
               pc_deadline = now + timeout \<rparr>] \<rparr>,
       [Written n (request_line opts uuid k)]))"

definition backoff :: "int \<Rightarrow> int" where
  "backoff attempts = min RECONNECT_MAX_MS (RECONNECT_INITIAL_MS * min attempts 20)"

text \<open>The \<open>catch\<close> of the loop.\<close>

definition attempt_failed :: "nat \<Rightarrow> client_error \<Rightarrow> int \<Rightarrow> client_op" where
  "attempt_failed t e now s =
     (let s = set_task t (\<lambda>k. k\<lparr> tk_lastError := Some e \<rparr>) s in
      if mc_closed s \<or> \<not> isRecoverableBrokerError e then settle_call t (Inl e) s
      else (set_task t (\<lambda>k. k\<lparr> tk_wake := Some (now + backoff (tk_attempts k)) \<rparr>) s, []))"

text \<open>\<open>response.result.recovery = ...\<close> on the parsed response.\<close>

definition add_recovery :: "int \<Rightarrow> js \<Rightarrow> js" where
  "add_recovery attempts v =
     (case v of
        JObj r \<Rightarrow>
          (case jsget r ''result'' of
             JObj res \<Rightarrow>
               JObj (jsput ''result''
                 (JObj (jsput ''recovery''
                    (JObj [(''replayed'', JBool True), (''attempts'', js_of_int attempts)]) res)) r)
           | _ \<Rightarrow> v)
      | _ \<Rightarrow> v)"

definition answered :: "nat \<Rightarrow> client_error + js \<Rightarrow> int \<Rightarrow> client_op" where
  "answered t r now s =
     (case r of
        Inl e \<Rightarrow> attempt_failed t e now s
      | Inr v \<Rightarrow> settle_call t (Inr (if tk_attempts (mc_tasks s t) > 1
                                    then add_recovery (tk_attempts (mc_tasks s t)) v else v)) s)"

definition connected :: "client_options \<Rightarrow> waiter \<Rightarrow> client_error + nat \<Rightarrow> int \<Rightarrow> client_op" where
  "connected opts w r now s =
     (case w of
        Caller t \<Rightarrow> (case r of Inl e \<Rightarrow> attempt_failed t e now s | Inr n \<Rightarrow> sendOnce opts n t now s)
      | Reconnector \<Rightarrow>
          (case r of
             Inl _ \<Rightarrow> (s\<lparr> mc_retry := Some (now + mc_delay s) \<rparr>, [])
           | Inr _ \<Rightarrow> (s\<lparr> mc_reconnecting := False \<rparr>, [])))"

text \<open>After the pause of \<open>reconnectForever\<close>.\<close>

definition retry_due :: "client_options \<Rightarrow> int \<Rightarrow> client_op" where
  "retry_due opts now s =
     reconnect_loop opts now (s\<lparr> mc_retry := None, mc_delay := min RECONNECT_MAX_MS (mc_delay s * 2) \<rparr>)"

text \<open>The timer of a request, and the callback of its \<open>write\<close>.\<close>

definition reject_call :: "(pending_call \<Rightarrow> client_error) \<Rightarrow> string \<Rightarrow> mcp_client \<Rightarrow> mcp_client" where
  "reject_call e uuid s =
     (case find (\<lambda>p. pc_id p = uuid) (mc_pending s) of
        None \<Rightarrow> s
      | Some p \<Rightarrow> add_jobs [Answered (pc_task p) (Inl (e p))]
          (s\<lparr> mc_pending := filter (\<lambda>q. pc_id q \<noteq> uuid) (mc_pending s) \<rparr>))"

definition request_timer :: "string \<Rightarrow> mcp_client \<Rightarrow> mcp_client" where
  "request_timer = reject_call (\<lambda>p. final_error ''BROKER_REQUEST_TIMEOUT''
     (''Broker request '' @ pc_method p @ '' timed out after '' @ show_int (pc_timeout p) @ '' ms.''))"

definition write_failed :: "string \<Rightarrow> string \<Rightarrow> mcp_client \<Rightarrow> mcp_client" where
  "write_failed uuid message = reject_call (\<lambda>p. client_error ''BROKER_WRITE_FAILED''
     (''Could not send '' @ pc_method p @ '' to the broker: '' @ message)) uuid"

subsection \<open>The client's methods\<close>

definition new_task :: "string \<Rightarrow> params \<Rightarrow> int \<Rightarrow> client_task" where
  "new_task meth params timeout = no_task\<lparr> tk_method := meth, tk_params := params, tk_timeout := timeout \<rparr>"

definition request :: "client_options \<Rightarrow> string \<Rightarrow> params \<Rightarrow> int option \<Rightarrow> client_op" where
  "request opts meth params timeout s =
     (if mc_closed s
      then (s, [Refused (final_error ''BROKER_CLIENT_CLOSED'' ''The MCP broker client is closed.'')])
      else
        let t = mc_nextTask s;
            k = new_task meth params (case timeout of Some ms \<Rightarrow> ms | None \<Rightarrow> co_requestTimeoutMs opts)
        in (add_jobs (if mc_chain s = [] then [StartCall t] else [])
              (s\<lparr> mc_nextTask := t + 1, mc_tasks := (mc_tasks s)(t := k), mc_chain := mc_chain s @ [t] \<rparr>), [Accepted t]))"

text \<open>\<open>close\<close> after its cleanup.\<close>

definition end_socket :: "nat option \<Rightarrow> client_op" where
  "end_socket m s =
     (case m of
        None \<Rightarrow> (s, [])
      | Some n \<Rightarrow>
          if so_destroyed (mc_sockets s n) then (s, [])
          else (set_socket n (\<lambda>x. x\<lparr> so_writable := False \<rparr>) s, [Ended n]))"

definition close_now :: "client_op" where
  "close_now s =
     (let opening = mc_opening s; socket = mc_socket s;
          s = s\<lparr> mc_closed := True, mc_connectPromise := None, mc_opening := None \<rparr>
      in andThen (destroy_optional opening)
           (andThen
             (quietly (\<lambda>s. rejectPending (final_error ''BROKER_CLIENT_CLOSED''
                               ''The MCP adapter disconnected from the broker.'')
                           (s\<lparr> mc_socket := None, mc_readyCallback := None \<rparr>)))
             (end_socket socket)) s)"

definition close_client :: "client_options \<Rightarrow> bool \<Rightarrow> int \<Rightarrow> client_op" where
  "close_client opts cleanup now s =
     (if mc_closed s then (s, [])
      else if cleanup \<and> mc_hasSentRequest s then
        let t = mc_nextTask s; k = new_task ''vm_unlock'' [(''force'', JBool True)] 5000
        in start_task opts t now
             (s\<lparr> mc_nextTask := t + 1, mc_tasks := (mc_tasks s)(t := k), mc_cleanups := mc_cleanups s @ [t] \<rparr>)
      else close_now s)"

subsection \<open>Steps\<close>

definition run_job :: "client_options \<Rightarrow> int \<Rightarrow> job \<Rightarrow> client_op" where
  "run_job opts now j =
     (case j of
        StartCall t \<Rightarrow> start_task opts t now
      | Attempted n r \<Rightarrow>
          quietly (\<lambda>s. add_jobs (map (\<lambda>(m, w). Connected w r) (filter (\<lambda>(m, w). m = n) (mc_waiters s)))
            (s\<lparr> mc_connectPromise := None, mc_waiters := filter (\<lambda>(m, w). m \<noteq> n) (mc_waiters s) \<rparr>))
      | Connected w r \<Rightarrow> connected opts w r now
      | Answered t r \<Rightarrow> answered t r now
      | FinishClose \<Rightarrow> close_now)"

datatype client_event =
    CallRequest string params "int option"
  | CallClose bool
  | SocketConnect nat
  | SocketData nat bytes
  | SocketEnd nat
  | SocketError nat string
  | SocketClose nat
  | HelloWriteError nat string
  | ConnectTimer nat
  | RequestTimer string
  | WriteError string string
  | TaskTimer nat
  | RetryTimer
  | EndTimer nat

definition is_due :: "int \<Rightarrow> int option \<Rightarrow> bool" where
  "is_due now d = (case d of None \<Rightarrow> False | Some t \<Rightarrow> t \<le> now)"

text \<open>When an event can happen: a socket is silent after its \<open>close\<close>, a timer fires at its time or later.\<close>

definition enabled :: "int \<Rightarrow> client_event \<Rightarrow> mcp_client \<Rightarrow> bool" where
  "enabled now ev s =
     (case ev of
        CallRequest m p t \<Rightarrow> True
      | CallClose c \<Rightarrow> True
      | SocketConnect n \<Rightarrow> n < mc_nextSocket s \<and> \<not> so_destroyed (mc_sockets s n) \<and> \<not> so_attached (mc_sockets s n)
      | SocketData n bs \<Rightarrow> so_attached (mc_sockets s n) \<and> \<not> so_closed (mc_sockets s n)
      | SocketEnd n \<Rightarrow> so_attached (mc_sockets s n) \<and> \<not> so_closed (mc_sockets s n)
      | SocketError n msg \<Rightarrow> n < mc_nextSocket s \<and> \<not> so_closed (mc_sockets s n)
      | SocketClose n \<Rightarrow> n < mc_nextSocket s \<and> \<not> so_closed (mc_sockets s n)
      | HelloWriteError n msg \<Rightarrow> so_attached (mc_sockets s n) \<and> \<not> so_closed (mc_sockets s n)
      | ConnectTimer n \<Rightarrow> n < mc_nextSocket s \<and> so_deadline (mc_sockets s n) \<le> now
      | RequestTimer uuid \<Rightarrow> list_ex (\<lambda>p. pc_id p = uuid \<and> pc_deadline p \<le> now) (mc_pending s)
      | WriteError uuid msg \<Rightarrow> True
      | TaskTimer t \<Rightarrow> is_due now (tk_wake (mc_tasks s t))
      | RetryTimer \<Rightarrow> is_due now (mc_retry s)
      | EndTimer n \<Rightarrow> mc_closed s \<and> n < mc_nextSocket s)"

definition client_event :: "client_options \<Rightarrow> int \<Rightarrow> client_event \<Rightarrow> client_op" where
  "client_event opts now ev =
     (case ev of
        CallRequest m p t \<Rightarrow> request opts m p t
      | CallClose c \<Rightarrow> close_client opts c now
      | SocketConnect n \<Rightarrow> socket_connected opts n
      | SocketData n bs \<Rightarrow> socket_data opts n bs
      | SocketEnd n \<Rightarrow> socket_end opts n
      | SocketError n msg \<Rightarrow> socket_error opts now n msg
      | SocketClose n \<Rightarrow> socket_closed opts now n
      | HelloWriteError n msg \<Rightarrow> hello_failed opts n msg
      | ConnectTimer n \<Rightarrow> connect_timeout opts n
      | RequestTimer uuid \<Rightarrow> quietly (request_timer uuid)
      | WriteError uuid msg \<Rightarrow> quietly (write_failed uuid msg)
      | TaskTimer t \<Rightarrow> recovery_loop opts t now
      | RetryTimer \<Rightarrow> retry_due opts now
      | EndTimer n \<Rightarrow> destroy_socket n)"

text \<open>A step runs one of the jobs, or, when there is none, handles an event. A run keeps all its outputs.\<close>

definition take_job :: "nat \<Rightarrow> mcp_client \<Rightarrow> mcp_client" where
  "take_job i s = s\<lparr> mc_jobs := take i (mc_jobs s) @ drop (Suc i) (mc_jobs s) \<rparr>"

inductive client_step :: "client_options \<Rightarrow> mcp_client \<Rightarrow> client_output list \<Rightarrow> mcp_client \<Rightarrow> bool" for opts where
  job_step: "i < length (mc_jobs s) \<Longrightarrow> run_job opts now (mc_jobs s ! i) (take_job i s) = (t, es) \<Longrightarrow>
    client_step opts s es t"
| event_step: "mc_jobs s = [] \<Longrightarrow> enabled now ev s \<Longrightarrow> client_event opts now ev s = (t, es) \<Longrightarrow>
    client_step opts s es t"

inductive client_run :: "client_options \<Rightarrow> mcp_client \<Rightarrow> client_output list \<Rightarrow> bool" for opts where
  client_start: "client_run opts new_client []"
| client_next: "client_run opts s es \<Longrightarrow> client_step opts s fs t \<Longrightarrow> client_run opts t (es @ fs)"

end
