(* ===== verification/Mcp_Client_Props.thy ===== *)
theory Mcp_Client_Props
  imports Mcp_Client
begin

text \<open>
  Bookkeeping of the reconnecting client: every call that was begun waits for exactly one thing, and
  so does the reconnecting loop; calls settle in the order they were made; a request is sent again
  only after the loss of a connection.
\<close>

lemma add_jobs_fields [simp]:
  "mc_closed (add_jobs js s) = mc_closed s"
  "mc_socket (add_jobs js s) = mc_socket s"
  "mc_opening (add_jobs js s) = mc_opening s"
  "mc_connectPromise (add_jobs js s) = mc_connectPromise s"
  "mc_receiveBuffer (add_jobs js s) = mc_receiveBuffer s"
  "mc_pending (add_jobs js s) = mc_pending s"
  "mc_reconnecting (add_jobs js s) = mc_reconnecting s"
  "mc_retry (add_jobs js s) = mc_retry s"
  "mc_delay (add_jobs js s) = mc_delay s"
  "mc_readyCallback (add_jobs js s) = mc_readyCallback s"
  "mc_hasSentRequest (add_jobs js s) = mc_hasSentRequest s"
  "mc_chain (add_jobs js s) = mc_chain s"
  "mc_cleanups (add_jobs js s) = mc_cleanups s"
  "mc_tasks (add_jobs js s) = mc_tasks s"
  "mc_nextTask (add_jobs js s) = mc_nextTask s"
  "mc_sockets (add_jobs js s) = mc_sockets s"
  "mc_nextSocket (add_jobs js s) = mc_nextSocket s"
  "mc_nextId (add_jobs js s) = mc_nextId s"
  "mc_waiters (add_jobs js s) = mc_waiters s"
  "mc_jobs (add_jobs js s) = mc_jobs s @ js"
  by (simp_all add: add_jobs_def)

subsection \<open>What a coroutine waits for\<close>

definition waits_in_job :: "waiter \<Rightarrow> job \<Rightarrow> bool" where
  "waits_in_job w j \<longleftrightarrow>
     (case j of
        StartCall t \<Rightarrow> w = Caller t
      | Attempted n r \<Rightarrow> False
      | Connected v r \<Rightarrow> w = v
      | Answered t r \<Rightarrow> w = Caller t
      | FinishClose \<Rightarrow> False)"

definition own_wait :: "waiter \<Rightarrow> mcp_client \<Rightarrow> nat" where
  "own_wait w s =
     (case w of
        Caller t \<Rightarrow> length (filter (\<lambda>p. pc_task p = t) (mc_pending s)) + of_bool (tk_wake (mc_tasks s t) \<noteq> None)
      | Reconnector \<Rightarrow> of_bool (mc_retry s \<noteq> None))"

definition waits :: "waiter \<Rightarrow> mcp_client \<Rightarrow> nat" where
  "waits w s =
     length (filter (waits_in_job w) (mc_jobs s)) + length (filter (\<lambda>(n, v). v = w) (mc_waiters s)) + own_wait w s"

definition begun :: "waiter \<Rightarrow> mcp_client \<Rightarrow> bool" where
  "begun w s =
     (case w of
        Caller t \<Rightarrow> t \<in> set (take 1 (mc_chain s)) \<union> set (mc_cleanups s)
      | Reconnector \<Rightarrow> mc_reconnecting s)"

text \<open>Everyone begun waits for one thing, but for those that are running.\<close>

definition accounted :: "waiter set \<Rightarrow> mcp_client \<Rightarrow> bool" where
  "accounted running s \<longleftrightarrow> (\<forall>w. waits w s + of_bool (w \<in> running) = of_bool (begun w s))"

definition calls_ok :: "client_options \<Rightarrow> mcp_client \<Rightarrow> bool" where
  "calls_ok opts s \<longleftrightarrow>
     distinct (mc_chain s @ mc_cleanups s) \<and> (\<forall>t \<in> set (mc_chain s @ mc_cleanups s). t < mc_nextTask s) \<and>
     distinct (map pc_id (mc_pending s)) \<and> (\<forall>p \<in> set (mc_pending s). \<exists>k < mc_nextId s. pc_id p = co_uuid opts k)"

definition steady :: "client_options \<Rightarrow> waiter set \<Rightarrow> mcp_client \<Rightarrow> bool" where
  "steady opts running s \<longleftrightarrow> calls_ok opts s \<and> accounted running s"

text \<open>The parts of the state that none of the operations on sockets touches.\<close>

definition same_book :: "mcp_client \<Rightarrow> mcp_client \<Rightarrow> bool" where
  "same_book s t \<longleftrightarrow>
     mc_chain t = mc_chain s \<and> mc_cleanups t = mc_cleanups s \<and> mc_nextTask t = mc_nextTask s \<and>
     mc_nextId t = mc_nextId s \<and> mc_pending t = mc_pending s \<and> mc_tasks t = mc_tasks s \<and>
     mc_reconnecting t = mc_reconnecting s \<and> mc_retry t = mc_retry s \<and> mc_waiters t = mc_waiters s \<and>
     (\<forall>w. filter (waits_in_job w) (mc_jobs t) = filter (waits_in_job w) (mc_jobs s))"

lemma same_book_refl [simp]: "same_book s s"
  by (simp add: same_book_def)

lemma same_book_trans [trans]: "same_book s t \<Longrightarrow> same_book t u \<Longrightarrow> same_book s u"
  by (simp add: same_book_def)

lemma same_book_waits: "same_book s t \<Longrightarrow> waits w t = waits w s"
  by (cases w) (simp_all add: waits_def own_wait_def same_book_def)

lemma same_book_begun: "same_book s t \<Longrightarrow> begun w t = begun w s"
  by (cases w) (simp_all add: begun_def same_book_def)

lemma steady_same_book: "steady opts R s \<Longrightarrow> same_book s t \<Longrightarrow> steady opts R t"
  by (simp add: steady_def accounted_def same_book_waits same_book_begun) (simp add: calls_ok_def same_book_def)

text \<open>Operations that leave the books alone.\<close>

lemma fst_andThen: "fst (andThen f g s) = fst (g (fst (f s)))"
  by (simp add: andThen_def case_prod_unfold)

lemma fst_quietly [simp]: "fst (quietly f s) = f s"
  by (simp add: quietly_def)

lemma same_book_set_socket [simp]: "same_book s (set_socket n f s)"
  by (simp add: same_book_def set_socket_def)

lemma same_book_destroy [simp]: "same_book s (fst (destroy_socket n s))"
  by (simp add: destroy_socket_def)

lemma same_book_destroy_optional [simp]: "same_book s (fst (destroy_optional m s))"
  by (simp add: destroy_optional_def split: option.split)

lemma same_book_clear [simp]: "same_book s (clearOpeningSocket n s)"
  by (simp add: clearOpeningSocket_def same_book_def)

lemma same_book_reject_attempt [simp]: "same_book s (fst (reject_attempt n e s))"
proof -
  let ?s = "clearOpeningSocket n (set_socket n (\<lambda>x. x\<lparr> so_settled := True \<rparr>) s)"
  have "same_book s ?s" by (rule same_book_trans [OF same_book_set_socket same_book_clear])
  also have "same_book ?s (fst (destroy_socket n ?s))" by simp
  also have "same_book (fst (destroy_socket n ?s)) (add_jobs [Attempted n (Inl e)] (fst (destroy_socket n ?s)))"
    by (simp add: same_book_def add_jobs_def waits_in_job_def)
  finally show ?thesis by (simp add: reject_attempt_def Let_def case_prod_unfold)
qed

lemma same_book_failConnect [simp]: "same_book s (fst (failConnect opts n e s))"
  by (simp add: failConnect_def)

lemma same_book_ready [simp]: "same_book s (fst (broker_is_ready n s))"
  by (simp add: broker_is_ready_def same_book_def add_jobs_def waits_in_job_def set_socket_def Let_def)

lemma same_book_connected [simp]: "same_book s (fst (socket_connected opts n s))"
proof -
  have "same_book s (fst (destroy_socket n (clearOpeningSocket n s)))"
    by (rule same_book_trans [OF same_book_clear same_book_destroy])
  then show ?thesis
    by (simp add: socket_connected_def Let_def)
      (simp add: same_book_def set_socket_def clearOpeningSocket_def)
qed

lemma same_book_hello_failed [simp]: "same_book s (fst (hello_failed opts n e s))"
  by (simp add: hello_failed_def fst_andThen)
    (rule same_book_trans [OF same_book_destroy same_book_failConnect])

lemma same_book_end_socket [simp]: "same_book s (fst (end_socket m s))"
  by (simp add: end_socket_def split: option.split)

subsection \<open>Coroutines begin and end their waiting\<close>

definition same_calls :: "mcp_client \<Rightarrow> mcp_client \<Rightarrow> bool" where
  "same_calls s t \<longleftrightarrow>
     mc_chain t = mc_chain s \<and> mc_cleanups t = mc_cleanups s \<and> mc_nextTask t = mc_nextTask s \<and>
     mc_nextId t = mc_nextId s \<and> mc_reconnecting t = mc_reconnecting s \<and>
     set (mc_pending t) \<subseteq> set (mc_pending s) \<and>
     (distinct (map pc_id (mc_pending s)) \<longrightarrow> distinct (map pc_id (mc_pending t)))"

lemma same_calls_ok: "same_calls s t \<Longrightarrow> calls_ok opts s \<Longrightarrow> calls_ok opts t"
  unfolding calls_ok_def same_calls_def by auto

lemma same_calls_begun: "same_calls s t \<Longrightarrow> begun w t = begun w s"
  by (cases w) (simp_all add: begun_def same_calls_def)

lemma steadyD: "steady opts R s \<Longrightarrow> waits w s + (if w \<in> R then 1 else 0) = (if begun w s then 1 else 0)"
  by (auto simp: steady_def accounted_def of_bool_def)

lemma steadyI:
  "calls_ok opts s \<Longrightarrow> (\<And>w. waits w s + (if w \<in> R then 1 else 0) = (if begun w s then 1 else 0)) \<Longrightarrow> steady opts R s"
  by (simp add: steady_def accounted_def of_bool_def)

lemma steady_calls: "steady opts R s \<Longrightarrow> calls_ok opts s"
  by (simp add: steady_def)

lemma steady_pay:
  assumes "steady opts (insert w R) s" "w \<notin> R" "same_calls s t"
    and "\<And>v. waits v t = waits v s + of_bool (v = w)"
  shows "steady opts R t"
proof (rule steadyI)
  show "calls_ok opts t" using assms(1,3) by (blast intro: same_calls_ok steady_calls)
  show "waits v t + (if v \<in> R then 1 else 0) = (if begun v t then 1 else 0)" for v
    using steadyD [OF assms(1), of v] assms(2) assms(4) [of v]
    by (cases "v = w") (simp_all add: same_calls_begun [OF assms(3)])
qed

lemma steady_keep:
  assumes "steady opts R s" "same_calls s t" "\<And>v. waits v t = waits v s"
  shows "steady opts R t"
  using assms same_calls_ok [OF assms(2)] by (simp add: steady_def accounted_def same_calls_begun [OF assms(2)])

lemma waits_add_jobs [simp]:
  "waits w (add_jobs js s) = waits w s + length (filter (waits_in_job w) js)"
  by (cases w) (simp_all add: waits_def own_wait_def add_jobs_def)

lemma waits_await [simp]: "waits v (await_attempt n w s) = waits v s + of_bool (v = w)"
  by (cases v) (simp_all add: waits_def own_wait_def await_attempt_def)

lemma same_calls_simps [simp]:
  "same_calls s (add_jobs js t) \<longleftrightarrow> same_calls s t"
  "same_calls s (await_attempt n w t) \<longleftrightarrow> same_calls s t"
  "same_calls s s"
  by (simp_all add: same_calls_def add_jobs_def await_attempt_def)

lemma waits_in_job_simps [simp]:
  "waits_in_job w (StartCall t) \<longleftrightarrow> w = Caller t"
  "\<not> waits_in_job w (Attempted n r)"
  "waits_in_job w (Connected v x) \<longleftrightarrow> w = v"
  "waits_in_job w (Answered t y) \<longleftrightarrow> w = Caller t"
  "\<not> waits_in_job w FinishClose"
  by (simp_all add: waits_in_job_def)

lemma openSocket_book: "same_book s ((fst (openSocket opts now s))\<lparr> mc_connectPromise := p \<rparr>)"
  by (simp add: openSocket_def same_book_def Let_def)

lemma same_book_calls: "same_book s t \<Longrightarrow> same_calls s t"
  by (simp add: same_book_def same_calls_def)

lemma steady_ensureConnected:
  assumes "steady opts (insert w R) s" "w \<notin> R"
  shows "steady opts R (fst (ensureConnected opts w now s))"
proof (cases "usable_socket s")
  case (Some n)
  have "steady opts R (add_jobs [Connected w (Inr n)] s)"
    by (rule steady_pay [OF assms]) simp_all
  then show ?thesis using Some by (simp add: ensureConnected_def)
next
  case None
  show ?thesis
  proof (cases "mc_connectPromise s")
    case (Some n)
    have "steady opts R (await_attempt n w s)" by (rule steady_pay [OF assms]) simp_all
    then show ?thesis using None Some by (simp add: ensureConnected_def)
  next
    case n: None
    let ?t = "(fst (openSocket opts now s))\<lparr> mc_connectPromise := Some (mc_nextSocket s) \<rparr>"
    have "steady opts (insert w R) ?t" using assms(1) openSocket_book by (rule steady_same_book)
    then have "steady opts R (await_attempt (mc_nextSocket s) w ?t)"
      by (rule steady_pay [OF _ assms(2)]) simp_all
    then show ?thesis using None n by (simp add: ensureConnected_def case_prod_unfold Let_def)
  qed
qed

lemma waits_reconnecting [simp]: "waits w (s\<lparr> mc_reconnecting := b \<rparr>) = waits w s"
  by (cases w) (simp_all add: waits_def own_wait_def)

lemma waits_delay [simp]: "waits w (s\<lparr> mc_delay := d \<rparr>) = waits w s"
  by (cases w) (simp_all add: waits_def own_wait_def)

lemma begun_reconnecting [simp]:
  "begun w (s\<lparr> mc_reconnecting := b \<rparr>) = (case w of Caller t \<Rightarrow> begun w s | Reconnector \<Rightarrow> b)"
  by (cases w) (simp_all add: begun_def)

lemma steady_reconnected:
  assumes "steady opts (insert Reconnector R) s" "Reconnector \<notin> R"
  shows "steady opts R (s\<lparr> mc_reconnecting := False \<rparr>)"
proof (rule steadyI)
  show "calls_ok opts (s\<lparr> mc_reconnecting := False \<rparr>)" using assms(1) by (simp add: steady_def calls_ok_def)
  show "waits v (s\<lparr> mc_reconnecting := False \<rparr>) + (if v \<in> R then 1 else 0) =
      (if begun v (s\<lparr> mc_reconnecting := False \<rparr>) then 1 else 0)" for v
    using steadyD [OF assms(1), of v] assms(2) by (cases v) (auto split: if_splits)
qed

lemma steady_reconnect_loop:
  assumes "steady opts (insert Reconnector R) s" "Reconnector \<notin> R"
  shows "steady opts R (fst (reconnect_loop opts now s))"
  using steady_ensureConnected [OF assms] steady_reconnected [OF assms] by (simp add: reconnect_loop_def)

lemma steady_reconnectForever:
  assumes "steady opts R s"
  shows "steady opts R (fst (reconnectForever opts now s))"
proof (cases "mc_reconnecting s")
  case False
  let ?t = "s\<lparr> mc_reconnecting := True, mc_delay := RECONNECT_INITIAL_MS \<rparr>"
  have acc: "waits v s + of_bool (v \<in> R) = of_bool (begun v s)" for v
    using assms by (simp add: steady_def accounted_def)
  have none: "waits Reconnector s = 0" "Reconnector \<notin> R"
    using acc [of Reconnector] False by (simp_all add: begun_def)
  have "waits v ?t + of_bool (v \<in> insert Reconnector R) = of_bool (begun v ?t)" for v
    using acc [of v] none by (cases v) (simp_all add: begun_def)
  then have "steady opts (insert Reconnector R) ?t"
    using assms by (simp add: steady_def accounted_def calls_ok_def)
  then show ?thesis using False none(2) steady_reconnect_loop by (simp add: reconnectForever_def)
qed (use assms in \<open>simp add: reconnectForever_def\<close>)

lemma answers_wait:
  "length (filter (waits_in_job w \<circ> (\<lambda>p. Answered (pc_task p) r)) ps) =
     (case w of Caller t \<Rightarrow> length (filter (\<lambda>p. pc_task p = t) ps) | Reconnector \<Rightarrow> 0)"
  by (induction ps) (auto split: waiter.split)

lemma steady_rejectPending: "steady opts R s \<Longrightarrow> steady opts R (rejectPending e s)"
proof (rule steady_keep)
  show "waits w (rejectPending e s) = waits w s" for w
    by (cases w) (simp_all add: waits_def own_wait_def rejectPending_def add_jobs_def answers_wait)
qed (simp_all add: same_calls_def rejectPending_def add_jobs_def)

lemma remove_pending:
  assumes "distinct (map pc_id ps)" "p \<in> set ps"
  shows "length (filter (\<lambda>q. pc_task q = t) (filter (\<lambda>q. pc_id q \<noteq> pc_id p) ps)) + of_bool (pc_task p = t) =
           length (filter (\<lambda>q. pc_task q = t) ps)"
  using assms
proof (induction ps)
  case (Cons q ps)
  show ?case
  proof (cases "p = q")
    case True
    have "filter (\<lambda>q. pc_id q \<noteq> pc_id p) ps = ps"
      using Cons.prems(1) unfolding True by (intro filter_True ballI) (metis distinct.simps(2) image_eqI list.simps(9) list.set_map)
    then show ?thesis using True by simp
  next
    case False
    then have "p \<in> set ps" using Cons.prems by simp
    then have "pc_id q \<noteq> pc_id p" using Cons.prems(1) by auto
    with Cons \<open>p \<in> set ps\<close> show ?thesis by simp
  qed
qed simp

lemma steady_answer:
  assumes "steady opts R s" "p \<in> set (mc_pending s)"
  shows "steady opts R (add_jobs [Answered (pc_task p) r]
           (s\<lparr> mc_pending := filter (\<lambda>q. pc_id q \<noteq> pc_id p) (mc_pending s) \<rparr>))"
proof (rule steady_keep [OF assms(1)])
  have "distinct (map pc_id (mc_pending s))" using assms(1) by (simp add: steady_def calls_ok_def)
  note drop = remove_pending [OF this assms(2)]
  have less: "waits w (s\<lparr> mc_pending := filter (\<lambda>q. pc_id q \<noteq> pc_id p) (mc_pending s) \<rparr>) +
      of_bool (w = Caller (pc_task p)) = waits w s" for w
    using drop by (cases w) (auto simp: waits_def own_wait_def simp flip: drop)
  then show "waits w (add_jobs [Answered (pc_task p) r]
           (s\<lparr> mc_pending := filter (\<lambda>q. pc_id q \<noteq> pc_id p) (mc_pending s) \<rparr>)) = waits w s" for w
    using less [of w] by (cases "w = Caller (pc_task p)") simp_all
qed (simp add: same_calls_def add_jobs_def distinct_map_filter)

lemma find_pending: "find P ps = Some p \<Longrightarrow> p \<in> set ps \<and> P p"
  by (rule find_SomeD)

lemma steady_reject_call: "steady opts R s \<Longrightarrow> steady opts R (reject_call e uuid s)"
  by (auto simp: reject_call_def dest: find_pending intro: steady_answer split: option.split)

lemma steady_handleDisconnect:
  assumes "steady opts R s"
  shows "steady opts R (fst (handleDisconnect opts now n e s))"
proof -
  have "steady opts R (s\<lparr> mc_socket := None, mc_receiveBuffer := [] \<rparr>)"
    using assms by (rule steady_same_book) (simp add: same_book_def)
  then show ?thesis
    using assms by (simp add: handleDisconnect_def Let_def steady_rejectPending steady_reconnectForever)
qed

lemma steady_andThen:
  assumes "\<And>s. steady opts R s \<Longrightarrow> steady opts R (fst (f s))" "\<And>s. steady opts R s \<Longrightarrow> steady opts R (fst (g s))"
  shows "steady opts R s \<Longrightarrow> steady opts R (fst (andThen f g s))"
  using assms by (simp add: fst_andThen)

lemma steady_socket_error: "steady opts R s \<Longrightarrow> steady opts R (fst (socket_error opts now n e s))"
  unfolding socket_error_def
  by (intro steady_andThen) (auto intro: steady_same_book steady_handleDisconnect)

lemma steady_socket_closed: "steady opts R s \<Longrightarrow> steady opts R (fst (socket_closed opts now n s))"
  unfolding socket_closed_def
  by (intro steady_andThen) (auto intro: steady_same_book steady_handleDisconnect)

lemma steady_closeFromBroker: "steady opts R s \<Longrightarrow> steady opts R (fst (closeFromBroker e s))"
proof -
  assume s: "steady opts R s"
  let ?t = "s\<lparr> mc_closed := True, mc_connectPromise := None, mc_readyCallback := None, mc_opening := None \<rparr>"
  have "steady opts R ?t" using s by (rule steady_same_book) (simp add: same_book_def)
  moreover have "steady opts R (fst (quietly (\<lambda>s. rejectPending e (s\<lparr> mc_socket := None \<rparr>)) u))"
    if "steady opts R u" for u
    using steady_same_book [OF that, of "u\<lparr> mc_socket := None \<rparr>"] by (simp add: same_book_def steady_rejectPending)
  ultimately have "steady opts R (fst (andThen (destroy_optional (mc_opening s))
     (andThen (quietly (\<lambda>s. rejectPending e (s\<lparr> mc_socket := None \<rparr>))) (destroy_optional (mc_socket s))) ?t))"
    by (intro steady_andThen) (auto intro: steady_same_book)
  then show ?thesis using s by (simp add: closeFromBroker_def Let_def)
qed

lemma steady_close_now: "steady opts R s \<Longrightarrow> steady opts R (fst (close_now s))"
proof -
  assume s: "steady opts R s"
  let ?e = "final_error ''BROKER_CLIENT_CLOSED'' ''The MCP adapter disconnected from the broker.''"
  let ?t = "s\<lparr> mc_closed := True, mc_connectPromise := None, mc_opening := None \<rparr>"
  have "steady opts R ?t" using s by (rule steady_same_book) (simp add: same_book_def)
  moreover have "steady opts R (fst (quietly (\<lambda>s. rejectPending ?e (s\<lparr> mc_socket := None, mc_readyCallback := None \<rparr>)) u))"
    if "steady opts R u" for u
    using steady_same_book [OF that, of "u\<lparr> mc_socket := None, mc_readyCallback := None \<rparr>"]
    by (simp add: same_book_def steady_rejectPending)
  ultimately have "steady opts R (fst (andThen (destroy_optional (mc_opening s))
     (andThen (quietly (\<lambda>s. rejectPending ?e (s\<lparr> mc_socket := None, mc_readyCallback := None \<rparr>)))
       (end_socket (mc_socket s))) ?t))"
    by (intro steady_andThen) (auto intro: steady_same_book)
  then show ?thesis by (simp add: close_now_def Let_def)
qed

lemma steady_handleLine: "steady opts R s \<Longrightarrow> steady opts R (fst (handleLine opts n line s))"
  by (auto simp: handleLine_def dest: find_pending
      intro: steady_same_book steady_closeFromBroker steady_answer split: option.split)

lemma steady_handle_lines: "steady opts R s \<Longrightarrow> steady opts R (fst (handle_lines opts n ls s))"
proof (induction ls arbitrary: s)
  case (Cons l ls)
  have "steady opts R (fst (andThen (if trimEnd l = [] then quietly id else handleLine opts n (trimEnd l))
      (handle_lines opts n ls) s))"
    using Cons.prems by (intro steady_andThen) (auto intro: steady_handleLine Cons.IH)
  then show ?case by simp
qed simp

lemma steady_destroy: "steady opts R s \<Longrightarrow> steady opts R (fst (destroy_socket n s))"
  by (rule steady_same_book) auto

lemma steady_set_socket: "steady opts R s \<Longrightarrow> steady opts R (set_socket n f s)"
  by (rule steady_same_book) auto

lemma steady_buffer: "steady opts R s \<Longrightarrow> steady opts R (s\<lparr> mc_receiveBuffer := b \<rparr>)"
  by (rule steady_same_book) (auto simp: same_book_def)

lemma steady_handleData: "steady opts R s \<Longrightarrow> steady opts R (fst (handleData opts n t s))"
  by (auto simp: handleData_def Let_def case_prod_unfold
      intro: steady_buffer steady_handle_lines steady_destroy split: sum.split)

lemma steady_socket_data: "steady opts R s \<Longrightarrow> steady opts R (fst (socket_data opts n bs s))"
  by (auto simp: socket_data_def case_prod_unfold intro: steady_handleData steady_set_socket)

lemma steady_socket_end: "steady opts R s \<Longrightarrow> steady opts R (fst (socket_end opts n s))"
  unfolding socket_end_def by (intro steady_andThen) (auto intro: steady_same_book steady_handleData)

subsection \<open>Calls\<close>

lemma waits_set_task:
  "waits w (set_task t f s) + (if w = Caller t \<and> tk_wake (mc_tasks s t) \<noteq> None then 1 else 0) =
     waits w s + (if w = Caller t \<and> tk_wake (f (mc_tasks s t)) \<noteq> None then 1 else 0)"
  by (cases w) (auto simp: waits_def own_wait_def set_task_def)

lemma same_calls_set_task [simp]: "same_calls s (set_task t f s)"
  by (simp add: same_calls_def set_task_def)

lemma steady_set_task:
  "steady opts R s \<Longrightarrow> (\<And>k. tk_wake (f k) = tk_wake k) \<Longrightarrow> steady opts R (set_task t f s)"
  by (rule steady_keep) (use waits_set_task [of _ t f s] in \<open>auto split: if_splits\<close>)

text \<open>A running call goes to sleep.\<close>

lemma steady_sleep:
  assumes "steady opts (insert (Caller t) R) s" "Caller t \<notin> R"
  shows "steady opts R (set_task t (\<lambda>k. k\<lparr> tk_wake := Some (d k) \<rparr>) s)"
proof (rule steady_pay [OF assms])
  have "waits (Caller t) s = 0"
    using steadyD [OF assms(1), of "Caller t"] by (simp split: if_splits)
  then have "tk_wake (mc_tasks s t) = None" by (simp add: waits_def own_wait_def)
  then show "waits v (set_task t (\<lambda>k. k\<lparr> tk_wake := Some (d k) \<rparr>) s) = waits v s + of_bool (v = Caller t)" for v
    using waits_set_task [of v t "\<lambda>k. k\<lparr> tk_wake := Some (d k) \<rparr>" s] by (cases "v = Caller t") simp_all
qed simp

text \<open>A running call is over.\<close>

lemma running_call:
  assumes "steady opts (insert (Caller t) R) s"
  shows "t \<in> set (take 1 (mc_chain s)) \<or> t \<in> set (mc_cleanups s)" and "waits (Caller t) s = 0"
  using steadyD [OF assms, of "Caller t"] by (simp_all add: begun_def split: if_splits)

lemma waits_queues [simp]:
  "waits w (s\<lparr> mc_cleanups := x \<rparr>) = waits w s" "waits w (s\<lparr> mc_chain := y \<rparr>) = waits w s"
  by (cases w; simp add: waits_def own_wait_def)+

lemma begun_add_jobs [simp]: "begun w (add_jobs js s) = begun w s"
  by (cases w) (simp_all add: begun_def add_jobs_def)

lemma steady_end_cleanup:
  assumes s: "steady opts (insert (Caller t) R) s" and R: "Caller t \<notin> R" and t: "t \<in> set (mc_cleanups s)"
  shows "steady opts R (add_jobs [FinishClose] (s\<lparr> mc_cleanups := remove1 t (mc_cleanups s) \<rparr>))"
proof (rule steadyI)
  have d: "distinct (mc_chain s @ mc_cleanups s)" using s by (simp add: steady_def calls_ok_def)
  show "calls_ok opts (add_jobs [FinishClose] (s\<lparr> mc_cleanups := remove1 t (mc_cleanups s) \<rparr>))"
    using steady_calls [OF s] by (auto simp: calls_ok_def add_jobs_def dest: notin_set_remove1 set_remove1_subset [THEN subsetD])
  have w: "waits v (add_jobs [FinishClose] (s\<lparr> mc_cleanups := remove1 t (mc_cleanups s) \<rparr>)) = waits v s" for v
    by simp
  have b: "begun v (add_jobs [FinishClose] (s\<lparr> mc_cleanups := remove1 t (mc_cleanups s) \<rparr>)) \<longleftrightarrow>
      begun v s \<and> v \<noteq> Caller t" for v
    using d t by (cases v) (auto simp: begun_def dest: in_set_takeD)
  show "waits v (add_jobs [FinishClose] (s\<lparr> mc_cleanups := remove1 t (mc_cleanups s) \<rparr>)) + (if v \<in> R then 1 else 0) =
      (if begun v (add_jobs [FinishClose] (s\<lparr> mc_cleanups := remove1 t (mc_cleanups s) \<rparr>)) then 1 else 0)" for v
    using steadyD [OF s, of v] running_call(2) [OF s] R unfolding w b by (auto split: if_splits)
qed

lemma steady_end_call:
  assumes s: "steady opts (insert (Caller t) R) s" and R: "Caller t \<notin> R" and t: "mc_chain s = t # rest"
  shows "steady opts R (add_jobs (case rest of [] \<Rightarrow> [] | u # _ \<Rightarrow> [StartCall u]) (s\<lparr> mc_chain := rest \<rparr>))"
    (is "steady opts R ?u")
proof (rule steadyI)
  have d: "distinct (mc_chain s @ mc_cleanups s)" using s by (simp add: steady_def calls_ok_def)
  show "calls_ok opts ?u" using steady_calls [OF s] t by (simp add: calls_ok_def add_jobs_def)
  show "waits v ?u + (if v \<in> R then 1 else 0) = (if begun v ?u then 1 else 0)" for v
    using steadyD [OF s, of v] running_call(2) [OF s] R d t
    by (cases v; cases rest) (auto simp: begun_def split: if_splits)
qed

lemma steady_settle_call:
  assumes "steady opts (insert (Caller t) R) s" "Caller t \<notin> R"
  shows "steady opts R (fst (settle_call t r s))"
proof (cases "mc_chain s")
  case Nil
  then show ?thesis
    using running_call(1) [OF assms(1)] steady_end_cleanup [OF assms] by (simp add: settle_call_def)
next
  case (Cons h rest)
  show ?thesis
  proof (cases "h = t")
    case True
    then show ?thesis using steady_end_call [OF assms] Cons by (simp add: settle_call_def)
  next
    case False
    then show ?thesis
      using running_call(1) [OF assms(1)] steady_end_cleanup [OF assms] Cons by (simp add: settle_call_def)
  qed
qed

text \<open>The pause that \<open>set_task\<close> ends belongs to the call that then runs.\<close>

definition awake :: "nat \<Rightarrow> mcp_client \<Rightarrow> mcp_client" where
  "awake t = set_task t (\<lambda>k. k\<lparr> tk_wake := None \<rparr>)"

lemma steady_awake_running:
  assumes "steady opts (insert (Caller t) R) s"
  shows "steady opts (insert (Caller t) R) (awake t s)"
proof (rule steady_keep [OF assms])
  have "tk_wake (mc_tasks s t) = None"
    using running_call(2) [OF assms] by (simp add: waits_def own_wait_def)
  then show "waits w (awake t s) = waits w s" for w
    using waits_set_task [of w t "\<lambda>k. k\<lparr> tk_wake := None \<rparr>" s] by (simp add: awake_def split: if_splits)
qed (simp add: awake_def)

lemma steady_wakes:
  assumes "steady opts {} s" "tk_wake (mc_tasks s t) \<noteq> None"
  shows "steady opts {Caller t} (awake t s)"
proof (rule steadyI)
  show "calls_ok opts (awake t s)"
    using assms(1) same_calls_ok [of s "awake t s"] by (simp add: steady_def awake_def)
  have b: "begun v (awake t s) = begun v s" for v
    by (rule same_calls_begun) (simp add: awake_def)
  show "waits v (awake t s) + (if v \<in> {Caller t} then 1 else 0) = (if begun v (awake t s) then 1 else 0)" for v
    using steadyD [OF assms(1), of v] waits_set_task [of v t "\<lambda>k. k\<lparr> tk_wake := None \<rparr>" s] assms(2)
    unfolding b awake_def [symmetric] by (cases "v = Caller t") auto
qed

lemma steady_recovery_loop:
  assumes "steady opts (insert (Caller t) R) (awake t s)" "Caller t \<notin> R"
  shows "steady opts R (fst (recovery_loop opts t now s))"
proof -
  have eq: "set_task t (\<lambda>k. k\<lparr> tk_wake := None, tk_attempts := tk_attempts k + 1 \<rparr>) s =
      set_task t (\<lambda>k. k\<lparr> tk_attempts := tk_attempts k + 1 \<rparr>) (awake t s)"
    by (simp add: set_task_def awake_def)
  have "steady opts (insert (Caller t) R) (set_task t (\<lambda>k. k\<lparr> tk_attempts := tk_attempts k + 1 \<rparr>) (awake t s))"
    using assms(1) by (rule steady_set_task) simp
  then show ?thesis
    using steady_ensureConnected [OF _ assms(2)] steady_settle_call [OF assms]
    by (simp add: recovery_loop_def Let_def eq flip: awake_def)
qed

lemma steady_start_task:
  assumes "steady opts (insert (Caller t) R) s" "Caller t \<notin> R"
  shows "steady opts R (fst (start_task opts t now s))"
  unfolding start_task_def
  by (intro steady_recovery_loop steady_awake_running steady_set_task assms) simp

lemma steady_attempt_failed:
  assumes "steady opts (insert (Caller t) R) s" "Caller t \<notin> R"
  shows "steady opts R (fst (attempt_failed t e now s))"
proof -
  have "steady opts (insert (Caller t) R) (set_task t (\<lambda>k. k\<lparr> tk_lastError := Some e \<rparr>) s)"
    using assms(1) by (rule steady_set_task) simp
  with steady_settle_call [OF this assms(2)] steady_sleep [OF this assms(2)] show ?thesis
    by (simp add: attempt_failed_def Let_def)
qed

lemma steady_sendOnce:
  assumes "steady opts (insert (Caller t) R) s" "Caller t \<notin> R" "inj (co_uuid opts)"
  shows "steady opts R (fst (sendOnce opts n t now s))"
proof -
  let ?t = "fst (sendOnce opts n t now s)"
  have ok: "calls_ok opts s" using assms(1) by (rule steady_calls)
  have pend: "mc_pending ?t = mc_pending s @ [last (mc_pending ?t)]"
    "pc_task (last (mc_pending ?t)) = t" "pc_id (last (mc_pending ?t)) = co_uuid opts (mc_nextId s)"
    "mc_nextId ?t = mc_nextId s + 1"
    by (simp_all add: sendOnce_def Let_def)
  have same: "mc_chain ?t = mc_chain s" "mc_cleanups ?t = mc_cleanups s" "mc_nextTask ?t = mc_nextTask s"
    "mc_reconnecting ?t = mc_reconnecting s" "mc_retry ?t = mc_retry s" "mc_tasks ?t = mc_tasks s"
    "mc_jobs ?t = mc_jobs s" "mc_waiters ?t = mc_waiters s"
    by (simp_all add: sendOnce_def Let_def)
  have fresh: "co_uuid opts (mc_nextId s) \<notin> pc_id ` set (mc_pending s)"
    using ok injD [OF assms(3)] by (fastforce simp: calls_ok_def)
  show ?thesis
  proof (rule steadyI)
    show "calls_ok opts ?t"
      using ok fresh unfolding calls_ok_def same pend(4)
      by (subst (1 2) pend(1)) (auto simp: pend(3) less_Suc_eq)
    have w: "waits v ?t = waits v s + (if v = Caller t then 1 else 0)" for v
      unfolding waits_def own_wait_def same by (subst pend(1), cases v) (auto simp: pend(2))
    have b: "begun v ?t = begun v s" for v by (cases v) (simp_all add: begun_def same)
    show "waits v ?t + (if v \<in> R then 1 else 0) = (if begun v ?t then 1 else 0)" for v
      using steadyD [OF assms(1), of v] assms(2) unfolding w b by (auto split: if_splits)
  qed
qed

lemma steady_answered:
  assumes "steady opts (insert (Caller t) R) s" "Caller t \<notin> R"
  shows "steady opts R (fst (answered t r now s))"
  using steady_attempt_failed [OF assms] steady_settle_call [OF assms]
  by (simp add: answered_def split: sum.split)

lemma steady_retry:
  assumes "steady opts (insert Reconnector R) s" "Reconnector \<notin> R"
  shows "steady opts R (s\<lparr> mc_retry := Some d \<rparr>)"
proof (rule steady_pay [OF assms])
  have "waits Reconnector s = 0"
    using steadyD [OF assms(1), of Reconnector] by (simp split: if_splits)
  then show "waits v (s\<lparr> mc_retry := Some d \<rparr>) = waits v s + of_bool (v = Reconnector)" for v
    by (cases v) (simp_all add: waits_def own_wait_def)
qed (simp add: same_calls_def)

lemma steady_connected:
  assumes "steady opts (insert w R) s" "w \<notin> R" "inj (co_uuid opts)"
  shows "steady opts R (fst (connected opts w r now s))"
proof (cases w)
  case (Caller t)
  then show ?thesis
    using assms steady_attempt_failed [of opts t R s] steady_sendOnce [of opts t R s]
    by (simp add: connected_def split: sum.split)
next
  case Reconnector
  then show ?thesis
    using assms steady_retry [of opts R s] steady_reconnected [of opts R s]
    by (simp add: connected_def split: sum.split)
qed

lemma steady_retry_due:
  assumes "steady opts {} s" "mc_retry s \<noteq> None"
  shows "steady opts {} (fst (retry_due opts now s))"
proof -
  let ?t = "s\<lparr> mc_retry := None, mc_delay := min RECONNECT_MAX_MS (mc_delay s * 2) \<rparr>"
  have "steady opts {Reconnector} ?t"
  proof (rule steadyI)
    show "calls_ok opts ?t" using steady_calls [OF assms(1)] by (simp add: calls_ok_def)
    show "waits v ?t + (if v \<in> {Reconnector} then 1 else 0) = (if begun v ?t then 1 else 0)" for v
      using steadyD [OF assms(1), of v] assms(2)
      by (cases v) (simp_all add: waits_def own_wait_def begun_def split: if_splits)
  qed
  then show ?thesis unfolding retry_due_def by (rule steady_reconnect_loop) simp
qed

lemma fresh_task:
  assumes "steady opts R s"
  shows "mc_nextTask s \<notin> set (mc_chain s @ mc_cleanups s)" and "waits (Caller (mc_nextTask s)) s = 0"
    and "Caller (mc_nextTask s) \<notin> R"
proof -
  show new: "mc_nextTask s \<notin> set (mc_chain s @ mc_cleanups s)"
    using steady_calls [OF assms] by (auto simp: calls_ok_def)
  then have "\<not> begun (Caller (mc_nextTask s)) s" by (auto simp: begun_def dest: in_set_takeD)
  then show "waits (Caller (mc_nextTask s)) s = 0" and "Caller (mc_nextTask s) \<notin> R"
    using steadyD [OF assms, of "Caller (mc_nextTask s)"] by (simp_all split: if_splits)
qed

lemma waits_new_task:
  assumes "steady opts R s" "tk_wake k = None"
  shows "waits v (s\<lparr> mc_nextTask := Suc (mc_nextTask s), mc_tasks := (mc_tasks s)(mc_nextTask s := k) \<rparr>) = waits v s"
  using fresh_task(2) [OF assms(1)] assms(2) by (cases v) (auto simp: waits_def own_wait_def)

lemma steady_request: "steady opts {} s \<Longrightarrow> steady opts {} (fst (request opts m p d s))"
proof -
  assume s: "steady opts {} s"
  let ?n = "mc_nextTask s" and ?k = "new_task m p (case d of None \<Rightarrow> co_requestTimeoutMs opts | Some ms \<Rightarrow> ms)"
  let ?t = "s\<lparr> mc_nextTask := Suc ?n, mc_tasks := (mc_tasks s)(?n := ?k) \<rparr>"
  let ?u = "add_jobs (if mc_chain s = [] then [StartCall ?n] else []) (?t\<lparr> mc_chain := mc_chain s @ [?n] \<rparr>)"
  have w: "waits v ?t = waits v s" for v
    by (rule waits_new_task [OF s]) (simp add: new_task_def no_task_def)
  have "steady opts {} ?u"
  proof (rule steadyI)
    show "calls_ok opts ?u"
      using steady_calls [OF s] fresh_task(1) [OF s] by (auto simp: calls_ok_def less_Suc_eq)
    show "waits v ?u + (if v \<in> {} then 1 else 0) = (if begun v ?u then 1 else 0)" for v
      using steadyD [OF s, of v] fresh_task [OF s]
      by (cases v; cases "mc_chain s") (auto simp: w begun_def split: if_splits)
  qed
  then show ?thesis using s by (simp add: request_def Let_def)
qed

lemma steady_cleanup_begins:
  assumes s: "steady opts {} s"
  shows "steady opts (insert (Caller (mc_nextTask s)) {})
     (s\<lparr> mc_nextTask := mc_nextTask s + 1,
         mc_tasks := (mc_tasks s)(mc_nextTask s := new_task ''vm_unlock'' [(''force'', JBool True)] 5000),
         mc_cleanups := mc_cleanups s @ [mc_nextTask s] \<rparr>)" (is "steady opts (insert (Caller ?n) {}) ?u")
proof (rule steadyI)
  let ?k = "new_task ''vm_unlock'' [(''force'', JBool True)] 5000"
  have w: "waits v (s\<lparr> mc_nextTask := Suc ?n, mc_tasks := (mc_tasks s)(?n := ?k) \<rparr>) = waits v s" for v
    by (rule waits_new_task [OF s]) (simp add: new_task_def no_task_def)
  show "calls_ok opts ?u"
    using steady_calls [OF s] fresh_task(1) [OF s] by (auto simp: calls_ok_def less_Suc_eq)
  show "waits v ?u + (if v \<in> insert (Caller ?n) {} then 1 else 0) = (if begun v ?u then 1 else 0)" for v
    using steadyD [OF s, of v] fresh_task [OF s] by (cases v) (auto simp: w begun_def split: if_splits)
qed

lemma steady_close_client: "steady opts {} s \<Longrightarrow> steady opts {} (fst (close_client opts c now s))"
  using steady_start_task [OF steady_cleanup_begins] steady_close_now by (simp add: close_client_def Let_def)

lemma waits_take_job:
  assumes "i < length (mc_jobs s)"
  shows "waits w (take_job i s) + (if waits_in_job w (mc_jobs s ! i) then 1 else 0) = waits w s"
proof -
  have "length (filter P xs) = length (filter P (take j xs @ drop (Suc j) xs)) + (if P (xs ! j) then 1 else 0)"
    if "j < length xs" for P :: "job \<Rightarrow> bool" and xs j
    by (subst id_take_nth_drop [OF that]) simp
  from this [OF assms] show ?thesis
    by (cases w) (simp_all add: waits_def own_wait_def take_job_def)
qed

lemma steady_take_job:
  assumes "steady opts {} s" "i < length (mc_jobs s)"
  shows "steady opts {w. waits_in_job w (mc_jobs s ! i)} (take_job i s)"
proof (rule steadyI)
  show "calls_ok opts (take_job i s)" using steady_calls [OF assms(1)] by (simp add: calls_ok_def take_job_def)
  have b: "begun w (take_job i s) = begun w s" for w
    by (cases w) (simp_all add: begun_def take_job_def)
  show "waits w (take_job i s) + (if w \<in> {w. waits_in_job w (mc_jobs s ! i)} then 1 else 0) =
      (if begun w (take_job i s) then 1 else 0)" for w
    using steadyD [OF assms(1), of w] waits_take_job [OF assms(2), of w] by (simp add: b)
qed

lemma steady_attempted:
  assumes "steady opts {} s"
  shows "steady opts {} (add_jobs (map (\<lambda>(m, w). Connected w r) (filter (\<lambda>(m, w). m = n) (mc_waiters s)))
     (s\<lparr> mc_connectPromise := None, mc_waiters := filter (\<lambda>(m, w). m \<noteq> n) (mc_waiters s) \<rparr>))" (is "steady opts {} ?t")
proof (rule steady_keep [OF assms])
  show "waits v ?t = waits v s" for v
  proof -
    have "length (filter (waits_in_job v) (map (\<lambda>(m, w). Connected w r) (filter (\<lambda>(m, w). m = n) ws))) +
        length (filter (\<lambda>(m, w). w = v) (filter (\<lambda>(m, w). m \<noteq> n) ws)) = length (filter (\<lambda>(m, w). w = v) ws)" for ws
      by (induction ws) (auto simp: waits_in_job_simps)
    from this [of "mc_waiters s"] show ?thesis
      by (cases v) (simp_all add: waits_def own_wait_def)
  qed
qed (simp add: same_calls_def)

lemma steady_run_job:
  assumes "steady opts {w. waits_in_job w j} s" "inj (co_uuid opts)"
  shows "steady opts {} (fst (run_job opts now j s))"
proof (cases j)
  case (StartCall t)
  then show ?thesis using assms steady_start_task [of opts t "{}" s] by (simp add: run_job_def)
next
  case (Attempted n r)
  then show ?thesis using assms steady_attempted by (simp add: run_job_def)
next
  case (Connected w r)
  then show ?thesis using assms steady_connected [of opts w "{}" s] by (simp add: run_job_def)
next
  case (Answered t r)
  then show ?thesis using assms steady_answered [of opts t "{}" s] by (simp add: run_job_def)
next
  case FinishClose
  then show ?thesis using assms steady_close_now by (simp add: run_job_def)
qed

lemma steady_client_event:
  assumes "steady opts {} s" "enabled now ev s"
  shows "steady opts {} (fst (client_event opts now ev s))"
proof (cases ev)
  case (TaskTimer t)
  then have "tk_wake (mc_tasks s t) \<noteq> None" using assms(2) by (simp add: enabled_def is_due_def split: option.splits)
  with TaskTimer show ?thesis
    using steady_recovery_loop [of opts t "{}" s] steady_wakes [OF assms(1)] by (simp add: client_event_def)
next
  case RetryTimer
  then have "mc_retry s \<noteq> None" using assms(2) by (simp add: enabled_def is_due_def split: option.splits)
  with RetryTimer show ?thesis using steady_retry_due [OF assms(1)] by (simp add: client_event_def)
qed (use assms in \<open>simp_all add: client_event_def steady_request steady_close_client steady_socket_data
    steady_socket_end steady_socket_error steady_socket_closed steady_destroy steady_reject_call
    steady_same_book [OF _ same_book_connected] steady_same_book [OF _ same_book_hello_failed]
    connect_timeout_def steady_same_book [OF _ same_book_reject_attempt] request_timer_def write_failed_def\<close>)

lemma steady_step:
  assumes "client_step opts s es t" "steady opts {} s" "inj (co_uuid opts)"
  shows "steady opts {} t"
  using assms
proof cases
  case (job_step i now)
  then show ?thesis
    using steady_run_job [OF steady_take_job [OF assms(2)] assms(3)] by (metis fst_conv)
next
  case (event_step now ev)
  then show ?thesis using steady_client_event [OF assms(2)] by (metis fst_conv)
qed

lemma steady_run: "client_run opts s es \<Longrightarrow> inj (co_uuid opts) \<Longrightarrow> steady opts {} s"
proof (induction rule: client_run.induct)
  case client_start
  show ?case
    by (rule steadyI) (auto simp: calls_ok_def new_client_def waits_def own_wait_def begun_def no_task_def split: waiter.split)
next
  case (client_next s es fs t)
  then show ?case using steady_step by blast
qed

subsection \<open>Calls settle in the order they were made\<close>

definition accepted :: "client_output list \<Rightarrow> nat list" where
  "accepted es = List.map_filter (\<lambda>e. case e of Accepted t \<Rightarrow> Some t | _ \<Rightarrow> None) es"

definition settled :: "client_output list \<Rightarrow> nat list" where
  "settled es = List.map_filter (\<lambda>e. case e of Settled t r \<Rightarrow> Some t | _ \<Rightarrow> None) es"

definition requests :: "client_output list \<Rightarrow> js list" where
  "requests es = List.map_filter
     (\<lambda>e. case e of Written n v \<Rightarrow> if is_kind v ''broker_request'' then Some v else None | _ \<Rightarrow> None) es"

definition ordered :: "mcp_client \<Rightarrow> client_output list \<Rightarrow> bool" where
  "ordered s es \<longleftrightarrow>
     filter (\<lambda>t. t \<in> set (accepted es)) (settled es) @ mc_chain s = accepted es \<and>
     distinct (accepted es) \<and> distinct (settled es) \<and>
     set (settled es) \<inter> set (mc_chain s @ mc_cleanups s) = {} \<and>
     set (mc_cleanups s) \<inter> set (accepted es) = {} \<and>
     (\<forall>t \<in> set (settled es) \<union> set (accepted es). t < mc_nextTask s)"

lemma accepted_append [simp]: "accepted (es @ fs) = accepted es @ accepted fs"
  by (induction es) (auto simp: accepted_def List.map_filter_def split: client_output.split)

lemma outcomes_append [simp]: "settled (es @ fs) = settled es @ settled fs"
  by (induction es) (auto simp: settled_def List.map_filter_def split: client_output.split)

lemma requests_append [simp]: "requests (es @ fs) = requests es @ requests fs"
  by (induction es) (auto simp: requests_def List.map_filter_def split: client_output.split)

lemma requests_simps [simp]:
  "requests [] = []" "requests (Accepted t # es) = requests es" "requests (Settled t r # es) = requests es"
  "requests (Opened n # es) = requests es" "requests (Destroyed n # es) = requests es"
  "requests (Ended n # es) = requests es" "requests (Refused e # es) = requests es"
  "requests (Progressed v # es) = requests es"
  "requests (Written n v # es) = (if is_kind v ''broker_request'' then [v] else []) @ requests es"
  by (simp_all add: requests_def List.map_filter_def)

lemma line_kinds [simp]:
  "\<not> is_kind (hello_line opts) ''broker_request''" "is_kind (request_line opts uuid k) ''broker_request''"
  by (simp_all add: is_kind_def member_def hello_line_def request_line_def)

lemma history_simps [simp]:
  "accepted [] = []" "settled [] = []"
  "accepted (Accepted t # es) = t # accepted es" "settled (Accepted t # es) = settled es"
  "accepted (Settled t r # es) = accepted es" "settled (Settled t r # es) = t # settled es"
  "accepted (Opened n # es) = accepted es" "settled (Opened n # es) = settled es"
  "accepted (Written n v # es) = accepted es" "settled (Written n v # es) = settled es"
  "accepted (Destroyed n # es) = accepted es" "settled (Destroyed n # es) = settled es"
  "accepted (Ended n # es) = accepted es" "settled (Ended n # es) = settled es"
  "accepted (Refused e # es) = accepted es" "settled (Refused e # es) = settled es"
  "accepted (Progressed v # es) = accepted es" "settled (Progressed v # es) = settled es"
  by (simp_all add: accepted_def settled_def List.map_filter_def)

text \<open>A result that accepts no call, settles none and sends no request.\<close>

definition silent :: "mcp_client \<Rightarrow> client_result \<Rightarrow> bool" where
  "silent s r \<longleftrightarrow>
     mc_chain (fst r) = mc_chain s \<and> mc_cleanups (fst r) = mc_cleanups s \<and> mc_nextTask (fst r) = mc_nextTask s \<and>
     accepted (snd r) = [] \<and> settled (snd r) = [] \<and> requests (snd r) = []"

named_theorems silences \<open>operations that neither accept nor settle a call\<close>

lemma ordered_silent: "ordered s es \<Longrightarrow> silent s r \<Longrightarrow> ordered (fst r) (es @ snd r)"
  by (simp add: ordered_def silent_def)

lemma silent_andThen [silences]:
  assumes "\<And>s. silent s (f s)" "\<And>s. silent s (g s)"
  shows "silent s (andThen f g s)"
  using assms(1) [of s] assms(2) [of "fst (f s)"] by (simp add: silent_def andThen_def case_prod_unfold)

lemma silent_same_calls: "same_calls s t \<Longrightarrow> silent s (t, [])"
  by (simp add: silent_def same_calls_def)

lemma silent_parts [silences]:
  "silent s (s, [])" "silent s (quietly id s)" "silent s (destroy_socket n s)"
  "silent s (quietly (set_socket n f) s)" "silent s (destroy_optional m s)" "silent s (end_socket m s)"
  "silent s (quietly (reject_call g uuid) s)"
  "silent s (quietly (\<lambda>s. rejectPending e (s\<lparr> mc_socket := None \<rparr>)) s)"
  "silent s (quietly (\<lambda>s. rejectPending e (s\<lparr> mc_socket := None, mc_readyCallback := None \<rparr>)) s)"
  by (simp_all add: silent_def quietly_def destroy_socket_def set_socket_def destroy_optional_def end_socket_def
      reject_call_def rejectPending_def split: option.split)

lemma silent_reject_attempt [silences]: "silent s (reject_attempt n e s)"
  by (simp add: silent_def reject_attempt_def destroy_socket_def set_socket_def clearOpeningSocket_def Let_def)

lemma silent_failConnect [silences]: "silent s (failConnect opts n e s)"
  by (simp add: failConnect_def silences)

lemma silent_ensureConnected [silences]: "silent s (ensureConnected opts w now s)"
  by (simp add: silent_def ensureConnected_def openSocket_def await_attempt_def Let_def split: option.split)

lemma silent_reconnect_loop [silences]: "silent s (reconnect_loop opts now s)"
  by (simp add: reconnect_loop_def silent_ensureConnected) (simp add: silent_def)

lemma silent_reconnectForever [silences]: "silent s (reconnectForever opts now s)"
  using silent_reconnect_loop [of "s\<lparr> mc_reconnecting := True, mc_delay := RECONNECT_INITIAL_MS \<rparr>" opts now]
  by (simp add: reconnectForever_def silent_def)

lemma silent_handleDisconnect [silences]: "silent s (handleDisconnect opts now n e s)"
  using silent_reconnectForever [of "rejectPending e (s\<lparr> mc_socket := None, mc_receiveBuffer := [] \<rparr>)" opts now]
  by (simp add: handleDisconnect_def silent_def Let_def rejectPending_def)

lemma silent_if [silences]: "silent s r \<Longrightarrow> silent s q \<Longrightarrow> silent s (if b then r else q)"
  by simp

lemma silent_if_op [silences]: "silent s (f s) \<Longrightarrow> silent s (g s) \<Longrightarrow> silent s ((if b then f else g) s)"
  by simp

lemma silent_socket_connected [silences]: "silent s (socket_connected opts n s)"
  by (simp add: silent_def socket_connected_def destroy_socket_def set_socket_def clearOpeningSocket_def Let_def)

lemma silent_hello_failed [silences]: "silent s (hello_failed opts n e s)"
  unfolding hello_failed_def by (intro silences)

lemma silent_socket_error [silences]: "silent s (socket_error opts now n e s)"
  unfolding socket_error_def by (intro silences)

lemma silent_socket_closed [silences]: "silent s (socket_closed opts now n s)"
  unfolding socket_closed_def by (intro silences)

lemma silent_ready [silences]: "silent s (broker_is_ready n s)"
  by (simp add: silent_def broker_is_ready_def set_socket_def Let_def)

lemma silent_after: "silent t r \<Longrightarrow> same_calls s t \<Longrightarrow> silent s r"
  by (simp add: silent_def same_calls_def)

lemma silent_closeFromBroker [silences]: "silent s (closeFromBroker e s)"
  unfolding closeFromBroker_def Let_def
  by (rule silent_if, rule silences, rule silent_after, (rule silences)+) (simp add: same_calls_def)

lemma silent_close_now [silences]: "silent s (close_now s)"
  unfolding close_now_def Let_def by (rule silent_after, (rule silences)+) (simp add: same_calls_def)

lemma silent_handleLine [silences]: "silent s (handleLine opts n l s)"
  unfolding handleLine_def
  by (auto simp: silences split: option.split) (simp_all add: silent_def)

lemma silent_handle_lines [silences]: "silent s (handle_lines opts n ls s)"
  by (induction ls arbitrary: s) (auto simp: silences intro!: silent_andThen)

lemma silent_handleData [silences]: "silent s (handleData opts n t s)"
  unfolding handleData_def Let_def case_prod_unfold
  by (auto simp: silences same_calls_def intro!: silent_after [OF silent_handle_lines] silent_after [OF silent_parts(3)]
      split: sum.split)

lemma silent_socket_data [silences]: "silent s (socket_data opts n bs s)"
  unfolding socket_data_def case_prod_unfold
  by (rule silent_after, rule silent_handleData) (simp add: same_calls_def set_socket_def)

lemma silent_socket_end [silences]: "silent s (socket_end opts n s)"
  unfolding socket_end_def by (intro silences)

lemma silent_retry_due [silences]: "silent s (retry_due opts now s)"
  unfolding retry_due_def by (rule silent_after, rule silent_reconnect_loop) (simp add: same_calls_def)

lemma ordered_set_task [simp]: "ordered (set_task t f s) es = ordered s es"
  by (simp add: ordered_def set_task_def)

lemma ordered_same_calls: "ordered s es \<Longrightarrow> same_calls s t \<Longrightarrow> ordered t es"
  by (simp add: ordered_def same_calls_def)

lemma ordered_settle:
  assumes "ordered s es" "t \<in> set (take 1 (mc_chain s)) \<or> t \<in> set (mc_cleanups s)"
    and "distinct (mc_chain s @ mc_cleanups s)" "\<forall>t \<in> set (mc_chain s @ mc_cleanups s). t < mc_nextTask s"
  shows "ordered (fst (settle_call t r s)) (es @ snd (settle_call t r s))"
proof (cases "t \<in> set (mc_cleanups s)")
  case True
  then have "settle_call t r s = (add_jobs [FinishClose] (s\<lparr> mc_cleanups := remove1 t (mc_cleanups s) \<rparr>), [Settled t r])"
    using assms(3) by (auto simp: settle_call_def split: list.split)
  with True assms show ?thesis
    by (auto simp: ordered_def dest: notin_set_remove1 set_remove1_subset [THEN subsetD])
next
  case False
  then obtain rest where chain: "mc_chain s = t # rest"
    using assms(2) by (cases "mc_chain s") auto
  then have "settle_call t r s =
      (add_jobs (case rest of [] \<Rightarrow> [] | u # _ \<Rightarrow> [StartCall u]) (s\<lparr> mc_chain := rest \<rparr>), [Settled t r])"
    by (simp add: settle_call_def)
  moreover have "t \<in> set (accepted es)"
    using assms(1) chain unfolding ordered_def by (metis in_set_conv_decomp)
  ultimately show ?thesis using assms chain False by (auto simp: ordered_def)
qed

lemma ordered_running:
  assumes "ordered s es" "steady opts (insert (Caller t) R) s"
  shows "ordered (fst (settle_call t r s)) (es @ snd (settle_call t r s))"
  using ordered_settle [OF assms(1)] running_call(1) [OF assms(2)] steady_calls [OF assms(2)]
  by (auto simp: calls_ok_def)

lemma ordered_recovery_loop:
  assumes "ordered s es" "steady opts (insert (Caller t) R) (awake t s)"
  shows "ordered (fst (recovery_loop opts t now s)) (es @ snd (recovery_loop opts t now s))"
  using ordered_running [OF _ assms(2)] assms(1)
    ordered_silent [OF _ silent_ensureConnected [of
      "set_task t (\<lambda>k. k\<lparr> tk_wake := None, tk_attempts := tk_attempts k + 1 \<rparr>) s" opts "Caller t" now]]
  by (simp add: recovery_loop_def Let_def awake_def)

lemma ordered_start_task:
  assumes "ordered s es" "steady opts (insert (Caller t) R) s"
  shows "ordered (fst (start_task opts t now s)) (es @ snd (start_task opts t now s))"
  unfolding start_task_def
  by (rule ordered_recovery_loop [OF _ steady_awake_running [OF steady_set_task [OF assms(2)]]])
    (simp_all add: assms(1))

lemma ordered_attempt_failed:
  assumes "ordered s es" "steady opts (insert (Caller t) R) s"
  shows "ordered (fst (attempt_failed t e now s)) (es @ snd (attempt_failed t e now s))"
proof -
  have "steady opts (insert (Caller t) R) (set_task t (\<lambda>k. k\<lparr> tk_lastError := Some e \<rparr>) s)"
    using assms(2) by (rule steady_set_task) simp
  from ordered_running [OF _ this] assms(1) show ?thesis by (simp add: attempt_failed_def Let_def)
qed

lemma ordered_request:
  assumes "ordered s es" "steady opts {} s"
  shows "ordered (fst (request opts m p d s)) (es @ snd (request opts m p d s))"
proof -
  have "filter (\<lambda>t. t \<in> set (accepted es) \<or> t = mc_nextTask s) (settled es) =
      filter (\<lambda>t. t \<in> set (accepted es)) (settled es)"
    using assms(1) by (intro filter_cong) (auto simp: ordered_def)
  then show ?thesis
    using assms(1) fresh_task(1) [OF assms(2)]
    by (auto simp: request_def Let_def ordered_def less_Suc_eq)
qed

lemma ordered_close_client:
  assumes "ordered s es" "steady opts {} s"
  shows "ordered (fst (close_client opts c now s)) (es @ snd (close_client opts c now s))"
proof (cases "\<not> mc_closed s \<and> c \<and> mc_hasSentRequest s")
  case True
  let ?n = "mc_nextTask s" and ?k = "new_task ''vm_unlock'' [(''force'', JBool True)] 5000"
  let ?u = "s\<lparr> mc_nextTask := ?n + 1, mc_tasks := (mc_tasks s)(?n := ?k), mc_cleanups := mc_cleanups s @ [?n] \<rparr>"
  have "ordered ?u es" using assms(1) fresh_task(1) [OF assms(2)] by (auto simp: ordered_def less_Suc_eq)
  moreover have "steady opts (insert (Caller ?n) {}) ?u" using assms(2) by (rule steady_cleanup_begins)
  ultimately show ?thesis using True ordered_start_task by (simp add: close_client_def Let_def)
next
  case False
  then show ?thesis
    using assms(1) ordered_silent [OF assms(1) silent_close_now] by (auto simp: close_client_def)
qed

lemma ordered_sendOnce:
  "ordered s es \<Longrightarrow> ordered (fst (sendOnce opts n t now s)) (es @ snd (sendOnce opts n t now s))"
  by (simp add: ordered_def sendOnce_def Let_def)

lemma ordered_connected:
  assumes "ordered s es" "steady opts {w} s"
  shows "ordered (fst (connected opts w r now s)) (es @ snd (connected opts w r now s))"
proof (cases w)
  case (Caller t)
  with assms(2) have "steady opts (insert (Caller t) {}) s" by simp
  from ordered_attempt_failed [OF assms(1) this] ordered_sendOnce [OF assms(1)] Caller
  show ?thesis by (simp add: connected_def split: sum.split)
next
  case Reconnector
  then show ?thesis using assms(1) by (simp add: connected_def ordered_def split: sum.split)
qed

lemma ordered_run_job:
  assumes "ordered s es" "steady opts {w. waits_in_job w j} s"
  shows "ordered (fst (run_job opts now j s)) (es @ snd (run_job opts now j s))"
proof (cases j)
  case (StartCall t)
  then show ?thesis using assms(2) ordered_start_task [OF assms(1), of opts t "{}"] by (simp add: run_job_def)
next
  case (Attempted n r)
  then show ?thesis using assms(1) by (simp add: run_job_def quietly_def ordered_def)
next
  case (Connected w r)
  then show ?thesis using assms(2) ordered_connected [OF assms(1), of opts w] by (simp add: run_job_def)
next
  case (Answered t r)
  then show ?thesis
    using assms(2) ordered_attempt_failed [OF assms(1), of opts t "{}"] ordered_running [OF assms(1), of opts t "{}"]
    by (simp add: run_job_def answered_def split: sum.split)
next
  case FinishClose
  then show ?thesis using ordered_silent [OF assms(1) silent_close_now] by (simp add: run_job_def)
qed

lemma ordered_reject_call: "ordered s es \<Longrightarrow> ordered (reject_call g uuid s) es"
  by (simp add: ordered_def reject_call_def split: option.split)

lemma snd_quietly [simp]: "snd (quietly f s) = []"
  by (simp add: quietly_def)

lemma ordered_client_event:
  assumes "ordered s es" "steady opts {} s" "enabled now ev s"
  shows "ordered (fst (client_event opts now ev s)) (es @ snd (client_event opts now ev s))"
proof (cases ev)
  case (CallRequest m p d)
  then show ?thesis using ordered_request [OF assms(1,2)] by (simp add: client_event_def)
next
  case (CallClose c)
  then show ?thesis using ordered_close_client [OF assms(1,2)] by (simp add: client_event_def)
next
  case (TaskTimer t)
  then have "tk_wake (mc_tasks s t) \<noteq> None" using assms(3) by (simp add: enabled_def is_due_def split: option.splits)
  with TaskTimer show ?thesis
    using ordered_recovery_loop [OF assms(1), of opts t "{}"] steady_wakes [OF assms(2)]
    by (simp add: client_event_def)
qed (simp_all add: client_event_def connect_timeout_def request_timer_def write_failed_def
    ordered_silent [OF assms(1)] silences ordered_reject_call [OF assms(1)])

lemma ordered_step:
  assumes "client_step opts s es' t" "steady opts {} s" "ordered s es"
  shows "ordered t (es @ es')"
  using assms(1)
proof cases
  case (job_step i now)
  have "ordered (take_job i s) es" using assms(3) by (simp add: ordered_def take_job_def)
  from ordered_run_job [OF this steady_take_job [OF assms(2) job_step(1)]] job_step(2)
  show ?thesis by (metis fst_conv snd_conv)
next
  case (event_step now ev)
  from ordered_client_event [OF assms(3,2) event_step(2)] event_step(3)
  show ?thesis by (metis fst_conv snd_conv)
qed

lemma ordered_run: "client_run opts s es \<Longrightarrow> inj (co_uuid opts) \<Longrightarrow> ordered s es"
proof (induction rule: client_run.induct)
  case client_start
  show ?case by (simp add: ordered_def new_client_def)
next
  case (client_next s es fs t)
  then show ?case using ordered_step steady_run by blast
qed

subsection \<open>Connection attempts and lost connections\<close>

definition TRANSPORT_ERRORS :: "string list" where
  "TRANSPORT_ERRORS = [''BROKER_CONNECT_TIMEOUT'', ''BROKER_UNAVAILABLE'', ''BROKER_CONNECTION_ERROR'',
     ''BROKER_DISCONNECTED'', ''BROKER_WRITE_FAILED'']"

definition proper_error :: "client_error \<Rightarrow> bool" where
  "proper_error e \<longleftrightarrow> (er_retryable e \<longrightarrow> er_code e \<in> set TRANSPORT_ERRORS)"

definition transport_lost :: "client_task \<Rightarrow> bool" where
  "transport_lost k \<longleftrightarrow>
     (case tk_lastError k of None \<Rightarrow> False | Some e \<Rightarrow> er_retryable e \<and> er_code e \<in> set TRANSPORT_ERRORS)"

definition proper_job :: "job \<Rightarrow> bool" where
  "proper_job j \<longleftrightarrow>
     (case j of
        Attempted n r \<Rightarrow> (case r of Inl e \<Rightarrow> proper_error e | Inr m \<Rightarrow> True)
      | Connected w r \<Rightarrow> (case r of Inl e \<Rightarrow> proper_error e | Inr m \<Rightarrow> True)
      | Answered t r \<Rightarrow> (case r of Inl e \<Rightarrow> proper_error e | Inr v \<Rightarrow> True)
      | _ \<Rightarrow> True)"

text \<open>An attempt whose promise is pending, or about to be handled.\<close>

definition open_attempt :: "nat \<Rightarrow> mcp_client \<Rightarrow> bool" where
  "open_attempt n s \<longleftrightarrow>
     n < mc_nextSocket s \<and> (so_settled (mc_sockets s n) \<longrightarrow> (\<exists>r. Attempted n r \<in> set (mc_jobs s)))"

definition connecting :: "nat \<Rightarrow> mcp_client \<Rightarrow> bool" where
  "connecting t s \<longleftrightarrow>
     (\<exists>n. (n, Caller t) \<in> set (mc_waiters s)) \<or> (\<exists>r. Connected (Caller t) r \<in> set (mc_jobs s))"


definition tracked :: "mcp_client \<Rightarrow> bool" where
  "tracked s \<longleftrightarrow>
     (\<forall>(n, w) \<in> set (mc_waiters s). open_attempt n s) \<and>
     (\<forall>n. mc_connectPromise s = Some n \<longrightarrow> open_attempt n s) \<and>
     (\<forall>j \<in> set (mc_jobs s). proper_job j) \<and>
     (\<forall>t. tk_wake (mc_tasks s t) \<noteq> None \<longrightarrow> transport_lost (mc_tasks s t)) \<and>
     (\<forall>t. connecting t s \<and> 1 < tk_attempts (mc_tasks s t) \<longrightarrow> transport_lost (mc_tasks s t)) \<and>
     (\<forall>t. StartCall t \<in> set (mc_jobs s) \<or> t \<in> set (tl (mc_chain s)) \<longrightarrow> tk_attempts (mc_tasks s t) = 0)"

text \<open>A state that differs only in settled promises that are already on their way, and in harmless jobs.\<close>

definition follows :: "mcp_client \<Rightarrow> mcp_client \<Rightarrow> bool" where
  "follows s t \<longleftrightarrow>
     mc_waiters t = mc_waiters s \<and> (mc_connectPromise t = mc_connectPromise s \<or> mc_connectPromise t = None) \<and>
     mc_nextSocket s \<le> mc_nextSocket t \<and> mc_tasks t = mc_tasks s \<and> mc_chain t = mc_chain s \<and>
     (\<forall>n < mc_nextSocket s. so_settled (mc_sockets t n) \<longrightarrow>
        so_settled (mc_sockets s n) \<or> (\<exists>r. Attempted n r \<in> set (mc_jobs t))) \<and>
     set (mc_jobs s) \<subseteq> set (mc_jobs t) \<and>
     (\<forall>j \<in> set (mc_jobs t) - set (mc_jobs s). proper_job j \<and>
        (case j of Attempted n r \<Rightarrow> True | Answered t r \<Rightarrow> True | FinishClose \<Rightarrow> True | _ \<Rightarrow> False))"

lemma follows_refl [simp]: "follows s s"
  by (simp add: follows_def)

lemma follows_trans:
  assumes "follows s t" "follows t u"
  shows "follows s u"
proof -
  have jobs: "set (mc_jobs s) \<subseteq> set (mc_jobs t)" "set (mc_jobs t) \<subseteq> set (mc_jobs u)"
    using assms by (simp_all add: follows_def)
  have "so_settled (mc_sockets u n) \<longrightarrow> so_settled (mc_sockets s n) \<or> (\<exists>r. Attempted n r \<in> set (mc_jobs u))"
    if "n < mc_nextSocket s" for n
    using that assms jobs unfolding follows_def by (meson less_le_trans subsetD)
  moreover have "proper_job j \<and> (case j of Attempted n r \<Rightarrow> True | Answered t r \<Rightarrow> True | FinishClose \<Rightarrow> True | _ \<Rightarrow> False)"
    if "j \<in> set (mc_jobs u) - set (mc_jobs s)" for j
    using that assms unfolding follows_def by (cases "j \<in> set (mc_jobs t)") blast+
  ultimately show ?thesis using assms jobs unfolding follows_def by auto
qed

lemma tracked_follows:
  assumes "tracked s" "follows s t"
  shows "tracked t"
proof -
  have att: "open_attempt n t" if "open_attempt n s" for n
    using that assms(2) unfolding open_attempt_def follows_def by (meson less_le_trans subsetD)
  have start: "StartCall c \<in> set (mc_jobs t) \<Longrightarrow> StartCall c \<in> set (mc_jobs s)" for c
    using assms(2) unfolding follows_def by force
  have con: "connecting c t \<Longrightarrow> connecting c s" for c
    using assms(2) unfolding follows_def connecting_def by force
  have proper: "proper_job j" if "j \<in> set (mc_jobs t)" for j
    using that assms unfolding follows_def tracked_def by blast
  have same: "mc_waiters t = mc_waiters s" "mc_tasks t = mc_tasks s" "mc_chain t = mc_chain s"
    using assms(2) by (simp_all add: follows_def)
  have promise: "mc_connectPromise s = Some n" if "mc_connectPromise t = Some n" for n
    using assms(2) that by (auto simp: follows_def)
  show ?thesis
    using assms(1) unfolding tracked_def same
    by (auto dest: att start con proper promise)
qed

named_theorems followings \<open>operations whose result follows the state before\<close>

lemma follows_andThen [followings]:
  assumes "\<And>s. follows s (fst (f s))" "\<And>s. follows s (fst (g s))"
  shows "follows s (fst (andThen f g s))"
  unfolding fst_andThen by (rule follows_trans [OF assms(1) assms(2)])

lemma follows_if [followings]: "follows s (fst r) \<Longrightarrow> follows s (fst q) \<Longrightarrow> follows s (fst (if b then r else q))"
  by simp

lemma follows_if_op [followings]:
  "follows s (fst (f s)) \<Longrightarrow> follows s (fst (g s)) \<Longrightarrow> follows s (fst ((if b then f else g) s))"
  by simp

lemma follows_set_socket:
  "(\<And>x. so_settled (f x) = so_settled x) \<Longrightarrow> follows s (set_socket n f s)"
  by (simp add: follows_def set_socket_def)

lemma proper_client_error [simp]: "c \<in> set TRANSPORT_ERRORS \<Longrightarrow> proper_error (client_error c m)"
  by (simp add: proper_error_def client_error_def)

lemma proper_final_error [simp]: "proper_error (final_error c m)"
  by (simp add: proper_error_def final_error_def)

lemma follows_destroy [followings]: "follows s (fst (destroy_socket n s))"
  by (simp add: destroy_socket_def follows_set_socket)

lemma follows_pair [followings]: "follows s (fst (s, es))"
  by simp

lemma follows_destroy_optional [followings]: "follows s (fst (destroy_optional m s))"
  by (simp add: destroy_optional_def followings split: option.split)

lemma follows_end_socket [followings]: "follows s (fst (end_socket m s))"
  by (simp add: end_socket_def follows_set_socket split: option.split)

lemma follows_quiet_id [followings]: "follows s (fst (quietly id s))"
  by simp

lemma follows_quiet_socket [followings]:
  "(\<And>x. so_settled (f x) = so_settled x) \<Longrightarrow> follows s (fst (quietly (set_socket n f) s))"
  by (simp add: follows_set_socket)

lemma follows_settle_attempt:
  assumes "\<And>x. so_settled (f x)" "proper_job (Attempted n r)"
  shows "follows s (add_jobs [Attempted n r] (set_socket n f s))"
  using assms by (auto simp: follows_def set_socket_def)

lemma follows_fields:
  assumes "mc_waiters t = mc_waiters s" "mc_connectPromise t = mc_connectPromise s \<or> mc_connectPromise t = None"
    "mc_nextSocket t = mc_nextSocket s" "mc_tasks t = mc_tasks s" "mc_chain t = mc_chain s"
    "mc_sockets t = mc_sockets s" "mc_jobs t = mc_jobs s"
  shows "follows s t"
  using assms by (simp add: follows_def)

lemma follows_reject_attempt [followings]: "proper_error e \<Longrightarrow> follows s (fst (reject_attempt n e s))"
  by (auto simp: follows_def reject_attempt_def set_socket_def clearOpeningSocket_def destroy_socket_def
      proper_job_def Let_def)

lemma follows_failConnect [followings]: "follows s (fst (failConnect opts n e s))"
  unfolding failConnect_def by (rule follows_reject_attempt) (simp add: TRANSPORT_ERRORS_def)

lemma follows_connect_timeout [followings]: "follows s (fst (connect_timeout opts n s))"
  unfolding connect_timeout_def by (rule follows_reject_attempt) (simp add: TRANSPORT_ERRORS_def)

lemma follows_socket_connected [followings]: "follows s (fst (socket_connected opts n s))"
  by (auto simp: follows_def socket_connected_def set_socket_def clearOpeningSocket_def destroy_socket_def Let_def)

lemma follows_hello_failed [followings]: "follows s (fst (hello_failed opts n e s))"
  unfolding hello_failed_def by (intro followings)

lemma follows_ready [followings]: "follows s (fst (broker_is_ready n s))"
  by (auto simp: follows_def broker_is_ready_def set_socket_def proper_job_def Let_def)

lemma follows_rejectPending: "proper_error e \<Longrightarrow> follows s (rejectPending e s)"
  by (auto simp: follows_def rejectPending_def proper_job_def)

lemma follows_reject_call: "(\<And>p. proper_error (e p)) \<Longrightarrow> follows s (reject_call e uuid s)"
  by (auto simp: follows_def reject_call_def proper_job_def split: option.split)

lemma follows_closeFromBroker [followings]: "proper_error e \<Longrightarrow> follows s (fst (closeFromBroker e s))"
proof -
  assume e: "proper_error e"
  let ?t = "s\<lparr> mc_closed := True, mc_connectPromise := None, mc_readyCallback := None, mc_opening := None \<rparr>"
  have "follows u (fst (quietly (\<lambda>s. rejectPending e (s\<lparr> mc_socket := None \<rparr>)) u))" for u
    using follows_trans [OF follows_fields follows_rejectPending [OF e], of "u\<lparr> mc_socket := None \<rparr>" u] by simp
  then have "follows ?t (fst (andThen (destroy_optional (mc_opening s))
      (andThen (quietly (\<lambda>s. rejectPending e (s\<lparr> mc_socket := None \<rparr>))) (destroy_optional (mc_socket s))) ?t))"
    by (intro followings)
  then have "follows s (fst (andThen (destroy_optional (mc_opening s))
      (andThen (quietly (\<lambda>s. rejectPending e (s\<lparr> mc_socket := None \<rparr>))) (destroy_optional (mc_socket s))) ?t))"
    by (rule follows_trans [rotated]) (rule follows_fields; simp)
  then show ?thesis by (simp add: closeFromBroker_def Let_def)
qed

lemma follows_close_now [followings]: "follows s (fst (close_now s))"
proof -
  let ?e = "final_error ''BROKER_CLIENT_CLOSED'' ''The MCP adapter disconnected from the broker.''"
  let ?t = "s\<lparr> mc_closed := True, mc_connectPromise := None, mc_opening := None \<rparr>"
  have "follows u (fst (quietly (\<lambda>s. rejectPending ?e (s\<lparr> mc_socket := None, mc_readyCallback := None \<rparr>)) u))" for u
    using follows_trans [OF follows_fields follows_rejectPending,
        of "u\<lparr> mc_socket := None, mc_readyCallback := None \<rparr>" u ?e] by simp
  then have "follows ?t (fst (andThen (destroy_optional (mc_opening s))
      (andThen (quietly (\<lambda>s. rejectPending ?e (s\<lparr> mc_socket := None, mc_readyCallback := None \<rparr>)))
        (end_socket (mc_socket s))) ?t))"
    by (intro followings)
  then have "follows s (fst (andThen (destroy_optional (mc_opening s))
      (andThen (quietly (\<lambda>s. rejectPending ?e (s\<lparr> mc_socket := None, mc_readyCallback := None \<rparr>)))
        (end_socket (mc_socket s))) ?t))"
    by (rule follows_trans [rotated]) (rule follows_fields; simp)
  then show ?thesis by (simp add: close_now_def Let_def)
qed

lemma follows_handleLine [followings]: "follows s (fst (handleLine opts n l s))"
  unfolding handleLine_def
  by (auto simp: followings split: option.split) (auto simp: follows_def proper_job_def)

lemma follows_handle_lines [followings]: "follows s (fst (handle_lines opts n ls s))"
proof (induction ls arbitrary: s)
  case (Cons l ls)
  have "follows s (fst (andThen (if trimEnd l = [] then quietly id else handleLine opts n (trimEnd l))
      (handle_lines opts n ls) s))"
    by (intro followings Cons.IH)
  then show ?case by simp
qed simp

lemma follows_buffer: "follows s (s\<lparr> mc_receiveBuffer := b \<rparr>)"
  by (rule follows_fields) simp_all

lemma follows_handleData [followings]: "follows s (fst (handleData opts n t s))"
  unfolding handleData_def Let_def case_prod_unfold
  by (auto simp: follows_buffer intro: follows_trans [OF follows_buffer follows_handle_lines]
      follows_trans [OF follows_buffer follows_destroy] split: sum.split)

lemma follows_socket_data [followings]: "follows s (fst (socket_data opts n bs s))"
  unfolding socket_data_def case_prod_unfold
  by (rule follows_trans [OF follows_set_socket follows_handleData]) simp

lemma follows_socket_end [followings]: "follows s (fst (socket_end opts n s))"
  unfolding socket_end_def by (intro followings) simp

text \<open>Operations that start waiting for a connection.\<close>

lemma open_attempt_jobs: "open_attempt n s \<Longrightarrow> open_attempt n (add_jobs js s)"
  by (auto simp: open_attempt_def)

lemma tracked_waiting:
  assumes "tracked s" and "case w of Caller t \<Rightarrow> 1 < tk_attempts (mc_tasks s t) \<longrightarrow> transport_lost (mc_tasks s t) | Reconnector \<Rightarrow> True"
    and t: "mc_waiters t = mc_waiters s @ [(n, w)]" "mc_connectPromise t = Some n" "mc_tasks t = mc_tasks s"
      "mc_chain t = mc_chain s" "mc_jobs t = mc_jobs s"
    and old: "\<And>m. open_attempt m s \<Longrightarrow> open_attempt m t" and new: "open_attempt n t"
  shows "tracked t"
proof -
  have con: "connecting c t \<longleftrightarrow> connecting c s \<or> w = Caller c" for c
    by (auto simp: connecting_def t)
  have "transport_lost (mc_tasks s c)" if "connecting c t" "1 < tk_attempts (mc_tasks s c)" for c
    using that assms(1,2) con [of c] by (auto simp: tracked_def)
  moreover have "\<forall>(m, v) \<in> set (mc_waiters t). open_attempt m t"
    using assms(1) old new by (auto simp: tracked_def t)
  ultimately show ?thesis
    using assms(1) new unfolding tracked_def t by simp
qed

lemma tracked_ensureConnected:
  assumes "tracked s"
    and "case w of Caller t \<Rightarrow> 1 < tk_attempts (mc_tasks s t) \<longrightarrow> transport_lost (mc_tasks s t) | Reconnector \<Rightarrow> True"
  shows "tracked (fst (ensureConnected opts w now s))"
proof (cases "usable_socket s")
  case (Some n)
  have "tracked (add_jobs [Connected w (Inr n)] s)"
    using assms by (auto simp: tracked_def connecting_def proper_job_def open_attempt_def split: waiter.splits)
  then show ?thesis using Some by (simp add: ensureConnected_def)
next
  case None
  show ?thesis
  proof (cases "mc_connectPromise s")
    case (Some n)
    then have "open_attempt n s" using assms(1) by (simp add: tracked_def)
    then have "tracked (await_attempt n w s)"
      using Some by (intro tracked_waiting [OF assms]) (simp_all add: await_attempt_def open_attempt_def)
    then show ?thesis using None Some by (simp add: ensureConnected_def)
  next
    case no: None
    let ?n = "mc_nextSocket s"
    let ?t = "(fst (openSocket opts now s))\<lparr> mc_connectPromise := Some ?n \<rparr>"
    have t: "mc_nextSocket ?t = Suc ?n" "mc_waiters ?t = mc_waiters s" "mc_jobs ?t = mc_jobs s"
      "mc_tasks ?t = mc_tasks s" "mc_chain ?t = mc_chain s" "mc_connectPromise ?t = Some ?n"
      "\<not> so_settled (mc_sockets ?t ?n)" "\<forall>m. m \<noteq> ?n \<longrightarrow> mc_sockets ?t m = mc_sockets s m"
      by (simp_all add: openSocket_def Let_def)
    have fresh: "open_attempt ?n ?t" using t by (simp add: open_attempt_def)
    have old: "open_attempt m ?t" if "open_attempt m s" for m
      using that t by (auto simp: open_attempt_def)
    have "open_attempt m (await_attempt ?n w ?t) \<longleftrightarrow> open_attempt m ?t" for m
      by (simp add: open_attempt_def await_attempt_def)
    with fresh old have "tracked (await_attempt ?n w ?t)"
      by (intro tracked_waiting [OF assms]) (simp_all add: await_attempt_def openSocket_def Let_def)
    then show ?thesis using None no by (simp add: ensureConnected_def case_prod_unfold Let_def)
  qed
qed

lemma tracked_reconnecting: "tracked s \<Longrightarrow> tracked (s\<lparr> mc_reconnecting := b \<rparr>)"
  by (rule tracked_follows, assumption) (rule follows_fields; simp)

lemma tracked_reconnect_loop: "tracked s \<Longrightarrow> tracked (fst (reconnect_loop opts now s))"
  by (simp add: reconnect_loop_def tracked_ensureConnected tracked_reconnecting)

lemma tracked_reconnectForever: "tracked s \<Longrightarrow> tracked (fst (reconnectForever opts now s))"
proof -
  assume s: "tracked s"
  have "tracked (s\<lparr> mc_reconnecting := True, mc_delay := RECONNECT_INITIAL_MS \<rparr>)"
    using s by (rule tracked_follows) (rule follows_fields; simp)
  then show ?thesis using s by (simp add: reconnectForever_def tracked_reconnect_loop)
qed

lemma tracked_handleDisconnect:
  "tracked s \<Longrightarrow> proper_error e \<Longrightarrow> tracked (fst (handleDisconnect opts now n e s))"
proof -
  assume s: "tracked s" and e: "proper_error e"
  have "tracked (rejectPending e (s\<lparr> mc_socket := None, mc_receiveBuffer := [] \<rparr>))"
    using s by (rule tracked_follows) (rule follows_trans [OF follows_fields follows_rejectPending [OF e]]; simp)
  then show ?thesis using s by (simp add: handleDisconnect_def Let_def tracked_reconnectForever)
qed

lemma tracked_andThen:
  assumes "\<And>s. tracked s \<Longrightarrow> tracked (fst (f s))" "\<And>s. tracked s \<Longrightarrow> tracked (fst (g s))"
  shows "tracked s \<Longrightarrow> tracked (fst (andThen f g s))"
  using assms by (simp add: fst_andThen)

lemma tracked_socket_error: "tracked s \<Longrightarrow> tracked (fst (socket_error opts now n e s))"
  unfolding socket_error_def
  by (intro tracked_andThen)
    (auto simp: TRANSPORT_ERRORS_def intro: tracked_handleDisconnect tracked_follows [OF _ follows_failConnect]
      tracked_follows [OF _ follows_set_socket])

lemma tracked_socket_closed: "tracked s \<Longrightarrow> tracked (fst (socket_closed opts now n s))"
  unfolding socket_closed_def
  by (intro tracked_andThen)
    (auto simp: TRANSPORT_ERRORS_def intro: tracked_handleDisconnect tracked_follows [OF _ follows_failConnect]
      tracked_follows [OF _ follows_set_socket])

text \<open>The task of a running call can change freely, as far as the pauses allow.\<close>

lemma not_waiting:
  assumes "steady opts (insert (Caller t) R) s"
  shows "\<not> connecting t s" "StartCall t \<notin> set (mc_jobs s)" "t \<notin> set (tl (mc_chain s))"
proof -
  have w: "waits (Caller t) s = 0" by (rule running_call(2) [OF assms])
  then have none: "\<forall>j \<in> set (mc_jobs s). \<not> waits_in_job (Caller t) j" "\<forall>(n, v) \<in> set (mc_waiters s). v \<noteq> Caller t"
    by (auto simp: waits_def filter_empty_conv)
  then show "StartCall t \<notin> set (mc_jobs s)" by (metis waits_in_job_simps(1))
  show "\<not> connecting t s"
  proof
    assume "connecting t s"
    then obtain n r where "(n, Caller t) \<in> set (mc_waiters s) \<or> Connected (Caller t) r \<in> set (mc_jobs s)"
      by (auto simp: connecting_def)
    with none show False by fastforce
  qed
  have "distinct (mc_chain s @ mc_cleanups s)" using assms by (simp add: steady_def calls_ok_def)
  then show "t \<notin> set (tl (mc_chain s))"
    using running_call(1) [OF assms] by (cases "mc_chain s") auto
qed

lemma tracked_task:
  assumes "tracked s" "\<not> connecting t s" "StartCall t \<notin> set (mc_jobs s)" "t \<notin> set (tl (mc_chain s))"
    and "tk_wake (f (mc_tasks s t)) \<noteq> None \<Longrightarrow> transport_lost (f (mc_tasks s t))"
  shows "tracked (set_task t f s)"
proof -
  have "connecting c (set_task t f s) = connecting c s" "open_attempt n (set_task t f s) = open_attempt n s" for c n
    by (simp_all add: connecting_def open_attempt_def set_task_def)
  then show ?thesis
    using assms unfolding tracked_def by (auto simp: set_task_def)
qed

lemma in_set_tl: "x \<in> set (tl xs) \<Longrightarrow> x \<in> set xs"
  by (cases xs) auto

lemma tracked_settle_call:
  assumes "tracked s"
  shows "tracked (fst (settle_call t r s))"
proof -
  have "tracked (add_jobs [FinishClose] (s\<lparr> mc_cleanups := remove1 t (mc_cleanups s) \<rparr>))"
    using assms by (rule tracked_follows) (auto simp: follows_def proper_job_def)
  moreover have "tracked (add_jobs (case rest of [] \<Rightarrow> [] | u # _ \<Rightarrow> [StartCall u]) (s\<lparr> mc_chain := rest \<rparr>))"
    if "mc_chain s = h # rest" for h rest
  proof -
    have "connecting c (add_jobs (case rest of [] \<Rightarrow> [] | u # _ \<Rightarrow> [StartCall u]) (s\<lparr> mc_chain := rest \<rparr>)) =
        connecting c s" for c
      by (auto simp: connecting_def split: list.split)
    moreover have "open_attempt n (add_jobs (case rest of [] \<Rightarrow> [] | u # _ \<Rightarrow> [StartCall u]) (s\<lparr> mc_chain := rest \<rparr>))"
      if "open_attempt n s" for n
      using that by (auto simp: open_attempt_def split: list.split)
    ultimately show ?thesis
      using assms that unfolding tracked_def
      by (cases rest) (auto simp: proper_job_def dest: in_set_tl)
  qed
  ultimately show ?thesis by (auto simp: settle_call_def split: list.split)
qed

lemma tracked_recovery_loop:
  assumes "tracked s" "steady opts (insert (Caller t) R) (awake t s)"
    and "0 < tk_attempts (mc_tasks s t) \<Longrightarrow> transport_lost (mc_tasks s t)"
  shows "tracked (fst (recovery_loop opts t now s))"
proof -
  have idle: "\<not> connecting t s" "StartCall t \<notin> set (mc_jobs s)" "t \<notin> set (tl (mc_chain s))"
    using not_waiting [OF assms(2)] by (simp_all add: connecting_def awake_def set_task_def)
  let ?t = "set_task t (\<lambda>k. k\<lparr> tk_wake := None, tk_attempts := tk_attempts k + 1 \<rparr>) s"
  have "tracked ?t" by (rule tracked_task [OF assms(1) idle]) simp
  moreover have "1 < tk_attempts (mc_tasks ?t t) \<longrightarrow> transport_lost (mc_tasks ?t t)"
    using assms(3) by (simp add: set_task_def transport_lost_def)
  ultimately have "tracked (fst (ensureConnected opts (Caller t) now ?t))"
    by (intro tracked_ensureConnected) simp_all
  moreover have "tracked (set_task t (\<lambda>k. k\<lparr> tk_wake := None \<rparr>) s)"
    by (rule tracked_task [OF assms(1) idle]) simp
  ultimately show ?thesis by (simp add: recovery_loop_def Let_def tracked_settle_call)
qed

lemma tracked_start_task:
  assumes "tracked s" "steady opts (insert (Caller t) R) s" "tk_attempts (mc_tasks s t) = 0"
  shows "tracked (fst (start_task opts t now s))"
proof -
  let ?t = "set_task t (\<lambda>k. k\<lparr> tk_deadline := now + tk_timeout k \<rparr>) s"
  have "tk_wake (mc_tasks s t) = None"
    using running_call(2) [OF assms(2)] by (simp add: waits_def own_wait_def)
  then have "tracked ?t" by (intro tracked_task assms(1) not_waiting [OF assms(2)]) simp
  moreover have "steady opts (insert (Caller t) R) (awake t ?t)"
    by (intro steady_awake_running steady_set_task assms(2)) simp
  moreover have "tk_attempts (mc_tasks ?t t) = 0" using assms(3) by (simp add: set_task_def)
  ultimately show ?thesis unfolding start_task_def by (intro tracked_recovery_loop) simp_all
qed

lemma tracked_attempt_failed:
  assumes "tracked s" "steady opts (insert (Caller t) R) s" "proper_error e"
  shows "tracked (fst (attempt_failed t e now s))"
proof -
  let ?t = "set_task t (\<lambda>k. k\<lparr> tk_lastError := Some e \<rparr>) s"
  have "tk_wake (mc_tasks s t) = None"
    using running_call(2) [OF assms(2)] by (simp add: waits_def own_wait_def)
  then have t: "tracked ?t" by (intro tracked_task assms(1) not_waiting [OF assms(2)]) simp
  have idle: "\<not> connecting t ?t" "StartCall t \<notin> set (mc_jobs ?t)" "t \<notin> set (tl (mc_chain ?t))"
    using not_waiting [OF assms(2)] by (simp_all add: connecting_def set_task_def)
  have "tracked (set_task t (\<lambda>k. k\<lparr> tk_wake := Some (now + backoff (tk_attempts k)) \<rparr>) ?t)"
    if "isRecoverableBrokerError e"
    by (rule tracked_task [OF t idle])
      (use that assms(3) in \<open>simp add: set_task_def transport_lost_def proper_error_def isRecoverableBrokerError_def\<close>)
  then show ?thesis using t by (simp add: attempt_failed_def Let_def tracked_settle_call)
qed

lemma follows_sendOnce: "follows s (fst (sendOnce opts n t now s))"
  by (simp add: follows_def sendOnce_def Let_def)

lemma tracked_connected:
  assumes "tracked s" "steady opts {w} s" "proper_job (Connected w r)"
  shows "tracked (fst (connected opts w r now s))"
proof (cases w)
  case (Caller t)
  with assms(2) have "steady opts (insert (Caller t) {}) s" by simp
  then show ?thesis
    using Caller assms(1,3) tracked_attempt_failed tracked_follows [OF assms(1) follows_sendOnce]
    by (simp add: connected_def proper_job_def split: sum.splits)
next
  case Reconnector
  have "tracked (s\<lparr> mc_retry := d \<rparr>)" for d
    using assms(1) by (rule tracked_follows) (rule follows_fields; simp)
  then show ?thesis
    using Reconnector tracked_reconnecting [OF assms(1)] by (simp add: connected_def split: sum.split)
qed

lemma tracked_answered:
  assumes "tracked s" "steady opts (insert (Caller t) R) s" "proper_job (Answered t r)"
  shows "tracked (fst (answered t r now s))"
  using assms tracked_attempt_failed tracked_settle_call [OF assms(1)]
  by (simp add: answered_def proper_job_def split: sum.splits)

lemma tracked_retry_due: "tracked s \<Longrightarrow> tracked (fst (retry_due opts now s))"
  unfolding retry_due_def
  by (rule tracked_reconnect_loop, erule tracked_follows) (rule follows_fields; simp)

lemma tracked_new_task:
  assumes "tracked s" "steady opts R s" "tk_wake k = None"
  shows "tracked (s\<lparr> mc_nextTask := Suc (mc_nextTask s), mc_tasks := (mc_tasks s)(mc_nextTask s := k) \<rparr>)"
    (is "tracked ?t")
proof -
  let ?n = "mc_nextTask s"
  have w: "waits (Caller ?n) s = 0" by (rule fresh_task(2) [OF assms(2)])
  have "\<not> connecting ?n s"
  proof
    assume "connecting ?n s"
    with w show False by (fastforce simp: connecting_def waits_def filter_empty_conv)
  qed
  moreover have "StartCall ?n \<notin> set (mc_jobs s)"
    using w by (fastforce simp: waits_def filter_empty_conv)
  moreover have "?n \<notin> set (tl (mc_chain s))" using fresh_task(1) [OF assms(2)] by (auto dest: in_set_tl)
  ultimately have "tracked (set_task ?n (\<lambda>_. k) s)" using assms(3) by (intro tracked_task assms(1)) simp_all
  then show ?thesis by (simp add: set_task_def tracked_def connecting_def open_attempt_def)
qed

lemma tracked_request:
  assumes "tracked s" "steady opts {} s"
  shows "tracked (fst (request opts m p d s))"
proof -
  let ?n = "mc_nextTask s" and ?k = "new_task m p (case d of None \<Rightarrow> co_requestTimeoutMs opts | Some ms \<Rightarrow> ms)"
  let ?t = "s\<lparr> mc_nextTask := Suc ?n, mc_tasks := (mc_tasks s)(?n := ?k) \<rparr>"
  let ?u = "add_jobs (if mc_chain s = [] then [StartCall ?n] else []) (?t\<lparr> mc_chain := mc_chain s @ [?n] \<rparr>)"
  have t: "tracked ?t"
    by (rule tracked_new_task [OF assms]) (simp add: new_task_def no_task_def)
  have "connecting c ?u = connecting c ?t" "open_attempt n ?t \<Longrightarrow> open_attempt n ?u" for c n
    by (auto simp: connecting_def open_attempt_def)
  moreover have "tk_attempts ?k = 0" by (simp add: new_task_def no_task_def)
  ultimately have "tracked ?u"
    using t unfolding tracked_def by (cases "mc_chain s") (auto simp: proper_job_def)
  then show ?thesis using assms(1) by (simp add: request_def Let_def)
qed

lemma tracked_close_client:
  assumes "tracked s" "steady opts {} s"
  shows "tracked (fst (close_client opts c now s))"
proof -
  let ?n = "mc_nextTask s" and ?k = "new_task ''vm_unlock'' [(''force'', JBool True)] 5000"
  let ?t = "s\<lparr> mc_nextTask := Suc ?n, mc_tasks := (mc_tasks s)(?n := ?k) \<rparr>"
  let ?u = "s\<lparr> mc_nextTask := ?n + 1, mc_tasks := (mc_tasks s)(?n := ?k), mc_cleanups := mc_cleanups s @ [?n] \<rparr>"
  have "tracked ?t" by (rule tracked_new_task [OF assms]) (simp add: new_task_def no_task_def)
  then have "tracked ?u" by (rule tracked_follows) (rule follows_fields; simp)
  moreover have "tk_attempts (mc_tasks ?u ?n) = 0" by (simp add: new_task_def no_task_def)
  ultimately show ?thesis
    using tracked_start_task [OF _ steady_cleanup_begins [OF assms(2)]]
      tracked_follows [OF assms(1) follows_close_now] assms(1)
    by (simp add: close_client_def Let_def)
qed

lemma set_take_job: "i < length (mc_jobs s) \<Longrightarrow> set (mc_jobs s) = insert (mc_jobs s ! i) (set (mc_jobs (take_job i s)))"
  by (simp add: take_job_def) (metis id_take_nth_drop insert_commute list.simps(15) set_append Un_insert_right)

lemma take_job_fields [simp]:
  "mc_waiters (take_job i s) = mc_waiters s" "mc_tasks (take_job i s) = mc_tasks s"
  "mc_chain (take_job i s) = mc_chain s" "mc_connectPromise (take_job i s) = mc_connectPromise s"
  "mc_nextSocket (take_job i s) = mc_nextSocket s" "mc_sockets (take_job i s) = mc_sockets s"
  by (simp_all add: take_job_def)

lemma tracked_take_job:
  assumes "tracked s" "i < length (mc_jobs s)" "\<And>n r. mc_jobs s ! i \<noteq> Attempted n r"
  shows "tracked (take_job i s)"
proof -
  note jobs = set_take_job [OF assms(2)]
  have "open_attempt n (take_job i s)" if "open_attempt n s" for n
    using that assms(3) [of n] unfolding open_attempt_def jobs by auto (metis assms(3))
  moreover have "connecting c (take_job i s) \<Longrightarrow> connecting c s" for c
    unfolding connecting_def jobs by auto
  ultimately show ?thesis using assms(1) unfolding tracked_def jobs by auto
qed

lemma tracked_attempted:
  assumes "tracked s" "i < length (mc_jobs s)" "mc_jobs s ! i = Attempted n r"
  shows "tracked (fst (run_job opts now (Attempted n r) (take_job i s)))" (is "tracked ?t")
proof -
  note jobs = set_take_job [OF assms(2), unfolded assms(3)]
  have t: "mc_waiters ?t = filter (\<lambda>(m, w). m \<noteq> n) (mc_waiters s)" "mc_tasks ?t = mc_tasks s"
    "mc_chain ?t = mc_chain s" "mc_connectPromise ?t = None" "mc_nextSocket ?t = mc_nextSocket s"
    "mc_sockets ?t = mc_sockets s"
    "set (mc_jobs ?t) = set (mc_jobs (take_job i s)) \<union> (\<lambda>w. Connected w r) ` {w. (n, w) \<in> set (mc_waiters s)}"
    by (auto simp: run_job_def)
  have "open_attempt m ?t" if "open_attempt m s" "m \<noteq> n" for m
    using that unfolding open_attempt_def jobs t by auto
  moreover have "connecting c ?t \<Longrightarrow> connecting c s" for c
    unfolding connecting_def jobs t by auto
  moreover have "proper_job (Attempted n r)" using assms(1) unfolding tracked_def jobs by blast
  then have "proper_job (Connected w r)" for w by (simp add: proper_job_def)
  ultimately show ?thesis using assms(1) unfolding tracked_def jobs t by auto
qed

lemma tracked_run_job:
  assumes "tracked s" "steady opts {} s" "i < length (mc_jobs s)"
  shows "tracked (fst (run_job opts now (mc_jobs s ! i) (take_job i s)))"
proof (cases "mc_jobs s ! i")
  case (Attempted n r)
  then show ?thesis using tracked_attempted [OF assms(1,3)] by simp
next
  case (StartCall t)
  have "tracked (take_job i s)" by (rule tracked_take_job [OF assms(1,3)]) (simp add: StartCall)
  moreover have "tk_attempts (mc_tasks s t) = 0"
    using assms(1) nth_mem [OF assms(3)] StartCall by (auto simp: tracked_def)
  ultimately show ?thesis
    using StartCall steady_take_job [OF assms(2,3)] tracked_start_task [of _ opts t "{}"] by (simp add: run_job_def)
next
  case (Connected w r)
  have "tracked (take_job i s)" by (rule tracked_take_job [OF assms(1,3)]) (simp add: Connected)
  moreover have "proper_job (Connected w r)" using assms(1) nth_mem [OF assms(3)] Connected by (auto simp: tracked_def)
  ultimately show ?thesis
    using Connected steady_take_job [OF assms(2,3)] tracked_connected [of _ opts w r] by (simp add: run_job_def)
next
  case (Answered t r)
  have "tracked (take_job i s)" by (rule tracked_take_job [OF assms(1,3)]) (simp add: Answered)
  moreover have "proper_job (Answered t r)" using assms(1) nth_mem [OF assms(3)] Answered by (auto simp: tracked_def)
  ultimately show ?thesis
    using Answered steady_take_job [OF assms(2,3)] tracked_answered [of _ opts t "{}" r] by (simp add: run_job_def)
next
  case FinishClose
  have "tracked (take_job i s)" by (rule tracked_take_job [OF assms(1,3)]) (simp add: FinishClose)
  then show ?thesis using FinishClose tracked_follows [OF _ follows_close_now] by (simp add: run_job_def)
qed

lemma tracked_client_event:
  assumes "tracked s" "steady opts {} s" "enabled now ev s"
  shows "tracked (fst (client_event opts now ev s))"
proof (cases ev)
  case (TaskTimer t)
  then have wake: "tk_wake (mc_tasks s t) \<noteq> None" using assms(3) by (simp add: enabled_def is_due_def split: option.splits)
  then have "transport_lost (mc_tasks s t)" using assms(1) by (simp add: tracked_def)
  with TaskTimer wake show ?thesis
    using tracked_recovery_loop [OF assms(1), of opts t "{}"] steady_wakes [OF assms(2)] by (simp add: client_event_def)
qed (use assms(1,2) in \<open>simp_all add: client_event_def request_timer_def write_failed_def TRANSPORT_ERRORS_def
    tracked_follows [OF _ follows_reject_call] tracked_request tracked_close_client tracked_socket_error
    tracked_socket_closed tracked_retry_due followings tracked_follows [OF assms(1)]\<close>)

lemma tracked_run: "client_run opts s es \<Longrightarrow> inj (co_uuid opts) \<Longrightarrow> tracked s"
proof (induction rule: client_run.induct)
  case client_start
  show ?case by (simp add: tracked_def new_client_def connecting_def no_task_def)
next
  case (client_next s es fs t)
  then have s: "tracked s" "steady opts {} s" using steady_run by blast+
  from client_next.hyps(2) show ?case
  proof cases
    case (job_step i now)
    then show ?thesis using tracked_run_job [OF s] by (metis fst_conv)
  next
    case (event_step now ev)
    then show ?thesis using tracked_client_event [OF s] by (metis fst_conv)
  qed
qed

end
