(* ===== verification/Mcp_Client_Runs.thy ===== *)
theory Mcp_Client_Runs
  imports Mcp_Client_Props
begin

text \<open>
  What runs of the reconnecting client guarantee, and a run in which a request is sent a second time
  although nothing was lost.
\<close>

subsection \<open>Example runs\<close>

text \<open>A script: at each time an event, or the oldest job.\<close>

fun client_play :: "client_options \<Rightarrow> (int \<times> client_event option) list \<Rightarrow> client_result \<Rightarrow> client_result option" where
  "client_play opts [] r = Some r"
| "client_play opts ((now, e) # sc) (s, es) =
     (case e of
        Some ev \<Rightarrow>
          if mc_jobs s = [] \<and> enabled now ev s
          then (let r = client_event opts now ev s in client_play opts sc (fst r, es @ snd r)) else None
      | None \<Rightarrow>
          if mc_jobs s = [] then None
          else (let r = run_job opts now (mc_jobs s ! 0) (take_job 0 s) in client_play opts sc (fst r, es @ snd r)))"

lemma client_play_run:
  "client_play opts sc (s, es) = Some (t, fs) \<Longrightarrow> client_run opts s es \<Longrightarrow> client_run opts t fs"
proof (induction sc arbitrary: s es)
  case (Cons a sc)
  obtain now e where a: "a = (now, e)" by (cases a)
  show ?case
  proof (cases e)
    case None
    let ?r = "run_job opts now (mc_jobs s ! 0) (take_job 0 s)"
    have jobs: "0 < length (mc_jobs s)" and rest: "client_play opts sc (fst ?r, es @ snd ?r) = Some (t, fs)"
      using Cons.prems(1) None a by (auto simp: Let_def split: if_splits)
    have "client_step opts s (snd ?r) (fst ?r)" using jobs by (rule job_step) simp
    then show ?thesis using Cons.IH [OF rest] Cons.prems(2) client_next by blast
  next
    case (Some ev)
    let ?r = "client_event opts now ev s"
    have ok: "mc_jobs s = []" "enabled now ev s" and rest: "client_play opts sc (fst ?r, es @ snd ?r) = Some (t, fs)"
      using Cons.prems(1) Some a by (auto simp: Let_def split: if_splits)
    have "client_step opts s (snd ?r) (fst ?r)" using ok by (rule event_step) simp
    then show ?thesis using Cons.IH [OF rest] Cons.prems(2) client_next by blast
  qed
qed simp

definition play_line :: "ustring \<Rightarrow> js option" where
  "play_line l =
     (if l = [114] then Some (JObj [(''kind'', JStr ''broker_ready''), (''sessionId'', JStr ''session-a'')])
      else if l = [48] then Some (JObj [(''kind'', JStr ''broker_response''), (''id'', JStr []),
        (''result'', JObj [(''ok'', JBool True), (''code'', JStr ''OK''), (''message'', JStr [])])])
      else None)"

definition play_options :: client_options where
  "play_options = \<lparr> co_sessionId = ''session-a'', co_sessionLabel = ''a'', co_endpoint = ''p'',
     co_connectTimeoutMs = DEFAULT_CONNECT_TIMEOUT_MS, co_requestTimeoutMs = DEFAULT_REQUEST_TIMEOUT_MS,
     co_maxLineBytes = DEFAULT_MAX_LINE_BYTES, co_parse = play_line, co_uuid = (\<lambda>k. replicate k CHR ''u'') \<rparr>"

lemma play_uuid [simp]: "inj (co_uuid play_options)"
  by (rule injI) (metis (no_types, lifting) client_options.select_convs(8) length_replicate play_options_def)

text \<open>A connection is made, a request is sent, and the answer arrives.\<close>

definition play_begin :: "(int \<times> client_event option) list" where
  "play_begin = [(0, Some (CallRequest ''shell_exec'' [] None)), (0, None), (5, Some (SocketConnect 0)),
     (9, Some (SocketData 0 [114, 10])), (9, None), (9, None)]"

lemma client_run_start: "client_play opts sc (new_client, []) = Some (t, fs) \<Longrightarrow> client_run opts t fs"
  using client_play_run client_start by blast

lemmas play_simps = play_options_def play_line_def new_client_def enabled_def client_event_def run_job_def take_job_def
  request_def new_task_def no_task_def no_socket_def start_task_def recovery_loop_def set_task_def ensureConnected_def
  usable_socket_def openSocket_def await_attempt_def socket_connected_def set_socket_def clearOpeningSocket_def
  socket_data_def handleData_def handleLine_def broker_is_ready_def add_jobs_def connected_def sendOnce_def
  quietly_def andThen_def answered_def settle_call_def add_recovery_def attempt_failed_def destroy_socket_def
  socket_error_def failConnect_def reject_attempt_def handleDisconnect_def rejectPending_def reconnectForever_def
  reconnect_loop_def client_error_def isRecoverableBrokerError_def backoff_def is_due_def hello_line_def
  request_line_def isBrokerSessionClosed_def isBrokerReady_def isBrokerProgress_def isBrokerResponse_def of_session_def
  is_kind_def member_def trimEnd_def is_space_def newline_def next_line_def line_loop.simps byteLength_def utf8_length_def
  utf8_step_def first_byte_def between_characters_def DEFAULT_CONNECT_TIMEOUT_MS_def DEFAULT_REQUEST_TIMEOUT_MS_def
  DEFAULT_MAX_LINE_BYTES_def RECONNECT_INITIAL_MS_def RECONNECT_MAX_MS_def

lemma play_begins:
  "\<exists>s es. client_play play_options play_begin (new_client, []) = Some (s, es) \<and> mc_chain s = [0] \<and>
     accepted es = [0] \<and> settled es = [] \<and> mc_jobs s = []"
  by (simp add: play_begin_def play_simps)

text \<open>The answer is a line that is not JSON; the rest is the client's own doing.\<close>

definition play_unreadable :: "(int \<times> client_event option) list" where
  "play_unreadable = play_begin @
     [(20, Some (SocketData 0 [120, 10])), (20, Some (SocketError 0 ''invalid JSON'')), (20, None),
      (30, Some (SocketConnect 1)), (35, Some (SocketData 1 [114, 10])), (35, None), (35, None),
      (300, Some (TaskTimer 0)), (300, None)]"


subsection \<open>Guarantees\<close>

text \<open>
  C10. In every run, each call of \<open>request\<close> settles at most once, and the
  calls settle in the order in which they were made: those settled so far, followed by those in the request
  chain, are all the calls accepted.
\<close>

theorem calls_settle_in_order:
  assumes "client_run opts s es" "inj (co_uuid opts)"
  shows "distinct (settled es) \<and> filter (\<lambda>t. t \<in> set (accepted es)) (settled es) @ mc_chain s = accepted es"
  using ordered_run [OF assms] by (simp add: ordered_def)

theorem calls_settle_in_order_witness:
  "\<exists>s es. client_run play_options s es \<and> accepted es = [0] \<and>
     filter (\<lambda>t. t \<in> set (accepted es)) (settled es) @ mc_chain s = [0]"
proof -
  obtain s es where r: "client_play play_options play_begin (new_client, []) = Some (s, es)"
    and a: "accepted es = [0]"
    using play_begins by blast
  from r have run: "client_run play_options s es" by (rule client_run_start)
  from calls_settle_in_order [OF run play_uuid] a run show ?thesis by (intro exI [of _ s] exI [of _ es]) simp
qed

text \<open>
  C11. In every reachable state, a call that has begun, and the reconnecting
  loop while it runs, waits for exactly one thing: a job that will run, a pause, a response with its timer, or
  a connection attempt, and that attempt is either still open, so that its timer will end it, or its outcome
  is a job already.
\<close>

theorem calls_never_stranded:
  assumes "client_run opts s es" "inj (co_uuid opts)" "begun w s"
  shows "waits w s = 1 \<and>
    (\<forall>n. (n, w) \<in> set (mc_waiters s) \<longrightarrow>
       n < mc_nextSocket s \<and> (\<not> so_settled (mc_sockets s n) \<or> (\<exists>r. Attempted n r \<in> set (mc_jobs s))))"
  using steadyD [OF steady_run [OF assms(1,2)], of w] tracked_run [OF assms(1,2)] assms(3)
  by (auto simp: tracked_def open_attempt_def)

theorem calls_never_stranded_witness:
  "\<exists>s es. client_run play_options s es \<and> waits (Caller 0) s = 1"
proof -
  obtain s es where r: "client_play play_options play_begin (new_client, []) = Some (s, es)"
    and c: "mc_chain s = [0]"
    using play_begins by blast
  from r have run: "client_run play_options s es" by (rule client_run_start)
  have "begun (Caller 0) s" using c by (simp add: begun_def)
  from calls_never_stranded [OF run play_uuid this] run show ?thesis by blast
qed

text \<open>Requests are sent by one kind of job only.\<close>

lemma silent_requests: "silent s r \<Longrightarrow> requests (snd r) = []"
  by (simp add: silent_def)

lemma requests_settle_call [simp]: "requests (snd (settle_call t r s)) = []"
  by (simp add: settle_call_def split: list.split)

lemma requests_recovery_loop [simp]: "requests (snd (recovery_loop opts t now s)) = []"
  by (simp add: recovery_loop_def Let_def silent_requests [OF silent_ensureConnected])

lemma requests_attempt_failed [simp]: "requests (snd (attempt_failed t e now s)) = []"
  by (simp add: attempt_failed_def Let_def)

lemma requests_client_event: "requests (snd (client_event opts now ev s)) = []"
  by (cases ev)
    (simp_all add: client_event_def request_def close_client_def start_task_def Let_def connect_timeout_def
      silences [THEN silent_requests])

lemma requests_run_job:
  assumes "v \<in> set (requests (snd (run_job opts now j s)))"
  shows "\<exists>c n. j = Connected (Caller c) (Inr n) \<and> v = request_line opts (co_uuid opts (mc_nextId s)) (mc_tasks s c)"
  using assms
  by (auto simp: run_job_def start_task_def connected_def answered_def sendOnce_def Let_def
      silent_requests [OF silent_close_now] split: job.splits waiter.splits sum.splits if_splits)

lemma requests_in: "Written n v \<in> set fs \<Longrightarrow> is_kind v ''broker_request'' \<Longrightarrow> v \<in> set (requests fs)"
  by (induction fs) (auto simp: requests_def List.map_filter_def)

lemma step_sends:
  assumes "client_step opts s fs t" "v \<in> set (requests fs)"
  shows "\<exists>c m uuid. Connected (Caller c) (Inr m) \<in> set (mc_jobs s) \<and> v = request_line opts uuid (mc_tasks s c)"
  using assms(1)
proof cases
  case (job_step i now)
  then have "v \<in> set (requests (snd (run_job opts now (mc_jobs s ! i) (take_job i s))))" using assms(2) by simp
  from requests_run_job [OF this] job_step(1) show ?thesis by (metis nth_mem take_job_fields(2))
next
  case (event_step now ev)
  then show ?thesis using assms(2) requests_client_event [of opts now ev s] by simp
qed

lemma sender_alone:
  assumes "steady opts {} s" "Connected w r \<in> set (mc_jobs s)"
  shows "begun w s" "waits w s = 1" "own_wait w s = 0"
proof -
  have "0 < length (filter (waits_in_job w) (mc_jobs s))" using assms(2) by (force simp: filter_empty_conv)
  moreover have "waits w s = (if begun w s then 1 else 0)" using steadyD [OF assms(1), of w] by simp
  ultimately show "begun w s" "waits w s = 1" "own_wait w s = 0"
    unfolding waits_def by (simp_all del: length_greater_0_conv split: if_splits)
qed

text \<open>
  C9. Every request that a step writes belongs to a call that has
  begun and waits for nothing else; and from the second attempt on, the last error of that call was a
  retryable one of the connection: a request that timed out, or that was answered, is never sent again.
\<close>

theorem replay_needs_lost_connection:
  assumes "client_run opts s es" "inj (co_uuid opts)" "client_step opts s fs t"
    and "Written n v \<in> set fs" "is_kind v ''broker_request''"
  shows "\<exists>c uuid. v = request_line opts uuid (mc_tasks s c) \<and> begun (Caller c) s \<and> waits (Caller c) s = 1 \<and>
     (\<forall>p \<in> set (mc_pending s). pc_task p \<noteq> c) \<and>
     (1 < tk_attempts (mc_tasks s c) \<longrightarrow>
        (\<exists>e. tk_lastError (mc_tasks s c) = Some e \<and> er_retryable e \<and> er_code e \<in> set TRANSPORT_ERRORS))"
proof -
  obtain c m uuid where job: "Connected (Caller c) (Inr m) \<in> set (mc_jobs s)"
    and line: "v = request_line opts uuid (mc_tasks s c)"
    using step_sends [OF assms(3) requests_in [OF assms(4,5)]] by blast
  note alone = sender_alone [OF steady_run [OF assms(1,2)] job]
  have "connecting c s" using job by (auto simp: connecting_def)
  then have "1 < tk_attempts (mc_tasks s c) \<longrightarrow> transport_lost (mc_tasks s c)"
    using tracked_run [OF assms(1,2)] by (simp add: tracked_def)
  then have lost: "1 < tk_attempts (mc_tasks s c) \<longrightarrow>
      (\<exists>e. tk_lastError (mc_tasks s c) = Some e \<and> er_retryable e \<and> er_code e \<in> set TRANSPORT_ERRORS)"
    by (simp add: transport_lost_def split: option.splits)
  have none: "\<forall>p \<in> set (mc_pending s). pc_task p \<noteq> c"
    using alone(3) by (simp add: own_wait_def filter_empty_conv)
  from line alone(1,2) none lost show ?thesis by blast
qed

theorem replay_needs_lost_connection_witness:
  "\<exists>s t fs v c uuid. client_step play_options s fs t \<and> Written 1 v \<in> set fs \<and>
     v = request_line play_options uuid (mc_tasks s c) \<and> waits (Caller c) s = 1"
proof -
  have "\<exists>s es v fs. client_play play_options (butlast play_unreadable) (new_client, []) = Some (s, es) \<and>
      mc_jobs s \<noteq> [] \<and> snd (run_job play_options 300 (mc_jobs s ! 0) (take_job 0 s)) = fs \<and>
      Written 1 v \<in> set fs \<and> is_kind v ''broker_request''"
    by (simp add: play_unreadable_def play_begin_def play_simps Let_def butlast_append)
  then obtain s es v where r: "client_play play_options (butlast play_unreadable) (new_client, []) = Some (s, es)"
    and j: "mc_jobs s \<noteq> []"
    and v: "Written 1 v \<in> set (snd (run_job play_options 300 (mc_jobs s ! 0) (take_job 0 s)))"
      "is_kind v ''broker_request''"
    by blast
  let ?r = "run_job play_options 300 (mc_jobs s ! 0) (take_job 0 s)"
  have step: "client_step play_options s (snd ?r) (fst ?r)" using j by (intro job_step [of 0]) simp_all
  from replay_needs_lost_connection [OF client_run_start [OF r] play_uuid step v] step v(1)
  show ?thesis by blast
qed

end
