(* ===== verification/Mcp_Server.thy ===== *)
theory Mcp_Server
  imports Messages Mcp_Client
begin

text \<open>
  What \<open>src/mcp/server.ts\<close> computes around a call of the broker: how long the adapter waits for the
  answer of a tool, and the result it returns to its own caller. The tool list with its schemas is data
  of libraries and is not modelled; a call has passed its schema.
\<close>

subsection \<open>Time limits\<close>

definition MAX_INPUT_RUNTIME_MS :: jsnum where "MAX_INPUT_RUNTIME_MS = Fin (30 * 60 * 1000)"
definition TOOL_TIMEOUT_MARGIN_MS :: jsnum where "TOOL_TIMEOUT_MARGIN_MS = Fin 30000"

definition numericTimeout :: "js \<Rightarrow> jsnum \<Rightarrow> jsnum \<Rightarrow> jsnum option" where
  "numericTimeout value multiplier margin =
     (case value of JNum n \<Rightarrow> Some (num_add (num_mul n multiplier) margin) | _ \<Rightarrow> None)"

definition nonNegativeNumber :: "js \<Rightarrow> jsnum \<Rightarrow> jsnum" where
  "nonNegativeNumber value fallback =
     (case value of JNum (Fin q) \<Rightarrow> num_max (Fin 0) (Fin q) | _ \<Rightarrow> fallback)"

text \<open>The text's code points are its code units here: the model's characters are below 256.\<close>

definition estimateKeyboardRuntime :: "string \<Rightarrow> jsnum \<Rightarrow> jsnum" where
  "estimateKeyboardRuntime t intervalMs = num_mul (num_nat (length t)) intervalMs"

definition action_runtime :: "js \<Rightarrow> jsnum" where
  "action_runtime v =
     (let type = member v ''type'' in
      if type = JStr ''delay'' then nonNegativeNumber (member v ''milliseconds'') (Fin 0)
      else if type = JStr ''mouse_move'' then nonNegativeNumber (member v ''duration_ms'') (Fin 0)
      else if type = JStr ''mouse_drag'' then nonNegativeNumber (member v ''duration_ms'') (Fin 500)
      else if type = JStr ''mouse_click'' then
        clicks_ms (nonNegativeNumber (member v ''click_count'') (Fin 1))
          (nonNegativeNumber (member v ''interval_ms'') (Fin 100))
      else if type = JStr ''keyboard_type'' then
        estimateKeyboardRuntime (text_of (member v ''text'')) (nonNegativeNumber (member v ''interval_ms'') (Fin 10))
      else Fin 0)"

text \<open>The loop stops as soon as the total exceeds the limit.\<close>

fun batch_runtime :: "jsnum \<Rightarrow> js list \<Rightarrow> jsnum" where
  "batch_runtime t [] = t"
| "batch_runtime t (v # vs) =
     (if \<not> is_record v then batch_runtime t vs
      else
        let t' = (if is_string (member v ''type'') then num_add t (action_runtime v) else t) in
        if \<not> num_le t' MAX_INPUT_RUNTIME_MS \<and> t' \<noteq> NaN then t' else batch_runtime t' vs)"

definition estimateInputBatchRuntime :: "js list \<Rightarrow> jsnum" where
  "estimateInputBatchRuntime actions = batch_runtime (Fin 0) actions"

definition estimateToolInputRuntime :: "string \<Rightarrow> params \<Rightarrow> jsnum option" where
  "estimateToolInputRuntime meth params =
     (if meth = ''mouse_move'' then Some (nonNegativeNumber (jsget params ''duration_ms'') (Fin 0))
      else if meth = ''mouse_drag'' then Some (nonNegativeNumber (jsget params ''duration_ms'') (Fin 500))
      else if meth = ''mouse_click'' then
        Some (clicks_ms (nonNegativeNumber (jsget params ''click_count'') (Fin 1))
          (nonNegativeNumber (jsget params ''interval_ms'') (Fin 100)))
      else if meth = ''keyboard_type'' then
        Some (estimateKeyboardRuntime (text_of (jsget params ''text''))
          (nonNegativeNumber (jsget params ''interval_ms'') (Fin 10)))
      else if meth = ''input_batch'' then
        Some (estimateInputBatchRuntime (case jsget params ''actions'' of JArr acts \<Rightarrow> acts | _ \<Rightarrow> []))
      else None)"

definition brokerTimeout :: "string \<Rightarrow> params \<Rightarrow> jsnum option" where
  "brokerTimeout meth params =
     (if meth = ''vm_wait'' then numericTimeout (jsget params ''wait_seconds'') (Fin 1000) (Fin 30000)
      else if meth = ''shell_exec'' \<or> meth = ''process_wait''
      then numericTimeout (jsget params ''timeout_ms'') (Fin 1) (Fin 30000)
      else if meth = ''shell_read'' then numericTimeout (jsget params ''wait_ms'') (Fin 1) (Fin 30000)
      else
        case estimateToolInputRuntime meth params of
          Some inputRuntime \<Rightarrow> Some (num_add inputRuntime TOOL_TIMEOUT_MARGIN_MS)
        | None \<Rightarrow> None)"

definition hasCompleteOptionalPoint :: "js \<Rightarrow> bool" where
  "hasCompleteOptionalPoint v \<longleftrightarrow> (member v ''x'' = JUndef) = (member v ''y'' = JUndef)"

subsection \<open>Results\<close>

text \<open>\<open>JSON.stringify(value, null, 2)\<close> is the argument \<open>pretty\<close>.\<close>

definition text_content :: "(js \<Rightarrow> string) \<Rightarrow> js \<Rightarrow> js" where
  "text_content pretty v = JObj [(''type'', JStr ''text''), (''text'', JStr (pretty v))]"

definition spread :: "js \<Rightarrow> params" where
  "spread v = (case v of JObj r \<Rightarrow> r | _ \<Rightarrow> [])"

definition brokerResponseToMcp :: "(js \<Rightarrow> string) \<Rightarrow> js \<Rightarrow> js" where
  "brokerResponseToMcp pretty response =
     (let result = member response ''result''; image = member response ''image'' in
      JObj [(''content'', JArr (text_content pretty result #
              (if is_record image
               then [JObj [(''type'', JStr ''image''), (''mimeType'', member image ''mimeType''),
                       (''data'', member image ''data'')]]
               else []))),
            (''structuredContent'', JObj (jsput ''imageIncluded'' (JBool (image \<noteq> JUndef)) (spread result))),
            (''isError'', JBool (member result ''ok'' \<noteq> JBool True))])"

definition adapter_remediation :: string where
  "adapter_remediation =
     ''Confirm the broker is running and WIN98_MCP_PIPE points to its named pipe. If this session may still own a broker-side lease, reconnect and call vm_unlock.''"

text \<open>An error of the client keeps its code; any other error is given by its message.\<close>

definition localErrorToMcp :: "(js \<Rightarrow> string) \<Rightarrow> client_error + string \<Rightarrow> js" where
  "localErrorToMcp pretty e =
     (let result =
        [(''ok'', JBool False),
         (''code'', JStr (case e of Inl b \<Rightarrow> er_code b | Inr m \<Rightarrow> ''MCP_ADAPTER_ERROR'')),
         (''message'', JStr (case e of Inl b \<Rightarrow> er_message b | Inr m \<Rightarrow> m)),
         (''requestId'', JStr []),
         (''connection'', JObj [(''state'', JStr ''offline''), (''epoch'', js_of_int 0)]),
         (''lease'', JObj [(''held'', JBool False), (''heldByCaller'', JBool False)]),
         (''retryable'', JBool (case e of Inl b \<Rightarrow> er_retryable b | Inr m \<Rightarrow> False)),
         (''remediation'', JStr adapter_remediation)]
      in JObj [(''content'', JArr [text_content pretty (JObj result)]),
               (''structuredContent'', JObj (jsput ''imageIncluded'' (JBool False) result)),
               (''isError'', JBool True)])"

text \<open>The call \<open>invokeBrokerTool\<close> makes, and what it returns when that call settles.\<close>

definition invokeBrokerTool :: "(jsnum \<Rightarrow> int) \<Rightarrow> client_options \<Rightarrow> string \<Rightarrow> params \<Rightarrow> client_op" where
  "invokeBrokerTool ms opts meth params = request opts meth params (map_option ms (brokerTimeout meth params))"

definition brokerToolResult :: "(js \<Rightarrow> string) \<Rightarrow> client_error + js \<Rightarrow> js" where
  "brokerToolResult pretty r =
     (case r of Inr response \<Rightarrow> brokerResponseToMcp pretty response | Inl e \<Rightarrow> localErrorToMcp pretty (Inl e))"

subsection \<open>Transfers run on the adapter's machine\<close>

text \<open>
  \<open>ClientTransferRunner\<close> of \<open>src/mcp/client-transfers.ts\<close> hands a \<open>TransferCoordinator\<close> the broker's
  answers in place of the guest's.
\<close>

definition toGuestResponse :: "js \<Rightarrow> guest_response" where
  "toGuestResponse response =
     (let result = member response ''result'' in
      \<lparr> gr_ok = (member result ''ok'' = JBool True), gr_code = string_member result ''code'',
        gr_message = string_member result ''message'', gr_data = member result ''data'' \<rparr>)"

subsection \<open>Whole numbers are added and multiplied exactly\<close>

lemma pow2_nonneg: "0 \<le> e \<Longrightarrow> pow2 e = 2 ^ nat e"
  by (simp add: pow2_def)

lemma ilog2_bounds: "0 < n \<Longrightarrow> 2 ^ ilog2 n \<le> n \<and> n < 2 ^ Suc (ilog2 n)"
proof (induction n rule: ilog2.induct)
  case (1 n)
  show ?case
  proof (cases "n < 2")
    case True
    then show ?thesis using 1(2) by (simp add: ilog2.simps [of n])
  next
    case False
    then have "2 ^ ilog2 (n div 2) \<le> n div 2 \<and> n div 2 < 2 ^ Suc (ilog2 (n div 2))"
      using 1(1) by simp
    then show ?thesis using False by (simp add: ilog2.simps [of n]) linarith
  qed
qed

lemma round_whole [simp]: "round_half_even (of_int z) = z"
  by (simp add: round_half_even_def Let_def)

lemma exponent2_whole:
  assumes "0 < m"
  shows "exponent2 (of_nat m) = int (ilog2 m)"
proof -
  have "(2 :: rat) ^ ilog2 m \<le> of_nat m"
    using ilog2_bounds [OF assms] by (metis of_nat_le_iff of_nat_numeral of_nat_power)
  moreover have "quotient_of (of_nat m) = (int m, 1)" using quotient_of_int [of "int m"] by simp
  ultimately show ?thesis by (simp add: exponent2_def pow2_def Let_def ilog2.simps [of "Suc 0"])
qed

lemma to_double_nat:
  assumes "m < 2 ^ 53"
  shows "to_double (of_nat m) = Fin (of_nat m)"
proof (cases "m = 0")
  case False
  then have pos: "0 < m" by simp
  define j where "j = 52 - ilog2 m"
  have "2 ^ ilog2 m < (2 :: nat) ^ 53" using ilog2_bounds [OF pos] assms by linarith
  then have k: "ilog2 m \<le> 52" using power_less_imp_less_exp [of "2 :: nat" "ilog2 m" 53] by simp
  then have e: "max (exponent2 (of_nat m) - 52) (- 1074) = - int j"
    by (simp add: exponent2_whole [OF pos] j_def of_nat_diff)
  have up: "pow2 (int j) = 2 ^ j" "pow2 (- int j) = 1 / 2 ^ j" by (simp_all add: pow2_def)
  have "of_nat m * (2 :: rat) ^ j = of_int (int m * 2 ^ j)" by simp
  then have "of_int (round_half_even (of_nat m * 2 ^ j)) * pow2 (- int j) = of_nat m"
    by (simp only: round_whole up) simp
  moreover have "\<not> (of_nat m :: rat) \<ge> pow2 1024"
  proof -
    have "(of_nat m :: rat) < 2 ^ 53" using assms by (metis of_nat_less_iff of_nat_numeral of_nat_power)
    also have "\<dots> \<le> 2 ^ 1024" by (rule power_increasing) simp_all
    finally show ?thesis by (simp add: pow2_def)
  qed
  ultimately show ?thesis using pos by (simp add: to_double_def Let_def e up)
qed (simp add: to_double_def)

lemma whole_add: "a + b < 2 ^ 53 \<Longrightarrow> num_add (num_nat a) (num_nat b) = num_nat (a + b)"
  using to_double_nat [of "a + b"] by (simp add: num_nat_def)

lemma whole_mul: "a * b < 2 ^ 53 \<Longrightarrow> num_mul (num_nat a) (num_nat b) = num_nat (a * b)"
  using to_double_nat [of "a * b"] by (simp add: num_nat_def)

lemma to_double_minus_one: "to_double (- 1) = Fin (- 1)"
proof -
  have "exponent2 1 = 0" using exponent2_whole [of 1] by (simp add: ilog2.simps [of "Suc 0"])
  moreover have "round_half_even (pow2 52) = 2 ^ 52"
    using round_whole [of "2 ^ 52"] by (simp add: pow2_def)
  moreover have "(1 :: rat) < pow2 1024" by (simp add: pow2_def)
  ultimately show ?thesis by (simp add: to_double_def Let_def) (simp add: pow2_def)
qed

lemma num_nat_simps [simp]:
  "num_max (num_nat a) (num_nat b) = num_nat (max a b)" "num_min (num_nat a) (num_nat b) = num_nat (min a b)"
  "num_le (num_nat a) (num_nat b) \<longleftrightarrow> a \<le> b" "num_floor (num_nat a) = num_nat a"
  by (auto simp: num_nat_def num_max_def num_min_def)

lemma num_nat_not_NaN [simp]: "num_nat a \<noteq> NaN"
  by (simp add: num_nat_def)

lemma num_nat_constants: "Fin 0 = num_nat 0" "Fin 1 = num_nat 1" "Fin (numeral w) = num_nat (numeral w)"
  by (simp_all add: num_nat_def)

lemma whole_clicks:
  assumes "c * i < 2 ^ 53" "c < 2 ^ 53"
  shows "clicks_ms (num_nat c) (num_nat i) = num_nat ((c - 1) * i)"
proof (cases "c = 0")
  case True
  have "num_add (num_nat 0) (Fin (- 1)) = Fin (- 1)" by (simp add: num_nat_def to_double_minus_one)
  moreover have "num_max (Fin 0) (Fin (- 1)) = num_nat 0" by (simp add: num_max_def num_nat_def)
  ultimately show ?thesis using True whole_mul [of 0 i] by (simp add: clicks_ms_def)
next
  case False
  have "num_add (num_nat c) (Fin (- 1)) = to_double (of_nat (c - 1))"
    using False by (simp add: num_nat_def of_nat_diff)
  also have "\<dots> = num_nat (c - 1)" using assms(2) to_double_nat [of "c - 1"] by (simp add: num_nat_def)
  finally have "num_max (Fin 0) (num_add (num_nat c) (Fin (- 1))) = num_nat (c - 1)"
    by (simp add: num_nat_constants)
  moreover have "(c - 1) * i \<le> c * i" by simp
  then have "(c - 1) * i < 2 ^ 53" using assms(1) by linarith
  ultimately show ?thesis by (simp add: clicks_ms_def whole_mul)
qed

subsection \<open>The adapter's limit is never the shorter one\<close>

text \<open>A number the schemas let through: absent, or whole and not too large.\<close>

definition whole :: "js \<Rightarrow> bool" where
  "whole v \<longleftrightarrow> v = JUndef \<or> (\<exists>n \<le> 10000000. v = js_of_nat n)"

definition whole_value :: "js \<Rightarrow> nat \<Rightarrow> nat" where
  "whole_value v f = (case js_integer v of Some i \<Rightarrow> nat i | None \<Rightarrow> f)"

lemma rat_is_int_of_nat [simp]: "rat_is_int (of_nat n)"
  by (simp add: rat_is_int_def)

lemma whole_number:
  assumes "whole v"
  shows "nonNegativeNumber v (num_nat f) = num_nat (whole_value v f)"
    and "number_or v (num_nat f) = num_nat (whole_value v f)"
    and "finiteNonnegative v = num_nat (whole_value v 0)"
    and "whole_value v f \<le> max 10000000 f"
  using assms
  by (auto simp: whole_def whole_value_def nonNegativeNumber_def number_or_def finiteNonnegative_def num_nat_def
      num_max_def js_of_nat_def js_of_int_def)

definition whole_members :: "(string \<Rightarrow> js) \<Rightarrow> bool" where
  "whole_members m \<longleftrightarrow>
     whole (m ''timeout_ms'') \<and> whole (m ''wait_ms'') \<and> whole (m ''duration_ms'') \<and> whole (m ''click_count'') \<and>
     whole (m ''interval_ms'') \<and> whole (m ''milliseconds'') \<and> length (text_of (m ''text'')) \<le> 10000000"

lemma product_bound: "a \<le> 10000000 \<Longrightarrow> b \<le> 10000000 \<Longrightarrow> a * b \<le> (100000000000000 :: nat)"
  using mult_le_mono [of a 10000000 b 10000000] by simp

lemma bounded_value: "whole v \<Longrightarrow> f \<le> 10000000 \<Longrightarrow> whole_value v f \<le> 10000000"
  using whole_number(4) [of v f] by simp

lemma clicks_value:
  assumes "whole c" "whole i" "f \<le> 10000000"
  shows "clicks_ms (num_nat (whole_value c 1)) (num_nat (whole_value i f)) =
     num_nat ((whole_value c 1 - 1) * whole_value i f)"
proof (rule whole_clicks)
  have "whole_value c 1 \<le> 10000000" "whole_value i f \<le> 10000000"
    using assms by (simp_all add: bounded_value)
  from product_bound [OF this] this show "whole_value c 1 * whole_value i f < 2 ^ 53" "whole_value c 1 < 2 ^ 53" by simp_all
qed

lemma typing_value:
  assumes "whole i" "length t \<le> 10000000"
  shows "num_mul (num_nat (length t)) (num_nat (whole_value i 10)) = num_nat (length t * whole_value i 10)"
  using product_bound [OF assms(2) bounded_value [OF assms(1), of 10]] by (intro whole_mul) simp

lemma action_runtime_whole:
  assumes "whole_members (member v)" "is_record v" "is_string (member v ''type'')"
  obtains a where "action_runtime v = num_nat a" "action_ms v = num_nat a" "a \<le> 100000000000000"
proof -
  let ?c = "whole_value (member v ''click_count'') 1" and ?i = "whole_value (member v ''interval_ms'') 100"
  let ?t = "text_of (member v ''text'')" and ?j = "whole_value (member v ''interval_ms'') 10"
  obtain type where type: "member v ''type'' = JStr type" using assms(3) by (cases "member v ''type''") auto
  note w = assms(1) [unfolded whole_members_def]
  define a where "a =
     (if type = ''delay'' then whole_value (member v ''milliseconds'') 0
      else if type = ''mouse_move'' then whole_value (member v ''duration_ms'') 0
      else if type = ''mouse_drag'' then whole_value (member v ''duration_ms'') 500
      else if type = ''mouse_click'' then (?c - 1) * ?i
      else if type = ''keyboard_type'' then length ?t * ?j else 0)"
  have "?c \<le> 10000000" "?i \<le> 10000000" "?j \<le> 10000000" using w by (simp_all add: bounded_value)
  then have "(?c - 1) * ?i \<le> 100000000000000" "length ?t * ?j \<le> 100000000000000"
    using w by (auto intro!: product_bound)
  moreover have "whole_value (member v ''milliseconds'') 0 \<le> 10000000" "whole_value (member v ''duration_ms'') 0 \<le> 10000000"
    "whole_value (member v ''duration_ms'') 500 \<le> 10000000"
    using w by (simp_all add: bounded_value)
  ultimately have "a \<le> 100000000000000" by (auto simp: a_def)
  moreover have "action_runtime v = num_nat a"
    using w by (simp add: action_runtime_def type a_def num_nat_constants whole_number clicks_value [unfolded One_nat_def]
        estimateKeyboardRuntime_def typing_value Let_def)
  moreover have "action_ms v = num_nat a"
    using w assms(2) by (simp add: action_ms_def type string_member_def a_def num_nat_constants whole_number
        clicks_value [unfolded One_nat_def] typing_value Let_def)
  ultimately show thesis using that by blast
qed

lemma batch_whole:
  assumes "\<forall>v \<in> set vs. is_record v \<longrightarrow> is_string (member v ''type'') \<and> whole_members (member v)"
    and "t \<le> 1800000" "num_le (batch_runtime (num_nat t) vs) MAX_INPUT_RUNTIME_MS"
  shows "\<exists>a \<le> 1800000. batch_runtime (num_nat t) vs = num_nat a \<and>
     foldl (\<lambda>t v. num_add t (action_ms v)) (num_nat t) vs = num_nat a"
  using assms
proof (induction vs arbitrary: t)
  case (Cons v vs)
  have limit: "MAX_INPUT_RUNTIME_MS = num_nat 1800000" by (simp add: MAX_INPUT_RUNTIME_MS_def num_nat_def)
  show ?case
  proof (cases "is_record v")
    case False
    then have "num_add (num_nat t) (action_ms v) = num_nat t"
      using Cons.prems(2) whole_add [of t 0] by (simp add: action_ms_def num_nat_constants)
    with False Cons show ?thesis by simp
  next
    case True
    then obtain a where a: "action_runtime v = num_nat a" "action_ms v = num_nat a" "a \<le> 100000000000000"
      using Cons.prems(1) action_runtime_whole [of v] by auto
    have sum: "num_add (num_nat t) (num_nat a) = num_nat (t + a)"
      using a(3) Cons.prems(2) by (intro whole_add) simp
    have string: "is_string (member v ''type'')" using Cons.prems(1) True by simp
    have "t + a \<le> 1800000"
      using Cons.prems(3) True string by (auto simp: a sum limit Let_def split: if_splits)
    with Cons.IH [of "t + a"] Cons.prems True string show ?thesis
      by (simp add: a sum limit Let_def split: if_splits)
  qed
qed auto

lemma runtimes_agree:
  assumes "whole_members (jsget params)"
    and "\<forall>v \<in> set (case jsget params ''actions'' of JArr vs \<Rightarrow> vs | _ \<Rightarrow> []).
       is_record v \<longrightarrow> is_string (member v ''type'') \<and> whole_members (member v)"
    and "num_le (estimateInputBatchRuntime (case jsget params ''actions'' of JArr vs \<Rightarrow> vs | _ \<Rightarrow> [])) MAX_INPUT_RUNTIME_MS"
    and "estimateToolInputRuntime meth params = Some r"
  shows "\<exists>a b. r = num_nat a \<and> estimateGuestOperationMs meth params = num_nat b \<and> b \<le> a \<and> a \<le> 100000000000000"
proof -
  note w = assms(1) [unfolded whole_members_def]
  let ?d = "jsget params ''duration_ms''" and ?c = "jsget params ''click_count''" and ?i = "jsget params ''interval_ms''"
  let ?t = "text_of (jsget params ''text'')"
  consider "meth = ''mouse_move''" | "meth = ''mouse_drag''" | "meth = ''mouse_click''" | "meth = ''keyboard_type''"
    | "meth = ''input_batch''"
    using assms(4) by (auto simp: estimateToolInputRuntime_def split: if_splits)
  then show ?thesis
  proof cases
    case 1
    then show ?thesis
      using assms(4) w bounded_value [of ?d 0]
      by (intro exI [of _ "whole_value ?d 0"])
        (simp add: estimateToolInputRuntime_def estimateGuestOperationMs_def num_nat_constants whole_number)
  next
    case 2
    have "whole_value ?d 0 \<le> whole_value ?d 500" by (simp add: whole_value_def split: option.split)
    then show ?thesis
      using 2 assms(4) w bounded_value [of ?d 500]
      by (intro exI [of _ "whole_value ?d 500"] exI [of _ "whole_value ?d 0"])
        (simp add: estimateToolInputRuntime_def estimateGuestOperationMs_def num_nat_constants whole_number)
  next
    case 3
    let ?n = "if whole_value ?c 0 = 0 then 1 else whole_value ?c 0"
    have n: "?n - 1 = whole_value ?c 1 - 1" "whole_value ?i 0 \<le> whole_value ?i 100"
      by (auto simp: whole_value_def split: option.split)
    have le: "whole_value ?c 1 \<le> 10000000" "whole_value ?i 100 \<le> 10000000" "whole_value ?c 0 \<le> 10000000"
      using w by (simp_all add: bounded_value)
    then have "(whole_value ?c 1 - 1) * whole_value ?i 100 \<le> 100000000000000"
      by (intro product_bound) simp_all
    moreover have "?n \<le> 10000000" using le by simp
    then have "?n * whole_value ?i 0 < 2 ^ 53" "?n < 2 ^ 53"
      using product_bound [of ?n "whole_value ?i 0"] le n(2) by simp_all
    then have "clicks_ms (num_nat ?n) (num_nat (whole_value ?i 0)) = num_nat ((?n - 1) * whole_value ?i 0)"
      by (rule whole_clicks)
    moreover have "(if num_nat (whole_value ?c 0) = Fin 0 then Fin 1 else num_nat (whole_value ?c 0)) = num_nat ?n"
      by (simp add: num_nat_def)
    ultimately have "estimateGuestOperationMs meth params = num_nat ((whole_value ?c 1 - 1) * whole_value ?i 0)"
      using 3 w n(1) by (simp add: estimateGuestOperationMs_def whole_number Let_def del: One_nat_def)
    moreover have "r = num_nat ((whole_value ?c 1 - 1) * whole_value ?i 100)"
      using 3 w assms(4) by (simp add: estimateToolInputRuntime_def num_nat_constants whole_number
          clicks_value [unfolded One_nat_def])
    moreover note \<open>(whole_value ?c 1 - 1) * whole_value ?i 100 \<le> 100000000000000\<close> n(2)
    ultimately show ?thesis by (intro exI conjI) (auto intro: mult_le_mono2)
  next
    case 4
    have "length ?t * whole_value ?i 10 \<le> 100000000000000"
      using w by (intro product_bound) (simp_all add: bounded_value)
    then show ?thesis
      using 4 assms(4) w
      by (intro exI [of _ "length ?t * whole_value ?i 10"])
        (simp add: estimateToolInputRuntime_def estimateGuestOperationMs_def estimateKeyboardRuntime_def
          num_nat_constants whole_number typing_value)
  next
    case 5
    let ?vs = "case jsget params ''actions'' of JArr vs \<Rightarrow> vs | _ \<Rightarrow> []"
    obtain a where a: "a \<le> 1800000" "batch_runtime (num_nat 0) ?vs = num_nat a"
        "foldl (\<lambda>t v. num_add t (action_ms v)) (num_nat 0) ?vs = num_nat a"
      using batch_whole [of ?vs 0] assms(2,3) by (auto simp: estimateInputBatchRuntime_def num_nat_constants)
    have "estimateGuestOperationMs meth params = num_nat a" "r = num_nat a"
      using 5 assms(4) a(2,3)
      by (simp_all add: estimateToolInputRuntime_def estimateGuestOperationMs_def estimateInputBatchRuntime_def
          num_nat_constants split: js.splits)
    then show ?thesis using a(1) by (intro exI [of _ a]) simp
  qed
qed

lemma requestTimeout_whole:
  assumes "jsget params ''timeout_ms'' = JUndef \<and> r = 0 \<or> jsget params ''timeout_ms'' = js_of_nat r"
    and "(if meth = ''shell_read'' then jsget params ''wait_ms'' else JUndef) = JUndef \<and> l = 0 \<or>
       meth = ''shell_read'' \<and> jsget params ''wait_ms'' = js_of_nat l"
    and "estimateGuestOperationMs meth params = num_nat b"
    and "r \<le> 100000000000000" "l \<le> 100000000000000" "b \<le> 100000000000000"
  shows "requestTimeout meth params (num_nat d) = num_nat (max d (min 3600000 (max (max r l) b + 5000)))"
proof -
  have js: "js_of_nat n = JNum (num_nat n)" for n by (simp add: js_of_nat_def js_of_int_def num_nat_def)
  have "num_add (num_nat (max (max r l) b)) (num_nat 5000) = num_nat (max (max r l) b + 5000)"
    using assms(4-6) by (intro whole_add) simp
  moreover have "(case jsget params ''timeout_ms'' of JNum n \<Rightarrow> n | _ \<Rightarrow> Fin 0) = num_nat r"
    using assms(1) by (auto simp: js num_nat_constants)
  moreover have "(if meth = ''shell_read'' then case jsget params ''wait_ms'' of JNum n \<Rightarrow> n | _ \<Rightarrow> Fin 0
      else Fin 0) = num_nat l"
    using assms(2) by (auto simp: js num_nat_constants split: if_splits)
  ultimately show ?thesis
    unfolding requestTimeout_def Let_def assms(3) by (simp add: num_nat_constants)
qed



end
