(* ===== verification/Adapter_Messages.thy ===== *)
theory Adapter_Messages
  imports Mcp_Client Broker_State Link_Sim
begin

text \<open>
  The JSON values that the parts of the program write to each other, next to the guards with which the
  other side reads them: the broker's lines to its adapters (\<open>brokerResponse\<close>, \<open>result\<close>, \<open>writeLine\<close> of
  \<open>src/host/broker.ts\<close>) and the simulated guest's hello.
\<close>

subsection \<open>Lines of the broker\<close>

definition optional_member :: "string \<Rightarrow> js option \<Rightarrow> (string \<times> js) list" where
  "optional_member k v = (case v of None \<Rightarrow> [] | Some x \<Rightarrow> [(k, x)])"

text \<open>A time is an ISO string; the argument \<open>isoTime\<close> formats it.\<close>

definition connection_json :: "(int \<Rightarrow> string) \<Rightarrow> connection_snapshot \<Rightarrow> js" where
  "connection_json isoTime c = JObj
     ([(''state'', JStr (cs_state c)), (''epoch'', js_of_int (cs_epoch c))] @
      optional_member ''connectedAt'' (map_option (\<lambda>t. JStr (isoTime t)) (cs_connectedAt c)) @
      optional_member ''lastSeenAt'' (map_option (\<lambda>t. JStr (isoTime t)) (cs_lastSeenAt c)) @
      optional_member ''offlineReason'' (map_option JStr (cs_offlineReason c)) @
      optional_member ''guestBuildId'' (map_option JStr (cs_guestBuildId c)) @
      optional_member ''remoteAddress'' (map_option JStr (cs_remoteAddress c)))"

definition lease_json :: "(int \<Rightarrow> string) \<Rightarrow> lease_snapshot \<Rightarrow> js" where
  "lease_json isoTime l = JObj
     ([(''held'', JBool (ls_held l)), (''heldByCaller'', JBool (ls_heldByCaller l))] @
      optional_member ''ownerLabel'' (map_option JStr (ls_ownerLabel l)) @
      optional_member ''acquiredAt'' (map_option (\<lambda>t. JStr (isoTime t)) (ls_acquiredAt l)) @
      optional_member ''lastActivityAt'' (map_option (\<lambda>t. JStr (isoTime t)) (ls_lastActivityAt l)) @
      optional_member ''expiresAt'' (map_option (\<lambda>t. JStr (isoTime t)) (ls_expiresAt l)) @
      optional_member ''reminder'' (if ls_reminder l then Some (JStr UNLOCK_REMINDER) else None))"

definition result_json :: "(int \<Rightarrow> string) \<Rightarrow> string \<Rightarrow> tool_result \<Rightarrow> js" where
  "result_json isoTime requestId r = JObj
     ([(''ok'', JBool (br_ok r)), (''code'', JStr (br_code r)), (''message'', JStr (br_message r)),
       (''requestId'', JStr requestId), (''connection'', connection_json isoTime (br_connection r)),
       (''lease'', lease_json isoTime (br_lease r)), (''retryable'', JBool (br_retryable r))] @
      optional_member ''remediation'' (map_option JStr (br_remediation r)) @
      optional_member ''data'' (br_data r))"

definition brokerResponse :: "(int \<Rightarrow> string) \<Rightarrow> string \<Rightarrow> tool_result \<Rightarrow> js" where
  "brokerResponse isoTime requestId r =
     JObj [(''kind'', JStr ''broker_response''), (''id'', JStr requestId), (''result'', result_json isoTime requestId r)]"

definition ready_line :: "(int \<Rightarrow> string) \<Rightarrow> string \<Rightarrow> connection_snapshot \<Rightarrow> js" where
  "ready_line isoTime sessionId connection =
     JObj [(''kind'', JStr ''broker_ready''), (''sessionId'', JStr sessionId),
       (''connection'', connection_json isoTime connection)]"

definition emitTransferProgress :: "string \<Rightarrow> js \<Rightarrow> js" where
  "emitTransferProgress sessionId progress =
     JObj [(''kind'', JStr ''broker_progress''), (''sessionId'', JStr sessionId), (''progress'', progress)]"

definition closeAdapterSession :: "string \<Rightarrow> string \<Rightarrow> js" where
  "closeAdapterSession sessionId reason =
     JObj [(''kind'', JStr ''broker_session_closed''), (''sessionId'', JStr sessionId), (''reason'', JStr reason)]"

subsection \<open>The simulated guest's hello\<close>

definition sim_capabilities :: "int \<Rightarrow> int \<Rightarrow> js" where
  "sim_capabilities width height = JObj
     [(''guestId'', JStr ''simulated-win98''), (''guestBuildId'', JStr ''simulator-1''),
      (''protocolVersion'', js_of_int 2), (''osName'', JStr ''Microsoft Windows 98 Second Edition''),
      (''osVersion'', JStr ''4.10.2222 A''), (''ansiCodePage'', js_of_int 1252), (''oemCodePage'', js_of_int 437),
      (''screenWidth'', js_of_int width), (''screenHeight'', js_of_int height), (''colorDepth'', js_of_int 24),
      (''supportsLongFileNames'', JBool True), (''supportsMouseWheel'', JBool True), (''maxPath'', js_of_int 260),
      (''maxFileBytes'', js_of_int 2147483647),
      (''commands'', JArr (map JStr [''screen_capture'', ''mouse'', ''keyboard'', ''clipboard'', ''windows'', ''shell'',
         ''processes'', ''filesystem'', ''fs_drives'', ''system'', ''show_message'', ''agent_diagnostics'']))]"

definition sim_hello :: "int \<Rightarrow> int \<Rightarrow> js" where
  "sim_hello width height =
     JObj [(''kind'', JStr ''guest_hello''), (''capabilities'', sim_capabilities width height)]"

subsection \<open>What one side writes, the other accepts\<close>

lemma member_Cons [simp]: "member (JObj ((k', v) # r)) k = (if k = k' then v else member (JObj r) k)"
  by (simp add: member_def)

lemma is_number_of_int [simp]: "is_number (js_of_int i)"
  by (simp add: js_of_int_def)

text \<open>
  C30. Every message passes the guard of its reader: the adapter's requests at
  the broker, the broker's responses, ready, progress and close lines at the adapter of their session, the
  simulated guest's responses and capabilities at the broker. The one exception is the adapter's hello, which
  the broker refuses when the session id has fewer than eight characters or the label is empty, although the
  adapter accepts such settings.
\<close>

theorem messages_well_typed:
  "isBrokerRequest (request_line opts uuid k)
   \<and> (isBrokerHello (hello_line opts) \<longleftrightarrow> 8 \<le> length (co_sessionId opts) \<and> co_sessionLabel opts \<noteq> [])
   \<and> isBrokerResponse (brokerResponse isoTime uuid result)
   \<and> isBrokerReady (ready_line isoTime sid connection) sid
   \<and> isBrokerProgress (emitTransferProgress sid progress) sid
   \<and> isBrokerSessionClosed (closeAdapterSession sid reason) sid
   \<and> isGuestResponse (sim_response_json uuid response)
   \<and> is_kind (sim_hello width height) ''guest_hello''
   \<and> isCapabilities (member (sim_hello width height) ''capabilities'')"
  by (simp add: isBrokerRequest_def request_line_def is_kind_def isBrokerHello_def hello_line_def
      isBrokerResponse_def brokerResponse_def result_json_def isBrokerReady_def isBrokerProgress_def
      isBrokerSessionClosed_def of_session_def ready_line_def emitTransferProgress_def closeAdapterSession_def
      isGuestResponse_def sim_response_json_def sim_hello_def sim_capabilities_def isCapabilities_def
      PROTOCOL_VERSION_def)

end
