(* ===== verification/Spec2Isabelle.thy ===== *)
theory Spec2Isabelle
  imports Crc32 Protocol Lease_Props Cli_Options Base64 Config Artifacts Incoming_Streams Transfer_Props Sim_Delivery
    Link_Sim Broker_Guards Lease_Spec Transfer_Cost
    Mcp_Client_Runs Mcp_Server Adapter_Messages
begin

text \<open>
  A verification library for the Windows 98 MCP server, a TypeScript program that lets several agents
  work one Windows 98 machine. All source paths below are relative to the repository.

  The program. An agent starts an \<^emph>\<open>adapter\<close> (\<open>src/mcp\<close>). The adapter offers tools and forwards every
  tool call over a local pipe to the one \<^emph>\<open>broker\<close> (\<open>src/host/broker.ts\<close>) of the host, as lines of JSON.
  The broker serves the calls of each adapter session one after the other, gives the machine to one
  session at a time (\<open>src/host/lease.ts\<close>), and forwards guest calls as frames (\<open>src/shared/protocol.ts\<close>)
  over the one TCP connection that the guest program opens (class \<open>GuestConnection\<close>). Files travel in
  both directions through \<open>src/host/transfers.ts\<close>, screenshots and shell output come back as data streams
  (\<open>src/host/incoming-streams.ts\<close>), images are kept in a bounded store (\<open>src/host/artifacts.ts\<close>). The
  repository contains a simulator of the guest (\<open>src/simulator/simulated-guest.ts\<close>), which is the peer
  against which the development proves end-to-end statements.
\<close>

text \<open>
  How the code is translated. JavaScript values of static type \<open>unknown\<close> are the datatype \<open>js\<close> of
  \<open>Js\<close>; numbers are integers or rationals as exact as the code needs them, with rounding to doubles
  written out in \<open>Js_Number\<close> and \<open>Messages\<close>; 32-bit quantities are words (\<open>Crc32\<close>) or carry their
  reduction modulo \<open>2 ^ 32\<close> (\<open>Protocol\<close>). A thrown error is \<open>Inl\<close> of its message, as the broker itself
  derives codes from messages; \<open>Prelude\<close> has the sequencing of such results with and without state.
  An asynchronous method is cut at its awaits: each part between two of them is a function from the
  state to the new state and a list of effects, what continues after an await is kept as data in
  the state, and a reachable state or run is an inductive predicate over the events (calls, socket
  events, timers, continuations of settled promises in any order) at non-decreasing clock readings.
  Loops over data are structural recursions; the loops over decoded frames, command line tokens and
  transfer chunks are functions whose termination is proved from what their guards ensure (every
  accepted chunk advances an offset below \<open>MAX_WIN98_TRANSFER_BYTES\<close>), so they need no fuel. Two walks
  carry a bound, as nothing in the code bounds them: \<open>Transfer_Ops\<close> walks a host tree to a given depth and
  a guest tree for a given number of listings, and a walk that is cut off is an outcome of its own
  (\<open>Depth_bound\<close>, \<open>Listing_bound\<close>).
\<close>

text \<open>
  The theories, by part.

  \<^item> \<open>Prelude\<close>, \<open>Js\<close>, \<open>Js_Number\<close>, \<open>Js_Path\<close>, \<open>Js_Win32\<close>, \<open>Base64\<close>, \<open>Host_Fs\<close>: values, \<open>Number(string)\<close>, path
    functions of Node on POSIX and Windows paths, base64, a file system; with them the guards of the
    sources that keep paths inside a root and base64 strict (\<open>resolveRelative\<close>, \<open>resolveGuestPath\<close>,
    \<open>decodeStrictBase64\<close>).
  \<^item> \<open>Protocol\<close>: \<open>encodeHeader\<close>, \<open>decodeHeader\<close>, \<open>encodeFrame\<close> and the streaming decoder of
    \<open>src/shared/protocol.ts\<close>. The locale \<open>chunked_decoder\<close> states what the loop of a decoder has to satisfy
    for the cutting of the byte stream not to matter; \<open>frames\<close> interprets it on the decoder.
  \<^item> \<open>Crc32\<close>: the table-driven checksum, equal to the bitwise one, and its burst detection.
  \<^item> \<open>Lease\<close>: every method and timer of \<open>LeaseManager\<close>. \<open>Lease_Props\<close>: its invariant over all runs, the
    order of the queue, the accounting of waiting promises. \<open>Lease_Spec\<close>: an abstract lock with a queue,
    and the refinement, an interpretation of the locale \<open>run_refinement\<close> on the lease manager.
  \<^item> \<open>Cli_Options\<close> (\<open>src/cli-options.ts\<close>), \<open>Config\<close> (\<open>src/host/config.ts\<close>), \<open>Artifacts\<close>
    (\<open>src/host/artifacts.ts\<close>), \<open>Incoming_Streams\<close> (\<open>src/host/incoming-streams.ts\<close>): each with its
    operations on every branch, bounds and round trips.
  \<^item> \<open>Transfers\<close>, \<open>Transfer_Ops\<close>: \<open>TransferCoordinator\<close> of \<open>src/host/transfers.ts\<close>, the chunk loops and the
    operations built on them. \<open>Transfer_Props\<close> shows what a pull guarantees against any guest,
    \<open>Transfer_Cost\<close> that it ends.
  \<^item> \<open>Sim_Files\<close>, \<open>Sim_Guest\<close>: the simulated guest. \<open>Sim_Push\<close> has the invariant of its table of write
    transfers; \<open>Sim_Transfers\<close> states what a transfer needs from a guest as the locales \<open>guest_reader\<close> and
    \<open>guest_writer\<close>, proves delivery in them once, and with \<open>Sim_Delivery\<close> interprets both on the simulated
    guest (\<open>sim_reader\<close>, \<open>sim_writer\<close>).
  \<^item> \<open>Messages\<close>: the guards that decide which JSON values the broker accepts, and the time limit of a
    request. \<open>Text_Lines\<close>: bytes to text to lines. \<open>Adapter_Messages\<close>: what each side writes, next to the
    guard that reads it.
  \<^item> \<open>Guest_Link\<close>: \<open>GuestConnection\<close> of \<open>src/host/broker.ts\<close> as a state machine. \<open>Link_Props\<close>: each request is
    settled once. \<open>Link_Sim\<close>: the two ends together.
  \<^item> \<open>Broker_State\<close>, \<open>Broker_Exec\<close>: the broker: state, lease events, cleanup chain and guest connection;
    then its own tools, forwarding, adapter sessions with their request chains. \<open>Broker_Props\<close> and
    \<open>Broker_Guards\<close>: one call in flight per session, a sound registry of sessions, guest work only by the
    owner of the lease, what happens when a cleanup is not acknowledged.
  \<^item> \<open>Mcp_Client\<close>: the adapter's reconnecting \<open>BrokerClient\<close> (\<open>src/mcp/broker-client.ts\<close>); \<open>Mcp_Client_Props\<close>,
    \<open>Mcp_Client_Runs\<close>: no call is stranded, calls settle in order, what a repeated request needs.
    \<open>Mcp_Server\<close>: the time limits and results of \<open>src/mcp/server.ts\<close> and \<open>src/mcp/client-transfers.ts\<close>.
\<close>

text \<open>
  Properties. A text block with a claim number stands before each of the forty main theorems. They
  say, in the order of importance: how calls get to the guest and back (claims about lease, broker,
  transfers, connection and client), the invariants below them (lease, registry, simulated guest), the
  soundness of the parts they use (checksum, frames, paths, base64, streams, artifacts, configuration,
  command line), and five theorems that exhibit behaviour the code does not mean to have (a parked wait
  behind an expired ticket, an over-long request that uses up a sequence number, a replay after an
  unreadable response, a lease granted during a cleanup, a hello the broker refuses).
\<close>

text \<open>
  Not modelled.

  \<^item> Arguments of the model, as they are not code of the repository: the text of JSON values, SHA-256,
    random identifiers, the clock, PNG encoding, collation order, the content of files outside the modelled
    directories. A hypothesis on one of them states documented behaviour (a digest is 64
    hexadecimal digits, parsing gives back what was printed) and is met by a concrete function in the
    witness.
  \<^item> Starting and stopping of servers and processes, opening of sockets, log records, the data of
    status reports: input and output without decisions of their own.
  \<^item> The sockets of \<open>UpstreamGuestBridge\<close> and the comparison of images in \<open>src/host/broker.ts\<close>.
  \<^item> The list of tools with its schemas in \<open>src/mcp/server.ts\<close>, which is data of the zod library.
  \<^item> \<open>src/cli.ts\<close>, \<open>src/workflows\<close>, \<open>src/host/logger.ts\<close>, the build and package information: process glue.
  \<^item> The administration application (\<open>admin\<close>) and the guest program in C (\<open>guest\<close>).
\<close>

end
